(* ===== verification/Arazu_Base.thy ===== *)
theory Arazu_Base
  imports Main "HOL-Library.Char_ord" "HOL-Library.List_Lexorder" "HOL-Library.Word"
begin

text \<open>
  Shared vocabulary of the development: results of fallible code, Go strings as lists
  of bytes, and the operations of Go's packages \<open>strings\<close>, \<open>bytes\<close>, \<open>bufio\<close>,
  \<open>strconv\<close> and \<open>sort\<close> that the repository uses, with the lemmas about them that the
  component theories need.

  A Go string is a sequence of bytes, so \<^typ>\<open>string\<close> (a list of 8-bit characters)
  is its model; no encoding is assumed.  The import of the lexicographic order on
  lists and of the numeric order on characters makes \<open>sort\<close> on strings the byte-wise
  order of Go's \<open>sort.Strings\<close> and of \<open><\<close> on Go strings.
\<close>

named_theorems result_simps \<open>case analysis of fallible code\<close>
named_theorems go_eval \<open>equations that evaluate Go library calls on literals\<close>

section \<open>Results\<close>

text \<open>A Go pair of a value and an error: \<open>Inl\<close> is the error.\<close>

type_synonym ('e, 'a) result = "'e + 'a"

definition try_bind :: "('e, 'a) result \<Rightarrow> ('a \<Rightarrow> ('e, 'b) result) \<Rightarrow> ('e, 'b) result" where
  "try_bind r f = (case r of Inl e \<Rightarrow> Inl e | Inr x \<Rightarrow> f x)"

definition ensure :: "bool \<Rightarrow> 'e \<Rightarrow> ('e, unit) result" where
  "ensure b e = (if b then Inr () else Inl e)"

definition ok_value :: "('e, 'a) result \<Rightarrow> 'a option" where
  "ok_value r = (case r of Inl _ \<Rightarrow> None | Inr x \<Rightarrow> Some x)"

lemma try_bind_simps [simp]:
  "try_bind (Inl e) f = Inl e"
  "try_bind (Inr x) f = f x"
  by (simp_all add: try_bind_def)

lemma try_bind_Inr [result_simps]:
  "try_bind r f = Inr y \<longleftrightarrow> (\<exists>x. r = Inr x \<and> f x = Inr y)"
  by (cases r) auto

lemma try_bind_Inl [result_simps]:
  "try_bind r f = Inl e \<longleftrightarrow> r = Inl e \<or> (\<exists>x. r = Inr x \<and> f x = Inl e)"
  by (cases r) auto

lemma ensure_simps [simp]:
  "ensure True e = Inr ()"
  "ensure False e = Inl e"
  by (simp_all add: ensure_def)

lemma ensure_Inr [result_simps]: "ensure b e = Inr u \<longleftrightarrow> b"
  by (cases b) auto

lemma ensure_Inl [result_simps]: "ensure b e = Inl e' \<longleftrightarrow> \<not> b \<and> e' = e"
  by (cases b) auto

text \<open>Apply a check to every element, in order; the first failure is the result.\<close>

fun check_all :: "('a \<Rightarrow> ('e, unit) result) \<Rightarrow> 'a list \<Rightarrow> ('e, unit) result" where
  "check_all f [] = Inr ()"
| "check_all f (x # xs) = (case f x of Inl e \<Rightarrow> Inl e | Inr _ \<Rightarrow> check_all f xs)"

lemma check_all_Inr [result_simps]:
  "check_all f xs = Inr u \<longleftrightarrow> (\<forall>x\<in>set xs. f x = Inr ())"
  by (induction xs) (auto split: sum.splits)

lemma check_all_Inl:
  "check_all f xs = Inl e \<Longrightarrow> \<exists>ys x zs. xs = ys @ x # zs \<and> (\<forall>y\<in>set ys. f y = Inr ()) \<and> f x = Inl e"
proof (induction xs)
  case Nil
  then show ?case by simp
next
  case (Cons a xs)
  show ?case
  proof (cases "f a")
    case (Inl e')
    with Cons.prems have "a # xs = [] @ a # xs \<and> (\<forall>y\<in>set []. f y = Inr ()) \<and> f a = Inl e" by simp
    then show ?thesis by blast
  next
    case (Inr u)
    with Cons obtain ys x zs where *: "xs = ys @ x # zs" "\<forall>y\<in>set ys. f y = Inr ()" "f x = Inl e"
      by auto
    with Inr have "a # xs = (a # ys) @ x # zs \<and> (\<forall>y\<in>set (a # ys). f y = Inr ()) \<and> f x = Inl e" by simp
    then show ?thesis by blast
  qed
qed

lemma sort_eq_Nil [simp]: "sort xs = [] \<longleftrightarrow> xs = []"
  by (metis set_empty set_sort)

section \<open>Prefixes, suffixes, substrings\<close>

text \<open>\<open>strings.HasPrefix\<close>, \<open>strings.HasSuffix\<close>, \<open>strings.TrimPrefix\<close>, \<open>strings.TrimSuffix\<close>.\<close>

fun has_prefix :: "string \<Rightarrow> string \<Rightarrow> bool" where
  "has_prefix s [] = True"
| "has_prefix [] (p # ps) = False"
| "has_prefix (c # s) (p # ps) = (c = p \<and> has_prefix s ps)"

definition has_suffix :: "string \<Rightarrow> string \<Rightarrow> bool" where
  "has_suffix s p = has_prefix (rev s) (rev p)"

definition trim_prefix :: "string \<Rightarrow> string \<Rightarrow> string" where
  "trim_prefix s p = (if has_prefix s p then drop (length p) s else s)"

definition trim_suffix :: "string \<Rightarrow> string \<Rightarrow> string" where
  "trim_suffix s p = (if has_suffix s p then take (length s - length p) s else s)"

lemma has_prefix_iff: "has_prefix s p \<longleftrightarrow> (\<exists>t. s = p @ t)"
  by (induction s p rule: has_prefix.induct) auto

lemma has_prefix_append [simp]: "has_prefix (p @ t) p"
  by (simp add: has_prefix_iff)

lemma has_suffix_iff: "has_suffix s p \<longleftrightarrow> (\<exists>t. s = t @ p)"
proof
  assume "has_suffix s p"
  then obtain t where "rev s = rev p @ t" by (auto simp: has_suffix_def has_prefix_iff)
  then have "s = rev t @ p" by (metis rev_append rev_rev_ident)
  then show "\<exists>t. s = t @ p" ..
next
  assume "\<exists>t. s = t @ p"
  then show "has_suffix s p" by (auto simp: has_suffix_def)
qed

text \<open>\<open>strings.Contains\<close>.\<close>

fun contains_sub :: "string \<Rightarrow> string \<Rightarrow> bool" where
  "contains_sub [] p = (p = [])"
| "contains_sub (c # s) p = (has_prefix (c # s) p \<or> contains_sub s p)"

lemma contains_sub_iff: "contains_sub s p \<longleftrightarrow> (\<exists>a b. s = a @ p @ b)"
proof (induction s)
  case Nil
  then show ?case by auto
next
  case (Cons c s)
  have "(\<exists>a b. c # s = a @ p @ b) \<longleftrightarrow> (\<exists>b. c # s = p @ b) \<or> (\<exists>a b. s = a @ p @ b)"
  proof
    assume "\<exists>a b. c # s = a @ p @ b"
    then obtain a b where ab: "c # s = a @ p @ b" by blast
    show "(\<exists>b. c # s = p @ b) \<or> (\<exists>a b. s = a @ p @ b)"
    proof (cases a)
      case Nil
      with ab show ?thesis by auto
    next
      case (Cons x xs)
      with ab show ?thesis by auto
    qed
  next
    assume "(\<exists>b. c # s = p @ b) \<or> (\<exists>a b. s = a @ p @ b)"
    then show "\<exists>a b. c # s = a @ p @ b"
      by (metis append_Cons append_Nil)
  qed
  with Cons show ?case by (simp add: has_prefix_iff)
qed

lemma contains_sub_Nil [simp]: "contains_sub s []"
  by (cases s) auto

section \<open>Splitting and joining\<close>

text \<open>\<open>strings.Split\<close> with a one-byte separator: always at least one piece.\<close>

fun split_char :: "char \<Rightarrow> string \<Rightarrow> string list" where
  "split_char d [] = [[]]"
| "split_char d (c # s) =
     (if c = d then [] # split_char d s
      else (case split_char d s of [] \<Rightarrow> [[c]] | w # ws \<Rightarrow> (c # w) # ws))"

text \<open>\<open>strings.Join\<close>.\<close>

fun join_with :: "string \<Rightarrow> string list \<Rightarrow> string" where
  "join_with d [] = []"
| "join_with d [x] = x"
| "join_with d (x # y # zs) = x @ d @ join_with d (y # zs)"

lemma split_char_not_Nil [simp]: "split_char d s \<noteq> []"
  by (induction s) (auto split: list.splits)

lemma join_split_char: "join_with [d] (split_char d s) = s"
proof (induction s)
  case Nil
  then show ?case by simp
next
  case (Cons c s)
  then show ?case by (cases "split_char d s") (auto, cases "tl (split_char d s)", auto)
qed

lemma split_char_no_sep: "d \<notin> set s \<Longrightarrow> split_char d s = [s]"
  by (induction s) auto

lemma split_char_append:
  "d \<notin> set a \<Longrightarrow> split_char d (a @ d # s) = a # split_char d s"
  by (induction a) auto

lemma split_char_app: "split_char d (a @ d # b) = split_char d a @ split_char d b"
  by (induction a) (auto split: list.splits)

lemma split_char_pieces: "w \<in> set (split_char d s) \<Longrightarrow> d \<notin> set w"
  by (induction s arbitrary: w) (auto split: list.splits if_splits)

text \<open>\<open>strings.Cut\<close> at the first occurrence of a byte.\<close>

fun cut_char :: "char \<Rightarrow> string \<Rightarrow> (string \<times> string) option" where
  "cut_char d [] = None"
| "cut_char d (c # s) =
     (if c = d then Some ([], s)
      else (case cut_char d s of None \<Rightarrow> None | Some (a, b) \<Rightarrow> Some (c # a, b)))"

lemma cut_char_SomeD: "cut_char d s = Some (a, b) \<Longrightarrow> s = a @ d # b \<and> d \<notin> set a"
  by (induction s arbitrary: a b) (auto split: option.splits if_splits)

lemma cut_char_append: "d \<notin> set a \<Longrightarrow> cut_char d (a @ d # b) = Some (a, b)"
  by (induction a) auto

lemma cut_char_None: "cut_char d s = None \<longleftrightarrow> d \<notin> set s"
  by (induction s) (auto split: option.splits)

section \<open>White space\<close>

text \<open>
  \<open>unicode.IsSpace\<close> on the UTF-8 encoding of a rune: the number of bytes of the white
  space rune a string starts with, 0 if it starts with none.  The continuation bytes of
  a rune never start another one, so scanning byte-wise finds the same runes as
  scanning rune-wise.
\<close>

definition ascii_space :: "char \<Rightarrow> bool" where
  "ascii_space c = (c \<in> {CHR 0x09, CHR 0x0A, CHR 0x0B, CHR 0x0C, CHR 0x0D, CHR 0x20})"

definition wide_space2 :: "char \<Rightarrow> char \<Rightarrow> bool" where
  "wide_space2 a b = (a = CHR 0xC2 \<and> (b = CHR 0x85 \<or> b = CHR 0xA0))"

definition wide_space3 :: "char \<Rightarrow> char \<Rightarrow> char \<Rightarrow> bool" where
  "wide_space3 a b c =
     ((a = CHR 0xE1 \<and> b = CHR 0x9A \<and> c = CHR 0x80) \<or>
      (a = CHR 0xE2 \<and> b = CHR 0x80 \<and>
         ((0x80::nat) \<le> of_char c \<and> of_char c \<le> (0x8A::nat) \<or>
          c = CHR 0xA8 \<or> c = CHR 0xA9 \<or> c = CHR 0xAF)) \<or>
      (a = CHR 0xE2 \<and> b = CHR 0x81 \<and> c = CHR 0x9F) \<or>
      (a = CHR 0xE3 \<and> b = CHR 0x80 \<and> c = CHR 0x80))"

fun lead_space :: "string \<Rightarrow> nat" where
  "lead_space [] = 0"
| "lead_space [a] = (if ascii_space a then 1 else 0)"
| "lead_space [a, b] = (if ascii_space a then 1 else if wide_space2 a b then 2 else 0)"
| "lead_space (a # b # c # s) =
     (if ascii_space a then 1 else if wide_space2 a b then 2
      else if wide_space3 a b c then 3 else 0)"

text \<open>The same at the end of a string, read backwards (\<open>utf8.DecodeLastRune\<close>).\<close>

fun trail_space_rev :: "string \<Rightarrow> nat" where
  "trail_space_rev [] = 0"
| "trail_space_rev [a] = (if ascii_space a then 1 else 0)"
| "trail_space_rev [b, a] = (if ascii_space b then 1 else if wide_space2 a b then 2 else 0)"
| "trail_space_rev (c # b # a # s) =
     (if ascii_space c then 1 else if wide_space2 b c then 2
      else if wide_space3 a b c then 3 else 0)"

lemma lead_space_le: "lead_space s \<le> length s"
  by (cases s rule: lead_space.cases) auto

lemma trail_space_rev_le: "trail_space_rev s \<le> length s"
  by (cases s rule: trail_space_rev.cases) auto

function trim_left_space :: "string \<Rightarrow> string" where
  "trim_left_space s =
     (if lead_space s = 0 then s else trim_left_space (drop (lead_space s) s))"
  by pat_completeness auto
termination
proof (relation "measure length")
  fix s :: string
  assume "lead_space s \<noteq> 0"
  with lead_space_le [of s] show "(drop (lead_space s) s, s) \<in> measure length" by simp
qed simp

function trim_right_rev :: "string \<Rightarrow> string" where
  "trim_right_rev s =
     (if trail_space_rev s = 0 then s else trim_right_rev (drop (trail_space_rev s) s))"
  by pat_completeness auto
termination
proof (relation "measure length")
  fix s :: string
  assume "trail_space_rev s \<noteq> 0"
  with trail_space_rev_le [of s] show "(drop (trail_space_rev s) s, s) \<in> measure length" by simp
qed simp

declare trim_left_space.simps [simp del] trim_right_rev.simps [simp del]

text \<open>\<open>strings.TrimSpace\<close>.\<close>

definition trim_space :: "string \<Rightarrow> string" where
  "trim_space s = rev (trim_right_rev (rev (trim_left_space s)))"

text \<open>\<open>strings.Fields\<close>: the maximal runs of bytes that start no white space.\<close>

function fields_from :: "string \<Rightarrow> string \<Rightarrow> string list" where
  "fields_from cur s =
     (case s of
        [] \<Rightarrow> (if cur = [] then [] else [rev cur])
      | c # s' \<Rightarrow>
          (if lead_space s = 0 then fields_from (c # cur) s'
           else if cur = [] then fields_from [] (drop (lead_space s) s)
           else rev cur # fields_from [] (drop (lead_space s) s)))"
  by pat_completeness auto
termination
  by (relation "measure (\<lambda>(cur, s). length s)")
     (auto simp del: drop_Suc_Cons intro: diff_less)

declare fields_from.simps [simp del]

definition fields :: "string \<Rightarrow> string list" where
  "fields s = fields_from [] s"

definition solid_byte :: "char \<Rightarrow> bool" where
  "solid_byte c = (CHR 0x21 \<le> c \<and> c \<le> CHR 0x7E)"

text \<open>Printable ASCII other than the space: bytes that take part in no white space.\<close>

lemma solid_byte_nat: "solid_byte c \<longleftrightarrow> (0x21::nat) \<le> of_char c \<and> of_char c \<le> (0x7E::nat)"
  by (simp add: solid_byte_def less_eq_char_def)

lemma solid_not_space:
  assumes "solid_byte c"
  shows "\<not> ascii_space c" "c \<noteq> CHR 0xC2" "c \<noteq> CHR 0xE1" "c \<noteq> CHR 0xE2" "c \<noteq> CHR 0xE3"
    "c \<noteq> CHR 0x85" "c \<noteq> CHR 0xA0" "c \<noteq> CHR 0x80" "c \<noteq> CHR 0x9A" "c \<noteq> CHR 0x9F"
    "c \<noteq> CHR 0xA8" "c \<noteq> CHR 0xA9" "c \<noteq> CHR 0xAF" "c \<noteq> CHR 0x20" "c \<noteq> CHR 0x0A"
    "c \<noteq> CHR 0x0D" "c \<noteq> CHR 0x09"
  using assms by (auto simp: solid_byte_nat ascii_space_def)

lemma solid_not_wide3: "solid_byte c \<Longrightarrow> \<not> wide_space3 a b c"
  by (auto simp: wide_space3_def solid_byte_nat)

lemma lead_space_solid: "solid_byte c \<Longrightarrow> lead_space (c # s) = 0"
  by (cases "c # s" rule: lead_space.cases)
     (auto simp: solid_not_space wide_space2_def wide_space3_def)

lemma trail_space_solid: "solid_byte c \<Longrightarrow> trail_space_rev (c # s) = 0"
  by (cases "c # s" rule: trail_space_rev.cases)
     (auto simp: solid_not_space wide_space2_def solid_not_wide3)

text \<open>A string whose first and last bytes are solid is its own \<open>TrimSpace\<close>.\<close>

lemma trim_left_stop: "lead_space s = 0 \<Longrightarrow> trim_left_space s = s"
  by (subst trim_left_space.simps) simp

lemma trim_right_stop: "trail_space_rev s = 0 \<Longrightarrow> trim_right_rev s = s"
  by (subst trim_right_rev.simps) simp

lemma trim_left_step:
  "lead_space s \<noteq> 0 \<Longrightarrow> trim_left_space s = trim_left_space (drop (lead_space s) s)"
  by (rule trim_left_space.simps [THEN trans]) simp

lemma trim_right_step:
  "trail_space_rev s \<noteq> 0 \<Longrightarrow> trim_right_rev s = trim_right_rev (drop (trail_space_rev s) s)"
  by (rule trim_right_rev.simps [THEN trans]) simp

lemma trim_left_solid: "s \<noteq> [] \<Longrightarrow> solid_byte (hd s) \<Longrightarrow> trim_left_space s = s"
  by (cases s) (simp_all add: trim_left_stop lead_space_solid)

lemma trim_right_solid: "s \<noteq> [] \<Longrightarrow> solid_byte (hd s) \<Longrightarrow> trim_right_rev s = s"
  by (cases s) (simp_all add: trim_right_stop trail_space_solid)

lemma trim_space_Nil [simp]: "trim_space [] = []"
  by (simp add: trim_space_def trim_left_stop trim_right_stop)

lemma trim_space_solid:
  "s = [] \<or> solid_byte (hd s) \<and> solid_byte (last s) \<Longrightarrow> trim_space s = s"
proof (cases "s = []")
  case True
  then show ?thesis by simp
next
  case False
  moreover assume "s = [] \<or> solid_byte (hd s) \<and> solid_byte (last s)"
  ultimately show ?thesis by (simp add: trim_space_def trim_left_solid trim_right_solid hd_rev)
qed

text \<open>\<open>Fields\<close> of solid words joined by single blanks gives the words back.\<close>

lemma fields_from_solid:
  "list_all solid_byte w \<Longrightarrow> fields_from cur (w @ s) = fields_from (rev w @ cur) s"
proof (induction w arbitrary: cur)
  case Nil
  then show ?case by simp
next
  case (Cons c w)
  then have "fields_from cur ((c # w) @ s) = fields_from (c # cur) (w @ s)"
    by (subst fields_from.simps) (simp add: lead_space_solid)
  with Cons show ?case by simp
qed

lemma fields_from_blank:
  "fields_from cur (CHR 0x20 # s) = (if cur = [] then fields_from [] s else rev cur # fields_from [] s)"
proof -
  have "lead_space (CHR 0x20 # s) = 1"
    by (cases "CHR 0x20 # s" rule: lead_space.cases) (auto simp: ascii_space_def)
  then show ?thesis by (subst fields_from.simps) simp
qed

lemma fields_from_Nil: "fields_from cur [] = (if cur = [] then [] else [rev cur])"
  by (subst fields_from.simps) simp

lemma fields_join_solid:
  "\<forall>w\<in>set ws. w \<noteq> [] \<and> list_all solid_byte w \<Longrightarrow> fields (join_with [CHR 0x20] ws) = ws"
  unfolding fields_def
proof (induction "[CHR 0x20]" ws rule: join_with.induct)
  case 1
  then show ?case by (simp add: fields_from_Nil)
next
  case (2 x)
  then show ?case using fields_from_solid [of x "[]" "[]"] by (simp add: fields_from_Nil)
next
  case (3 x y zs)
  then show ?case by (simp add: fields_from_solid fields_from_blank)
qed

section \<open>Counting entries that carry something\<close>

definition blank :: "string \<Rightarrow> bool" where
  "blank s = (trim_space s = [])"

lemma blank_Nil [simp]: "blank []"
  by (simp add: blank_def)

lemma space_not_solid:
  "ascii_space a \<Longrightarrow> \<not> solid_byte a"
  "wide_space2 a b \<Longrightarrow> \<not> solid_byte a \<and> \<not> solid_byte b"
  by (auto simp: solid_byte_nat ascii_space_def wide_space2_def)

lemma wide3_not_solid: "wide_space3 a b c \<Longrightarrow> \<not> solid_byte a \<and> \<not> solid_byte b \<and> \<not> solid_byte c"
  by (auto simp: wide_space3_def solid_byte_nat)

lemma lead_space_not_solid: "c \<in> set (take (lead_space s) s) \<Longrightarrow> \<not> solid_byte c"
  by (cases s rule: lead_space.cases)
     (auto split: if_splits dest: space_not_solid wide3_not_solid)

lemma trail_space_not_solid: "c \<in> set (take (trail_space_rev s) s) \<Longrightarrow> \<not> solid_byte c"
  by (cases s rule: trail_space_rev.cases)
     (auto split: if_splits dest: space_not_solid wide3_not_solid)

lemma solid_in_drop:
  "c \<in> set s \<Longrightarrow> c \<notin> set (take n s) \<Longrightarrow> c \<in> set (drop n s)"
  by (metis Un_iff append_take_drop_id set_append)

lemma trim_left_nonblank: "c \<in> set s \<Longrightarrow> solid_byte c \<Longrightarrow> c \<in> set (trim_left_space s)"
proof (induction s rule: trim_left_space.induct)
  case (1 s)
  show ?case
  proof (cases "lead_space s = 0")
    case True
    with "1.prems" show ?thesis by (simp add: trim_left_stop)
  next
    case False
    from "1.prems" have "c \<in> set (drop (lead_space s) s)"
      using lead_space_not_solid [of c s] by (intro solid_in_drop) auto
    with "1.IH" [OF False] "1.prems"(2) show ?thesis by (simp only: trim_left_step [OF False])
  qed
qed

lemma trim_right_nonblank: "c \<in> set s \<Longrightarrow> solid_byte c \<Longrightarrow> c \<in> set (trim_right_rev s)"
proof (induction s rule: trim_right_rev.induct)
  case (1 s)
  show ?case
  proof (cases "trail_space_rev s = 0")
    case True
    with "1.prems" show ?thesis by (simp add: trim_right_stop)
  next
    case False
    from "1.prems" have "c \<in> set (drop (trail_space_rev s) s)"
      using trail_space_not_solid [of c s] by (intro solid_in_drop) auto
    with "1.IH" [OF False] "1.prems"(2) show ?thesis by (simp only: trim_right_step [OF False])
  qed
qed

text \<open>A string with a printable byte is not blank: how constant evidence lines are discharged.\<close>

lemma not_blank_if_solid: "c \<in> set s \<Longrightarrow> solid_byte c \<Longrightarrow> \<not> blank s"
  using trim_right_nonblank [of c "rev (trim_left_space s)"] trim_left_nonblank [of c s]
  by (auto simp: blank_def trim_space_def)

lemma not_blank_Cons [simp]: "solid_byte c \<Longrightarrow> \<not> blank (c # s)"
  by (rule not_blank_if_solid [of c]) simp_all

lemma not_blank_append: "c \<in> set a \<Longrightarrow> solid_byte c \<Longrightarrow> \<not> blank (a @ b)"
  by (rule not_blank_if_solid [of c]) simp_all

section \<open>Code that runs in a world\<close>

text \<open>
  An operation with effects takes the world and returns its result with the new world;
  the first error ends a sequence, with the effects so far kept, as an early
  \<open>return err\<close> does.
\<close>

type_synonym ('w, 'e, 'a) action = "'w \<Rightarrow> ('e, 'a) result \<times> 'w"

definition act_bind :: "('w, 'e, 'a) action \<Rightarrow> ('a \<Rightarrow> ('w, 'e, 'b) action) \<Rightarrow> ('w, 'e, 'b) action" where
  "act_bind m f = (\<lambda>w. case m w of (Inl e, w') \<Rightarrow> (Inl e, w') | (Inr x, w') \<Rightarrow> f x w')"

definition act_return :: "'a \<Rightarrow> ('w, 'e, 'a) action" where
  "act_return x = (\<lambda>w. (Inr x, w))"

definition act_fail :: "'e \<Rightarrow> ('w, 'e, 'a) action" where
  "act_fail e = (\<lambda>w. (Inl e, w))"

text \<open>Wrap the error of an operation, as \<open>fmt.Errorf("...: %w", err)\<close> does.\<close>

definition act_wrap :: "('e \<Rightarrow> 'f) \<Rightarrow> ('w, 'e, 'a) action \<Rightarrow> ('w, 'f, 'a) action" where
  "act_wrap f m = (\<lambda>w. case m w of (Inl e, w') \<Rightarrow> (Inl (f e), w') | (Inr x, w') \<Rightarrow> (Inr x, w'))"

text \<open>Run an operation and go on with its result, error or not.\<close>

definition act_try :: "('w, 'e, 'a) action \<Rightarrow> (('e, 'a) result \<Rightarrow> ('w, 'f, 'b) action) \<Rightarrow> ('w, 'f, 'b) action" where
  "act_try m f = (\<lambda>w. case m w of (r, w') \<Rightarrow> f r w')"

lemma act_bind_Inr [result_simps]:
  "act_bind m f w = (Inr y, w'') \<longleftrightarrow> (\<exists>x w'. m w = (Inr x, w') \<and> f x w' = (Inr y, w''))"
  by (auto simp: act_bind_def split: prod.splits sum.splits)

lemma act_return_Inr [result_simps]: "act_return x w = (Inr y, w') \<longleftrightarrow> y = x \<and> w' = w"
  by (auto simp: act_return_def)

lemma act_fail_Inr [result_simps]: "act_fail e w = (Inr y, w') \<longleftrightarrow> False"
  by (simp add: act_fail_def)

lemma act_wrap_Inr [result_simps]: "act_wrap f m w = (Inr y, w') \<longleftrightarrow> m w = (Inr y, w')"
  by (auto simp: act_wrap_def split: prod.splits sum.splits)

lemma act_try_Inr [result_simps]:
  "act_try m f w = (Inr y, w'') \<longleftrightarrow> (\<exists>r w'. m w = (r, w') \<and> f r w' = (Inr y, w''))"
  by (auto simp: act_try_def split: prod.splits)

lemma act_if_Inr [result_simps]:
  "(if b then m else n) w = (Inr y, w') \<longleftrightarrow> (if b then m w = (Inr y, w') else n w = (Inr y, w'))"
  by simp

lemma act_case_Inr [result_simps]:
  "(case r of Inl e \<Rightarrow> act_fail (f e) | Inr x \<Rightarrow> g x) w = (Inr y, w') \<longleftrightarrow>
     (\<exists>x. r = Inr x \<and> g x w = (Inr y, w'))"
  by (cases r) (auto simp: act_fail_def)

definition bool_text :: "bool \<Rightarrow> string" where
  "bool_text b = (if b then ''true'' else ''false'')"

end
