(* ===== verification/Go_Path.thy ===== *)
theory Go_Path
  imports Arazu_Base
begin

text \<open>
  Slash-separated paths as Go's \<open>path/filepath\<close> treats them on Linux: \<open>Clean\<close>, \<open>Join\<close>,
  \<open>IsAbs\<close>, \<open>Base\<close> and \<open>Ext\<close>, and the lemmas on clean paths that the content store's
  path check rests on.  \<open>ToSlash\<close> and \<open>FromSlash\<close> are the identity there.
\<close>

definition slash :: char where [simp]: "slash = CHR ''/''"

definition is_abs :: "string \<Rightarrow> bool" where
  "is_abs p = has_prefix p ''/''"

text \<open>One element at a time: \<open>out\<close> is the stack of kept elements, top first.\<close>

fun clean_step :: "bool \<Rightarrow> string list \<Rightarrow> string \<Rightarrow> string list" where
  "clean_step rooted out e =
     (if e = [] \<or> e = ''.'' then out
      else if e = ''..'' then
        (case out of
           [] \<Rightarrow> (if rooted then [] else [''..''])
         | t # ts \<Rightarrow> (if t = ''..'' then ''..'' # out else ts))
      else e # out)"

definition clean_elems :: "bool \<Rightarrow> string list \<Rightarrow> string list" where
  "clean_elems rooted es = rev (foldl (clean_step rooted) [] es)"

definition clean :: "string \<Rightarrow> string" where
  "clean p =
     (if p = [] then ''.''
      else
        (let rooted = is_abs p;
             body = join_with ''/'' (clean_elems rooted (split_char slash p))
         in if rooted then CHR ''/'' # body else if body = [] then ''.'' else body))"

text \<open>\<open>filepath.Join\<close> of two elements and of a list.\<close>

fun path_join :: "string list \<Rightarrow> string" where
  "path_join [] = []"
| "path_join (e # es) = (if e = [] then path_join es else clean (join_with ''/'' (e # es)))"

text \<open>\<open>filepath.Dir\<close>, \<open>filepath.Base\<close> and \<open>filepath.Ext\<close>.\<close>

definition path_dir :: "string \<Rightarrow> string" where
  "path_dir p = clean (rev (dropWhile (\<lambda>c. c \<noteq> slash) (rev p)))"

definition base_name :: "string \<Rightarrow> string" where
  "base_name p =
     (if p = [] then ''.''
      else (let q = rev (dropWhile (\<lambda>c. c = slash) (rev p))
            in if q = [] then ''/'' else last (split_char slash q)))"

definition path_ext :: "string \<Rightarrow> string" where
  "path_ext p =
     (let f = last (split_char slash p)
      in if CHR ''.'' \<in> set f
         then CHR ''.'' # rev (takeWhile (\<lambda>c. c \<noteq> CHR ''.'') (rev f)) else [])"

section \<open>Clean paths\<close>

text \<open>
  A path is plain when each of its elements names something: no empty element, no
  \<open>.\<close>, no \<open>..\<close>.  The plain paths and \<open>.\<close> are exactly the clean relative paths
  without an upward step, which is what the content store accepts.
\<close>

definition plain_elem :: "string \<Rightarrow> bool" where
  "plain_elem e = (e \<noteq> [] \<and> e \<noteq> ''.'' \<and> e \<noteq> ''..'' \<and> slash \<notin> set e)"

definition plain_path :: "string \<Rightarrow> bool" where
  "plain_path p = list_all plain_elem (split_char slash p)"

lemma plain_no_slash: "list_all plain_elem ms \<Longrightarrow> list_all (\<lambda>e. slash \<notin> set e) ms"
  by (auto simp: list_all_iff plain_elem_def)

lemma foldl_clean_plain:
  "list_all plain_elem es \<Longrightarrow> foldl (clean_step r) out es = rev es @ out"
  by (induction es arbitrary: out) (auto simp: plain_elem_def)

lemma clean_elems_plain: "list_all plain_elem es \<Longrightarrow> clean_elems r es = es"
  by (simp add: clean_elems_def foldl_clean_plain)

lemma clean_plain: "plain_path p \<Longrightarrow> \<not> is_abs p \<Longrightarrow> clean p = p"
  using join_split_char [of slash p]
  by (auto simp: clean_def clean_elems_plain plain_path_def plain_elem_def Let_def)

text \<open>What \<open>clean\<close> leaves on the stack: upward steps only below everything else.\<close>

definition stack_elem :: "string \<Rightarrow> bool" where
  "stack_elem e = (e \<noteq> [] \<and> e \<noteq> ''.'' \<and> slash \<notin> set e)"

lemma clean_step_stack:
  "list_all stack_elem out \<Longrightarrow> slash \<notin> set e \<Longrightarrow> list_all stack_elem (clean_step r out e)"
  by (auto simp: stack_elem_def split: list.splits)

lemma foldl_clean_stack:
  "list_all stack_elem out \<Longrightarrow> list_all (\<lambda>e. slash \<notin> set e) es \<Longrightarrow>
   list_all stack_elem (foldl (clean_step r) out es)"
proof (induction es arbitrary: out)
  case Nil
  then show ?case by simp
next
  case (Cons e es)
  from Cons.prems have "list_all stack_elem (clean_step r out e)"
    by (intro clean_step_stack) auto
  with Cons.IH Cons.prems show ?case by (simp del: clean_step.simps)
qed

lemma clean_elems_stack: "list_all stack_elem (clean_elems r (split_char slash p))"
proof -
  have "list_all (\<lambda>e. slash \<notin> set e) (split_char slash p)"
    using split_char_pieces [of _ slash p] by (auto simp: list_all_iff)
  with foldl_clean_stack [of "[]"] show ?thesis
    by (auto simp: clean_elems_def list_all_iff)
qed

lemma split_join_elems:
  "es \<noteq> [] \<Longrightarrow> list_all (\<lambda>e. slash \<notin> set e) es \<Longrightarrow> split_char slash (join_with ''/'' es) = es"
proof (induction "''/''" es rule: join_with.induct)
  case 1
  then show ?case by simp
next
  case (2 x)
  then show ?case by (simp add: split_char_no_sep)
next
  case (3 x y zs)
  then have "split_char slash (x @ CHR ''/'' # join_with ''/'' (y # zs)) = x # (y # zs)"
    using split_char_append [of slash x "join_with ''/'' (y # zs)"] by simp
  then show ?case by simp
qed

text \<open>
  The main fact: a relative path that \<open>Clean\<close> does not change and that has no \<open>..\<close>
  element is plain, or is \<open>.\<close> itself.
\<close>

lemma clean_fixed_plain:
  assumes "clean p = p" "\<not> is_abs p" "''..'' \<notin> set (split_char slash p)"
  shows "plain_path p \<or> p = ''.''"
proof (cases "clean_elems False (split_char slash p)")
  case Nil
  with assms(1,2) show ?thesis by (simp add: clean_def split: if_splits)
next
  case (Cons e es)
  let ?es = "clean_elems False (split_char slash p)"
  have st: "list_all stack_elem ?es" by (rule clean_elems_stack)
  then have ns: "list_all (\<lambda>e. slash \<notin> set e) ?es"
    by (auto simp: list_all_iff stack_elem_def)
  show ?thesis
  proof (cases "p = ''.''")
    case False
    have "p \<noteq> []" using assms(1) by (auto simp: clean_def)
    with assms(1,2) False have p: "p = join_with ''/'' ?es"
      by (simp add: clean_def Let_def split: if_splits)
    then have "split_char slash p = ?es"
      using split_join_elems [OF _ ns] Cons by simp
    with st assms(3) show ?thesis
      by (auto simp: plain_path_def list_all_iff plain_elem_def stack_elem_def)
  qed simp
qed

lemma drop_slashes_id: "p \<noteq> [] \<Longrightarrow> last p \<noteq> slash \<Longrightarrow> dropWhile (\<lambda>c. c = slash) (rev p) = rev p"
  by (cases p rule: rev_cases) auto

lemma base_name_no_slash: "p \<noteq> [] \<Longrightarrow> slash \<notin> set p \<Longrightarrow> base_name p = p"
proof -
  assume p: "p \<noteq> []" "slash \<notin> set p"
  then have "last p \<noteq> slash" by (metis last_in_set)
  with p have "dropWhile (\<lambda>c. c = slash) (rev p) = rev p" by (intro drop_slashes_id)
  moreover from p have "split_char slash p = [p]" by (intro split_char_no_sep)
  ultimately show ?thesis using p by (simp add: base_name_def Let_def)
qed

lemma base_name_dir: "f \<noteq> [] \<Longrightarrow> slash \<notin> set f \<Longrightarrow> base_name (d @ CHR ''/'' # f) = f"
proof -
  assume f: "f \<noteq> []" "slash \<notin> set f"
  then have l: "last (d @ CHR ''/'' # f) \<noteq> slash" by (simp, metis last_in_set slash_def)
  have "split_char slash (d @ CHR ''/'' # f) = split_char slash d @ [f]"
    using split_char_app [of slash d f] f by (simp add: split_char_no_sep)
  then have "last (split_char slash (d @ CHR ''/'' # f)) = f" by simp
  with drop_slashes_id [OF _ l] show ?thesis by (simp add: base_name_def Let_def)
qed

end
