(* ===== verification/Go_Regex.thy ===== *)
theory Go_Regex
  imports Arazu_Base
begin

text \<open>
  The part of Go's package \<open>regexp\<close> that the repository's expressions use: classes of
  bytes, sequence, alternation, optional, greedy and lazy repetition, numbered groups.
  \<open>rx_match\<close> lists the matches at the start of a string in the order a backtracking
  matcher tries them; its head is the match Go's leftmost-first semantics picks.
  The bound on repetitions is the length of the string, and each repetition consumes
  at least one byte, so it is never reached before the string is.
\<close>

datatype rx =
    REps
  | RCls "char \<Rightarrow> bool"
  | RSeq rx rx
  | RAlt rx rx
  | RStar bool rx
  | RGroup nat rx

type_synonym captures = "(nat \<times> string) list"
type_synonym matches = "(captures \<times> string) list"

fun rx_star :: "bool \<Rightarrow> (string \<Rightarrow> matches) \<Rightarrow> nat \<Rightarrow> string \<Rightarrow> matches" where
  "rx_star greedy m 0 s = [([], s)]"
| "rx_star greedy m (Suc n) s =
     (let more = concat (map (\<lambda>(c1, s1). map (\<lambda>(c2, s2). (c1 @ c2, s2)) (rx_star greedy m n s1))
                   (filter (\<lambda>(c1, s1). length s1 < length s) (m s)))
      in if greedy then more @ [([], s)] else ([], s) # more)"

fun rx_match :: "rx \<Rightarrow> string \<Rightarrow> matches" where
  "rx_match REps s = [([], s)]"
| "rx_match (RCls p) s = (case s of [] \<Rightarrow> [] | c # t \<Rightarrow> if p c then [([], t)] else [])"
| "rx_match (RSeq a b) s =
     concat (map (\<lambda>(c1, s1). map (\<lambda>(c2, s2). (c1 @ c2, s2)) (rx_match b s1)) (rx_match a s))"
| "rx_match (RAlt a b) s = rx_match a s @ rx_match b s"
| "rx_match (RStar g a) s = rx_star g (rx_match a) (length s) s"
| "rx_match (RGroup n a) s =
     map (\<lambda>(c, t). (c @ [(n, take (length s - length t) s)], t)) (rx_match a s)"

definition rx_lit :: "string \<Rightarrow> rx" where
  "rx_lit w = foldr (\<lambda>c r. RSeq (RCls (\<lambda>x. x = c)) r) w REps"

definition rx_seq :: "rx list \<Rightarrow> rx" where
  "rx_seq rs = foldr RSeq rs REps"

definition rx_plus :: "bool \<Rightarrow> rx \<Rightarrow> rx" where
  "rx_plus g r = RSeq r (RStar g r)"

definition rx_opt :: "rx \<Rightarrow> rx" where
  "rx_opt r = RAlt r REps"

definition capture :: "nat \<Rightarrow> captures \<Rightarrow> string" where
  "capture n c = (case map_of c n of None \<Rightarrow> [] | Some w \<Rightarrow> w)"

text \<open>Character classes: \<open>\s\<close>, \<open>\S\<close>, \<open>\d\<close>, \<open>\w\<close>, and the two identifier classes.\<close>

definition in_range :: "char \<Rightarrow> char \<Rightarrow> char \<Rightarrow> bool" where
  "in_range a b c = (a \<le> c \<and> c \<le> b)"

definition re_space :: "char \<Rightarrow> bool" where
  "re_space c = (c \<in> {CHR 0x09, CHR 0x0A, CHR 0x0C, CHR 0x0D, CHR 0x20})"

definition re_digit :: "char \<Rightarrow> bool" where
  "re_digit c = in_range CHR ''0'' CHR ''9'' c"

definition re_ident_start :: "char \<Rightarrow> bool" where
  "re_ident_start c = (in_range CHR ''A'' CHR ''Z'' c \<or> in_range CHR ''a'' CHR ''z'' c \<or> c = CHR ''_'')"

definition re_word :: "char \<Rightarrow> bool" where
  "re_word c = (re_ident_start c \<or> re_digit c)"

text \<open>\<open>FindStringSubmatch\<close> of an expression anchored at both ends of the text.\<close>

definition rx_full :: "rx \<Rightarrow> string \<Rightarrow> captures option" where
  "rx_full r s = (case filter (\<lambda>(c, t). t = []) (rx_match r s) of [] \<Rightarrow> None | (c, t) # _ \<Rightarrow> Some c)"

text \<open>
  \<open>FindAllStringSubmatch\<close> with no limit, for an expression that matches no empty
  string: the leftmost match, then the search goes on after it.
\<close>

function rx_find_all :: "rx \<Rightarrow> string \<Rightarrow> captures list" where
  "rx_find_all r s =
     (case s of
        [] \<Rightarrow> []
      | c # s' \<Rightarrow>
          (case rx_match r s of
             [] \<Rightarrow> rx_find_all r s'
           | (cs, t) # _ \<Rightarrow> cs # (if length t < length s then rx_find_all r t else rx_find_all r s')))"
  by pat_completeness auto
termination
  by (relation "measure (\<lambda>(r, s). length s)") auto

declare rx_find_all.simps [simp del]

text \<open>\<open>Match\<close> of an expression with a multi-line start anchor: at the start of some line.\<close>

definition rx_line_start :: "rx \<Rightarrow> string \<Rightarrow> bool" where
  "rx_line_start r s = list_ex (\<lambda>i. rx_match r (drop i s) \<noteq> [] \<and> (i = 0 \<or> s ! (i - 1) = CHR 0x0A)) [0..<Suc (length s)]"

text \<open>
  \<open>ReplaceAllString\<close> for an expression that matches no empty string and a replacement
  with no template.  With \<open>wb\<close> the expression stands between two word boundaries, which
  look at the byte before the match and at the one after it.
\<close>

definition re_word_hd :: "string \<Rightarrow> bool" where
  "re_word_hd s = (s \<noteq> [] \<and> re_word (hd s))"

definition word_boundary :: "string \<Rightarrow> string \<Rightarrow> bool" where
  "word_boundary before after = (re_word_hd before \<noteq> re_word_hd after)"

definition rx_first :: "bool \<Rightarrow> rx \<Rightarrow> string \<Rightarrow> string \<Rightarrow> string option" where
  "rx_first wb r before s =
     (case filter (\<lambda>(c, t). length t < length s \<and>
          (wb \<longrightarrow> word_boundary before s \<and>
             word_boundary (rev (take (length s - length t) s)) t)) (rx_match r s) of
        [] \<Rightarrow> None
      | (c, t) # _ \<Rightarrow> Some t)"

lemma rx_first_shorter: "rx_first wb r before s = Some t \<Longrightarrow> length t < length s"
  by (auto simp: rx_first_def filter_eq_Cons_iff split: list.splits)

text \<open>\<open>before\<close> holds the bytes already passed, the last one first.\<close>

function rx_replace :: "bool \<Rightarrow> rx \<Rightarrow> string \<Rightarrow> string \<Rightarrow> string \<Rightarrow> string" where
  "rx_replace wb r repl before s =
     (case s of
        [] \<Rightarrow> []
      | c # s' \<Rightarrow>
          (case rx_first wb r before s of
             None \<Rightarrow> c # rx_replace wb r repl (c # before) s'
           | Some t \<Rightarrow> repl @ rx_replace wb r repl (rev (take (length s - length t) s) @ before) t))"
  by pat_completeness auto
termination
  by (relation "measure (\<lambda>(wb, r, repl, before, s). length s)") (auto dest: rx_first_shorter)

declare rx_replace.simps [simp del]

section \<open>Matches are prefixes\<close>

lemma rx_star_suffix:
  assumes "\<And>s c t. (c, t) \<in> set (m s) \<Longrightarrow> \<exists>w. s = w @ t"
  shows "(c, t) \<in> set (rx_star g m n s) \<Longrightarrow> \<exists>w. s = w @ t"
proof (induction n arbitrary: s c t)
  case 0
  then show ?case by simp
next
  case (Suc n)
  have "\<exists>w. s = w @ t"
    if "(c1, s1) \<in> set (m s)" "(c2, t) \<in> set (rx_star g m n s1)" for c1 s1 c2
    using assms [OF that(1)] Suc.IH [OF that(2)] by auto
  with Suc.prems show ?case
    by (auto simp: Let_def split: if_splits)
qed

lemma rx_match_suffix: "(c, t) \<in> set (rx_match r s) \<Longrightarrow> \<exists>w. s = w @ t"
proof (induction r arbitrary: c s t)
  case (RCls p)
  then show ?case by (cases s) (auto split: if_splits)
next
  case (RSeq a b)
  then obtain c1 s1 c2 where "(c1, s1) \<in> set (rx_match a s)" "(c2, t) \<in> set (rx_match b s1)"
    by auto
  with RSeq.IH obtain w1 w2 where "s = w1 @ s1" "s1 = w2 @ t" by metis
  then show ?case by auto
next
  case (RStar g a)
  then show ?case by (auto intro: rx_star_suffix)
qed auto

end
