(* ===== verification/Corpus.thy ===== *)
theory Corpus
  imports Go_Path Go_Regex
begin

text \<open>
  Package \<open>pkg/corpus\<close>: the labelled cases (\<open>case.go\<close>), which stage answers for which
  reason (\<open>stages.go\<close>) and the comparison of crash sites (\<open>crashsite.go\<close>).

  Labels, reasons, kinds and site matches are Go string types whose values can be any
  string a case file holds, so they are strings here, with the named constants as
  definitions.  YAML decoding (\<open>gopkg.in/yaml.v3\<close>, vendored) is not modelled: \<open>load\<close>
  takes the decoder as a parameter.  Full Unicode case folding (\<open>strings.EqualFold\<close>) is
  a parameter of the site comparison.
\<close>

section \<open>Labels, kinds and reasons\<close>

definition kind_oracle :: string where [simp]: "kind_oracle = ''''"
definition kind_captured :: string where [simp]: "kind_captured = ''captured''"

definition label_good :: string where [simp]: "label_good = ''good''"
definition label_nonfunctional :: string where [simp]: "label_nonfunctional = ''nonfunctional-plausible''"
definition label_boundary_wrong :: string where [simp]: "label_boundary_wrong = ''boundary-wrong''"
definition label_incomplete_fix :: string where [simp]: "label_incomplete_fix = ''incomplete-fix''"
definition label_regression :: string where [simp]: "label_regression = ''regression-introducing''"
definition label_wrong_branch :: string where [simp]: "label_wrong_branch = ''wrong-branch''"
definition label_unclassified :: string where [simp]: "label_unclassified = ''unclassified''"

definition reason_empty_patch :: string where [simp]: "reason_empty_patch = ''empty-patch''"
definition reason_pov_not_reproduced :: string where [simp]: "reason_pov_not_reproduced = ''pov-not-reproduced''"
definition reason_patch_does_not_apply :: string where [simp]: "reason_patch_does_not_apply = ''patch-does-not-apply''"
definition reason_pov_site_undetermined :: string where [simp]: "reason_pov_site_undetermined = ''pov-site-undetermined''"
definition reason_revert_attribute_fail :: string where [simp]: "reason_revert_attribute_fail = ''revert-attribute-fail''"
definition reason_class_replay_fail :: string where [simp]: "reason_class_replay_fail = ''class-replay-fail''"
definition reason_class_not_defined :: string where [simp]: "reason_class_not_defined = ''class-not-defined''"
definition reason_class_truncated :: string where [simp]: "reason_class_truncated = ''class-truncated''"
definition reason_class_observer_missing :: string where [simp]: "reason_class_observer_missing = ''class-observer-missing''"
definition reason_new_sanitizer_finding :: string where [simp]: "reason_new_sanitizer_finding = ''new-sanitizer-finding''"
definition reason_new_test_failure :: string where [simp]: "reason_new_test_failure = ''new-test-failure''"
definition reason_unadjudicated :: string where [simp]: "reason_unadjudicated = ''unadjudicated-behaviour-change''"
definition reason_class_no_reference :: string where [simp]: "reason_class_no_reference = ''class-no-reference''"
definition reason_nondeterministic :: string where [simp]: "reason_nondeterministic = ''nondeterministic''"

definition label_known :: "string \<Rightarrow> bool" where
  "label_known l = (l \<in> set [label_good, label_nonfunctional, label_boundary_wrong,
     label_incomplete_fix, label_regression, label_wrong_branch, label_unclassified])"

section \<open>Cases\<close>

record src_info =
  cp_repo :: string
  cp_commit :: string
  src_repo :: string
  src_ref :: string
  src_commit :: string
  base_commit :: string
  fuzz_tooling_repo :: string
  fuzz_tooling_ref :: string
  fuzz_tooling_commit :: string
  fuzz_tooling_project :: string

record pov =
  pov_input :: string
  pov_sanitizer :: string
  pov_expected :: string
  pov_crash_location :: string
  pov_signal :: string
  pov_input_root :: string

record falsifying_class =
  fc_description :: string
  fc_generator :: string
  fc_size :: int
  fc_discriminator :: string
  fc_observer :: string

record candidate =
  cand_id :: string
  cand_patch :: string
  cand_label :: string
  cand_patch_root :: string
  cand_expected :: "string option"

record case_file =
  case_id :: string
  case_language :: string
  case_cwe :: string
  case_cwe_name :: string
  case_target :: string
  case_harness :: string
  case_root :: string
  case_source :: src_info
  case_pov :: pov
  case_kind :: string
  case_reference_patch :: string
  case_candidates :: "candidate list"
  case_class :: "falsifying_class option"
  case_path :: string

definition patch_root_challenge :: string where [simp]: "patch_root_challenge = ''challenge''"
definition patch_root_repo :: string where [simp]: "patch_root_repo = ''repo''"

definition case_where :: "case_file \<Rightarrow> string" where
  "case_where c = (if case_path c \<noteq> [] then case_path c else case_id c)"

subsection \<open>Which tree a path belongs to\<close>

definition resolve_root :: "string \<Rightarrow> string \<Rightarrow> string \<Rightarrow> string \<Rightarrow> string" where
  "resolve_root override case_default challenge_root repo_root =
     (let which = (if override = [] then case_default else override)
      in if which = patch_root_repo then repo_root else challenge_root)"

definition join_root :: "string \<Rightarrow> string \<Rightarrow> string" where
  "join_root root p = (if is_abs p \<or> root = [] then p else path_join [root, p])"

definition input_path :: "case_file \<Rightarrow> string \<Rightarrow> string \<Rightarrow> string" where
  "input_path c challenge_root repo_root =
     join_root (resolve_root (pov_input_root (case_pov c)) (case_root c) challenge_root repo_root)
       (pov_input (case_pov c))"

definition reference_patch_path :: "case_file \<Rightarrow> string \<Rightarrow> string \<Rightarrow> string" where
  "reference_patch_path c challenge_root repo_root =
     join_root (resolve_root [] (case_root c) challenge_root repo_root) (case_reference_patch c)"

definition candidate_patch_path :: "case_file \<Rightarrow> candidate \<Rightarrow> string \<Rightarrow> string \<Rightarrow> string" where
  "candidate_patch_path c cand challenge_root repo_root =
     join_root (resolve_root (cand_patch_root cand) (case_root c) challenge_root repo_root)
       (cand_patch cand)"

text \<open>\<open>Candidate.PatchPath\<close>, the older resolution that does not know the case's default tree.\<close>

definition cand_patch_path :: "candidate \<Rightarrow> string \<Rightarrow> string \<Rightarrow> string" where
  "cand_patch_path cand challenge_root repo_root =
     (if is_abs (cand_patch cand) then cand_patch cand
      else (let root = (if cand_patch_root cand = patch_root_repo then repo_root else challenge_root)
            in if root = [] then cand_patch cand else path_join [root, cand_patch cand]))"

subsection \<open>Validation\<close>

datatype case_fault =
    CaseMissing "string list"
  | CandIncomplete
  | CandTwice string
  | CandBadLabel string string
  | CaseBadRoot string
  | CaseBadInputRoot string
  | CandBadPatchRoot string string
  | CandNoReason string string
  | CandNoClass string
  | ClassNoGenerator
  | ClassNoSize

datatype case_sentinel = ErrIncomplete | ErrUnknownLabel

fun case_sentinel_of :: "case_fault \<Rightarrow> case_sentinel" where
  "case_sentinel_of (CandBadLabel i l) = ErrUnknownLabel"
| "case_sentinel_of (CaseBadRoot r) = ErrUnknownLabel"
| "case_sentinel_of (CaseBadInputRoot r) = ErrUnknownLabel"
| "case_sentinel_of (CandBadPatchRoot i r) = ErrUnknownLabel"
| "case_sentinel_of f = ErrIncomplete"

definition root_known :: "string \<Rightarrow> bool" where
  "root_known r = (r = [] \<or> r = patch_root_challenge \<or> r = patch_root_repo)"

definition case_needs :: "case_file \<Rightarrow> (string \<times> string) list" where
  "case_needs c =
     [(''id'', case_id c), (''language'', case_language c), (''target'', case_target c),
      (''harness'', case_harness c), (''source.src_commit'', src_commit (case_source c)),
      (''pov.input'', pov_input (case_pov c)),
      (''pov.expected_sanitizer'', pov_expected (case_pov c))] @
     (if case_kind c \<noteq> kind_captured then [(''reference_patch'', case_reference_patch c)] else [])"

definition case_missing :: "case_file \<Rightarrow> string list" where
  "case_missing c = sort (map fst (filter (\<lambda>(k, v). blank v) (case_needs c)))"

definition validate_candidate :: "case_file \<Rightarrow> string list \<Rightarrow> candidate \<Rightarrow> (case_fault, unit) result" where
  "validate_candidate c seen cand =
     (if cand_id cand = [] \<or> cand_patch cand = [] then Inl CandIncomplete
      else if cand_id cand \<in> set seen then Inl (CandTwice (cand_id cand))
      else if \<not> label_known (cand_label cand) then Inl (CandBadLabel (cand_id cand) (cand_label cand))
      else if \<not> root_known (case_root c) then Inl (CaseBadRoot (case_root c))
      else if \<not> root_known (pov_input_root (case_pov c)) then Inl (CaseBadInputRoot (pov_input_root (case_pov c)))
      else if \<not> root_known (cand_patch_root cand) then Inl (CandBadPatchRoot (cand_id cand) (cand_patch_root cand))
      else if cand_label cand \<noteq> label_unclassified \<and> cand_label cand \<noteq> label_good \<and> cand_expected cand = None
        then Inl (CandNoReason (cand_id cand) (cand_label cand))
      else if cand_expected cand = Some reason_class_replay_fail \<and> case_class c = None
        then Inl (CandNoClass (cand_id cand))
      else Inr ())"

fun validate_candidates :: "case_file \<Rightarrow> string list \<Rightarrow> candidate list \<Rightarrow> (case_fault, unit) result" where
  "validate_candidates c seen [] = Inr ()"
| "validate_candidates c seen (x # xs) =
     (case validate_candidate c seen x of
        Inl e \<Rightarrow> Inl e
      | Inr _ \<Rightarrow> validate_candidates c (cand_id x # seen) xs)"

definition validate_class :: "falsifying_class option \<Rightarrow> (case_fault, unit) result" where
  "validate_class fco =
     (case fco of
        None \<Rightarrow> Inr ()
      | Some f \<Rightarrow>
          if blank (fc_generator f) \<or> blank (fc_discriminator f) then Inl ClassNoGenerator
          else if fc_size f \<le> 0 then Inl ClassNoSize
          else Inr ())"

definition case_validate :: "case_file \<Rightarrow> (case_fault, unit) result" where
  "case_validate c =
     (if case_missing c \<noteq> [] then Inl (CaseMissing (case_missing c))
      else try_bind (validate_candidates c [] (case_candidates c))
             (\<lambda>_. validate_class (case_class c)))"

text \<open>
  \<open>Load\<close>: a missing file or a decoding error is reported as such; the path is recorded
  before validation, so that a failure names it.
\<close>

datatype load_error = ReadFailed string | DecodeFailed string string | CaseInvalid case_fault

definition load :: "(string \<Rightarrow> string + string) \<Rightarrow> (string \<Rightarrow> string + case_file) \<Rightarrow> string \<Rightarrow>
    (load_error, case_file) result" where
  "load read_file yaml_decode path =
     (case read_file path of
        Inl e \<Rightarrow> Inl (ReadFailed e)
      | Inr b \<Rightarrow>
          (case yaml_decode b of
             Inl e \<Rightarrow> Inl (DecodeFailed path e)
           | Inr c \<Rightarrow>
               (let c' = c\<lparr>case_path := path\<rparr>
                in case case_validate c' of
                     Inl f \<Rightarrow> Inl (CaseInvalid f)
                   | Inr _ \<Rightarrow> Inr c')))"

fun load_each :: "(string \<Rightarrow> string + string) \<Rightarrow> (string \<Rightarrow> string + case_file) \<Rightarrow> string list \<Rightarrow>
    (load_error, case_file list) result" where
  "load_each rd dec [] = Inr []"
| "load_each rd dec (p # ps) =
     try_bind (load rd dec p) (\<lambda>c. try_bind (load_each rd dec ps) (\<lambda>cs. Inr (c # cs)))"

datatype load_dir_error = GlobFailed string | LoadFailed load_error | NoCases string

text \<open>\<open>LoadDir\<close>: \<open>glob\<close> is what \<open>filepath.Glob\<close> finds under the directory.\<close>

definition load_dir :: "(string \<Rightarrow> string + string list) \<Rightarrow> (string \<Rightarrow> string + string) \<Rightarrow>
    (string \<Rightarrow> string + case_file) \<Rightarrow> string \<Rightarrow> (load_dir_error, case_file list) result" where
  "load_dir glob rd dec dir =
     (case glob (path_join [dir, ''*.yaml'']) of
        Inl e \<Rightarrow> Inl (GlobFailed e)
      | Inr entries \<Rightarrow>
          (case load_each rd dec (sort entries) of
             Inl e \<Rightarrow> Inl (LoadFailed e)
           | Inr [] \<Rightarrow> Inl (NoCases dir)
           | Inr cs \<Rightarrow> Inr cs))"

end
