(* ===== verification/Corpus_Site.thy ===== *)
theory Corpus_Site
  imports Corpus
begin

text \<open>
  The rest of \<open>pkg/corpus\<close>: \<open>crashsite.go\<close> (reading a declared crash site and a
  sanitizer report, and comparing them) and \<open>stages.go\<close> (which stage answers for which
  reason), and the facts about the validation of a case that the other theories use.
\<close>

section \<open>Crash sites\<close>

record crash_site =
  site_file :: string
  site_function :: string

definition site_empty :: "crash_site \<Rightarrow> bool" where
  "site_empty s = (site_file s = [] \<and> site_function s = [])"

definition site_same :: string where [simp]: "site_same = ''same''"
definition site_differ :: string where [simp]: "site_differ = ''different''"
definition site_undetermined :: string where [simp]: "site_undetermined = ''undetermined''"

definition rx_ident :: rx where
  "rx_ident = RSeq (RCls re_ident_start) (RStar True (RCls re_word))"

definition rx_position :: rx where
  "rx_position = rx_seq [RCls (\<lambda>c. c = CHR '':''), rx_plus True (RCls re_digit),
     rx_opt (rx_seq [RCls (\<lambda>c. c = CHR '':''), rx_plus True (RCls re_digit)])]"

definition declared_re :: rx where
  "declared_re = rx_seq [RStar True (RCls re_space), RGroup 1 rx_ident, rx_plus True (RCls re_space),
     RGroup 2 (rx_plus False (RCls (\<lambda>c. \<not> re_space c))), rx_position, RStar True (RCls re_space)]"

definition summary_re :: rx where
  "summary_re = rx_seq [rx_lit ''SUMMARY:'', rx_plus True (RCls re_space),
     rx_plus True (RCls re_word), rx_lit ''Sanitizer:'', rx_plus True (RCls re_space),
     rx_plus True (RCls (\<lambda>c. \<not> re_space c)), rx_plus True (RCls re_space),
     RGroup 1 (rx_plus False (RCls (\<lambda>c. \<not> re_space c))), rx_position,
     rx_plus True (RCls re_space), rx_lit ''in'', rx_plus True (RCls re_space), RGroup 2 rx_ident]"

definition frame_re :: rx where
  "frame_re = rx_seq [rx_lit ''#'', rx_plus True (RCls re_digit), rx_plus True (RCls re_space),
     rx_lit ''0x'', rx_plus True (RCls (\<lambda>c. re_digit c \<or> in_range CHR ''a'' CHR ''f'' c)),
     rx_plus True (RCls re_space), rx_lit ''in'', rx_plus True (RCls re_space),
     RGroup 1 rx_ident, rx_plus True (RCls re_space),
     RGroup 2 (rx_plus False (RCls (\<lambda>c. \<not> re_space c))), rx_position]"

definition parse_declared_site :: "string \<Rightarrow> crash_site" where
  "parse_declared_site s =
     (case rx_full declared_re s of
        None \<Rightarrow> \<lparr>site_file = [], site_function = []\<rparr>
      | Some m \<Rightarrow> \<lparr>site_file = base_name (capture 2 m), site_function = capture 1 m\<rparr>)"

definition add_site :: "crash_site list \<Rightarrow> string \<times> string \<Rightarrow> crash_site list" where
  "add_site out = (\<lambda>(file, fn).
     (let s = \<lparr>site_file = base_name file, site_function = fn\<rparr>
      in if s \<in> set out then out else out @ [s]))"

definition parse_report_sites :: "string \<Rightarrow> crash_site list" where
  "parse_report_sites report =
     foldl add_site []
       (map (\<lambda>m. (capture 1 m, capture 2 m)) (rx_find_all summary_re report) @
        map (\<lambda>m. (capture 2 m, capture 1 m)) (rx_find_all frame_re report))"

definition instrumentation_prefixes :: "string list" where
  "instrumentation_prefixes = [''OSS_FUZZ_'']"

definition strip_instrumentation :: "string \<Rightarrow> string" where
  "strip_instrumentation s = foldl trim_prefix s instrumentation_prefixes"

definition same_function :: "string \<Rightarrow> string \<Rightarrow> bool" where
  "same_function a b = (strip_instrumentation a = strip_instrumentation b)"

text \<open>The loop over the report's sites, with the flag \<open>sameFile\<close> as accumulator.\<close>

fun match_loop :: "(string \<Rightarrow> string \<Rightarrow> bool) \<Rightarrow> crash_site \<Rightarrow> bool \<Rightarrow> crash_site list \<Rightarrow> string" where
  "match_loop equal_fold d same_file [] = (if same_file then site_undetermined else site_differ)"
| "match_loop equal_fold d same_file (s # ss) =
     (if site_file s = site_file d \<and> same_function (site_function s) (site_function d) then site_same
      else match_loop equal_fold d (same_file \<or> equal_fold (site_file s) (site_file d)) ss)"

definition match_site :: "(string \<Rightarrow> string \<Rightarrow> bool) \<Rightarrow> crash_site \<Rightarrow> string \<Rightarrow> string" where
  "match_site equal_fold declared report =
     (if site_empty declared then site_undetermined
      else (let sites = parse_report_sites report
            in if sites = [] then site_undetermined
               else match_loop equal_fold declared False sites))"

lemma match_loop_same:
  "match_loop ef d b ss = site_same \<longleftrightarrow>
     (\<exists>s\<in>set ss. site_file s = site_file d \<and> same_function (site_function s) (site_function d))"
  by (induction ss arbitrary: b) auto

lemma match_loop_differ:
  "match_loop ef d b ss = site_differ \<longleftrightarrow>
     \<not> b \<and> (\<forall>s\<in>set ss. \<not> (site_file s = site_file d \<and> same_function (site_function s) (site_function d))
                  \<and> \<not> ef (site_file s) (site_file d))"
  by (induction ss arbitrary: b) auto

lemma match_loop_range: "match_loop ef d b ss \<in> {site_same, site_differ, site_undetermined}"
  by (induction ss arbitrary: b) auto

lemma match_site_range: "match_site ef d r \<in> {site_same, site_differ, site_undetermined}"
  using match_loop_range [of ef d False] by (simp add: match_site_def Let_def)

lemma strip_prefix_once: "strip_instrumentation (''OSS_FUZZ_'' @ f) = f"
  by (simp add: strip_instrumentation_def instrumentation_prefixes_def trim_prefix_def
      del: append_Cons append.simps)

lemma distinct_add_site: "distinct out \<Longrightarrow> distinct (add_site out x)"
  by (cases x) (simp add: add_site_def Let_def)

lemma distinct_report_sites: "distinct (parse_report_sites r)"
proof -
  have "distinct (foldl add_site out xs)" if "distinct out" for out xs
    using that by (induction xs arbitrary: out) (auto simp: distinct_add_site)
  then show ?thesis by (simp add: parse_report_sites_def)
qed

section \<open>Stages and reasons\<close>

definition stage_m0 :: string where [simp]: "stage_m0 = ''m0-patch-effect''"
definition stage_m1 :: string where [simp]: "stage_m1 = ''m1-revert-to-attribute''"
definition stage_m2 :: string where [simp]: "stage_m2 = ''m2-class-replay''"
definition stage_m3 :: string where [simp]: "stage_m3 = ''m3-sanitizer-reachability''"
definition stage_m5 :: string where [simp]: "stage_m5 = ''m5-non-determinism''"
definition stage_unassigned :: string where [simp]: "stage_unassigned = ''unassigned''"

definition stage_for :: "string \<Rightarrow> string" where
  "stage_for reason =
     (if reason = reason_empty_patch then stage_m0
      else if reason \<in> set [reason_pov_not_reproduced, reason_patch_does_not_apply,
                 reason_revert_attribute_fail, reason_pov_site_undetermined] then stage_m1
      else if reason \<in> set [reason_class_replay_fail, reason_class_not_defined, reason_unadjudicated,
                 reason_class_no_reference, reason_class_truncated, reason_class_observer_missing] then stage_m2
      else if reason \<in> set [reason_new_sanitizer_finding, reason_new_test_failure] then stage_m3
      else if reason = reason_nondeterministic then stage_m5
      else stage_unassigned)"

definition responsible_stage :: "candidate \<Rightarrow> string" where
  "responsible_stage cand = (case cand_expected cand of None \<Rightarrow> [] | Some r \<Rightarrow> stage_for r)"

lemma stage_for_nonempty: "stage_for r \<noteq> []"
  by (simp add: stage_for_def)

section \<open>What validation establishes\<close>

definition candidate_sound :: "case_file \<Rightarrow> candidate \<Rightarrow> bool" where
  "candidate_sound c cand =
     (cand_id cand \<noteq> [] \<and> cand_patch cand \<noteq> [] \<and> label_known (cand_label cand) \<and>
      root_known (case_root c) \<and> root_known (pov_input_root (case_pov c)) \<and>
      root_known (cand_patch_root cand) \<and>
      (cand_expected cand = None \<longrightarrow> cand_label cand \<in> {label_unclassified, label_good}) \<and>
      (cand_expected cand = Some reason_class_replay_fail \<longrightarrow> case_class c \<noteq> None))"

definition class_sound :: "falsifying_class option \<Rightarrow> bool" where
  "class_sound fco = (\<forall>f. fco = Some f \<longrightarrow>
     \<not> blank (fc_generator f) \<and> \<not> blank (fc_discriminator f) \<and> 0 < fc_size f)"

lemma validate_candidate_iff:
  "validate_candidate c seen x = Inr () \<longleftrightarrow> candidate_sound c x \<and> cand_id x \<notin> set seen"
  by (auto simp: validate_candidate_def candidate_sound_def)

lemma validate_candidates_iff:
  "validate_candidates c seen xs = Inr () \<longleftrightarrow>
     (\<forall>x\<in>set xs. candidate_sound c x \<and> cand_id x \<notin> set seen) \<and> distinct (map cand_id xs)"
proof (induction xs arbitrary: seen)
  case Nil
  then show ?case by simp
next
  case (Cons x xs)
  show ?case
  proof (cases "validate_candidate c seen x")
    case (Inl e)
    then have "\<not> (candidate_sound c x \<and> cand_id x \<notin> set seen)"
      using validate_candidate_iff [of c seen x] by auto
    with Inl show ?thesis by auto
  next
    case (Inr v)
    then have "candidate_sound c x \<and> cand_id x \<notin> set seen"
      using validate_candidate_iff [of c seen x] by auto
    with Inr show ?thesis by (auto simp: Cons.IH) (metis image_eqI)
  qed
qed

lemma validate_class_iff: "validate_class fco = Inr () \<longleftrightarrow> class_sound fco"
  by (auto simp: validate_class_def class_sound_def split: option.splits)

lemma case_missing_Nil: "case_missing c = [] \<longleftrightarrow> (\<forall>(k, v)\<in>set (case_needs c). \<not> blank v)"
  by (auto simp: case_missing_def filter_empty_conv)

end
