(* ===== verification/Gate.thy ===== *)
theory Gate
  imports Corpus_Site
begin

text \<open>
  Package \<open>pkg/gate\<close>: the decision record and its validation (\<open>decision.go\<close>), the run of
  the stages (\<open>gate.go\<close>) and the patch-effect stage M0 (\<open>effect.go\<close>).

  A stage may drive containers and files, so running it passes a world of some type
  \<open>'w\<close> through; the world is whatever the stage's target is.  \<open>Verify\<close> itself touches it
  only by running the stages.
\<close>

section \<open>Decisions\<close>

definition verdict_accept :: string where [simp]: "verdict_accept = ''ACCEPT''"
definition verdict_reject :: string where [simp]: "verdict_reject = ''REJECT''"
definition verdict_error :: string where [simp]: "verdict_error = ''ERROR''"

definition outcome_passed :: string where [simp]: "outcome_passed = ''passed''"
definition outcome_failed :: string where [simp]: "outcome_failed = ''failed''"
definition outcome_undecided :: string where [simp]: "outcome_undecided = ''undecided''"

record stage_result =
  sr_stage :: string
  sr_outcome :: string
  sr_reason :: string
  sr_evidence :: "string list"

record artifact =
  art_role :: string
  art_path :: string
  art_sha256 :: string

record usage =
  us_purpose :: string
  us_backend :: string
  us_input_tokens :: int
  us_output_tokens :: int

record decision =
  d_case :: string
  d_candidate :: string
  d_verdict :: string
  d_reason :: string
  d_stages :: "stage_result list"
  d_not_proven :: "string list"
  d_artifacts :: "artifact list"
  d_usage :: "usage list"

definition non_blank :: "string list \<Rightarrow> nat" where
  "non_blank ss = length (filter (\<lambda>x. trim_space x \<noteq> []) ss)"

lemma non_blank_0: "non_blank ss = 0 \<longleftrightarrow> (\<forall>x\<in>set ss. blank x)"
  by (auto simp: non_blank_def blank_def filter_empty_conv)

text \<open>One constructor per problem \<open>Validate\<close> reports, carrying what its message prints.\<close>

datatype problem =
    NoCaseId | NoCandidateId | NoNotProven | NoStages
  | PassedWithReason string
  | NoReasonNamed string string
  | BadOutcome nat string
  | StageUnnamed nat
  | NoEvidence string
  | RecordedAfter string string nat
  | AcceptWithReason | AcceptWithFailed | AcceptWithUndecided
  | RejectWithUndecided | RejectNoReason | RejectReasonUnreported string
  | ErrorNoReason | ErrorReasonUnreported string | ErrorWithFailed
  | BadVerdict string

definition stage_problems :: "nat \<Rightarrow> stage_result \<Rightarrow> problem list" where
  "stage_problems i s =
     (if sr_outcome s = outcome_passed then
        (if sr_reason s \<noteq> [] then [PassedWithReason (sr_stage s)] else [])
      else if sr_outcome s = outcome_failed \<or> sr_outcome s = outcome_undecided then
        (if sr_reason s = [] then [NoReasonNamed (sr_stage s) (sr_outcome s)] else [])
      else [BadOutcome i (sr_outcome s)]) @
     (if sr_stage s = [] then [StageUnnamed i] else []) @
     (if non_blank (sr_evidence s) = 0 then [NoEvidence (sr_stage s)] else [])"

fun all_stage_problems :: "nat \<Rightarrow> stage_result list \<Rightarrow> problem list" where
  "all_stage_problems i [] = []"
| "all_stage_problems i (s # ss) = stage_problems i s @ all_stage_problems (Suc i) ss"

definition reasons_with :: "string \<Rightarrow> stage_result list \<Rightarrow> string list" where
  "reasons_with oc ss = map sr_reason (filter (\<lambda>s. sr_outcome s = oc) ss)"

text \<open>The first stage that is not passed must be the last one recorded.\<close>

fun after_problems :: "stage_result list \<Rightarrow> problem list" where
  "after_problems [] = []"
| "after_problems (s # ss) =
     (if sr_outcome s \<noteq> outcome_passed \<and> ss \<noteq> [] then
        [RecordedAfter (sr_stage s) (sr_outcome s) (length ss)]
      else after_problems ss)"

definition verdict_problems :: "decision \<Rightarrow> problem list" where
  "verdict_problems d =
     (let failed = reasons_with outcome_failed (d_stages d);
          undecided = reasons_with outcome_undecided (d_stages d)
      in if d_verdict d = verdict_accept then
           (if d_reason d \<noteq> [] then [AcceptWithReason] else []) @
           (if failed \<noteq> [] then [AcceptWithFailed] else []) @
           (if undecided \<noteq> [] then [AcceptWithUndecided] else [])
         else if d_verdict d = verdict_reject then
           (if undecided \<noteq> [] then [RejectWithUndecided] else []) @
           (if d_reason d = [] then [RejectNoReason]
            else if d_reason d \<notin> set failed then [RejectReasonUnreported (d_reason d)] else [])
         else if d_verdict d = verdict_error then
           (if d_reason d = [] then [ErrorNoReason]
            else if d_reason d \<notin> set undecided then [ErrorReasonUnreported (d_reason d)] else []) @
           (if failed \<noteq> [] then [ErrorWithFailed] else [])
         else [BadVerdict (d_verdict d)])"

definition decision_problems :: "decision \<Rightarrow> problem list" where
  "decision_problems d =
     (if d_case d = [] then [NoCaseId] else []) @
     (if d_candidate d = [] then [NoCandidateId] else []) @
     (if non_blank (d_not_proven d) = 0 then [NoNotProven] else []) @
     (if d_stages d = [] then [NoStages] else []) @
     all_stage_problems 0 (d_stages d) @ after_problems (d_stages d) @ verdict_problems d"

text \<open>
  \<open>Validate\<close>: the error lists every problem.  The code sorts the rendered problems before
  joining them; the list here is in the order of discovery.
\<close>

definition decision_validate :: "decision \<Rightarrow> (problem list, unit) result" where
  "decision_validate d = (if decision_problems d = [] then Inr () else Inl (decision_problems d))"

section \<open>Running the stages\<close>

record gate_input =
  gi_case :: case_file
  gi_candidate :: candidate
  gi_root :: string
  gi_repo_root :: string

record ('w, 'e) stage =
  st_name :: string
  st_run :: "gate_input \<Rightarrow> 'w \<Rightarrow> ('e, stage_result) result \<times> 'w"

datatype 'e gate_error = StageCouldNotRun string 'e | MalformedDecision "problem list"

definition name_result :: "string \<Rightarrow> stage_result \<Rightarrow> stage_result" where
  "name_result n r = (if sr_stage r = [] then r\<lparr>sr_stage := n\<rparr> else r)"

fun run_stages :: "gate_input \<Rightarrow> ('w, 'e) stage list \<Rightarrow> decision \<Rightarrow> 'w \<Rightarrow>
    ('e gate_error, decision) result \<times> 'w" where
  "run_stages inp [] d w = (Inr d, w)"
| "run_stages inp (s # ss) d w =
     (case st_run s inp w of
        (Inl e, w') \<Rightarrow> (Inl (StageCouldNotRun (st_name s) e), w')
      | (Inr r, w') \<Rightarrow>
          (let res = name_result (st_name s) r;
               d' = d\<lparr>d_stages := d_stages d @ [res]\<rparr>
           in if sr_outcome res = outcome_failed then
                (Inr (d'\<lparr>d_verdict := verdict_reject, d_reason := sr_reason res\<rparr>), w')
              else if sr_outcome res = outcome_undecided then
                (Inr (d'\<lparr>d_verdict := verdict_error, d_reason := sr_reason res\<rparr>), w')
              else run_stages inp ss d' w'))"

definition initial_decision :: "gate_input \<Rightarrow> string list \<Rightarrow> decision" where
  "initial_decision inp not_proven =
     \<lparr>d_case = case_id (gi_case inp), d_candidate = cand_id (gi_candidate inp),
      d_verdict = verdict_accept, d_reason = [], d_stages = [], d_not_proven = not_proven,
      d_artifacts = [], d_usage = []\<rparr>"

definition gate_verify :: "gate_input \<Rightarrow> ('w, 'e) stage list \<Rightarrow> string list \<Rightarrow> 'w \<Rightarrow>
    ('e gate_error, decision) result \<times> 'w" where
  "gate_verify inp stages not_proven w =
     (case run_stages inp stages (initial_decision inp not_proven) w of
        (Inl e, w') \<Rightarrow> (Inl e, w')
      | (Inr d, w') \<Rightarrow>
          (case decision_validate d of
             Inl ps \<Rightarrow> (Inl (MalformedDecision ps), w')
           | Inr _ \<Rightarrow> (Inr d, w')))"

end
