(* ===== verification/Samples.thy ===== *)
theory Samples
  imports Gate
begin

text \<open>
  A small case, with one candidate, on which the general theorems are applied: the
  libpng case of the corpus with its texts shortened.
\<close>

definition sample_candidate :: candidate where
  "sample_candidate = \<lparr>cand_id = ''fix'', cand_patch = ''fix.diff'', cand_label = label_good,
     cand_patch_root = [], cand_expected = None\<rparr>"

definition sample_source :: src_info where
  "sample_source = \<lparr>cp_repo = ''cp'', cp_commit = ''c0'', src_repo = ''libpng'', src_ref = ''main'',
     src_commit = ''c1'', base_commit = ''c2'', fuzz_tooling_repo = ''oss-fuzz'', fuzz_tooling_ref = ''main'',
     fuzz_tooling_commit = ''c3'', fuzz_tooling_project = ''libpng''\<rparr>"

definition sample_pov :: pov where
  "sample_pov = \<lparr>pov_input = ''pov.png'', pov_sanitizer = ''address'',
     pov_expected = ''AddressSanitizer'', pov_crash_location = ''heap-buffer-overflow in png_inflate'',
     pov_signal = [], pov_input_root = []\<rparr>"

definition sample_class :: falsifying_class where
  "sample_class = \<lparr>fc_description = ''iccp'', fc_generator = ''gen.py'', fc_size = 2,
     fc_discriminator = ''rejected'', fc_observer = ''observe.sh''\<rparr>"

definition sample_case :: case_file where
  "sample_case = \<lparr>case_id = ''libpng-1'', case_language = ''c'', case_cwe = ''CWE-122'',
     case_cwe_name = ''heap overflow'', case_target = ''libpng'', case_harness = ''read_fuzzer'',
     case_root = [], case_source = sample_source, case_pov = sample_pov, case_kind = kind_oracle,
     case_reference_patch = ''good.diff'', case_candidates = [sample_candidate],
     case_class = Some sample_class, case_path = []\<rparr>"

definition sample_input :: gate_input where
  "sample_input = \<lparr>gi_case = sample_case, gi_candidate = sample_candidate, gi_root = [], gi_repo_root = []\<rparr>"

lemmas sample_defs = sample_input_def sample_case_def sample_candidate_def sample_pov_def
  sample_source_def sample_class_def

end
