(* ===== verification/Go_Encoding.thy ===== *)
theory Go_Encoding
  imports Arazu_Base
begin

text \<open>
  Text encodings of Go's standard library: lines as \<open>bufio.Scanner\<close> cuts them, decimal
  numbers (\<open>strconv\<close>, \<open>%d\<close>), \<open>encoding/hex\<close> and \<open>encoding/base64\<close> with their round
  trips.
\<close>

section \<open>Lines\<close>

definition newline :: char where [simp]: "newline = CHR 0x0A"

definition raw_lines :: "string \<Rightarrow> string list" where
  "raw_lines s = (let ws = split_char newline s in if last ws = [] then butlast ws else ws)"

definition drop_cr :: "string \<Rightarrow> string" where
  "drop_cr l = (if l \<noteq> [] \<and> last l = CHR 0x0D then butlast l else l)"

text \<open>
  The tokens a \<open>bufio.Scanner\<close> with \<open>ScanLines\<close> and the given buffer limit delivers, and
  whether it stopped at a line that does not fit (\<open>bufio.ErrTooLong\<close>): a line of as many
  bytes as the buffer holds leaves no room for its end.
\<close>

definition scan_lines :: "nat \<Rightarrow> string \<Rightarrow> string list \<times> bool" where
  "scan_lines limit s =
     (let ls = raw_lines s; fits = takeWhile (\<lambda>l. length l < limit) ls
      in (map drop_cr fits, length fits < length ls))"

definition default_scan_limit :: nat where "default_scan_limit = 64 * 1024"

lemma raw_lines_Nil [simp]: "raw_lines [] = []"
  by (simp add: raw_lines_def)

lemma raw_lines_append:
  "newline \<notin> set l \<Longrightarrow> raw_lines (l @ newline # s) = l # raw_lines s"
  using split_char_append [of newline l s]
  by (simp add: raw_lines_def Let_def)

lemma raw_lines_last: "newline \<notin> set l \<Longrightarrow> l \<noteq> [] \<Longrightarrow> raw_lines l = [l]"
  by (simp add: raw_lines_def split_char_no_sep)

text \<open>A file that ends in a line break, extended by one line.\<close>

definition terminated :: "string \<Rightarrow> bool" where
  "terminated s = (s = [] \<or> last s = newline)"

lemma raw_lines_snoc:
  assumes "terminated f" "newline \<notin> set l"
  shows "raw_lines (f @ l @ [newline]) = raw_lines f @ [l]"
proof (cases "f = []")
  case True
  with assms(2) raw_lines_append [of l "[]"] show ?thesis by simp
next
  case False
  with assms(1) obtain g where f: "f = g @ [newline]"
    by (metis append_butlast_last_id terminated_def)
  have "split_char newline (f @ l @ [newline]) = split_char newline g @ [l, []]"
    using split_char_app [of newline g "l @ [newline]"] split_char_append [of newline l "[]"] assms(2)
    by (simp add: f)
  moreover have "split_char newline f = split_char newline g @ [[]]"
    using split_char_app [of newline g "[]"] by (simp add: f)
  ultimately show ?thesis by (simp add: raw_lines_def butlast_append)
qed

lemma terminated_snoc [simp]: "terminated (f @ l @ [newline])"
  by (simp add: terminated_def)

lemma takeWhile_all_length: "length (takeWhile P xs) < length xs \<longleftrightarrow> \<not> list_all P xs"
  by (induction xs) auto

lemma scan_lines_too_long: "snd (scan_lines n s) \<longleftrightarrow> \<not> list_all (\<lambda>l. length l < n) (raw_lines s)"
  by (simp add: scan_lines_def Let_def takeWhile_all_length)

lemma scan_lines_ok:
  "list_all (\<lambda>l. length l < n) (raw_lines s) \<Longrightarrow> scan_lines n s = (map drop_cr (raw_lines s), False)"
  by (simp add: scan_lines_def Let_def takeWhile_eq_all_conv [THEN iffD2] list_all_iff)

section \<open>Decimal numbers\<close>

definition digit_char :: "nat \<Rightarrow> char" where
  "digit_char d = char_of (48 + d)"

fun nat_dec :: "nat \<Rightarrow> string" where
  "nat_dec n = (if n < 10 then [digit_char n] else nat_dec (n div 10) @ [digit_char (n mod 10)])"

declare nat_dec.simps [simp del]

definition int_dec :: "int \<Rightarrow> string" where
  "int_dec i = (if i < 0 then CHR ''-'' # nat_dec (nat (- i)) else nat_dec (nat i))"

definition is_digit :: "char \<Rightarrow> bool" where
  "is_digit c = (CHR ''0'' \<le> c \<and> c \<le> CHR ''9'')"

definition digit_val :: "char \<Rightarrow> nat" where
  "digit_val c = of_char c - 48"

definition dec_val :: "string \<Rightarrow> nat" where
  "dec_val s = foldl (\<lambda>a c. 10 * a + digit_val c) 0 s"

text \<open>\<open>strconv.ParseUint(s, 10, 64)\<close>: digits only, at least one, below \<open>2^64\<close>.\<close>

definition parse_uint64 :: "string \<Rightarrow> 64 word option" where
  "parse_uint64 s =
     (if s \<noteq> [] \<and> list_all is_digit s \<and> dec_val s < 2 ^ 64 then Some (of_nat (dec_val s)) else None)"

lemma of_char_digit: "d < 10 \<Longrightarrow> of_char (digit_char d) = (48 + d :: nat)"
  by (simp add: digit_char_def)

lemma is_digit_nat: "is_digit c \<longleftrightarrow> (48::nat) \<le> of_char c \<and> of_char c \<le> (57::nat)"
  by (simp add: is_digit_def less_eq_char_def)

lemma digit_char_digit [simp]: "d < 10 \<Longrightarrow> is_digit (digit_char d)"
  by (simp add: is_digit_nat of_char_digit)

lemma digit_val_char [simp]: "d < 10 \<Longrightarrow> digit_val (digit_char d) = d"
  by (simp add: digit_val_def of_char_digit)

lemma is_digit_solid: "is_digit c \<Longrightarrow> solid_byte c"
  by (simp add: is_digit_nat solid_byte_nat)

lemma nat_dec_digits: "list_all is_digit (nat_dec n)"
proof (induction n rule: nat_dec.induct)
  case (1 n)
  show ?case
    by (cases "n < 10") (simp_all add: nat_dec.simps [of n] "1.IH")
qed

lemma nat_dec_no_newline: "newline \<notin> set (nat_dec n)"
  using nat_dec_digits [of n] by (auto simp: list_all_iff is_digit_nat)

lemma nat_dec_not_Nil [simp]: "nat_dec n \<noteq> []"
  by (subst nat_dec.simps) simp

lemma dec_val_nat_dec [simp]: "dec_val (nat_dec n) = n"
proof (induction n rule: nat_dec.induct)
  case (1 n)
  show ?case
  proof (cases "n < 10")
    case True
    then show ?thesis by (simp add: nat_dec.simps [of n] dec_val_def)
  next
    case False
    then have "nat_dec n = nat_dec (n div 10) @ [digit_char (n mod 10)]"
      by (simp add: nat_dec.simps [of n])
    with "1.IH" [OF False] show ?thesis by (simp add: dec_val_def)
  qed
qed

lemma nat_dec_inj [simp]: "nat_dec m = nat_dec n \<longleftrightarrow> m = n"
  by (metis dec_val_nat_dec)

lemma parse_uint64_nat_dec: "n < 2 ^ 64 \<Longrightarrow> parse_uint64 (nat_dec n) = Some (of_nat n)"
  by (simp add: parse_uint64_def nat_dec_digits)

lemma parse_uint64_dec: "parse_uint64 (nat_dec (unat w)) = Some w"
proof -
  have "unat w < 2 ^ LENGTH(64)" by (rule unsigned_less)
  with parse_uint64_nat_dec [of "unat w"] show ?thesis by simp
qed

lemma digit_char_0: "d < 10 \<Longrightarrow> digit_char d = CHR ''0'' \<longleftrightarrow> d = 0"
proof -
  assume d: "d < 10"
  have "digit_char d = CHR ''0'' \<longleftrightarrow> (of_char (digit_char d) :: nat) = of_char CHR ''0''"
    by (simp only: of_char_eq_iff)
  also have "\<dots> \<longleftrightarrow> d = 0" by (simp add: of_char_digit [OF d])
  finally show ?thesis .
qed

lemma nat_dec_hd: "n \<noteq> 0 \<Longrightarrow> hd (nat_dec n) \<noteq> CHR ''0''"
proof (induction n rule: nat_dec.induct)
  case (1 n)
  show ?case
  proof (cases "n < 10")
    case True
    with "1.prems" show ?thesis by (simp add: nat_dec.simps [of n] digit_char_0)
  next
    case False
    then have "n div 10 \<noteq> 0" by (simp add: div_eq_0_iff)
    with "1.IH" [OF False] have "hd (nat_dec (n div 10)) \<noteq> CHR ''0''" .
    moreover have "nat_dec n = nat_dec (n div 10) @ [digit_char (n mod 10)]"
      using False by (subst nat_dec.simps) simp
    ultimately show ?thesis by simp
  qed
qed

lemma char_nibbles: "of_char (c::char) div 16 < (16::nat)" "of_char (c::char) mod 16 < (16::nat)"
proof -
  have "of_char c < (16 * 16 :: nat)" by simp
  then show "of_char c div 16 < (16::nat)" by (rule less_mult_imp_div_less)
qed simp

section \<open>Hexadecimal\<close>

definition hex_char :: "nat \<Rightarrow> char" where
  "hex_char d = char_of (if d < 10 then 48 + d else 87 + d)"

definition hex_encode :: "string \<Rightarrow> string" where
  "hex_encode s = concat (map (\<lambda>c. [hex_char (of_char c div 16), hex_char (of_char c mod 16)]) s)"

definition hex_val :: "char \<Rightarrow> nat option" where
  "hex_val c =
     (if is_digit c then Some (of_char c - 48)
      else if CHR ''a'' \<le> c \<and> c \<le> CHR ''f'' then Some (of_char c - 87)
      else if CHR ''A'' \<le> c \<and> c \<le> CHR ''F'' then Some (of_char c - 55)
      else None)"

fun hex_decode :: "string \<Rightarrow> string option" where
  "hex_decode [] = Some []"
| "hex_decode [a] = None"
| "hex_decode (a # b # s) =
     (case (hex_val a, hex_val b, hex_decode s) of
        (Some x, Some y, Some t) \<Rightarrow> Some (char_of (16 * x + y) # t)
      | _ \<Rightarrow> None)"

lemma hex_val_char [simp]: "d < 16 \<Longrightarrow> hex_val (hex_char d) = Some d"
  by (auto simp: hex_val_def hex_char_def is_digit_nat less_eq_char_def)

lemma hex_decode_encode: "hex_decode (hex_encode s) = Some s"
proof (induction s)
  case Nil
  then show ?case by (simp add: hex_encode_def)
next
  case (Cons c s)
  then show ?case by (simp add: hex_encode_def char_nibbles)
qed

lemma length_hex_encode [simp]: "length (hex_encode s) = 2 * length s"
  by (induction s) (simp_all add: hex_encode_def)

lemma hex_encode_inj: "hex_encode a = hex_encode b \<longleftrightarrow> a = b"
  by (metis hex_decode_encode option.inject)

lemma hex_char_solid: "d < 16 \<Longrightarrow> solid_byte (hex_char d)"
  by (auto simp: solid_byte_nat hex_char_def)

lemma hex_encode_solid: "list_all solid_byte (hex_encode s)"
proof (induction s)
  case Nil
  then show ?case by (simp add: hex_encode_def)
next
  case (Cons c s)
  then show ?case by (simp add: hex_encode_def hex_char_solid char_nibbles)
qed

end
