(* ===== verification/Gate_Stages.thy ===== *)
theory Gate_Stages
  imports Samples Go_Encoding
begin

text \<open>
  What a run of the gate guarantees, for every list of stages that keep the contract
  between a stage and the gate; and the patch-effect stage M0 (\<open>pkg/gate/effect.go\<close>).

  The contract is the locale \<open>gate_stage\<close>: a result is named after the stage or not at
  all, carries evidence, gives a reason exactly when it is not passed, and has one of the
  three outcomes.  Each stage of the development is an interpretation of it.
\<close>

section \<open>The contract of a stage\<close>

definition result_sound :: "stage_result \<Rightarrow> bool" where
  "result_sound r =
     ((sr_outcome r = outcome_passed \<and> sr_reason r = [] \<or>
       (sr_outcome r = outcome_failed \<or> sr_outcome r = outcome_undecided) \<and> sr_reason r \<noteq> []) \<and>
      non_blank (sr_evidence r) \<noteq> 0)"

locale gate_stage =
  fixes stage :: "('w, 'e) stage"
  assumes stage_named: "st_name stage \<noteq> []"
    and stage_result_sound: "st_run stage inp w = (Inr r, w') \<Longrightarrow> result_sound r"
    and stage_result_name: "st_run stage inp w = (Inr r, w') \<Longrightarrow> sr_stage r = [] \<or> sr_stage r = st_name stage"
begin

lemma named_result_sound:
  "st_run stage inp w = (Inr r, w') \<Longrightarrow> stage_problems i (name_result (st_name stage) r) = []"
  using stage_result_sound [of inp w r w'] stage_named
  by (auto simp: stage_problems_def result_sound_def name_result_def)

lemma recorded_name:
  "st_run stage inp w = (Inr r, w') \<Longrightarrow> sr_stage (name_result (st_name stage) r) = st_name stage"
  using stage_result_name [of inp w r w'] by (auto simp: name_result_def)

lemma result_stops_or_passes:
  "st_run stage inp w = (Inr r, w') \<Longrightarrow>
     sr_outcome r = outcome_passed \<or> sr_outcome r = outcome_failed \<or> sr_outcome r = outcome_undecided"
  using stage_result_sound [of inp w r w'] by (auto simp: result_sound_def)

end

lemma all_stage_problems_append:
  "all_stage_problems i (xs @ ys) = all_stage_problems i xs @ all_stage_problems (i + length xs) ys"
  by (induction xs arbitrary: i) auto

lemma all_stage_problems_Nil:
  "all_stage_problems i ss = [] \<longleftrightarrow> (\<forall>j<length ss. stage_problems (i + j) (ss ! j) = [])"
proof (induction ss arbitrary: i)
  case Nil
  then show ?case by simp
next
  case (Cons s ss)
  have "(\<forall>j<Suc (length ss). stage_problems (i + j) ((s # ss) ! j) = []) \<longleftrightarrow>
        stage_problems i s = [] \<and> (\<forall>j<length ss. stage_problems (Suc i + j) (ss ! j) = [])"
    by (auto simp: less_Suc_eq_0_disj)
  with Cons show ?case by simp
qed

lemma after_problems_passed_prefix:
  "\<forall>s\<in>set xs. sr_outcome s = outcome_passed \<Longrightarrow> after_problems (xs @ [r]) = []"
  by (induction xs) auto

lemma after_problems_passed:
  "\<forall>s\<in>set xs. sr_outcome s = outcome_passed \<Longrightarrow> after_problems xs = []"
  by (induction xs) auto

lemma after_problems_NilD:
  "after_problems ss = [] \<Longrightarrow> ss \<noteq> [] \<Longrightarrow> \<forall>s\<in>set (butlast ss). sr_outcome s = outcome_passed"
  by (induction ss) (auto split: if_splits)

text \<open>
  The shape of a run over stages that keep the contract: the recorded results are those
  of the stages, all passed but perhaps the last, and the verdict is the last result's.
\<close>

definition run_shape :: "decision \<Rightarrow> bool" where
  "run_shape d =
     (all_stage_problems 0 (d_stages d) = [] \<and>
      (d_verdict d = verdict_accept \<and> d_reason d = [] \<and>
         (\<forall>s\<in>set (d_stages d). sr_outcome s = outcome_passed) \<or>
       (\<exists>xs r. d_stages d = xs @ [r] \<and> (\<forall>s\<in>set xs. sr_outcome s = outcome_passed) \<and>
          d_reason d = sr_reason r \<and>
          (d_verdict d = verdict_reject \<and> sr_outcome r = outcome_failed \<or>
           d_verdict d = verdict_error \<and> sr_outcome r = outcome_undecided))))"

lemma run_shape_accept:
  "run_shape d \<Longrightarrow> d_verdict d = verdict_accept \<Longrightarrow>
     all_stage_problems 0 (d_stages d) = [] \<and> d_reason d = [] \<and>
     (\<forall>s\<in>set (d_stages d). sr_outcome s = outcome_passed)"
  by (auto simp: run_shape_def)

lemma run_shape_snoc:
  assumes "run_shape d" "d_verdict d = verdict_accept" "stage_problems (length (d_stages d)) r = []"
  defines "d1 \<equiv> d\<lparr>d_stages := d_stages d @ [r]\<rparr>"
  shows "sr_outcome r = outcome_passed \<Longrightarrow> run_shape d1"
    and "sr_outcome r = outcome_failed \<Longrightarrow> run_shape (d1\<lparr>d_verdict := verdict_reject, d_reason := sr_reason r\<rparr>)"
    and "sr_outcome r = outcome_undecided \<Longrightarrow> run_shape (d1\<lparr>d_verdict := verdict_error, d_reason := sr_reason r\<rparr>)"
  using run_shape_accept [OF assms(1,2)] assms(2,3)
  by (auto simp: run_shape_def d1_def all_stage_problems_append)

lemma run_stages_shape:
  assumes "\<forall>s\<in>set ss. gate_stage s"
    and "run_stages inp ss d w = (Inr d', w')"
    and "run_shape d" "d_verdict d = verdict_accept"
  shows "run_shape d'"
  using assms
proof (induction ss arbitrary: d w)
  case Nil
  then show ?case by simp
next
  case (Cons s ss)
  have gs: "gate_stage s" using Cons.prems(1) by simp
  obtain r w1 where r: "st_run s inp w = (Inr r, w1)"
    using Cons.prems(2) by (auto split: prod.splits sum.splits)
  let ?r = "name_result (st_name s) r"
  have pr: "stage_problems (length (d_stages d)) ?r = []"
    by (rule gate_stage.named_result_sound [OF gs r])
  note snoc = run_shape_snoc [OF Cons.prems(3,4) pr]
  have oc: "sr_outcome ?r = sr_outcome r" by (simp add: name_result_def)
  consider "sr_outcome ?r = outcome_passed" | "sr_outcome ?r = outcome_failed" | "sr_outcome ?r = outcome_undecided"
    using gate_stage.result_stops_or_passes [OF gs r] oc by auto
  then show ?case
  proof cases
    case 1
    with Cons.prems(2) r have "run_stages inp ss (d\<lparr>d_stages := d_stages d @ [?r]\<rparr>) w1 = (Inr d', w')"
      by (simp add: Let_def)
    with Cons.IH [OF _ this] Cons.prems(1,4) snoc(1) [OF 1] show ?thesis by simp
  next
    case 2
    with Cons.prems(2) r snoc(2) [OF 2] show ?thesis by (auto simp: Let_def)
  next
    case 3
    with Cons.prems(2) r snoc(3) [OF 3] show ?thesis by (auto simp: Let_def)
  qed
qed

lemma run_shape_initial: "run_shape (initial_decision inp np)"
  by (simp add: run_shape_def initial_decision_def)

lemma run_shape_verdict_problems: "run_shape d \<Longrightarrow> all_stage_problems 0 (d_stages d) = [] \<Longrightarrow> verdict_problems d = []"
  unfolding run_shape_def
  by (auto simp: verdict_problems_def reasons_with_def Let_def filter_empty_conv
        all_stage_problems_append stage_problems_def split: if_splits)

text \<open>The fields a run does not write.\<close>

lemma run_stages_frame:
  "run_stages inp ss d w = (Inr d', w') \<Longrightarrow>
     d_case d' = d_case d \<and> d_candidate d' = d_candidate d \<and> d_not_proven d' = d_not_proven d \<and>
     d_artifacts d' = d_artifacts d \<and> d_usage d' = d_usage d"
  by (induction ss arbitrary: d w)
     (fastforce simp: Let_def split: prod.splits sum.splits if_splits)+

lemma run_stages_nonempty:
  "run_stages inp ss d w = (Inr d', w') \<Longrightarrow> length (d_stages d) \<le> length (d_stages d')"
  by (induction ss arbitrary: d w)
     (fastforce simp: Let_def split: prod.splits sum.splits if_splits)+

lemma run_stages_progress:
  "ss \<noteq> [] \<Longrightarrow> run_stages inp ss d w = (Inr d', w') \<Longrightarrow> d_stages d' \<noteq> []"
  using run_stages_nonempty
  by (cases ss) (fastforce simp: Let_def split: prod.splits sum.splits if_splits)+

text \<open>Every recorded result carries the name of the stage that ran at its position.\<close>

lemma run_stages_names:
  assumes "\<forall>s\<in>set ss. gate_stage s" "run_stages inp ss d w = (Inr d', w')"
  shows "\<exists>n\<le>length ss. map sr_stage (d_stages d') = map sr_stage (d_stages d) @ map st_name (take n ss) \<and>
           (n < length ss \<longrightarrow> d_stages d' \<noteq> [] \<and> sr_outcome (last (d_stages d')) \<noteq> outcome_passed)"
  using assms
proof (induction ss arbitrary: d w)
  case Nil
  then show ?case by simp
next
  case (Cons s ss)
  have gs: "gate_stage s" using Cons.prems(1) by simp
  obtain r w1 where r: "st_run s inp w = (Inr r, w1)"
    using Cons.prems(2) by (auto split: prod.splits sum.splits)
  let ?r = "name_result (st_name s) r"
  have nm: "sr_stage ?r = st_name s" by (rule gate_stage.recorded_name [OF gs r])
  show ?case
  proof (cases "sr_outcome ?r = outcome_failed \<or> sr_outcome ?r = outcome_undecided")
    case True
    with Cons.prems(2) r have "d_stages d' = d_stages d @ [?r]"
      by (auto simp: Let_def)
    with nm True have "map sr_stage (d_stages d') = map sr_stage (d_stages d) @ map st_name (take 1 (s # ss)) \<and>
        d_stages d' \<noteq> [] \<and> sr_outcome (last (d_stages d')) \<noteq> outcome_passed"
      by auto
    then show ?thesis by (intro exI [of _ 1]) auto
  next
    case False
    with Cons.prems(2) r have run: "run_stages inp ss (d\<lparr>d_stages := d_stages d @ [?r]\<rparr>) w1 = (Inr d', w')"
      by (auto simp: Let_def)
    from Cons.IH [OF _ run] Cons.prems(1) obtain n where n: "n \<le> length ss"
      "map sr_stage (d_stages d') = (map sr_stage (d_stages d) @ [st_name s]) @ map st_name (take n ss)"
      "n < length ss \<longrightarrow> d_stages d' \<noteq> [] \<and> sr_outcome (last (d_stages d')) \<noteq> outcome_passed"
      using nm by auto
    then show ?thesis by (intro exI [of _ "Suc n"]) auto
  qed
qed

text \<open>A run of a fresh gate, with everything the lemmas above say of it.\<close>

lemma gate_verify_run:
  assumes "gate_verify inp ss np w = (Inr d, w')"
  shows "run_stages inp ss (initial_decision inp np) w = (Inr d, w')" "decision_problems d = []"
  using assms
  by (auto simp: gate_verify_def decision_validate_def split: prod.splits sum.splits if_splits)

section \<open>Well-formed decisions\<close>

definition stage_entry_wf :: "stage_result \<Rightarrow> bool" where
  "stage_entry_wf s = (sr_stage s \<noteq> [] \<and> result_sound s)"

text \<open>
  The declarative reading of \<open>Validate\<close>: identified, something left unproven, at least
  one stage, all stages but the last passed, and the verdict and reason of the last one.
\<close>

definition decision_wf :: "decision \<Rightarrow> bool" where
  "decision_wf d =
     (d_case d \<noteq> [] \<and> d_candidate d \<noteq> [] \<and> (\<exists>x\<in>set (d_not_proven d). \<not> blank x) \<and>
      d_stages d \<noteq> [] \<and> (\<forall>s\<in>set (d_stages d). stage_entry_wf s) \<and>
      (\<forall>s\<in>set (butlast (d_stages d)). sr_outcome s = outcome_passed) \<and>
      d_reason d = sr_reason (last (d_stages d)) \<and>
      (d_verdict d, sr_outcome (last (d_stages d))) \<in>
         {(verdict_accept, outcome_passed), (verdict_reject, outcome_failed), (verdict_error, outcome_undecided)})"

lemma stage_problems_wf: "stage_problems i s = [] \<longleftrightarrow> stage_entry_wf s"
  by (auto simp: stage_problems_def stage_entry_wf_def result_sound_def)

lemma all_stage_problems_wf: "all_stage_problems i ss = [] \<longleftrightarrow> (\<forall>s\<in>set ss. stage_entry_wf s)"
  by (induction ss arbitrary: i) (auto simp: stage_problems_wf)

lemma after_problems_iff:
  "after_problems ss = [] \<longleftrightarrow> (\<forall>s\<in>set (butlast ss). sr_outcome s = outcome_passed)"
  by (induction ss) auto

lemma reasons_with_snoc:
  "reasons_with oc (xs @ [r]) = reasons_with oc xs @ (if sr_outcome r = oc then [sr_reason r] else [])"
  by (simp add: reasons_with_def)

lemma reasons_with_passed:
  "\<forall>s\<in>set xs. sr_outcome s = outcome_passed \<Longrightarrow> oc \<noteq> outcome_passed \<Longrightarrow> reasons_with oc xs = []"
  by (auto simp: reasons_with_def filter_empty_conv)

lemma verdict_problems_iff:
  assumes ss: "d_stages d = xs @ [r]" and pre: "\<forall>s\<in>set xs. sr_outcome s = outcome_passed"
    and wf: "stage_entry_wf r"
  shows "verdict_problems d = [] \<longleftrightarrow> d_reason d = sr_reason r \<and>
     (d_verdict d, sr_outcome r) \<in>
       {(verdict_accept, outcome_passed), (verdict_reject, outcome_failed), (verdict_error, outcome_undecided)}"
proof -
  have f: "reasons_with outcome_failed xs = []" "reasons_with outcome_undecided xs = []"
    using reasons_with_passed [OF pre] by auto
  show ?thesis
    using wf by (auto simp: verdict_problems_def ss reasons_with_snoc f [simplified] stage_entry_wf_def
      result_sound_def Let_def)
qed

lemma decision_validate_wf: "decision_validate d = Inr () \<longleftrightarrow> decision_wf d"
proof (cases "d_stages d" rule: rev_cases)
  case Nil
  then show ?thesis by (simp add: decision_validate_def decision_problems_def decision_wf_def)
next
  case (snoc xs r)
  have "decision_validate d = Inr () \<longleftrightarrow> decision_problems d = []"
    by (simp add: decision_validate_def)
  also have "\<dots> \<longleftrightarrow> d_case d \<noteq> [] \<and> d_candidate d \<noteq> [] \<and> non_blank (d_not_proven d) \<noteq> 0 \<and>
      (\<forall>s\<in>set (xs @ [r]). stage_entry_wf s) \<and> (\<forall>s\<in>set xs. sr_outcome s = outcome_passed) \<and>
      verdict_problems d = []"
    using snoc by (auto simp: decision_problems_def all_stage_problems_wf after_problems_iff)
  also have "\<dots> \<longleftrightarrow> decision_wf d"
    using snoc verdict_problems_iff [OF snoc]
    by (auto simp: decision_wf_def non_blank_0)
  finally show ?thesis .
qed

text \<open>
  C7.  A decision passes \<open>Validate\<close> exactly when it is well formed: it names its case and
  candidate, says what it does not prove, has at least one stage, every stage is named,
  carries evidence and a reason exactly when it did not pass, all stages but the last
  passed, and the verdict and reason are those of the last stage.
\<close>

theorem validate_iff_well_formed: "decision_validate d = Inr () \<longleftrightarrow> decision_wf d"
  by (rule decision_validate_wf)

text \<open>What a decision of a run over the stages \<open>ss\<close> says of that run.\<close>

definition run_reported :: "('w, 'e) stage list \<Rightarrow> decision \<Rightarrow> bool" where
  "run_reported ss d =
     (map sr_stage (d_stages d) = map st_name (take (length (d_stages d)) ss) \<and>
      (d_verdict d = verdict_accept) =
        (length (d_stages d) = length ss \<and> list_all (\<lambda>s. sr_outcome s = outcome_passed) (d_stages d)) \<and>
      (d_verdict d = verdict_reject) = (sr_outcome (last (d_stages d)) = outcome_failed) \<and>
      (d_verdict d = verdict_error) = (sr_outcome (last (d_stages d)) = outcome_undecided) \<and>
      d_reason d = sr_reason (last (d_stages d)))"

text \<open>
  C34.  Over stages that keep their contract, a verdict says what ran: the recorded
  results are those of the first stages in order, ACCEPT is returned exactly when every
  stage ran and passed, REJECT exactly when the last recorded one failed, ERROR exactly
  when it was undecided, and the reason is that stage's own.
\<close>

theorem gate_verdict_reports_the_run:
  assumes "\<forall>s\<in>set ss. gate_stage s" "ss \<noteq> []" "gate_verify inp ss np w = (Inr d, w')"
  shows "run_reported ss d"
proof -
  note run = gate_verify_run [OF assms(3)]
  have wf: "decision_wf d"
    using run(2) decision_validate_wf [of d] by (simp add: decision_validate_def)
  from run_stages_names [OF assms(1) run(1)] obtain n where n: "n \<le> length ss"
    "map sr_stage (d_stages d) = map st_name (take n ss)"
    "n < length ss \<longrightarrow> sr_outcome (last (d_stages d)) \<noteq> outcome_passed"
    by (auto simp: initial_decision_def)
  have len: "length (d_stages d) = n"
    using arg_cong [OF n(2), of length] n(1) by simp
  obtain xs r where d: "d_stages d = xs @ [r]"
    using wf by (cases "d_stages d" rule: rev_cases) (auto simp: decision_wf_def)
  have acc: "d_verdict d = verdict_accept \<longleftrightarrow>
      length (d_stages d) = length ss \<and> list_all (\<lambda>s. sr_outcome s = outcome_passed) (d_stages d)"
    using wf n len by (auto simp: decision_wf_def d list_all_iff)
  have rest: "d_verdict d = verdict_reject \<longleftrightarrow> sr_outcome (last (d_stages d)) = outcome_failed"
    "d_verdict d = verdict_error \<longleftrightarrow> sr_outcome (last (d_stages d)) = outcome_undecided"
    "d_reason d = sr_reason (last (d_stages d))"
    using wf by (auto simp: decision_wf_def)
  show ?thesis
    unfolding run_reported_def using acc rest n(2) len by blast
qed

text \<open>
   The gate never refuses its own work: over stages that keep their contract, with
  a case and a candidate that have ids and something stated as not proven, \<open>Verify\<close>
  returns a decision or the stage that could not run, never a malformed decision.
\<close>

theorem gate_verify_never_malformed:
  assumes "\<forall>s\<in>set ss. gate_stage s" "ss \<noteq> []"
    and "case_id (gi_case inp) \<noteq> []" "cand_id (gi_candidate inp) \<noteq> []" "\<exists>x\<in>set np. \<not> blank x"
  shows "fst (gate_verify inp ss np w) \<noteq> Inl (MalformedDecision ps)"
proof (cases "run_stages inp ss (initial_decision inp np) w")
  case (Pair res w')
  show ?thesis
  proof (cases res)
    case (Inl e)
    have "run_stages inp ss d w \<noteq> (Inl (MalformedDecision ps), w')" for d
      by (induction ss arbitrary: d w) (auto simp: Let_def split: prod.splits sum.splits)
    then have "e \<noteq> MalformedDecision ps" using Pair Inl by auto
    with Pair Inl show ?thesis by (simp add: gate_verify_def)
  next
    case (Inr d)
    with Pair have run: "run_stages inp ss (initial_decision inp np) w = (Inr d, w')" by simp
    have shape: "run_shape d"
      by (rule run_stages_shape [OF assms(1) run run_shape_initial]) (simp add: initial_decision_def)
    have ne: "d_stages d \<noteq> []" by (rule run_stages_progress [OF assms(2) run])
    have "decision_wf d"
      using shape ne run_stages_frame [OF run] assms(3-5)
      by (auto simp: run_shape_def decision_wf_def initial_decision_def all_stage_problems_wf
            stage_entry_wf_def result_sound_def dest: in_set_butlastD last_in_set)
    then have "decision_validate d = Inr ()" by (simp add: decision_validate_wf)
    with Pair Inr show ?thesis by (simp add: gate_verify_def)
  qed
qed

section \<open>M0: the patch-effect stage\<close>

text \<open>
  What opening the patch gives: an error, or the bytes read and the error the reading
  ends with, if any.
\<close>

datatype file_read = OpenFailed string | Contents string "string option"

datatype effect_error = PatchUnopened string string | PatchUnread string string | PatchLineTooLong string

record patch_count =
  pc_added :: nat
  pc_removed :: nat
  pc_hunks :: nat

definition count_line :: "patch_count \<Rightarrow> string \<Rightarrow> patch_count" where
  "count_line n line =
     (if has_prefix line ''+++ '' \<or> has_prefix line ''--- '' then n
      else if has_prefix line ''@@'' then n\<lparr>pc_hunks := pc_hunks n + 1\<rparr>
      else if has_prefix line ''+'' then n\<lparr>pc_added := pc_added n + 1\<rparr>
      else if has_prefix line ''-'' then n\<lparr>pc_removed := pc_removed n + 1\<rparr>
      else n)"

definition count_patch :: "string list \<Rightarrow> patch_count" where
  "count_patch lines = foldl count_line \<lparr>pc_added = 0, pc_removed = 0, pc_hunks = 0\<rparr> lines"

definition effect_name :: string where "effect_name = ''patch-effect''"

definition effect_evidence :: "string \<Rightarrow> patch_count \<Rightarrow> string list" where
  "effect_evidence patch n =
     [''read '' @ patch,
      nat_dec (pc_hunks n) @ '' hunks, '' @ nat_dec (pc_added n) @ '' added lines, '' @
      nat_dec (pc_removed n) @ '' removed lines'']"

definition effect_scan_limit :: nat where "effect_scan_limit = 8 * 1024 * 1024"

definition effect_run :: "(string \<Rightarrow> 'w \<Rightarrow> file_read) \<Rightarrow> gate_input \<Rightarrow> 'w \<Rightarrow>
    (effect_error, stage_result) result \<times> 'w" where
  "effect_run open_file inp w =
     (let patch = cand_patch (gi_candidate inp);
          path = candidate_patch_path (gi_case inp) (gi_candidate inp) (gi_root inp) (gi_repo_root inp)
      in case open_file path w of
           OpenFailed e \<Rightarrow> (Inl (PatchUnopened patch e), w)
         | Contents b rd \<Rightarrow>
             (let (lines, too_long) = scan_lines effect_scan_limit b;
                  n = count_patch lines;
                  ev = effect_evidence patch n
              in if too_long then (Inl (PatchLineTooLong patch), w)
                 else case rd of
                        Some e \<Rightarrow> (Inl (PatchUnread patch e), w)
                      | None \<Rightarrow>
                          if pc_added n + pc_removed n = 0 then
                            (Inr \<lparr>sr_stage = effect_name, sr_outcome = outcome_failed,
                                  sr_reason = reason_empty_patch,
                                  sr_evidence = ev @ [''a patch that changes no line cannot be credited with a fix'']\<rparr>, w)
                          else
                            (Inr \<lparr>sr_stage = effect_name, sr_outcome = outcome_passed,
                                  sr_reason = [], sr_evidence = ev\<rparr>, w)))"

definition effect_stage :: "(string \<Rightarrow> 'w \<Rightarrow> file_read) \<Rightarrow> ('w, effect_error) stage" where
  "effect_stage open_file = \<lparr>st_name = effect_name, st_run = effect_run open_file\<rparr>"

lemma effect_evidence_non_blank: "non_blank (effect_evidence p n @ xs) \<noteq> 0"
  by (simp add: effect_evidence_def non_blank_0 solid_byte_nat)

interpretation effect: gate_stage "effect_stage open_file" for open_file
proof
  show "st_name (effect_stage open_file) \<noteq> []"
    by (simp add: effect_stage_def effect_name_def)
  fix inp w r w'
  assume run: "st_run (effect_stage open_file) inp w = (Inr r, w')"
  then show "sr_stage r = [] \<or> sr_stage r = st_name (effect_stage open_file)"
    by (auto simp: effect_stage_def effect_run_def Let_def split: file_read.splits option.splits if_splits prod.splits)
  from run show "result_sound r"
    using effect_evidence_non_blank [of _ _ "[]"] effect_evidence_non_blank
    by (auto simp: effect_stage_def effect_run_def Let_def result_sound_def
        split: file_read.splits option.splits if_splits prod.splits)
qed

text \<open>A line the stage counts as a change, said of the line alone.\<close>

definition changed_line :: "string \<Rightarrow> bool" where
  "changed_line l = ((has_prefix l ''+'' \<or> has_prefix l ''-'') \<and>
     \<not> has_prefix l ''+++ '' \<and> \<not> has_prefix l ''--- '')"

lemma count_line_changes:
  "pc_added (count_line n l) + pc_removed (count_line n l) =
     pc_added n + pc_removed n + (if changed_line l then 1 else 0)"
  by (cases l) (auto simp: count_line_def changed_line_def)

lemma foldl_count_changes:
  "pc_added (foldl count_line n ls) + pc_removed (foldl count_line n ls) =
     pc_added n + pc_removed n + length (filter changed_line ls)"
  by (induction ls arbitrary: n) (auto simp: count_line_changes)

lemma count_patch_changes: "pc_added (count_patch ls) + pc_removed (count_patch ls) = length (filter changed_line ls)"
  by (simp add: count_patch_def foldl_count_changes)

text \<open>
   The patch-effect stage passes a readable patch exactly when some line of it is a
  change (a line that opens with \<open>+\<close> or \<open>-\<close> and is not a file header), and otherwise
  rejects it as an empty patch; it never reports anything else.
\<close>

theorem effect_stage_decides_on_changed_lines:
  assumes "open_file (candidate_patch_path (gi_case inp) (gi_candidate inp) (gi_root inp) (gi_repo_root inp)) w
             = Contents b None"
    and "\<forall>l\<in>set (raw_lines b). length l < effect_scan_limit"
  shows "\<exists>r. effect_run open_file inp w = (Inr r, w) \<and>
     (if \<exists>l\<in>set (raw_lines b). changed_line (drop_cr l)
      then sr_outcome r = outcome_passed \<and> sr_reason r = []
      else sr_outcome r = outcome_failed \<and> sr_reason r = reason_empty_patch)"
proof -
  have scan: "scan_lines effect_scan_limit b = (map drop_cr (raw_lines b), False)"
    using assms(2) by (intro scan_lines_ok) (simp add: list_all_iff)
  have "length (filter changed_line (map drop_cr (raw_lines b))) = 0 \<longleftrightarrow>
      \<not> (\<exists>l\<in>set (raw_lines b). changed_line (drop_cr l))"
    by (auto simp: filter_empty_conv)
  then show ?thesis
    using count_patch_changes [of "map drop_cr (raw_lines b)"] assms(1)
    by (simp add: effect_run_def scan Let_def)
qed

definition no_change_file :: "string \<Rightarrow> unit \<Rightarrow> file_read" where
  "no_change_file p w = Contents ''@@ -1 +1 @@'' None"

theorem effect_stage_decides_on_changed_lines_witness:
  "\<exists>r. effect_run no_change_file sample_input () = (Inr r, ()) \<and>
     sr_outcome r = ''failed'' \<and> sr_reason r = ''empty-patch''"
  using effect_stage_decides_on_changed_lines
    [of no_change_file sample_input "()" "''@@ -1 +1 @@''"]
  by (simp add: no_change_file_def raw_lines_def drop_cr_def changed_line_def effect_scan_limit_def)

text \<open>The gate over the one stage M0, on a patch that changes nothing.\<close>

lemma no_change_stage: "gate_stage (effect_stage no_change_file)"
  by unfold_locales

definition no_change_decision :: decision where
  "no_change_decision =
     (initial_decision sample_input [''not proven''])
       \<lparr>d_verdict := verdict_reject, d_reason := reason_empty_patch,
        d_stages := [\<lparr>sr_stage = effect_name, sr_outcome = outcome_failed, sr_reason = reason_empty_patch,
          sr_evidence = effect_evidence ''fix.diff'' \<lparr>pc_added = 0, pc_removed = 0, pc_hunks = 1\<rparr> @
            [''a patch that changes no line cannot be credited with a fix'']\<rparr>]\<rparr>"

lemma no_change_effect:
  "effect_run no_change_file sample_input () =
     (Inr (hd (d_stages no_change_decision)), ())"
  by (simp add: effect_run_def no_change_file_def scan_lines_def raw_lines_def effect_scan_limit_def
      drop_cr_def count_patch_def count_line_def no_change_decision_def sample_defs)

lemma no_change_run:
  "gate_verify sample_input [effect_stage no_change_file] [''not proven''] () = (Inr no_change_decision, ())"
proof -
  have "decision_wf no_change_decision"
    by (simp add: decision_wf_def no_change_decision_def stage_entry_wf_def result_sound_def
        effect_evidence_non_blank effect_name_def initial_decision_def sample_defs solid_byte_nat)
  then have "decision_validate no_change_decision = Inr ()" by (simp add: decision_validate_wf)
  moreover have "run_stages sample_input [effect_stage no_change_file]
      (initial_decision sample_input [''not proven'']) () = (Inr no_change_decision, ())"
    by (simp add: effect_stage_def no_change_effect)
      (simp add: no_change_decision_def name_result_def effect_name_def initial_decision_def)
  ultimately show ?thesis by (simp add: gate_verify_def)
qed

theorem gate_verdict_reports_the_run_witness:
  "run_reported [effect_stage no_change_file] no_change_decision"
  by (rule gate_verdict_reports_the_run [OF _ _ no_change_run]) (simp_all add: no_change_stage)

theorem gate_verify_never_malformed_witness:
  "fst (gate_verify sample_input [effect_stage no_change_file] [''not proven''] ()) \<noteq> Inl (MalformedDecision [])"
  by (rule gate_verify_never_malformed)
    (simp_all add: no_change_stage sample_defs solid_byte_nat)

definition sql_comment_patch :: string where
  "sql_comment_patch = ''--- a/q.sql'' @ [newline] @ ''+++ b/q.sql'' @ [newline] @
     ''@@ -1 +0,0 @@'' @ [newline] @ ''--- drop this comment'' @ [newline]"

lemma sql_comment_lines:
  "raw_lines sql_comment_patch = [''--- a/q.sql'', ''+++ b/q.sql'', ''@@ -1 +0,0 @@'', ''--- drop this comment'']"
  by (simp add: raw_lines_def sql_comment_patch_def)

text \<open>
   A removed line whose own text opens with two dashes and a blank is taken for a
  file header: a patch that deletes only such lines (a SQL or Lua comment) is rejected
  as a patch that changes nothing.
\<close>

theorem effect_stage_misses_removed_dash_comment:
  "\<exists>r. effect_run (\<lambda>p w. Contents sql_comment_patch None) inp w = (Inr r, w) \<and>
     sr_outcome r = outcome_failed \<and> sr_reason r = reason_empty_patch"
  by (simp add: effect_run_def scan_lines_def sql_comment_lines effect_scan_limit_def drop_cr_def
      count_patch_def count_line_def)

end
