(* ===== verification/Revert_Stage.thy ===== *)
theory Revert_Stage
  imports Gate_Stages
begin

text \<open>
  Gate M1, revert-to-attribute (\<open>pkg/revert/revert.go\<close>), and Gate M3,
  sanitizer-gated-reachability (\<open>pkg/sanitizer/sanitizer.go\<close>): the two stages that drive
  one target through reset, apply, build and a run of the proof of vulnerability.

  The Go interface \<open>Target\<close> is the record \<open>target\<close> of operations on a world \<open>'w\<close> (the
  checkout, its build and the container); their errors are texts.
\<close>

record pov_run =
  harness_ran :: bool
  sanitizer_fired :: bool
  run_site :: string
  run_evidence :: "string list"

record 'w target =
  tg_reset :: "('w, string, unit) action"
  tg_apply :: "string \<Rightarrow> ('w, string, unit) action"
  tg_build :: "('w, string, unit) action"
  tg_run_pov :: "string \<Rightarrow> string \<Rightarrow> pov \<Rightarrow> ('w, string, pov_run) action"

datatype stage_error =
    ResetFailed string
  | BuildUnpatchedFailed string
  | RunUnpatchedFailed string
  | HarnessSilentUnpatched
  | BuildPatchedFailed string
  | RunPatchedFailed string
  | HarnessSilentPatched
  | ResetBeforeApplyFailed string
  | RefusesHaltingBuild

definition stage_out :: "string \<Rightarrow> string \<Rightarrow> string \<Rightarrow> string list \<Rightarrow> ('w, 'e, stage_result) action" where
  "stage_out name oc reason ev =
     act_return \<lparr>sr_stage = name, sr_outcome = oc, sr_reason = reason, sr_evidence = ev\<rparr>"

lemma stage_out_Inr [result_simps]:
  "stage_out n oc rs ev w = (Inr r, w') \<longleftrightarrow>
     w' = w \<and> r = \<lparr>sr_stage = n, sr_outcome = oc, sr_reason = rs, sr_evidence = ev\<rparr>"
  by (auto simp: stage_out_def result_simps)

section \<open>M1\<close>

definition revert_name :: string where "revert_name = ''revert-to-attribute''"

definition verdict_of :: "pov_run \<Rightarrow> string" where
  "verdict_of r = (if sanitizer_fired r then ''harness ran, sanitizer fired'' else ''harness ran, sanitizer silent'')"

definition unpatched_note :: "pov_run \<Rightarrow> string" where
  "unpatched_note r = ''unpatched tree at the pin: '' @ verdict_of r"

lemma unpatched_note_not_blank [simp]: "\<not> blank (unpatched_note r)"
  by (simp add: unpatched_note_def solid_byte_nat)

text \<open>The second question, once the patch is applied and the patched tree was run.\<close>

definition revert_after :: "string list \<Rightarrow> pov_run \<Rightarrow> ('w, stage_error, stage_result) action" where
  "revert_after evidence0 after =
     (let evidence = evidence0 @ [''patched tree: '' @ verdict_of after] @ run_evidence after
      in if sanitizer_fired after then
           (if run_site after = site_differ then
              stage_out revert_name outcome_failed reason_new_sanitizer_finding
                (evidence @ [''the declared crash site is silent and a sanitizer fires elsewhere, '' @
                   ''so the original vulnerability is stopped and a different one is introduced''])
            else if run_site after = site_undetermined then
              stage_out revert_name outcome_undecided reason_pov_site_undetermined
                (evidence @ [''a sanitizer fired after the patch but the report cannot be matched to '' @
                   ''the declared crash site, so whether it is the same vulnerability is undetermined''])
            else
              stage_out revert_name outcome_failed reason_revert_attribute_fail
                (evidence @ [''the pov fires at the declared crash site with the patch applied, so reverting '' @
                   ''it changes nothing and nothing attributes the fix to this patch'']))
         else
           stage_out revert_name outcome_passed []
             (evidence @ [''the pov fires without the patch and stops with it, so the patch is what stopped it'']))"

definition revert_patched :: "'w target \<Rightarrow> string \<Rightarrow> gate_input \<Rightarrow> string list \<Rightarrow> ('w, stage_error, stage_result) action" where
  "revert_patched tg blob inp evidence =
     act_bind (act_wrap BuildPatchedFailed (tg_build tg)) (\<lambda>_.
     act_bind (act_wrap RunPatchedFailed
         (tg_run_pov tg blob (case_harness (gi_case inp)) (case_pov (gi_case inp)))) (\<lambda>after.
       if \<not> harness_ran after then act_fail HarnessSilentPatched
       else revert_after evidence after))"

text \<open>What follows the run on the unpatched tree.\<close>

definition revert_judge :: "'w target \<Rightarrow> string \<Rightarrow> string \<Rightarrow> gate_input \<Rightarrow> pov_run \<Rightarrow>
    ('w, stage_error, stage_result) action" where
  "revert_judge tg blob patch inp before =
     (let evidence = unpatched_note before # run_evidence before
      in if \<not> sanitizer_fired before then
           stage_out revert_name outcome_undecided reason_pov_not_reproduced
             (evidence @ [''the harness ran and produced no '' @ pov_expected (case_pov (gi_case inp)),
                ''no patch can be credited with fixing a vulnerability the case never demonstrated''])
         else if run_site before = site_differ then
           stage_out revert_name outcome_undecided reason_pov_not_reproduced
             (evidence @ [''the unpatched tree crashes somewhere other than the declared crash site'',
                ''the reproduction demonstrates a different defect, so no patch can be '' @
                ''attributed to fixing the declared one''])
         else
           act_try (tg_apply tg patch) (\<lambda>applied.
             case applied of
               Inl e \<Rightarrow>
                 stage_out revert_name outcome_failed reason_patch_does_not_apply
                   (evidence @ [''the candidate does not apply to the verified-clean tree at the pin: '' @ e,
                      ''a patch that cannot be applied cannot be the thing that stopped the pov''])
             | Inr _ \<Rightarrow> revert_patched tg blob inp evidence))"

definition revert_run :: "'w target \<Rightarrow> string \<Rightarrow> string \<Rightarrow> gate_input \<Rightarrow> ('w, stage_error, stage_result) action" where
  "revert_run tg blob patch inp =
     act_bind (act_wrap ResetFailed (tg_reset tg)) (\<lambda>_.
     act_bind (act_wrap BuildUnpatchedFailed (tg_build tg)) (\<lambda>_.
     act_bind (act_wrap RunUnpatchedFailed
         (tg_run_pov tg blob (case_harness (gi_case inp)) (case_pov (gi_case inp)))) (\<lambda>before.
       if \<not> harness_ran before then act_fail HarnessSilentUnpatched
       else revert_judge tg blob patch inp before)))"

definition revert_stage :: "'w target \<Rightarrow> string \<Rightarrow> string \<Rightarrow> ('w, stage_error) stage" where
  "revert_stage tg blob patch = \<lparr>st_name = revert_name, st_run = revert_run tg blob patch\<rparr>"

lemma evidence_Cons: "solid_byte c \<Longrightarrow> non_blank (((c # s) @ t) # xs) \<noteq> 0"
  by (simp add: non_blank_0)

text \<open>
  The run of M1, branch by branch: what the two runs of the PoV and the application of
  the patch were, and the result they lead to.
\<close>

inductive revert_branch :: "bool \<Rightarrow> string \<Rightarrow> bool \<Rightarrow> bool \<Rightarrow> string \<Rightarrow> string \<Rightarrow> string \<Rightarrow> bool" where
  no_repro: "revert_branch False s a f s' outcome_undecided reason_pov_not_reproduced"
| elsewhere: "revert_branch True site_differ a f s' outcome_undecided reason_pov_not_reproduced"
| no_apply: "s \<noteq> site_differ \<Longrightarrow> revert_branch True s False f s' outcome_failed reason_patch_does_not_apply"
| stopped: "s \<noteq> site_differ \<Longrightarrow> revert_branch True s True False s' outcome_passed []"
| other_bug: "s \<noteq> site_differ \<Longrightarrow> revert_branch True s True True site_differ outcome_failed reason_new_sanitizer_finding"
| unplaced: "s \<noteq> site_differ \<Longrightarrow> revert_branch True s True True site_undetermined outcome_undecided reason_pov_site_undetermined"
| survives: "s \<noteq> site_differ \<Longrightarrow> s' \<noteq> site_differ \<Longrightarrow> s' \<noteq> site_undetermined \<Longrightarrow>
     revert_branch True s True True s' outcome_failed reason_revert_attribute_fail"

lemmas revert_branchI = revert_branch.intros [simplified]

inductive_simps revert_branch_passed: "revert_branch f s a f' s' ''passed'' r"
inductive_simps revert_branch_failed: "revert_branch f s a f' s' ''failed'' r"
inductive_simps revert_branch_undecided: "revert_branch f s a f' s' ''undecided'' r"

text \<open>The calls M1 makes on its target, in order, and the worlds between them.\<close>

definition revert_trace :: "'w target \<Rightarrow> string \<Rightarrow> string \<Rightarrow> gate_input \<Rightarrow> 'w \<Rightarrow>
    pov_run \<Rightarrow> (string, unit) result \<Rightarrow> pov_run \<Rightarrow> 'w \<Rightarrow> bool" where
  "revert_trace tg blob patch inp w before applied after w' =
     (let run = tg_run_pov tg blob (case_harness (gi_case inp)) (case_pov (gi_case inp))
      in \<exists>w1 w2 w3. tg_reset tg w = (Inr (), w1) \<and> tg_build tg w1 = (Inr (), w2) \<and>
           run w2 = (Inr before, w3) \<and> harness_ran before \<and>
           (if \<not> sanitizer_fired before \<or> run_site before = site_differ then w' = w3
            else \<exists>w4. tg_apply tg patch w3 = (applied, w4) \<and>
              (case applied of
                 Inl e \<Rightarrow> w' = w4
               | Inr _ \<Rightarrow> \<exists>w5. tg_build tg w4 = (Inr (), w5) \<and> run w5 = (Inr after, w') \<and> harness_ran after)))"

definition applied_ok :: "(string, unit) result \<Rightarrow> bool" where
  "applied_ok r = (case r of Inl _ \<Rightarrow> False | Inr _ \<Rightarrow> True)"

lemma revert_run_steps:
  "revert_run tg blob patch inp w = (Inr r, w') \<longleftrightarrow>
     (\<exists>w1 w2 w3 before. tg_reset tg w = (Inr (), w1) \<and> tg_build tg w1 = (Inr (), w2) \<and>
        tg_run_pov tg blob (case_harness (gi_case inp)) (case_pov (gi_case inp)) w2 = (Inr before, w3) \<and>
        harness_ran before \<and> revert_judge tg blob patch inp before w3 = (Inr r, w'))"
  by (auto simp: revert_run_def result_simps)

lemma revert_patched_steps:
  "revert_patched tg blob inp ev w = (Inr r, w') \<longleftrightarrow>
     (\<exists>w1 w2 after. tg_build tg w = (Inr (), w1) \<and>
        tg_run_pov tg blob (case_harness (gi_case inp)) (case_pov (gi_case inp)) w1 = (Inr after, w2) \<and>
        harness_ran after \<and> revert_after ev after w2 = (Inr r, w'))"
  by (auto simp: revert_patched_def result_simps)

lemma revert_after_branch:
  "s \<noteq> site_differ \<Longrightarrow> \<exists>r. revert_after ev a w = (Inr r, w) \<and>
     revert_branch True s True (sanitizer_fired a) (run_site a) (sr_outcome r) (sr_reason r)"
  by (auto simp: revert_after_def Let_def stage_out_def act_return_def intro: revert_branchI)

lemma revert_judge_early:
  "\<not> sanitizer_fired b \<or> run_site b = site_differ \<Longrightarrow>
   \<exists>r. revert_judge tg blob patch inp b w = (Inr r, w) \<and>
     revert_branch (sanitizer_fired b) (run_site b) ap f' s' (sr_outcome r) (sr_reason r)"
  by (auto simp: revert_judge_def Let_def stage_out_def act_return_def intro: revert_branchI)

lemma revert_judge_refused:
  "sanitizer_fired b \<Longrightarrow> run_site b \<noteq> site_differ \<Longrightarrow> tg_apply tg patch w = (Inl e, w4) \<Longrightarrow>
   \<exists>r. revert_judge tg blob patch inp b w = (Inr r, w4) \<and>
     revert_branch (sanitizer_fired b) (run_site b) False f' s' (sr_outcome r) (sr_reason r)"
  by (auto simp: revert_judge_def Let_def act_try_def stage_out_def act_return_def intro: revert_branchI)

lemma revert_judge_applied:
  "sanitizer_fired b \<Longrightarrow> run_site b \<noteq> site_differ \<Longrightarrow> tg_apply tg patch w = (Inr u, w4) \<Longrightarrow>
   revert_judge tg blob patch inp b w =
     revert_patched tg blob inp (unpatched_note b # run_evidence b) w4"
  by (simp add: revert_judge_def Let_def act_try_def)

lemma revert_result:
  assumes "revert_run tg blob patch inp w = (Inr r, w')"
  shows "\<exists>before applied after. revert_trace tg blob patch inp w before applied after w' \<and>
     revert_branch (sanitizer_fired before) (run_site before) (applied_ok applied)
       (sanitizer_fired after) (run_site after) (sr_outcome r) (sr_reason r)"
proof -
  obtain w1 w2 w3 b where calls: "tg_reset tg w = (Inr (), w1)" "tg_build tg w1 = (Inr (), w2)"
      "tg_run_pov tg blob (case_harness (gi_case inp)) (case_pov (gi_case inp)) w2 = (Inr b, w3)"
      "harness_ran b" and j: "revert_judge tg blob patch inp b w3 = (Inr r, w')"
    using assms by (auto simp: revert_run_steps)
  show ?thesis
  proof (cases "\<not> sanitizer_fired b \<or> run_site b = site_differ")
    case True
    with revert_judge_early [OF True, of tg blob patch inp w3] j calls show ?thesis
      by (auto simp: revert_trace_def Let_def)
  next
    case False
    then have b: "sanitizer_fired b" "run_site b \<noteq> site_differ" by auto
    obtain ap w4 where ap: "tg_apply tg patch w3 = (ap, w4)" by fastforce
    show ?thesis
    proof (cases ap)
      case (Inl e)
      have "w' = w4 \<and> revert_branch True (run_site b) False f' s' (sr_outcome r) (sr_reason r)" for f' s'
        using revert_judge_refused [OF b ap [unfolded Inl], of blob inp f' s'] j b by auto
      then have w': "w' = w4" and br: "revert_branch (sanitizer_fired b) (run_site b) (applied_ok ap)
          (sanitizer_fired b) (run_site b) (sr_outcome r) (sr_reason r)"
        using b Inl by (simp_all add: applied_ok_def)
      have "revert_trace tg blob patch inp w b ap b w'"
        using calls b ap Inl w' by (simp add: revert_trace_def Let_def)
      with br show ?thesis by blast
    next
      case (Inr u)
      from j revert_judge_applied [OF b ap [unfolded Inr]] obtain w5 w6 a where post:
        "tg_build tg w4 = (Inr (), w5)"
        "tg_run_pov tg blob (case_harness (gi_case inp)) (case_pov (gi_case inp)) w5 = (Inr a, w6)"
        "harness_ran a" and "revert_after (unpatched_note b # run_evidence b) a w6 = (Inr r, w')"
        by (auto simp: revert_patched_steps)
      with revert_after_branch [OF b(2)] have
        "w' = w6" "revert_branch True (run_site b) True (sanitizer_fired a) (run_site a) (sr_outcome r) (sr_reason r)"
        by (metis Pair_inject sum.inject(2))+
      then have br: "revert_branch (sanitizer_fired b) (run_site b) (applied_ok ap)
          (sanitizer_fired a) (run_site a) (sr_outcome r) (sr_reason r)"
        using b Inr by (simp add: applied_ok_def)
      have "revert_trace tg blob patch inp w b ap a w'"
        using calls b ap Inr post \<open>w' = w6\<close> by (simp add: revert_trace_def Let_def)
      with br show ?thesis by blast
    qed
  qed
qed

lemma revert_after_evidence:
  "revert_after (x # xs) a w = (Inr r, w') \<Longrightarrow> \<not> blank x \<Longrightarrow>
     non_blank (sr_evidence r) \<noteq> 0 \<and> sr_stage r = revert_name"
  by (auto simp: revert_after_def Let_def result_simps non_blank_0 split: if_splits)

lemma revert_judge_evidence:
  assumes "revert_judge tg blob patch inp b w = (Inr r, w')"
  shows "non_blank (sr_evidence r) \<noteq> 0 \<and> sr_stage r = revert_name"
proof -
  show ?thesis
  proof (cases "\<not> sanitizer_fired b \<or> run_site b = site_differ")
    case True
    with assms show ?thesis
      by (auto simp: revert_judge_def Let_def result_simps non_blank_0 split: if_splits)
  next
    case False
    then have b: "sanitizer_fired b" "run_site b \<noteq> site_differ" by auto
    obtain ap w4 where ap: "tg_apply tg patch w = (ap, w4)" by fastforce
    show ?thesis
    proof (cases ap)
      case (Inl e)
      with assms b ap show ?thesis
        by (auto simp: revert_judge_def Let_def act_try_def result_simps non_blank_0)
    next
      case (Inr u)
      from assms revert_judge_applied [OF b ap [unfolded Inr], of blob inp] obtain a v where
        "revert_after (unpatched_note b # run_evidence b) a v = (Inr r, w')"
        by (auto simp: revert_patched_steps)
      then show ?thesis by (rule revert_after_evidence) simp
    qed
  qed
qed

interpretation m1: gate_stage "revert_stage tg blob patch" for tg blob patch
proof
  show "st_name (revert_stage tg blob patch) \<noteq> []"
    by (simp add: revert_stage_def revert_name_def)
  fix inp w r w'
  assume "st_run (revert_stage tg blob patch) inp w = (Inr r, w')"
  then have run: "revert_run tg blob patch inp w = (Inr r, w')" by (simp add: revert_stage_def)
  then have ev: "non_blank (sr_evidence r) \<noteq> 0 \<and> sr_stage r = revert_name"
    by (auto simp: revert_run_steps dest: revert_judge_evidence)
  then show "sr_stage r = [] \<or> sr_stage r = st_name (revert_stage tg blob patch)"
    by (simp add: revert_stage_def)
  show "result_sound r"
    using revert_result [OF run] ev by (auto simp: result_sound_def elim!: revert_branch.cases)
qed

text \<open>A target whose world is whether the tree is patched, with a site to crash at when it is.\<close>

definition sample_run :: "bool \<Rightarrow> string \<Rightarrow> pov_run" where
  "sample_run fired site = \<lparr>harness_ran = True, sanitizer_fired = fired, run_site = site, run_evidence = [''report'']\<rparr>"

definition sample_target :: "pov_run \<Rightarrow> pov_run \<Rightarrow> bool target" where
  "sample_target before after = \<lparr>tg_reset = (\<lambda>w. (Inr (), False)), tg_apply = (\<lambda>p w. (Inr (), True)),
     tg_build = (\<lambda>w. (Inr (), w)), tg_run_pov = (\<lambda>blob h v w. (Inr (if w then after else before), w))\<rparr>"

lemma revert_credit:
  assumes "revert_run tg blob patch inp w = (Inr r, w')" "sr_outcome r = outcome_passed"
  shows "\<exists>before after. revert_trace tg blob patch inp w before (Inr ()) after w' \<and>
     harness_ran before \<and> sanitizer_fired before \<and> run_site before \<noteq> site_differ \<and>
     harness_ran after \<and> \<not> sanitizer_fired after"
proof -
  from revert_result [OF assms(1)] assms(2) obtain before applied after where
    tr: "revert_trace tg blob patch inp w before applied after w'" and
    b: "sanitizer_fired before" "run_site before \<noteq> site_differ" "applied_ok applied" "\<not> sanitizer_fired after"
    by (auto simp: revert_branch_passed)
  from b(3) have "applied = Inr ()" by (auto simp: applied_ok_def split: sum.splits)
  with tr b show ?thesis by (fastforce simp: revert_trace_def Let_def)
qed

text \<open>
  C4.  M1 credits a patch only for what was watched: a pass means that the tree was
  reset and built, the PoV fired on the unpatched tree and not at another site, the
  patch applied, the patched tree was built, its harness ran and no sanitizer fired.
\<close>

theorem revert_credit_is_attributed:
  assumes "revert_run tg blob patch inp w = (Inr r, w')" "sr_outcome r = outcome_passed"
  shows "\<exists>before after. revert_trace tg blob patch inp w before (Inr ()) after w' \<and>
     harness_ran before \<and> sanitizer_fired before \<and> run_site before \<noteq> site_differ \<and>
     harness_ran after \<and> \<not> sanitizer_fired after"
  by (rule revert_credit [OF assms])

theorem revert_credit_is_attributed_witness:
  "\<exists>before after. revert_trace (sample_target (sample_run True site_same) (sample_run False site_undetermined))
       ''pov.png'' ''fix.diff'' sample_input True before (Inr ()) after True \<and>
     harness_ran before \<and> sanitizer_fired before \<and> run_site before \<noteq> site_differ \<and>
     harness_ran after \<and> \<not> sanitizer_fired after"
proof -
  let ?tg = "sample_target (sample_run True site_same) (sample_run False site_undetermined)"
  let ?run = "revert_run ?tg ''pov.png'' ''fix.diff'' sample_input True"
  obtain r where "?run = (Inr r, True)" "sr_outcome r = outcome_passed"
  proof -
    have "\<exists>r. ?run = (Inr r, True) \<and> sr_outcome r = outcome_passed"
    by (simp add: revert_run_def revert_judge_def revert_patched_def revert_after_def sample_target_def
        sample_run_def Let_def act_bind_def act_wrap_def act_try_def stage_out_def act_return_def)
    then show thesis using that by blast
  qed
  then show ?thesis by (rule revert_credit_is_attributed)
qed

text \<open>
   M1 routes a fault in the reproduction away from the patch: if the harness ran
  silently on the unpatched tree, or crashed at another site, the result is undecided
  with the reason \<open>pov-not-reproduced\<close> and the patch is never applied.
\<close>

theorem revert_undemonstrated_case_is_undecided:
  assumes "tg_reset tg w = (Inr (), w1)" "tg_build tg w1 = (Inr (), w2)"
    and "tg_run_pov tg blob (case_harness (gi_case inp)) (case_pov (gi_case inp)) w2 = (Inr b, w3)"
    and "harness_ran b" "\<not> sanitizer_fired b \<or> run_site b = site_differ"
  shows "\<exists>r. revert_run tg blob patch inp w = (Inr r, w3) \<and>
     sr_outcome r = outcome_undecided \<and> sr_reason r = reason_pov_not_reproduced"
proof -
  from revert_judge_early [OF assms(5), of tg blob patch inp w3 False False "[]"] obtain r where
    r: "revert_judge tg blob patch inp b w3 = (Inr r, w3)"
    and br: "revert_branch (sanitizer_fired b) (run_site b) False False [] (sr_outcome r) (sr_reason r)"
    by blast
  have "sr_outcome r = outcome_undecided \<and> sr_reason r = reason_pov_not_reproduced"
    using br assms(5) by (auto elim: revert_branch.cases)
  with r assms(1-4) show ?thesis by (auto simp: revert_run_steps)
qed

theorem revert_undemonstrated_case_is_undecided_witness:
  "\<exists>r. revert_run (sample_target (sample_run False []) (sample_run False []))
       ''pov.png'' ''fix.diff'' sample_input True = (Inr r, False) \<and>
     sr_outcome r = outcome_undecided \<and> sr_reason r = reason_pov_not_reproduced"
  by (rule revert_undemonstrated_case_is_undecided [of _ _ False False _ _ "sample_run False []"])
    (simp_all add: sample_target_def sample_run_def)

section \<open>M3\<close>

definition sanitizer_name :: string where "sanitizer_name = ''sanitizer-gated-reachability''"

definition sanitizer_judge :: "pov_run \<Rightarrow> pov_run \<Rightarrow> ('w, stage_error, stage_result) action" where
  "sanitizer_judge before after =
     (let ev = [''unpatched: sanitizer fired '' @ bool_text (sanitizer_fired before) @ '', site '' @ run_site before,
                ''patched:   sanitizer fired '' @ bool_text (sanitizer_fired after) @ '', site '' @ run_site after,
                ''recovering build, so both sites report and no execution-order argument is relied on'']
      in if \<not> sanitizer_fired after then
           stage_out sanitizer_name outcome_passed [] (ev @ [''no sanitizer finding on the patched build''])
         else if run_site after = site_same then
           stage_out sanitizer_name outcome_passed []
             (ev @ [''the finding is at the declared site, which is the original vulnerability; '' @
                ''whether it still reproduces is M1'' @ [CHR 0x27] @ ''s question, not this one''])
         else if run_site after = site_differ then
           stage_out sanitizer_name outcome_failed reason_new_sanitizer_finding
             (ev @ [''the patched build reports a sanitizer finding at a site the case does not '' @
                ''declare, so the candidate introduced a defect while addressing the original''])
         else
           stage_out sanitizer_name outcome_failed reason_unadjudicated
             (ev @ [''a sanitizer finding on the patched build could not be placed against the '' @
                ''declared site, so it can be neither credited nor refused here'']))"

definition no_apply_note :: "string \<Rightarrow> string" where
  "no_apply_note e = ''the candidate does not apply at the pin: '' @ e"

lemma no_apply_note_not_blank [simp]: "\<not> blank (no_apply_note e)"
  by (simp add: no_apply_note_def solid_byte_nat)

definition sanitizer_patched :: "'w target \<Rightarrow> string \<Rightarrow> gate_input \<Rightarrow> pov_run \<Rightarrow>
    ('w, stage_error, stage_result) action" where
  "sanitizer_patched tg blob inp before =
     act_bind (act_wrap BuildPatchedFailed (tg_build tg)) (\<lambda>_.
     act_bind (act_wrap RunPatchedFailed
         (tg_run_pov tg blob (case_harness (gi_case inp)) (case_pov (gi_case inp)))) (\<lambda>after.
       if \<not> harness_ran after then act_fail HarnessSilentPatched
       else sanitizer_judge before after))"

definition sanitizer_compare :: "'w target \<Rightarrow> string \<Rightarrow> string \<Rightarrow> gate_input \<Rightarrow> pov_run \<Rightarrow>
    ('w, stage_error, stage_result) action" where
  "sanitizer_compare tg blob patch inp before =
     act_bind (act_wrap ResetBeforeApplyFailed (tg_reset tg)) (\<lambda>_.
     act_try (tg_apply tg patch) (\<lambda>applied.
       case applied of
         Inl e \<Rightarrow> stage_out sanitizer_name outcome_failed reason_patch_does_not_apply
                    [no_apply_note e]
       | Inr _ \<Rightarrow> sanitizer_patched tg blob inp before))"

definition sanitizer_run :: "'w target \<Rightarrow> string \<Rightarrow> string \<Rightarrow> bool \<Rightarrow> gate_input \<Rightarrow>
    ('w, stage_error, stage_result) action" where
  "sanitizer_run tg blob patch require_recover inp =
     (if \<not> require_recover then act_fail RefusesHaltingBuild
      else
        act_bind (act_wrap ResetFailed (tg_reset tg)) (\<lambda>_.
        act_bind (act_wrap BuildUnpatchedFailed (tg_build tg)) (\<lambda>_.
        act_bind (act_wrap RunUnpatchedFailed
            (tg_run_pov tg blob (case_harness (gi_case inp)) (case_pov (gi_case inp)))) (\<lambda>before.
          if \<not> harness_ran before then act_fail HarnessSilentUnpatched
          else sanitizer_compare tg blob patch inp before))))"

definition sanitizer_stage :: "'w target \<Rightarrow> string \<Rightarrow> string \<Rightarrow> bool \<Rightarrow> ('w, stage_error) stage" where
  "sanitizer_stage tg blob patch rr = \<lparr>st_name = sanitizer_name, st_run = sanitizer_run tg blob patch rr\<rparr>"

lemma sanitizer_compare_steps:
  "sanitizer_compare tg blob patch inp b w = (Inr r, w') \<longleftrightarrow>
     (\<exists>w4 ap w5. tg_reset tg w = (Inr (), w4) \<and> tg_apply tg patch w4 = (ap, w5) \<and>
        (case ap of
           Inl e \<Rightarrow> w' = w5 \<and> r = \<lparr>sr_stage = sanitizer_name, sr_outcome = outcome_failed,
             sr_reason = reason_patch_does_not_apply, sr_evidence = [no_apply_note e]\<rparr>
         | Inr _ \<Rightarrow> sanitizer_patched tg blob inp b w5 = (Inr r, w')))"
proof -
  have "(case ap of
          Inl e \<Rightarrow> stage_out sanitizer_name outcome_failed reason_patch_does_not_apply
             [no_apply_note e]
        | Inr _ \<Rightarrow> sanitizer_patched tg blob inp b) v = (Inr r, w') \<longleftrightarrow>
      (case ap of
         Inl e \<Rightarrow> w' = v \<and> r = \<lparr>sr_stage = sanitizer_name, sr_outcome = outcome_failed,
             sr_reason = reason_patch_does_not_apply, sr_evidence = [no_apply_note e]\<rparr>
       | Inr _ \<Rightarrow> sanitizer_patched tg blob inp b v = (Inr r, w'))" for ap :: "(string, unit) result" and v
    by (cases ap) (simp_all add: result_simps)
  then show ?thesis
    unfolding sanitizer_compare_def act_bind_Inr act_wrap_Inr act_try_Inr by simp
qed

lemma sanitizer_run_steps:
  "sanitizer_run tg blob patch rr inp w = (Inr r, w') \<longleftrightarrow>
     rr \<and> (\<exists>w1 w2 w3 before. tg_reset tg w = (Inr (), w1) \<and> tg_build tg w1 = (Inr (), w2) \<and>
        tg_run_pov tg blob (case_harness (gi_case inp)) (case_pov (gi_case inp)) w2 = (Inr before, w3) \<and>
        harness_ran before \<and> sanitizer_compare tg blob patch inp before w3 = (Inr r, w'))"
  by (cases rr) (auto simp: sanitizer_run_def result_simps)

lemma sanitizer_patched_steps:
  "sanitizer_patched tg blob inp b w = (Inr r, w') \<longleftrightarrow>
     (\<exists>w1 after. tg_build tg w = (Inr (), w1) \<and>
        tg_run_pov tg blob (case_harness (gi_case inp)) (case_pov (gi_case inp)) w1 = (Inr after, w') \<and>
        harness_ran after \<and> sanitizer_judge b after w' = (Inr r, w'))"
proof -
  have "sanitizer_judge b a v = (Inr r, w') \<Longrightarrow> w' = v" for a v
    by (auto simp: sanitizer_judge_def Let_def result_simps split: if_splits)
  then show ?thesis by (auto simp: sanitizer_patched_def result_simps)
qed

lemma sanitizer_judge_result:
  "\<exists>r. sanitizer_judge b a w = (Inr r, w) \<and> result_sound r \<and> sr_stage r = sanitizer_name \<and>
     (sr_outcome r, sr_reason r) =
       (if \<not> sanitizer_fired a \<or> run_site a = site_same then (outcome_passed, [])
        else if run_site a = site_differ then (outcome_failed, reason_new_sanitizer_finding)
        else (outcome_failed, reason_unadjudicated))"
proof -
  have nb: "\<not> blank (''unpatched: sanitizer fired '' @ x)" for x by (simp add: solid_byte_nat)
  show ?thesis
    using nb by (simp add: sanitizer_judge_def Let_def stage_out_def act_return_def result_sound_def non_blank_0)
qed

interpretation m3: gate_stage "sanitizer_stage tg blob patch rr" for tg blob patch rr
proof
  show "st_name (sanitizer_stage tg blob patch rr) \<noteq> []"
    by (simp add: sanitizer_stage_def sanitizer_name_def)
  fix inp w r w'
  assume "st_run (sanitizer_stage tg blob patch rr) inp w = (Inr r, w')"
  then have run: "sanitizer_run tg blob patch rr inp w = (Inr r, w')" by (simp add: sanitizer_stage_def)
  then obtain b w3 where "sanitizer_compare tg blob patch inp b w3 = (Inr r, w')"
    unfolding sanitizer_run_steps by blast
  then obtain ap :: "(string, unit) result" and v where ap: "case ap of
      Inl e \<Rightarrow> w' = v \<and> r = \<lparr>sr_stage = sanitizer_name, sr_outcome = outcome_failed,
        sr_reason = reason_patch_does_not_apply, sr_evidence = [no_apply_note e]\<rparr>
    | Inr _ \<Rightarrow> sanitizer_patched tg blob inp b v = (Inr r, w')"
    unfolding sanitizer_compare_steps by blast
  have "result_sound r \<and> sr_stage r = sanitizer_name"
  proof (cases ap)
    case (Inl e)
    with ap show ?thesis by (simp add: result_sound_def non_blank_0)
  next
    case (Inr u)
    with ap obtain a where "sanitizer_judge b a w' = (Inr r, w')"
      by (auto simp: sanitizer_patched_steps)
    with sanitizer_judge_result [of b a w'] show ?thesis by auto
  qed
  then show "result_sound r" "sr_stage r = [] \<or> sr_stage r = st_name (sanitizer_stage tg blob patch rr)"
    by (simp_all add: sanitizer_stage_def)
qed

text \<open>What M3 says of a patched run, and of nothing else.\<close>

definition m3_verdict :: "pov_run \<Rightarrow> string \<times> string" where
  "m3_verdict a =
     (if \<not> sanitizer_fired a then (outcome_passed, [])
      else if run_site a = site_same then (outcome_passed, [])
      else if run_site a = site_differ then (outcome_failed, reason_new_sanitizer_finding)
      else (outcome_failed, reason_unadjudicated))"



text \<open>
   M1 and M3 disagree on a report that cannot be placed: on the same patched run, M1
  is undecided and M3 rejects the patch, with a reason that its definition calls an
  ERROR and not a rejection.
\<close>

theorem unplaced_report_is_undecided_in_m1_and_rejected_in_m3:
  assumes "sanitizer_fired a" "run_site a = site_undetermined"
  shows "\<exists>r1 r3. revert_after ev a w = (Inr r1, w) \<and> sanitizer_judge b a w = (Inr r3, w) \<and>
     sr_outcome r1 = outcome_undecided \<and> sr_reason r1 = reason_pov_site_undetermined \<and>
     sr_outcome r3 = outcome_failed \<and> sr_reason r3 = reason_unadjudicated"
proof -
  have "\<exists>r1. revert_after ev a w = (Inr r1, w) \<and>
      sr_outcome r1 = outcome_undecided \<and> sr_reason r1 = reason_pov_site_undetermined"
    using assms by (simp add: revert_after_def Let_def stage_out_def act_return_def)
  moreover have "\<exists>r3. sanitizer_judge b a w = (Inr r3, w) \<and>
      sr_outcome r3 = outcome_failed \<and> sr_reason r3 = reason_unadjudicated"
    using sanitizer_judge_result [of b a w] assms by auto
  ultimately show ?thesis by blast
qed

theorem unplaced_report_is_undecided_in_m1_and_rejected_in_m3_witness:
  "\<exists>r1 r3. revert_after [] (sample_run True site_undetermined) () = (Inr r1, ()) \<and>
     sanitizer_judge (sample_run True site_same) (sample_run True site_undetermined) () = (Inr r3, ()) \<and>
     sr_outcome r1 = outcome_undecided \<and> sr_reason r1 = reason_pov_site_undetermined \<and>
     sr_outcome r3 = outcome_failed \<and> sr_reason r3 = reason_unadjudicated"
  by (rule unplaced_report_is_undecided_in_m1_and_rejected_in_m3) (simp_all add: sample_run_def)

end
