(* ===== verification/Go_Text.thy ===== *)
theory Go_Text
  imports Go_Encoding
begin

text \<open>
  Runes: UTF-8 as \<open>unicode/utf8\<close> reads and writes it (an invalid byte is the error rune,
  one byte wide), and the quoting of texts by \<open>strconv.Quote\<close> and \<open>%q\<close>.
\<close>

section \<open>UTF-8\<close>

definition code :: "char \<Rightarrow> nat" where "code c = of_char c"
definition byte :: "nat \<Rightarrow> char" where "byte n = char_of n"

lemma code_byte: "n < 256 \<Longrightarrow> code (byte n) = n"
  by (simp add: code_def byte_def)

lemma byte_code [simp]: "byte (code c) = c"
  by (simp add: code_def byte_def)

lemma code_less: "code c < 256"
  using nat_of_char_less_256 [of c] by (simp add: code_def)

definition in_bytes :: "nat \<Rightarrow> nat \<Rightarrow> char \<Rightarrow> bool" where
  "in_bytes lo hi c = (lo \<le> code c \<and> code c \<le> hi)"

definition cont_byte :: "char \<Rightarrow> bool" where
  "cont_byte c = in_bytes 0x80 0xBF c"

text \<open>
  How many bytes the first rune takes, 0 for none or an invalid one: the first byte gives
  the number, the others continue it, and the second has a narrower range after four of
  the first bytes.
\<close>

definition lead_width :: "char \<Rightarrow> nat" where
  "lead_width a =
     (if code a < 0x80 then 1
      else if in_bytes 0xC2 0xDF a then 2
      else if in_bytes 0xE0 0xEF a then 3
      else if in_bytes 0xF0 0xF4 a then 4
      else 0)"

definition second_ok :: "char \<Rightarrow> string \<Rightarrow> bool" where
  "second_ok a u =
     (case u of
        [] \<Rightarrow> True
      | b # _ \<Rightarrow>
          (code a = 0xE0 \<longrightarrow> 0xA0 \<le> code b) \<and> (code a = 0xED \<longrightarrow> code b \<le> 0x9F) \<and>
          (code a = 0xF0 \<longrightarrow> 0x90 \<le> code b) \<and> (code a = 0xF4 \<longrightarrow> code b \<le> 0x8F))"

fun rune_width :: "string \<Rightarrow> nat" where
  "rune_width [] = 0"
| "rune_width (a # s) =
     (let n = lead_width a; u = take (n - 1) s
      in if n \<noteq> 0 \<and> length u = n - 1 \<and> list_all cont_byte u \<and> second_ok a u then n else 0)"

lemma rune_width_le: "rune_width s \<le> length s"
  by (cases s) (auto simp: Let_def)

declare rune_width.simps(2) [simp del]

fun rune_value :: "string \<Rightarrow> nat" where
  "rune_value [a] = code a"
| "rune_value [a, b] = (code a mod 32) * 64 + code b mod 64"
| "rune_value [a, b, c] = (code a mod 16) * 4096 + (code b mod 64) * 64 + code c mod 64"
| "rune_value [a, b, c, d] =
     (code a mod 8) * 262144 + (code b mod 64) * 4096 + (code c mod 64) * 64 + code d mod 64"
| "rune_value s = 0"

definition rune_error :: nat where "rune_error = 0xFFFD"

definition surrogate :: "nat \<Rightarrow> bool" where
  "surrogate n = (0xD800 \<le> n \<and> n \<le> 0xDFFF)"

definition rune_valid :: "nat \<Rightarrow> bool" where
  "rune_valid n = (n \<le> 0x10FFFF \<and> \<not> surrogate n)"

definition encode_valid :: "nat \<Rightarrow> string" where
  "encode_valid n =
     (if n < 0x80 then [byte n]
      else if n < 0x800 then [byte (0xC0 + n div 64), byte (0x80 + n mod 64)]
      else if n < 0x10000 then [byte (0xE0 + n div 4096), byte (0x80 + n div 64 mod 64), byte (0x80 + n mod 64)]
      else [byte (0xF0 + n div 262144), byte (0x80 + n div 4096 mod 64), byte (0x80 + n div 64 mod 64),
            byte (0x80 + n mod 64)])"

text \<open>\<open>utf8.AppendRune\<close>.\<close>

definition encode_rune :: "nat \<Rightarrow> string" where
  "encode_rune n = encode_valid (if rune_valid n then n else rune_error)"

text \<open>A text that is valid UTF-8 throughout.\<close>

fun utf8_valid :: "string \<Rightarrow> bool" where
  "utf8_valid [] = True"
| "utf8_valid (a # s) = (rune_width (a # s) \<noteq> 0 \<and> utf8_valid (drop (rune_width (a # s) - 1) s))"

section \<open>Quoting\<close>

definition hex_digits :: "nat \<Rightarrow> nat \<Rightarrow> string" where
  "hex_digits k n = map (\<lambda>i. hex_char (n div 16 ^ i mod 16)) (rev [0..<k])"

text \<open>
  \<open>strconv.Quote\<close>.  Which runes beyond ASCII print is a table of the Unicode version of
  the Go release, the parameter \<open>printable\<close>.
\<close>

definition quote_rune :: "(nat \<Rightarrow> bool) \<Rightarrow> nat \<Rightarrow> string" where
  "quote_rune printable r =
     (if r = 0x22 \<or> r = 0x5C then [CHR 0x5C, byte r]
      else if (if r < 0x80 then 0x20 \<le> r \<and> r < 0x7F else printable r) then encode_rune r
      else if r = 0x07 then [CHR 0x5C, CHR ''a'']
      else if r = 0x08 then [CHR 0x5C, CHR ''b'']
      else if r = 0x0C then [CHR 0x5C, CHR ''f'']
      else if r = 0x0A then [CHR 0x5C, CHR ''n'']
      else if r = 0x0D then [CHR 0x5C, CHR ''r'']
      else if r = 0x09 then [CHR 0x5C, CHR ''t'']
      else if r = 0x0B then [CHR 0x5C, CHR ''v'']
      else if r < 0x20 \<or> r = 0x7F then [CHR 0x5C, CHR ''x''] @ hex_digits 2 r
      else if r < 0x10000 then [CHR 0x5C, CHR ''u''] @ hex_digits 4 r
      else [CHR 0x5C, CHR ''U''] @ hex_digits 8 r)"

fun quote_body :: "(nat \<Rightarrow> bool) \<Rightarrow> string \<Rightarrow> string" where
  "quote_body printable [] = []"
| "quote_body printable (a # s) =
     (let w = rune_width (a # s)
      in (if w = 0 then [CHR 0x5C, CHR ''x''] @ hex_digits 2 (code a)
          else quote_rune printable (rune_value (take w (a # s)))) @
         quote_body printable (drop (w - 1) s))"

definition go_quote :: "(nat \<Rightarrow> bool) \<Rightarrow> string \<Rightarrow> string" where
  "go_quote printable s = [CHR 0x22] @ quote_body printable s @ [CHR 0x22]"

section \<open>Runes in a text\<close>

lemma rune_width_append: "rune_width s \<noteq> 0 \<Longrightarrow> rune_width (s @ t) = rune_width s"
  by (cases s) (auto simp: rune_width.simps(2) Let_def min_def split: if_splits)

lemma rune_width_take: "rune_width (take (rune_width s) s) = rune_width s"
proof (cases "rune_width s = 0")
  case False
  then obtain a u where s: "s = a # u" by (cases s) auto
  with False have "rune_width s = lead_width a" "0 < lead_width a"
    by (auto simp: rune_width.simps(2) Let_def split: if_splits)
  with s False show ?thesis
    by (cases "lead_width a") (auto simp: rune_width.simps(2) Let_def split: if_splits)
qed simp

lemma rune_width_ascii_eq [simp]: "code a < 0x80 \<Longrightarrow> rune_width (a # s) = 1"
  by (simp add: rune_width.simps(2) lead_width_def second_ok_def)

text \<open>The texts a reader of UTF-8 makes of bytes: invalid ones become the error rune.\<close>

fun utf8_repair :: "string \<Rightarrow> string" where
  "utf8_repair [] = []"
| "utf8_repair (a # s) =
     (if rune_width (a # s) = 0 then encode_rune rune_error else take (rune_width (a # s)) (a # s)) @
     utf8_repair (drop (rune_width (a # s) - 1) s)"

lemma take_drop_rune: "rune_width (a # s) = Suc k \<Longrightarrow> take (Suc k) (a # s) @ drop k s = a # s"
  by simp

lemma utf8_repair_valid: "utf8_valid s \<Longrightarrow> utf8_repair s = s"
proof (induction s rule: utf8_valid.induct)
  case (2 a s)
  then obtain k where "rune_width (a # s) = Suc k" by (auto simp: gr0_conv_Suc)
  with 2 show ?case by simp
qed simp

lemma utf8_valid_rune_append:
  "rune_width r = length r \<Longrightarrow> r \<noteq> [] \<Longrightarrow> utf8_valid (r @ s) = utf8_valid s"
proof (cases r)
  case (Cons a r')
  assume w: "rune_width r = length r"
  then have "rune_width (a # r' @ s) = Suc (length r')"
    using rune_width_append [of r s] Cons by simp
  then show ?thesis by (simp add: Cons)
qed simp

lemma error_rune_bytes: "encode_rune rune_error = [byte 0xEF, byte 0xBF, byte 0xBD]"
  by (simp add: encode_rune_def rune_error_def rune_valid_def surrogate_def encode_valid_def)

lemma error_rune_width: "rune_width ([byte 0xEF, byte 0xBF, byte 0xBD] @ s) = 3"
  by (simp add: rune_width.simps(2) lead_width_def second_ok_def code_byte in_bytes_def cont_byte_def)

lemma utf8_repair_is_valid: "utf8_valid (utf8_repair s)"
proof (induction s rule: utf8_repair.induct)
  case (2 a s)
  show ?case
  proof (cases "rune_width (a # s) = 0")
    case True
    with 2 utf8_valid_rune_append [of "[byte 0xEF, byte 0xBF, byte 0xBD]"] error_rune_width [of "[]"]
    show ?thesis by (simp add: error_rune_bytes del: utf8_valid.simps)
  next
    case False
    let ?r = "take (rune_width (a # s)) (a # s)"
    have "rune_width ?r = length ?r" "?r \<noteq> []"
      using rune_width_take [of "a # s"] rune_width_le [of "a # s"] False by auto
    with 2 utf8_valid_rune_append [of ?r] False show ?thesis
      by (simp del: utf8_valid.simps)
  qed
qed simp

lemma utf8_valid_append: "utf8_valid s \<Longrightarrow> utf8_valid (s @ t) = utf8_valid t"
proof (induction s rule: utf8_valid.induct)
  case (2 a s)
  then have w: "rune_width (a # s) \<noteq> 0" by auto
  have le: "rune_width (a # s) \<le> Suc (length s)" using rune_width_le [of "a # s"] by simp
  have "rune_width (a # s @ t) = rune_width (a # s)"
    using rune_width_append [OF w, of t] by simp
  with 2 w le show ?case by simp
qed simp

lemma ascii_valid: "list_all (\<lambda>c. code c < 0x80) s \<Longrightarrow> utf8_valid s"
  by (induction s) simp_all

lemma ascii_repair: "list_all (\<lambda>c. code c < 0x80) s \<Longrightarrow> utf8_repair s = s"
  by (intro utf8_repair_valid ascii_valid)

lemma solid_valid: "list_all solid_byte s \<Longrightarrow> utf8_valid s"
  by (rule ascii_valid) (auto simp: list_all_iff solid_byte_nat code_def)

end
