(* ===== verification/Class_Replay.thy ===== *)
theory Class_Replay
  imports Gate_Stages Go_Text
begin

text \<open>
  Gate M2, class-replay (\<open>pkg/classreplay/classreplay.go\<close>): the class of inputs the case
  declares is generated and replayed against an oracle build and against the candidate.

  The Go interface \<open>Target\<close> is the record \<open>class_target\<close> of operations on a world; a Go
  map from member to observation is a map with \<open>None\<close> for a member it lacks.  The oracle
  is the reference patch or, with none, the unpatched tree (the empty path).
\<close>

record member =
  m_name :: string
  m_reference :: string
  m_candidate :: string

record 'w class_target =
  ct_generate :: "falsifying_class \<Rightarrow> ('w, string, string list \<times> int) action"
  ct_replay :: "string \<Rightarrow> string list \<Rightarrow> ('w, string, string \<Rightarrow> string option) action"

datatype class_error =
    GenerateFailed string
  | NoMembers
  | OracleReplayFailed string string
  | CandidateReplayFailed string
  | MemberUncompared string string

definition class_name :: string where "class_name = ''class-replay''"

text \<open>The members on which the two replays differ; the first one not compared is an error.\<close>

fun compare_members :: "(string \<Rightarrow> string option) \<Rightarrow> (string \<Rightarrow> string option) \<Rightarrow> string list \<Rightarrow>
    (class_error, member list) result" where
  "compare_members ref cand [] = Inr []"
| "compare_members ref cand (m # ms) =
     (case (ref m, cand m) of
        (Some r, Some c) \<Rightarrow>
          try_bind (compare_members ref cand ms) (\<lambda>ds.
            Inr (if r \<noteq> c then \<lparr>m_name = m, m_reference = r, m_candidate = c\<rparr> # ds else ds))
      | (None, _) \<Rightarrow> Inl (MemberUncompared m ''the reference'')
      | (Some _, None) \<Rightarrow> Inl (MemberUncompared m ''the candidate''))"

text \<open>Up to three disagreements are shown and the rest counted.\<close>

definition shown_members :: "(string \<Rightarrow> string) \<Rightarrow> string \<Rightarrow> member list \<Rightarrow> string list" where
  "shown_members quote oracle ds =
     map (\<lambda>d. m_name d @ '': '' @ oracle @ '' '' @ quote (m_reference d) @ '', candidate '' @
       quote (m_candidate d)) (take 3 ds) @
     (if length ds > 3 then [''...and '' @ nat_dec (length ds - 3) @ '' more''] else [])"

definition class_line :: "falsifying_class \<Rightarrow> string" where
  "class_line fc = ''class: '' @ fc_description fc"

lemma class_line_not_blank [simp]: "\<not> blank (class_line fc)"
  by (simp add: class_line_def solid_byte_nat)

definition class_evidence :: "falsifying_class \<Rightarrow> string \<Rightarrow> string list \<Rightarrow> int \<Rightarrow> member list \<Rightarrow> string list" where
  "class_evidence fc oracle members declared disagreed =
     [class_line fc, ''generator: '' @ fc_generator fc, ''oracle: '' @ oracle,
      nat_dec (length members) @ '' of '' @ int_dec declared @ '' declared members replayed against '' @
        oracle @ '' and the candidate'',
      ''members on which they disagree: '' @ nat_dec (length disagreed)]"

definition class_result :: "string \<Rightarrow> string \<Rightarrow> string list \<Rightarrow> stage_result" where
  "class_result oc reason ev = \<lparr>sr_stage = class_name, sr_outcome = oc, sr_reason = reason, sr_evidence = ev\<rparr>"

text \<open>Without a reference: a differential against the unpatched build.\<close>

definition judge_change :: "(string \<Rightarrow> string) \<Rightarrow> string \<Rightarrow> string list \<Rightarrow> member list \<Rightarrow> stage_result" where
  "judge_change quote expected evidence disagreed =
     (let unintended = filter (\<lambda>d. \<not> contains_sub (m_reference d) expected) disagreed;
          ev = evidence @ [''of those, '' @ nat_dec (length unintended) @
                 '' are on members the unpatched build did not crash on'']
      in if unintended = [] then
           class_result outcome_undecided reason_class_no_reference
             (ev @ [''every divergence is on a member that crashed before the patch'',
                ''against the unpatched build that is indistinguishable from an incomplete '' @
                ''fix, so the class does not adjudicate this candidate without a reference''])
         else
           class_result outcome_undecided reason_unadjudicated
             (ev @ shown_members quote ''unpatched'' unintended @
               [''these members did not crash before the patch and behave differently after it. '' @
                ''Whether that is a fault is not something this differential can determine: a '' @
                ''legitimate fix may tighten validation. Surfaced for a human to adjudicate.'']))"

text \<open>With a reference: any disagreement rejects, and only the whole class accepts.\<close>

definition judge_reference :: "(string \<Rightarrow> string) \<Rightarrow> string list \<Rightarrow> string list \<Rightarrow> int \<Rightarrow> member list \<Rightarrow>
    stage_result" where
  "judge_reference quote evidence members declared disagreed =
     (if disagreed \<noteq> [] then
        class_result outcome_failed reason_class_replay_fail
          (evidence @ shown_members quote ''reference'' disagreed @
            [''the candidate handles the crashing input but diverges from a known-good '' @
             ''fix elsewhere in its class, which is what an incomplete fix does''])
      else if int (length members) < declared then
        class_result outcome_undecided reason_class_truncated
          (evidence @ [''no divergence in '' @ nat_dec (length members) @ '' of '' @ int_dec declared @
             '' declared members, which does not establish agreement '' @
             ''across the class; raise the member bound to conclude''])
      else
        class_result outcome_passed []
          (evidence @ [''the candidate agrees with the reference fix across the whole class'']))"

definition oracle_name :: "string \<Rightarrow> string" where
  "oracle_name ref = (if ref = [] then ''the unpatched build'' else ''the reference fix'')"

definition class_judge :: "(string \<Rightarrow> string) \<Rightarrow> string \<Rightarrow> string \<Rightarrow> falsifying_class \<Rightarrow> string list \<Rightarrow> int \<Rightarrow>
    member list \<Rightarrow> stage_result" where
  "class_judge quote ref expected fc members declared disagreed =
     (let ev = class_evidence fc (oracle_name ref) members declared disagreed
      in if ref = [] then judge_change quote expected ev disagreed
         else judge_reference quote ev members declared disagreed)"

definition class_replay_members :: "(string \<Rightarrow> string) \<Rightarrow> 'w class_target \<Rightarrow> string \<Rightarrow> string \<Rightarrow> string \<Rightarrow>
    falsifying_class \<Rightarrow> string list \<Rightarrow> int \<Rightarrow> ('w, class_error, stage_result) action" where
  "class_replay_members quote tg cand_patch_file ref expected fc members declared =
     (if members = [] then act_fail NoMembers
      else
        act_bind (act_wrap (OracleReplayFailed (oracle_name ref)) (ct_replay tg ref members)) (\<lambda>ro.
        act_bind (act_wrap CandidateReplayFailed (ct_replay tg cand_patch_file members)) (\<lambda>co.
          case compare_members ro co members of
            Inl e \<Rightarrow> act_fail e
          | Inr ds \<Rightarrow> act_return (class_judge quote ref expected fc members declared ds))))"

definition class_replay_run :: "(string \<Rightarrow> string) \<Rightarrow> 'w class_target \<Rightarrow> string \<Rightarrow> string \<Rightarrow> gate_input \<Rightarrow>
    ('w, class_error, stage_result) action" where
  "class_replay_run quote tg cand_patch_file ref inp =
     (case case_class (gi_case inp) of
        None \<Rightarrow>
          act_return (class_result outcome_undecided reason_class_not_defined
            [''the case defines no falsifying_class, so there is no class to replay'',
             ''gradable by the stages that do not need one; not by this stage''])
      | Some fc \<Rightarrow>
          if fc_observer fc = [] then
            act_return (class_result outcome_undecided reason_class_observer_missing
              [''the case declares a falsifying_class with no observer, so nothing produces '' @
               ''the observation its discriminator names'',
               ''discriminator: '' @ fc_discriminator fc])
          else
            act_bind (act_wrap GenerateFailed (ct_generate tg fc)) (\<lambda>(members, declared).
              class_replay_members quote tg cand_patch_file ref (pov_expected (case_pov (gi_case inp)))
                fc members declared))"

definition class_stage :: "(string \<Rightarrow> string) \<Rightarrow> 'w class_target \<Rightarrow> string \<Rightarrow> string \<Rightarrow> ('w, class_error) stage" where
  "class_stage quote tg cand_patch_file ref =
     \<lparr>st_name = class_name, st_run = class_replay_run quote tg cand_patch_file ref\<rparr>"

section \<open>What the stage decides\<close>

lemma compare_members_iff:
  "compare_members ro co ms = Inr ds \<longleftrightarrow>
     list_all (\<lambda>m. ro m \<noteq> None \<and> co m \<noteq> None) ms \<and>
     ds = map (\<lambda>m. \<lparr>m_name = m, m_reference = the (ro m), m_candidate = the (co m)\<rparr>)
            (filter (\<lambda>m. ro m \<noteq> co m) ms)"
proof (induction ms arbitrary: ds)
  case Nil
  then show ?case by auto
next
  case (Cons m ms)
  show ?case
  proof (cases "ro m")
    case None
    then show ?thesis by simp
  next
    case r: (Some r)
    show ?thesis
    proof (cases "co m")
      case None
      with r show ?thesis by simp
    next
      case (Some c)
      with r show ?thesis by (auto simp: try_bind_Inr Cons.IH)
    qed
  qed
qed

text \<open>The outcome and reason, said of the class and the two replays alone.\<close>

definition class_verdict :: "string \<Rightarrow> string \<Rightarrow> string list \<Rightarrow> int \<Rightarrow> (string \<Rightarrow> string option) \<Rightarrow>
    (string \<Rightarrow> string option) \<Rightarrow> string \<times> string" where
  "class_verdict ref expected members declared ro co =
     (if ref = [] then
        (if \<exists>m\<in>set members. ro m \<noteq> co m \<and> \<not> contains_sub (the (ro m)) expected
         then (outcome_undecided, reason_unadjudicated)
         else (outcome_undecided, reason_class_no_reference))
      else if \<exists>m\<in>set members. ro m \<noteq> co m then (outcome_failed, reason_class_replay_fail)
      else if int (length members) < declared then (outcome_undecided, reason_class_truncated)
      else (outcome_passed, []))"

lemma class_result_simps [simp]:
  "sr_stage (class_result oc rs ev) = class_name" "sr_outcome (class_result oc rs ev) = oc"
  "sr_reason (class_result oc rs ev) = rs" "sr_evidence (class_result oc rs ev) = ev"
  by (simp_all add: class_result_def)

lemma class_judge_verdict:
  assumes "compare_members ro co members = Inr ds"
  shows "(sr_outcome (class_judge quote ref expected fc members declared ds),
          sr_reason (class_judge quote ref expected fc members declared ds)) =
     class_verdict ref expected members declared ro co"
proof -
  have ds: "ds = map (\<lambda>m. \<lparr>m_name = m, m_reference = the (ro m), m_candidate = the (co m)\<rparr>)
            (filter (\<lambda>m. ro m \<noteq> co m) members)"
    using assms(1) by (simp add: compare_members_iff)
  define differ where "differ \<longleftrightarrow> (\<exists>m\<in>set members. ro m \<noteq> co m)"
  define change where "change \<longleftrightarrow> (\<exists>m\<in>set members. ro m \<noteq> co m \<and> \<not> contains_sub (the (ro m)) expected)"
  have e1: "ds = [] \<longleftrightarrow> \<not> differ"
    by (auto simp: ds differ_def filter_empty_conv)
  have e2: "filter (\<lambda>d. \<not> contains_sub (m_reference d) expected) ds = [] \<longleftrightarrow> \<not> change"
    by (auto simp: ds change_def filter_empty_conv)
  show ?thesis
    unfolding class_judge_def judge_change_def judge_reference_def class_verdict_def Let_def e1 e2
      differ_def [symmetric] change_def [symmetric]
    by simp
qed

lemma class_judge_sound:
  "result_sound (class_judge quote ref expected fc members declared ds) \<and>
   sr_stage (class_judge quote ref expected fc members declared ds) = class_name"
  unfolding class_judge_def judge_change_def judge_reference_def Let_def class_evidence_def
  by (auto simp: result_sound_def non_blank_0)

text \<open>A run that reaches the comparison: the class and both replays it made, in order.\<close>

definition class_replayed :: "'w class_target \<Rightarrow> string \<Rightarrow> string \<Rightarrow> gate_input \<Rightarrow> 'w \<Rightarrow>
    string list \<Rightarrow> int \<Rightarrow> (string \<Rightarrow> string option) \<Rightarrow> (string \<Rightarrow> string option) \<Rightarrow> 'w \<Rightarrow> bool" where
  "class_replayed tg cand_patch_file ref inp w members declared ro co w' =
     (\<exists>fc w1 w2. case_class (gi_case inp) = Some fc \<and> fc_observer fc \<noteq> [] \<and>
        ct_generate tg fc w = (Inr (members, declared), w1) \<and> members \<noteq> [] \<and>
        ct_replay tg ref members w1 = (Inr ro, w2) \<and>
        ct_replay tg cand_patch_file members w2 = (Inr co, w'))"

lemma class_replay_members_steps:
  "class_replay_members quote tg cand ref expected fc members declared w = (Inr r, w') \<longleftrightarrow>
     members \<noteq> [] \<and> (\<exists>ro co w2 ds. ct_replay tg ref members w = (Inr ro, w2) \<and>
       ct_replay tg cand members w2 = (Inr co, w') \<and> compare_members ro co members = Inr ds \<and>
       r = class_judge quote ref expected fc members declared ds)"
proof -
  have "(case compare_members ro co members of
           Inl e \<Rightarrow> act_fail e
         | Inr ds \<Rightarrow> act_return (class_judge quote ref expected fc members declared ds)) v = (Inr r, w') \<longleftrightarrow>
      (\<exists>ds. compare_members ro co members = Inr ds \<and> w' = v \<and>
         r = class_judge quote ref expected fc members declared ds)" for ro co v
    by (cases "compare_members ro co members") (auto simp: result_simps)
  then show ?thesis
    unfolding class_replay_members_def by (auto simp: result_simps)
qed

lemma class_replay_run_replays:
  assumes "case_class (gi_case inp) = Some fc" "fc_observer fc \<noteq> []"
  shows "class_replay_run quote tg cand ref inp w = (Inr r, w') \<longleftrightarrow>
     (\<exists>members declared ro co ds. class_replayed tg cand ref inp w members declared ro co w' \<and>
        compare_members ro co members = Inr ds \<and>
        r = class_judge quote ref (pov_expected (case_pov (gi_case inp))) fc members declared ds)"
  using assms by (auto simp: class_replay_run_def class_replayed_def result_simps class_replay_members_steps)

lemma class_replay_run_cases:
  assumes "class_replay_run quote tg cand ref inp w = (Inr r, w')"
  obtains (early) "result_sound r" "sr_stage r = class_name" "sr_outcome r = outcome_undecided" "w' = w"
  | (judged) fc members declared ro co ds where
      "class_replayed tg cand ref inp w members declared ro co w'"
      "compare_members ro co members = Inr ds"
      "r = class_judge quote ref (pov_expected (case_pov (gi_case inp))) fc members declared ds"
proof (cases "case_class (gi_case inp)")
  case None
  with assms early show ?thesis
    by (auto simp: class_replay_run_def result_simps result_sound_def non_blank_0 solid_byte_nat)
next
  case (Some fc)
  show ?thesis
  proof (cases "fc_observer fc = []")
    case True
    with Some assms early show ?thesis
      by (auto simp: class_replay_run_def result_simps result_sound_def non_blank_0 solid_byte_nat)
  next
    case False
    from assms [unfolded class_replay_run_replays [OF Some False]] judged show ?thesis by blast
  qed
qed

interpretation m2: gate_stage "class_stage quote tg cand ref" for quote tg cand ref
proof
  show "st_name (class_stage quote tg cand ref) \<noteq> []"
    by (simp add: class_stage_def class_name_def)
  fix inp w r w'
  assume "st_run (class_stage quote tg cand ref) inp w = (Inr r, w')"
  then have "class_replay_run quote tg cand ref inp w = (Inr r, w')" by (simp add: class_stage_def)
  then have "result_sound r \<and> sr_stage r = class_name"
    by (cases rule: class_replay_run_cases) (simp_all add: class_judge_sound)
  then show "result_sound r" "sr_stage r = [] \<or> sr_stage r = st_name (class_stage quote tg cand ref)"
    by (simp_all add: class_stage_def)
qed

text \<open>
   M2 decides by the class alone: when the class was generated and both replays
  observed every member, a divergence from the reference rejects, agreement on fewer
  members than declared is undecided, agreement on the class passes; with no reference
  the result is always undecided.
\<close>

theorem class_replay_decides_by_the_class:
  assumes "class_replayed tg cand ref inp w members declared ro co w'"
    and "\<forall>m\<in>set members. ro m \<noteq> None \<and> co m \<noteq> None"
  shows "\<exists>r. class_replay_run quote tg cand ref inp w = (Inr r, w') \<and>
     (sr_outcome r, sr_reason r) =
       class_verdict ref (pov_expected (case_pov (gi_case inp))) members declared ro co"
proof -
  from assms(1) obtain fc where fc: "case_class (gi_case inp) = Some fc" "fc_observer fc \<noteq> []"
    by (auto simp: class_replayed_def)
  from assms(2) obtain ds where ds: "compare_members ro co members = Inr ds"
    by (auto simp: compare_members_iff list_all_iff)
  have "class_replay_run quote tg cand ref inp w =
      (Inr (class_judge quote ref (pov_expected (case_pov (gi_case inp))) fc members declared ds), w')"
    unfolding class_replay_run_replays [OF fc] using assms(1) ds by blast
  with class_judge_verdict [OF ds] show ?thesis by blast
qed

lemma class_replay_pass:
  assumes "class_replay_run quote tg cand ref inp w = (Inr r, w')" "sr_outcome r = outcome_passed"
  shows "\<exists>members declared ro co. class_replayed tg cand ref inp w members declared ro co w' \<and>
     ref \<noteq> [] \<and> declared \<le> int (length members) \<and>
     list_all (\<lambda>m. \<exists>v. ro m = Some v \<and> co m = Some v) members"
  using assms(1)
proof (cases rule: class_replay_run_cases)
  case early
  with assms(2) show ?thesis by simp
next
  case (judged fc members declared ro co ds)
  have "class_verdict ref (pov_expected (case_pov (gi_case inp))) members declared ro co =
      (outcome_passed, sr_reason r)"
    using class_judge_verdict [OF judged(2)] judged(3) assms(2) by metis
  then have "ref \<noteq> []" "declared \<le> int (length members)" "\<forall>m\<in>set members. ro m = co m"
    by (auto simp: class_verdict_def split: if_splits)
  moreover have "list_all (\<lambda>m. ro m \<noteq> None \<and> co m \<noteq> None) members"
    using judged(2) by (simp add: compare_members_iff)
  ultimately show ?thesis
    using judged(1) by (intro exI [of _ members] exI [of _ declared] exI [of _ ro] exI [of _ co])
      (auto simp: list_all_iff)
qed

text \<open>
  C6.  A pass of M2 covers the class: a reference fix was given, at least as many
  members as the case declares were generated, and on every one of them both replays
  gave an observation and the observations are equal.
\<close>

theorem class_replay_pass_covers_class:
  assumes "class_replay_run quote tg cand ref inp w = (Inr r, w')" "sr_outcome r = outcome_passed"
  shows "\<exists>members declared ro co. class_replayed tg cand ref inp w members declared ro co w' \<and>
     ref \<noteq> [] \<and> declared \<le> int (length members) \<and>
     list_all (\<lambda>m. \<exists>v. ro m = Some v \<and> co m = Some v) members"
  by (rule class_replay_pass [OF assms])

text \<open>
   Silence is not agreement: when some member of the class is missing from one of
  the replays, M2 is an error and never a result.
\<close>

theorem class_replay_missing_member_is_error:
  assumes "class_replayed tg cand ref inp w members declared ro co w'"
    and "m \<in> set members" "ro m = None \<or> co m = None"
  shows "\<exists>m' side. class_replay_run quote tg cand ref inp w = (Inl (MemberUncompared m' side), w')"
proof -
  from assms(1) obtain fc w1 w2 where fc: "case_class (gi_case inp) = Some fc" "fc_observer fc \<noteq> []"
      "ct_generate tg fc w = (Inr (members, declared), w1)" "members \<noteq> []"
      "ct_replay tg ref members w1 = (Inr ro, w2)" "ct_replay tg cand members w2 = (Inr co, w')"
    by (auto simp: class_replayed_def)
  have "\<exists>m' side. compare_members ro co ms = Inl (MemberUncompared m' side)" if "m \<in> set ms" for ms
    using that assms(3)
    by (induction ms) (auto split: option.splits)
  from this [OF assms(2)] fc show ?thesis
    by (auto simp: class_replay_run_def class_replay_members_def act_bind_def act_wrap_def act_fail_def)
qed

section \<open>Examples\<close>

text \<open>A class of two inputs, the second of which the candidate handles as a given text.\<close>

definition sample_class_target :: "string option \<Rightarrow> unit class_target" where
  "sample_class_target obs = \<lparr>ct_generate = (\<lambda>fc w. (Inr ([''kw01.png'', ''kw02.png''], fc_size fc), w)),
     ct_replay = (\<lambda>p ms w. (Inr (\<lambda>m. if m = ''kw02.png'' \<and> p = ''fix.diff'' then obs else Some ''rejected''), w))\<rparr>"

definition sample_observation :: "string \<Rightarrow> string option \<Rightarrow> string \<Rightarrow> string option" where
  "sample_observation p obs = (\<lambda>m. if m = ''kw02.png'' \<and> p = ''fix.diff'' then obs else Some ''rejected'')"

lemma sample_class_replayed:
  "class_replayed (sample_class_target obs) ''fix.diff'' ''good.diff'' sample_input ()
     [''kw01.png'', ''kw02.png''] 2 (sample_observation ''good.diff'' obs) (sample_observation ''fix.diff'' obs) ()"
  by (simp add: class_replayed_def sample_class_target_def sample_observation_def sample_defs)

theorem class_replay_decides_by_the_class_witness:
  "\<exists>r. class_replay_run (go_quote (\<lambda>_. True)) (sample_class_target (Some ''accepted'')) ''fix.diff'' ''good.diff''
       sample_input () = (Inr r, ()) \<and>
     (sr_outcome r, sr_reason r) = (outcome_failed, reason_class_replay_fail)"
  using class_replay_decides_by_the_class [OF sample_class_replayed [of "Some ''accepted''"],
      of "go_quote (\<lambda>_. True)"]
  by (simp add: sample_observation_def class_verdict_def)

theorem class_replay_pass_covers_class_witness:
  "\<exists>members declared ro co. class_replayed (sample_class_target (Some ''rejected'')) ''fix.diff'' ''good.diff''
       sample_input () members declared ro co () \<and>
     ''good.diff'' \<noteq> [] \<and> declared \<le> int (length members) \<and>
     list_all (\<lambda>m. \<exists>v. ro m = Some v \<and> co m = Some v) members"
proof -
  let ?ro = "sample_observation ''good.diff'' (Some ''rejected'')"
  let ?co = "sample_observation ''fix.diff'' (Some ''rejected'')"
  have cmp: "compare_members ?ro ?co [''kw01.png'', ''kw02.png''] = Inr []"
    by (simp add: compare_members_iff sample_observation_def)
  let ?r = "class_judge (go_quote (\<lambda>_. True)) ''good.diff'' (pov_expected (case_pov (gi_case sample_input)))
    sample_class [''kw01.png'', ''kw02.png''] 2 []"
  have fc: "case_class (gi_case sample_input) = Some sample_class" "fc_observer sample_class \<noteq> []"
    by (simp_all add: sample_defs)
  have run: "class_replay_run (go_quote (\<lambda>_. True)) (sample_class_target (Some ''rejected'')) ''fix.diff''
      ''good.diff'' sample_input () = (Inr ?r, ())"
    unfolding class_replay_run_replays [OF fc] using sample_class_replayed cmp by blast
  have "sr_outcome ?r = outcome_passed"
    using class_judge_verdict [OF cmp, of "go_quote (\<lambda>_. True)" "''good.diff''"
      "pov_expected (case_pov (gi_case sample_input))" sample_class 2]
    by (simp add: class_verdict_def sample_observation_def)
  with run show ?thesis by (rule class_replay_pass_covers_class)
qed

theorem class_replay_missing_member_is_error_witness:
  "\<exists>m' side. class_replay_run (go_quote (\<lambda>_. True)) (sample_class_target None) ''fix.diff'' ''good.diff''
     sample_input () = (Inl (MemberUncompared m' side), ())"
  by (rule class_replay_missing_member_is_error [OF sample_class_replayed, of "''kw02.png''"])
    (simp_all add: sample_observation_def)

end
