(* ===== verification/Os_Exec.thy ===== *)
theory Os_Exec
  imports Go_Path Go_Text
begin

text \<open>
  The operations of the operating system the drivers call (\<open>os\<close>, \<open>os/exec\<close>,
  \<open>path/filepath\<close>): a record of operations on a world, whose errors are texts.  Running a
  command returns its combined output and its error, if any.
\<close>

record 'w os_ops =
  os_stat_size :: "string \<Rightarrow> ('w, string, int) action"
  os_mkdir_all :: "string \<Rightarrow> ('w, string, unit) action"
  os_read_file :: "string \<Rightarrow> ('w, string, string) action"
  os_glob :: "string \<Rightarrow> ('w, string, string list) action"
  os_mod_time :: "string \<Rightarrow> ('w, string, int) action"
  os_abs :: "string \<Rightarrow> ('w, string, string) action"
  os_exec :: "string \<Rightarrow> string list \<Rightarrow> string list \<Rightarrow> 'w \<Rightarrow> (string \<times> string option) \<times> 'w"

text \<open>
  \<open>os_exec ops dir env argv\<close> runs a command in a directory with variables added to the
  environment.  Go on with the output when there is no error.
\<close>

definition exec_ok :: "'w os_ops \<Rightarrow> string \<Rightarrow> string list \<Rightarrow> string list \<Rightarrow> (string \<Rightarrow> string \<Rightarrow> 'e) \<Rightarrow>
    ('w, 'e, string) action" where
  "exec_ok ops dir env argv err = (\<lambda>w.
     case os_exec ops dir env argv w of
       ((out, None), w') \<Rightarrow> (Inr out, w')
     | ((out, Some e), w') \<Rightarrow> (Inl (err e out), w'))"

lemma exec_ok_Inr [result_simps]:
  "exec_ok ops dir env argv err w = (Inr out, w') \<longleftrightarrow> os_exec ops dir env argv w = ((out, None), w')"
  by (auto simp: exec_ok_def split: prod.splits option.splits)

text \<open>Ignore the result of an operation, keeping what it did to the world.\<close>

definition act_ignore :: "('w, 'e, 'a) action \<Rightarrow> ('w, 'f, unit) action" where
  "act_ignore m = act_try m (\<lambda>_. act_return ())"

text \<open>\<open>defer\<close>: run the body, then the deferred operation, and keep the body's result.\<close>

definition act_defer :: "('w, 'f, 'b) action \<Rightarrow> ('w, 'e, 'a) action \<Rightarrow> ('w, 'e, 'a) action" where
  "act_defer d body = (\<lambda>w. case body w of (r, w') \<Rightarrow> (r, snd (d w')))"

lemma act_defer_Inr [result_simps]:
  "act_defer d body w = (Inr y, w') \<longleftrightarrow> (\<exists>w1. body w = (Inr y, w1) \<and> w' = snd (d w1))"
  by (auto simp: act_defer_def split: prod.splits)

text \<open>The last \<open>n\<close> lines of an output.\<close>

definition last_lines :: "string \<Rightarrow> nat \<Rightarrow> string" where
  "last_lines s n =
     (let ls = split_char newline (rev (dropWhile (\<lambda>c. c = newline) (rev s)))
      in join_with [newline] (drop (length ls - n) ls))"

text \<open>At most the last \<open>n\<close> bytes, marked when shortened.\<close>

definition last_bytes :: "string \<Rightarrow> nat \<Rightarrow> string" where
  "last_bytes s n = (if length s \<le> n then s else ''...'' @ drop (length s - n) s)"

end
