(* ===== verification/Oss_Fuzz.thy ===== *)
theory Oss_Fuzz
  imports Class_Replay Os_Exec Go_Regex
begin

text \<open>
  The driver of M2 (\<open>pkg/classreplay/ossfuzz.go\<close>): generating the class, rebuilding the
  target under a patch and running the case's observer over the class, and the
  normalisation that removes from an observation what varies between two runs of the
  same build.  Processes and files are the operations of \<open>Os_Exec\<close>.
\<close>

record oss_fuzz =
  of_repo_root :: string
  of_source :: string
  of_ref :: string
  of_tooling :: string
  of_project :: string
  of_sanitizer :: string
  of_shim :: string
  of_work_dir :: string
  of_observer :: string
  of_members :: int

section \<open>Generating the class\<close>

definition member_name :: "nat \<Rightarrow> string" where
  "member_name i = ''kw'' @ (if i < 10 then ''0'' else []) @ nat_dec i @ ''.png''"

definition class_bound :: "int \<Rightarrow> int \<Rightarrow> nat" where
  "class_bound declared bound = nat (if bound \<le> 0 \<or> bound > declared then declared else bound)"

definition generate_member :: "'w os_ops \<Rightarrow> oss_fuzz \<Rightarrow> string \<Rightarrow> nat \<Rightarrow> ('w, string, string) action" where
  "generate_member ops t gen i =
     (let out = path_join [of_work_dir t, member_name i]
      in act_bind (exec_ok ops [] [] [''python3'', gen, replicate i CHR ''A'', out, ''400'']
             (\<lambda>e b. ''generator at length '' @ nat_dec i @ '': '' @ e @ '': '' @ b)) (\<lambda>_.
         act_try (os_stat_size ops out) (\<lambda>fi.
           case fi of
             Inl e \<Rightarrow> act_fail (''generator produced nothing at length '' @ nat_dec i)
           | Inr sz \<Rightarrow>
               if sz = 0 then act_fail (''generator produced nothing at length '' @ nat_dec i)
               else act_return (member_name i))))"

fun generate_members :: "'w os_ops \<Rightarrow> oss_fuzz \<Rightarrow> string \<Rightarrow> nat list \<Rightarrow> ('w, string, string list) action" where
  "generate_members ops t gen [] = act_return []"
| "generate_members ops t gen (i # is) =
     act_bind (generate_member ops t gen i) (\<lambda>name.
     act_bind (generate_members ops t gen is) (\<lambda>names. act_return (name # names)))"

definition fuzz_generate :: "'w os_ops \<Rightarrow> oss_fuzz \<Rightarrow> falsifying_class \<Rightarrow>
    ('w, string, string list \<times> int) action" where
  "fuzz_generate ops t fc =
     (let gen = path_join [of_repo_root t, fc_generator fc]
      in act_bind (act_wrap (\<lambda>e. ''generator '' @ fc_generator fc @ '': '' @ e) (os_stat_size ops gen)) (\<lambda>_.
         act_bind (os_mkdir_all ops (of_work_dir t)) (\<lambda>_.
           if fc_size fc \<le> 0 then
             act_fail (''the case declares no falsifying_class size, so whether a run covered the '' @
               ''class cannot be decided'')
           else
             act_bind (generate_members ops t gen [1..<Suc (class_bound (fc_size fc) (of_members t))])
               (\<lambda>ms. act_return (ms, fc_size fc)))))"

section \<open>Normalising an observation\<close>

definition hex_re :: rx where
  "hex_re = RSeq (rx_lit ''0x'') (rx_plus True
     (RCls (\<lambda>c. re_digit c \<or> in_range CHR ''a'' CHR ''f'' c \<or> in_range CHR ''A'' CHR ''F'' c)))"

definition pid_re :: rx where
  "pid_re = rx_seq [rx_lit ''=='', rx_plus True (RCls re_digit), rx_lit ''=='']"

definition path_re :: rx where
  "path_re = rx_seq [rx_lit ''/'', RStar True (RCls (\<lambda>c. in_range CHR ''A'' CHR ''Z'' c \<or> in_range CHR ''a'' CHR ''z'' c \<or>
       re_digit c \<or> c \<in> {CHR ''.'', CHR ''_'', CHR ''/'', CHR ''-''})),
     rx_lit ''/'', RAlt (rx_lit ''src'') (RAlt (rx_lit ''out'') (rx_lit ''work'')), rx_lit ''/'']"

text \<open>Both alternatives of the expression for times stand between word boundaries.\<close>

definition ms_re :: rx where
  "ms_re = RAlt (RSeq (rx_plus True (RCls re_digit)) (rx_lit ''ms''))
     (rx_seq [rx_lit ''in '', rx_plus True (RCls re_digit), rx_lit '' ms''])"

definition ansi_re :: rx where
  "ansi_re = rx_seq [RCls (\<lambda>c. c = CHR 0x1B), rx_lit ''['', RStar True (RCls (\<lambda>c. re_digit c \<or> c = CHR 0x3B)),
     rx_lit ''m'']"

definition blank_re :: rx where
  "blank_re = rx_seq [RCls (\<lambda>c. c = newline), rx_plus True (RCls (\<lambda>c. c = newline))]"

definition replace_all :: "bool \<Rightarrow> rx \<Rightarrow> string \<Rightarrow> string \<Rightarrow> string" where
  "replace_all wb r repl s = rx_replace wb r repl [] s"

definition banner :: "string \<Rightarrow> bool" where
  "banner ln = (has_prefix ln ''INFO: Seed:'' \<or> has_prefix ln ''INFO: Loaded'' \<or>
     has_prefix ln ''INFO: -max_len'' \<or> has_prefix ln ''Running:'' \<or> has_prefix ln ''Executed '')"

definition trim_blanks :: "string \<Rightarrow> string" where
  "trim_blanks ln = rev (dropWhile (\<lambda>c. c = CHR '' '' \<or> c = CHR 0x09) (rev ln))"

definition scrub :: "string \<Rightarrow> string" where
  "scrub s =
     replace_all True ms_re ''TIME''
       (replace_all False path_re ''/PATH/''
         (replace_all False pid_re ''==PID==''
           (replace_all False hex_re ''0xADDR'' (replace_all False ansi_re [] s))))"

definition normalise :: "string \<Rightarrow> string" where
  "normalise s =
     trim_space (replace_all False blank_re [newline]
       (join_with [newline] (filter (\<lambda>ln. \<not> banner ln) (map trim_blanks (split_char newline (scrub s))))))"

section \<open>Replaying the class\<close>

text \<open>One \<open>member TAB observation\<close> line per member; a later line for a member wins.\<close>

definition observed_line :: "(string \<Rightarrow> string option) \<Rightarrow> string \<Rightarrow> (string \<Rightarrow> string option)" where
  "observed_line obs ln =
     (case cut_char CHR 0x09 (rev (dropWhile (\<lambda>c. c = CHR 0x0D) (rev ln))) of
        None \<Rightarrow> obs
      | Some (name, o') \<Rightarrow> if name = [] then obs else obs(name \<mapsto> normalise o'))"

definition observations :: "string \<Rightarrow> string \<Rightarrow> string option" where
  "observations b = foldl observed_line Map.empty (split_char newline b)"

definition names_member :: "string \<Rightarrow> bool" where
  "names_member ln =
     (case cut_char CHR 0x09 (rev (dropWhile (\<lambda>c. c = CHR 0x0D) (rev ln))) of
        None \<Rightarrow> False
      | Some (name, o') \<Rightarrow> name \<noteq> [])"

definition fuzz_git :: "'w os_ops \<Rightarrow> oss_fuzz \<Rightarrow> string list \<Rightarrow> ('w, string, string) action" where
  "fuzz_git ops t args =
     exec_ok ops (of_source t) [] (''git'' # args) (\<lambda>e b. ''git '' @ hd args @ '': '' @ e @ '': '' @ b)"

definition fuzz_reset :: "'w os_ops \<Rightarrow> oss_fuzz \<Rightarrow> ('w, string, unit) action" where
  "fuzz_reset ops t =
     act_bind (fuzz_git ops t [''checkout'', ''-q'', ''--detach'', ''origin/'' @ of_ref t]) (\<lambda>_.
     act_bind (fuzz_git ops t [''reset'', ''-q'', ''--hard'']) (\<lambda>_.
     act_bind (fuzz_git ops t [''clean'', ''-qfd'']) (\<lambda>_. act_return ())))"

definition fuzz_apply :: "'w os_ops \<Rightarrow> oss_fuzz \<Rightarrow> string \<Rightarrow> ('w, string, unit) action" where
  "fuzz_apply ops t patch =
     (if patch = [] then act_return ()
      else
        (let p = (if is_abs patch then patch else path_join [of_repo_root t, patch])
         in act_bind (exec_ok ops (of_source t) [] [''git'', ''apply'', p]
                (\<lambda>e b. ''apply '' @ patch @ '': '' @ e @ '': '' @ b)) (\<lambda>_. act_return ())))"

text \<open>\<open>path\<close> is the \<open>PATH\<close> of the process, to which the shim is put first.\<close>

definition fuzz_env :: "oss_fuzz \<Rightarrow> string \<Rightarrow> string list" where
  "fuzz_env t path = [''PATH='' @ of_shim t @ '':'' @ path]"

definition fuzz_observe :: "(string \<Rightarrow> string) \<Rightarrow> 'w os_ops \<Rightarrow> oss_fuzz \<Rightarrow> string \<Rightarrow> string \<Rightarrow>
    ('w, string, string \<Rightarrow> string option) action" where
  "fuzz_observe quote ops t path patch =
     act_bind (exec_ok ops (of_tooling t) (fuzz_env t path)
         [''python3'', ''infra/helper.py'', ''build_fuzzers'', ''--sanitizer'', of_sanitizer t, of_project t, of_source t]
         (\<lambda>e b. ''build with patch '' @ quote patch @ '': '' @ e @ '': '' @ last_lines b 20)) (\<lambda>_.
     act_bind (exec_ok ops [] (fuzz_env t path) [of_observer t, of_source t, of_work_dir t]
         (\<lambda>e b. ''observer '' @ of_observer t @ '' with patch '' @ quote patch @ '': '' @ e @ '': '' @
            last_lines b 20)) (\<lambda>b.
       if \<not> list_ex names_member (split_char newline b) then
         act_fail (''observer '' @ of_observer t @ '' produced no <member>'' @ [CHR 0x5C] @ ''t<observation> lines, so nothing was observed'')
       else act_return (observations b)))"

definition fuzz_replay :: "(string \<Rightarrow> string) \<Rightarrow> 'w os_ops \<Rightarrow> oss_fuzz \<Rightarrow> string \<Rightarrow> string \<Rightarrow> string list \<Rightarrow>
    ('w, string, string \<Rightarrow> string option) action" where
  "fuzz_replay quote ops t path patch members =
     act_bind (fuzz_reset ops t) (\<lambda>_.
       act_defer (fuzz_reset ops t)
         (act_bind (fuzz_apply ops t patch) (\<lambda>_. fuzz_observe quote ops t path patch)))"

definition oss_fuzz_target :: "(string \<Rightarrow> string) \<Rightarrow> 'w os_ops \<Rightarrow> oss_fuzz \<Rightarrow> string \<Rightarrow> 'w class_target" where
  "oss_fuzz_target quote ops t path =
     \<lparr>ct_generate = fuzz_generate ops t, ct_replay = fuzz_replay quote ops t path\<rparr>"

section \<open>What the driver gives the stage\<close>

lemma generate_member_name:
  "generate_member ops t gen i w = (Inr m, w') \<Longrightarrow> m = member_name i"
  by (auto simp: generate_member_def Let_def result_simps split: if_splits)

lemma generate_members_names:
  "generate_members ops t gen is w = (Inr ms, w') \<Longrightarrow> ms = map member_name is"
  by (induction "is" arbitrary: w ms) (auto simp: result_simps dest: generate_member_name)

lemma fuzz_generate_members:
  assumes "fuzz_generate ops t fc w = (Inr (ms, d), w')"
  shows "d = fc_size fc \<and> 0 < fc_size fc \<and>
     ms = map member_name [1..<Suc (class_bound (fc_size fc) (of_members t))]"
  using assms
  by (auto simp: fuzz_generate_def Let_def result_simps dest: generate_members_names simp del: upt_Suc split: if_splits)

lemma class_bound_le: "0 < d \<Longrightarrow> int (class_bound d b) \<le> d"
  by (simp add: class_bound_def)

lemma observed_line_keeps: "obs m \<noteq> None \<Longrightarrow> observed_line obs ln m \<noteq> None"
  by (auto simp: observed_line_def split: option.splits prod.splits)

lemma foldl_observed:
  "foldl observed_line obs lns m \<noteq> None \<longleftrightarrow>
     obs m \<noteq> None \<or> (\<exists>ln\<in>set lns. observed_line Map.empty ln m \<noteq> None)"
proof (induction lns arbitrary: obs)
  case Nil
  then show ?case by simp
next
  case (Cons ln lns)
  have "observed_line obs ln m \<noteq> None \<longleftrightarrow> obs m \<noteq> None \<or> observed_line Map.empty ln m \<noteq> None"
    by (auto simp: observed_line_def split: option.splits prod.splits)
  with Cons show ?case by auto
qed

text \<open>Whatever happens in a replay after its first reset, the tree is reset at its end.\<close>

lemma fuzz_replay_resets:
  assumes "fuzz_reset ops t w = (Inr (), w1)"
  shows "\<exists>v. snd (fuzz_replay quote ops t path patch members w) = snd (fuzz_reset ops t v)"
  using assms by (auto simp: fuzz_replay_def act_bind_def act_defer_def split: prod.splits)

text \<open>
   Through the real driver, a pass of M2 means that the whole declared class was
  observed: for every number from 1 to the class's size, the member of that number has
  an observation under the reference fix and an equal one under the candidate.
\<close>

theorem fuzz_pass_covers_declared_class:
  assumes "class_replay_run quote (oss_fuzz_target quote ops t path) cand ref inp w = (Inr r, w')"
    and "sr_outcome r = outcome_passed"
  shows "\<exists>fc members ro co. case_class (gi_case inp) = Some fc \<and> ref \<noteq> [] \<and> 0 < fc_size fc \<and>
     class_replayed (oss_fuzz_target quote ops t path) cand ref inp w members (fc_size fc) ro co w' \<and>
     list_all (\<lambda>i. \<exists>v. ro (member_name i) = Some v \<and> co (member_name i) = Some v) [1..<Suc (nat (fc_size fc))]"
proof -
  from class_replay_pass [OF assms] obtain members declared ro co where
    cr: "class_replayed (oss_fuzz_target quote ops t path) cand ref inp w members declared ro co w'"
    and r: "ref \<noteq> []" "declared \<le> int (length members)"
    and eq: "list_all (\<lambda>m. \<exists>v. ro m = Some v \<and> co m = Some v) members" by blast
  from cr obtain fc w1 where fc: "case_class (gi_case inp) = Some fc"
      and gen: "fuzz_generate ops t fc w = (Inr (members, declared), w1)"
    by (auto simp: class_replayed_def oss_fuzz_target_def)
  note ms = fuzz_generate_members [OF gen]
  have "int (length members) = int (class_bound (fc_size fc) (of_members t))" using ms by simp
  with r(2) ms class_bound_le [of "fc_size fc" "of_members t"]
  have "class_bound (fc_size fc) (of_members t) = nat (fc_size fc)" by linarith
  with ms eq have "list_all (\<lambda>i. \<exists>v. ro (member_name i) = Some v \<and> co (member_name i) = Some v)
      [1..<Suc (nat (fc_size fc))]"
    by (simp add: list_all_iff)
  with fc r(1) ms cr show ?thesis by blast
qed

section \<open>Example\<close>

text \<open>Commands that all succeed; the observer prints the same two lines for every build.\<close>

definition sample_observer_output :: string where
  "sample_observer_output = ''kw01.png'' @ [CHR 0x09] @ ''rejected'' @ [newline] @
     ''kw02.png'' @ [CHR 0x09] @ ''rejected'' @ [newline]"

definition sample_os :: "unit os_ops" where
  "sample_os = \<lparr>os_stat_size = (\<lambda>p w. (Inr 7, w)), os_mkdir_all = (\<lambda>p w. (Inr (), w)),
     os_read_file = (\<lambda>p w. (Inl ''no such file'', w)), os_glob = (\<lambda>p w. (Inr [], w)),
     os_mod_time = (\<lambda>p w. (Inr 0, w)), os_abs = (\<lambda>p w. (Inr p, w)),
     os_exec = (\<lambda>dir env argv w. ((if hd argv = ''/observe'' then sample_observer_output else [], None), w))\<rparr>"

definition sample_fuzz :: oss_fuzz where
  "sample_fuzz = \<lparr>of_repo_root = ''/repo'', of_source = ''/src'', of_ref = ''main'', of_tooling = ''/oss-fuzz'',
     of_project = ''libpng'', of_sanitizer = ''address'', of_shim = ''/shim'', of_work_dir = ''/work'',
     of_observer = ''/observe'', of_members = 0\<rparr>"

lemma sample_output_lines:
  "split_char newline sample_observer_output =
     [''kw01.png'' @ [CHR 0x09] @ ''rejected'', ''kw02.png'' @ [CHR 0x09] @ ''rejected'', []]"
  by (simp add: sample_observer_output_def)

lemma sample_observations:
  "observations sample_observer_output ''kw01.png'' \<noteq> None"
  "observations sample_observer_output ''kw02.png'' \<noteq> None"
  unfolding observations_def foldl_observed sample_output_lines
  by (simp_all add: observed_line_def)

lemma sample_decs: "nat_dec (Suc 0) = ''1''" "nat_dec (Suc (Suc 0)) = ''2''"
  by code_simp+

lemma sample_names: "list_ex names_member (split_char newline sample_observer_output)"
  unfolding sample_output_lines by (simp add: names_member_def)

text \<open>The same with a candidate that changes nothing the observer sees.\<close>

lemma sample_fuzz_run:
  "\<exists>r. class_replay_run (go_quote (\<lambda>_. True)) (oss_fuzz_target (go_quote (\<lambda>_. True)) sample_os sample_fuzz [])
       ''fix.diff'' ''good.diff'' sample_input () = (Inr r, ()) \<and> sr_outcome r = outcome_passed"
proof -
  let ?q = "go_quote (\<lambda>_. True)"
  let ?tg = "oss_fuzz_target ?q sample_os sample_fuzz []"
  let ?obs = "observations sample_observer_output"
  have gen: "ct_generate ?tg sample_class () = (Inr ([''kw01.png'', ''kw02.png''], 2), ())"
    by (simp add: oss_fuzz_target_def fuzz_generate_def generate_member_def sample_os_def sample_class_def
        sample_fuzz_def class_bound_def act_bind_def act_wrap_def act_try_def act_return_def exec_ok_def
        member_name_def Let_def upt_rec numeral_2_eq_2 sample_decs)
  have rep: "ct_replay ?tg p ms () = (Inr ?obs, ())" for p ms
    by (simp add: oss_fuzz_target_def fuzz_replay_def fuzz_reset_def fuzz_git_def fuzz_apply_def fuzz_observe_def
        sample_os_def sample_fuzz_def act_bind_def act_wrap_def act_try_def act_return_def exec_ok_def
        act_defer_def Let_def sample_names [simplified])
  have fc: "case_class (gi_case sample_input) = Some sample_class" "fc_observer sample_class \<noteq> []"
    by (simp_all add: sample_defs)
  have cr: "class_replayed ?tg ''fix.diff'' ''good.diff'' sample_input () [''kw01.png'', ''kw02.png''] 2 ?obs ?obs ()"
    using fc gen rep by (simp add: class_replayed_def)
  have cmp: "compare_members ?obs ?obs [''kw01.png'', ''kw02.png''] = Inr []"
    unfolding compare_members_iff using sample_observations by simp
  let ?r = "class_judge ?q ''good.diff'' (pov_expected (case_pov (gi_case sample_input)))
    sample_class [''kw01.png'', ''kw02.png''] 2 []"
  have "class_replay_run ?q ?tg ''fix.diff'' ''good.diff'' sample_input () = (Inr ?r, ())"
    unfolding class_replay_run_replays [OF fc] using cr cmp by blast
  moreover have "sr_outcome ?r = outcome_passed"
    using class_judge_verdict [OF cmp, of ?q "''good.diff''"
      "pov_expected (case_pov (gi_case sample_input))" sample_class 2]
    by (simp add: class_verdict_def)
  ultimately show ?thesis by blast
qed

theorem fuzz_pass_covers_declared_class_witness:
  "\<exists>fc members ro co. case_class (gi_case sample_input) = Some fc \<and> ''good.diff'' \<noteq> [] \<and> 0 < fc_size fc \<and>
     class_replayed (oss_fuzz_target (go_quote (\<lambda>_. True)) sample_os sample_fuzz []) ''fix.diff'' ''good.diff''
       sample_input () members (fc_size fc) ro co () \<and>
     list_all (\<lambda>i. \<exists>v. ro (member_name i) = Some v \<and> co (member_name i) = Some v) [1..<Suc (nat (fc_size fc))]"
proof -
  from sample_fuzz_run obtain r where
    "class_replay_run (go_quote (\<lambda>_. True)) (oss_fuzz_target (go_quote (\<lambda>_. True)) sample_os sample_fuzz [])
       ''fix.diff'' ''good.diff'' sample_input () = (Inr r, ())" "sr_outcome r = outcome_passed"
    by blast
  then show ?thesis by (rule fuzz_pass_covers_declared_class)
qed

end
