(* ===== verification/Eval_Score.thy ===== *)
theory Eval_Score
  imports Gate_Stages
begin

text \<open>
  Package \<open>pkg/eval\<close>: scoring the gate against the answer key, one matrix per stage.

  The Go map from stage to matrix is a map; the loop that fills the result and sorts it
  by stage is the list of the stages that ran, sorted.
\<close>

record outcome =
  oc_case :: string
  oc_candidate :: string
  oc_label :: string
  oc_expected :: string
  oc_decision :: decision

record matrix =
  mx_stage :: string
  good_accepted :: nat
  good_rejected :: nat
  bad_rejected :: nat
  bad_accepted :: nat
  reason_matched :: nat
  reason_mismatch :: nat
  undecided_in_scope :: nat
  out_of_scope :: nat
  mx_unassigned :: nat

definition matrix_sound :: "matrix \<Rightarrow> bool" where
  "matrix_sound m = (good_accepted m > 0 \<or> good_rejected m = 0)"

definition stage_key :: "string \<Rightarrow> string" where
  "stage_key name =
     (if name = ''patch-effect'' then stage_m0
      else if name = ''revert-to-attribute'' then stage_m1
      else if name = ''class-replay'' then stage_m2
      else name)"

definition fresh_matrix :: "string \<Rightarrow> matrix" where
  "fresh_matrix s = \<lparr>mx_stage = s, good_accepted = 0, good_rejected = 0, bad_rejected = 0, bad_accepted = 0,
     reason_matched = 0, reason_mismatch = 0, undecided_in_scope = 0, out_of_scope = 0, mx_unassigned = 0\<rparr>"

text \<open>The stage the answer key holds answerable; none for a candidate with no expected reason.\<close>

definition answerable :: "outcome \<Rightarrow> string" where
  "answerable oc = (if oc_expected oc = [] then [] else stage_for (oc_expected oc))"

definition tally_reason :: "outcome \<Rightarrow> stage_result \<Rightarrow> matrix \<Rightarrow> matrix" where
  "tally_reason oc sr m =
     (if sr_reason sr = oc_expected oc then m\<lparr>reason_matched := reason_matched m + 1\<rparr>
      else m\<lparr>reason_mismatch := reason_mismatch m + 1\<rparr>)"

definition tally :: "outcome \<Rightarrow> stage_result \<Rightarrow> matrix \<Rightarrow> matrix" where
  "tally oc sr m =
     (if oc_label oc = label_good then
        (if sr_outcome sr = outcome_passed then m\<lparr>good_accepted := good_accepted m + 1\<rparr>
         else m\<lparr>good_rejected := good_rejected m + 1\<rparr>)
      else if answerable oc = stage_unassigned then m\<lparr>mx_unassigned := mx_unassigned m + 1\<rparr>
      else if answerable oc \<noteq> stage_key (sr_stage sr) then m\<lparr>out_of_scope := out_of_scope m + 1\<rparr>
      else if sr_outcome sr = outcome_failed then
        tally_reason oc sr (m\<lparr>bad_rejected := bad_rejected m + 1\<rparr>)
      else if sr_outcome sr = outcome_undecided then
        tally_reason oc sr (m\<lparr>undecided_in_scope := undecided_in_scope m + 1\<rparr>)
      else m\<lparr>bad_accepted := bad_accepted m + 1\<rparr>)"

type_synonym by_stage = "string \<Rightarrow> matrix option"

definition get_matrix :: "by_stage \<Rightarrow> string \<Rightarrow> matrix" where
  "get_matrix t s = (case t s of None \<Rightarrow> fresh_matrix s | Some m \<Rightarrow> m)"

definition score_result :: "outcome \<Rightarrow> stage_result \<Rightarrow> by_stage \<Rightarrow> by_stage" where
  "score_result oc sr t =
     (let s = stage_key (sr_stage sr) in t(s \<mapsto> tally oc sr (get_matrix t s)))"

definition score_outcome :: "outcome \<Rightarrow> by_stage \<Rightarrow> by_stage" where
  "score_outcome oc t = fold (score_result oc) (d_stages (oc_decision oc)) t"

definition note_stage :: "stage_result \<Rightarrow> by_stage \<Rightarrow> by_stage" where
  "note_stage sr t = (let s = stage_key (sr_stage sr) in t(s \<mapsto> get_matrix t s))"

definition stages_run :: "outcome list \<Rightarrow> stage_result list" where
  "stages_run ocs = concat (map (\<lambda>oc. d_stages (oc_decision oc)) ocs)"

definition score_table :: "outcome list \<Rightarrow> by_stage" where
  "score_table ocs = fold score_outcome ocs (fold note_stage (stages_run ocs) Map.empty)"

definition score :: "outcome list \<Rightarrow> matrix list" where
  "score ocs = map (\<lambda>s. the (score_table ocs s)) (sort (remdups (map (\<lambda>sr. stage_key (sr_stage sr)) (stages_run ocs))))"

section \<open>The scores are counts\<close>

text \<open>Every pair of an outcome and one of its stage results, in the order they are scored.\<close>

definition scored :: "outcome list \<Rightarrow> (outcome \<times> stage_result) list" where
  "scored ocs = concat (map (\<lambda>oc. map (Pair oc) (d_stages (oc_decision oc))) ocs)"

definition scored_for :: "string \<Rightarrow> outcome list \<Rightarrow> (outcome \<times> stage_result) list" where
  "scored_for s ocs = filter (\<lambda>(oc, sr). stage_key (sr_stage sr) = s) (scored ocs)"

lemma score_outcomes_fold:
  "fold score_outcome ocs t = fold (\<lambda>(oc, sr). score_result oc sr) (scored ocs) t"
  by (induction ocs arbitrary: t) (simp_all add: score_outcome_def scored_def fold_map comp_def)

lemma fold_score_at:
  "get_matrix (fold (\<lambda>(oc, sr). score_result oc sr) ps t) s =
     fold (\<lambda>(oc, sr). tally oc sr) (filter (\<lambda>(oc, sr). stage_key (sr_stage sr) = s) ps) (get_matrix t s)"
  by (induction ps arbitrary: t) (auto simp: score_result_def Let_def get_matrix_def)

lemma fold_note_at:
  "get_matrix (fold note_stage srs t) s = get_matrix t s"
proof (induction srs arbitrary: t)
  case (Cons sr srs)
  have "get_matrix (note_stage sr t) s = get_matrix t s"
    by (auto simp: note_stage_def Let_def get_matrix_def)
  with Cons show ?case by simp
qed simp

lemma fold_note_dom:
  "fold note_stage srs t s \<noteq> None \<longleftrightarrow> t s \<noteq> None \<or> (\<exists>sr\<in>set srs. stage_key (sr_stage sr) = s)"
  by (induction srs arbitrary: t) (auto simp: note_stage_def Let_def)

lemma fold_score_keeps:
  "t s \<noteq> None \<Longrightarrow> fold (\<lambda>(oc, sr). score_result oc sr) ps t s \<noteq> None"
  by (induction ps arbitrary: t) (auto simp: score_result_def Let_def split: prod.splits)

lemma score_table_at:
  assumes "\<exists>sr\<in>set (stages_run ocs). stage_key (sr_stage sr) = s"
  shows "score_table ocs s =
    Some (fold (\<lambda>(oc, sr). tally oc sr) (scored_for s ocs) (fresh_matrix s))"
proof -
  have "fold note_stage (stages_run ocs) Map.empty s \<noteq> None"
    using assms unfolding fold_note_dom by blast
  then have "score_table ocs s \<noteq> None"
    unfolding score_table_def score_outcomes_fold by (rule fold_score_keeps)
  moreover have "get_matrix (score_table ocs) s =
      fold (\<lambda>(oc, sr). tally oc sr) (scored_for s ocs) (fresh_matrix s)"
    unfolding score_table_def score_outcomes_fold fold_score_at fold_note_at
    by (simp add: scored_for_def get_matrix_def)
  ultimately show ?thesis by (auto simp: get_matrix_def)
qed

lemma score_table_run:
  "sr \<in> set (stages_run ocs) \<Longrightarrow> score_table ocs (stage_key (sr_stage sr)) =
     Some (fold (\<lambda>(oc, sr). tally oc sr) (scored_for (stage_key (sr_stage sr)) ocs)
       (fresh_matrix (stage_key (sr_stage sr))))"
  by (rule score_table_at) blast

lemma score_set:
  "set (score ocs) = (\<lambda>s. fold (\<lambda>(oc, sr). tally oc sr) (scored_for s ocs) (fresh_matrix s)) `
     (\<lambda>sr. stage_key (sr_stage sr)) ` set (stages_run ocs)"
  unfolding score_def set_map set_sort set_remdups
  by (rule image_cong [OF refl]) (auto simp: score_table_run)

lemma tally_stage [simp]: "mx_stage (tally oc sr m) = mx_stage m"
  by (simp add: tally_def tally_reason_def)

lemma fold_tally_stage [simp]: "mx_stage (fold (\<lambda>(oc, sr). tally oc sr) ps m) = mx_stage m"
  by (induction ps arbitrary: m) auto

definition cells :: "matrix \<Rightarrow> nat" where
  "cells m = good_accepted m + good_rejected m + bad_rejected m + bad_accepted m + undecided_in_scope m +
     out_of_scope m + mx_unassigned m"

text \<open>What each cell counts, said of one scored pair.\<close>

definition is_good :: "outcome \<Rightarrow> bool" where
  "is_good oc = (oc_label oc = label_good)"

definition is_bad_for :: "string \<Rightarrow> outcome \<Rightarrow> bool" where
  "is_bad_for s oc = (\<not> is_good oc \<and> answerable oc = s \<and> s \<noteq> stage_unassigned)"

definition stopped :: "stage_result \<Rightarrow> bool" where
  "stopped sr = (sr_outcome sr \<in> {outcome_failed, outcome_undecided})"

definition counted :: "(outcome \<times> stage_result \<Rightarrow> bool) \<Rightarrow> (outcome \<times> stage_result) list \<Rightarrow> nat" where
  "counted P ps = length (filter P ps)"

definition matrix_counts :: "string \<Rightarrow> (outcome \<times> stage_result) list \<Rightarrow> matrix \<Rightarrow> bool" where
  "matrix_counts s ps m =
     (good_accepted m = counted (\<lambda>(oc, sr). is_good oc \<and> sr_outcome sr = outcome_passed) ps \<and>
      good_rejected m = counted (\<lambda>(oc, sr). is_good oc \<and> sr_outcome sr \<noteq> outcome_passed) ps \<and>
      bad_rejected m = counted (\<lambda>(oc, sr). is_bad_for s oc \<and> sr_outcome sr = outcome_failed) ps \<and>
      undecided_in_scope m = counted (\<lambda>(oc, sr). is_bad_for s oc \<and> sr_outcome sr = outcome_undecided) ps \<and>
      bad_accepted m = counted (\<lambda>(oc, sr). is_bad_for s oc \<and> \<not> stopped sr) ps \<and>
      out_of_scope m = counted (\<lambda>(oc, sr). \<not> is_good oc \<and> answerable oc \<noteq> stage_unassigned \<and> answerable oc \<noteq> s) ps \<and>
      mx_unassigned m = counted (\<lambda>(oc, sr). \<not> is_good oc \<and> answerable oc = stage_unassigned) ps \<and>
      reason_matched m = counted (\<lambda>(oc, sr). is_bad_for s oc \<and> stopped sr \<and> sr_reason sr = oc_expected oc) ps \<and>
      reason_mismatch m = counted (\<lambda>(oc, sr). is_bad_for s oc \<and> stopped sr \<and> sr_reason sr \<noteq> oc_expected oc) ps \<and>
      cells m = length ps)"

lemma matrix_counts_snoc:
  assumes "matrix_counts s ps m" "stage_key (sr_stage sr) = s"
  shows "matrix_counts s (ps @ [(oc, sr)]) (tally oc sr m)"
  using assms
  by (cases "s = stage_unassigned")
    (auto simp: matrix_counts_def counted_def tally_def tally_reason_def is_good_def is_bad_for_def stopped_def cells_def)

lemma fold_tally_counts:
  "\<forall>(oc, sr)\<in>set ps. stage_key (sr_stage sr) = s \<Longrightarrow>
   matrix_counts s ps (fold (\<lambda>(oc, sr). tally oc sr) ps (fresh_matrix s))"
proof (induction ps rule: rev_induct)
  case Nil
  then show ?case by (simp add: matrix_counts_def counted_def fresh_matrix_def cells_def)
next
  case (snoc p ps)
  then show ?case by (cases p) (auto intro: matrix_counts_snoc)
qed

text \<open>
  C30. The scores are counts and nothing is lost: there is one matrix for every stage that
  ran, its cells add up to the results of that stage, and each cell counts exactly what it
  names.  A good candidate is accepted or not by every stage; a bad one counts as accepted,
  rejected or undecided only at the stage the answer key holds answerable for it, as out of
  scope at every other stage, never as accepted there, and as unassigned where no stage is
  answerable.  A reason is compared, and matches or not, for the in-scope candidates the
  stage rejected and, unlike the comment on the field says, also for those it left undecided.
\<close>

theorem score_counts_every_result:
  "map mx_stage (score ocs) = sort (remdups (map (\<lambda>sr. stage_key (sr_stage sr)) (stages_run ocs))) \<and>
   list_all (\<lambda>m. matrix_counts (mx_stage m) (scored_for (mx_stage m) ocs) m) (score ocs)"
proof
  have "map mx_stage (score ocs) = map (\<lambda>s. s) (sort (remdups (map (\<lambda>sr. stage_key (sr_stage sr)) (stages_run ocs))))"
    unfolding score_def map_map
  proof (rule map_cong [OF refl])
    fix s
    assume "s \<in> set (sort (remdups (map (\<lambda>sr. stage_key (sr_stage sr)) (stages_run ocs))))"
    then have "\<exists>sr\<in>set (stages_run ocs). stage_key (sr_stage sr) = s" by auto
    from score_table_at [OF this] show "(mx_stage \<circ> (\<lambda>s. the (score_table ocs s))) s = s"
      by (simp add: fresh_matrix_def)
  qed
  then show "map mx_stage (score ocs) = sort (remdups (map (\<lambda>sr. stage_key (sr_stage sr)) (stages_run ocs)))"
    by simp
  have "matrix_counts s (scored_for s ocs)
      (fold (\<lambda>(oc, sr). tally oc sr) (scored_for s ocs) (fresh_matrix s))" for s
    by (rule fold_tally_counts) (auto simp: scored_for_def)
  then show "list_all (\<lambda>m. matrix_counts (mx_stage m) (scored_for (mx_stage m) ocs) m) (score ocs)"
    by (auto simp: list_all_iff score_set fresh_matrix_def)
qed

text \<open>
   A stage that refuses everything is told apart: if some good candidate reached the
  stage and none of the results of the stage passed, its matrix is not sound.
\<close>

theorem refuse_everything_is_not_sound:
  assumes "m \<in> set (score ocs)" "\<exists>(oc, sr)\<in>set (scored_for (mx_stage m) ocs). oc_label oc = label_good"
    and "\<forall>(oc, sr)\<in>set (scored_for (mx_stage m) ocs). sr_outcome sr \<noteq> outcome_passed"
  shows "\<not> matrix_sound m"
proof -
  define ps where "ps = scored_for (mx_stage m) ocs"
  from assms(1) obtain s where m: "m = fold (\<lambda>(oc, sr). tally oc sr) (scored_for s ocs) (fresh_matrix s)"
    by (auto simp: score_set)
  then have s: "mx_stage m = s" by (simp add: fresh_matrix_def)
  have "matrix_counts s (scored_for s ocs) m"
    unfolding m by (rule fold_tally_counts) (auto simp: scored_for_def)
  then have "matrix_counts s ps m" by (simp add: ps_def s)
  then have "good_accepted m = counted (\<lambda>(oc, sr). is_good oc \<and> sr_outcome sr = outcome_passed) ps"
      "good_rejected m = counted (\<lambda>(oc, sr). is_good oc \<and> sr_outcome sr \<noteq> outcome_passed) ps"
    by (simp_all add: matrix_counts_def)
  moreover have "filter (\<lambda>(oc, sr). is_good oc \<and> sr_outcome sr = outcome_passed) ps = []"
    using assms(3) by (auto simp: ps_def filter_empty_conv)
  moreover have "filter (\<lambda>(oc, sr). is_good oc \<and> sr_outcome sr \<noteq> outcome_passed) ps \<noteq> []"
    using assms(2,3) by (auto simp: ps_def filter_empty_conv is_good_def)
  ultimately show ?thesis by (simp add: matrix_sound_def counted_def)
qed

text \<open>A gate broken into refusing every patch at M1, on one good candidate.\<close>

definition refused_outcome :: outcome where
  "refused_outcome = \<lparr>oc_case = ''libpng-1'', oc_candidate = ''fix'', oc_label = label_good, oc_expected = [],
     oc_decision = \<lparr>d_case = ''libpng-1'', d_candidate = ''fix'', d_verdict = verdict_reject,
       d_reason = reason_revert_attribute_fail,
       d_stages = [\<lparr>sr_stage = ''revert-to-attribute'', sr_outcome = outcome_failed,
         sr_reason = reason_revert_attribute_fail, sr_evidence = [''refused'']\<rparr>],
       d_not_proven = [''everything''], d_artifacts = [], d_usage = []\<rparr>\<rparr>"

lemma refused_score: "score [refused_outcome] = [(fresh_matrix stage_m1)\<lparr>good_rejected := 1\<rparr>]"
  by (simp add: score_def stages_run_def score_table_def score_outcome_def score_result_def note_stage_def
      get_matrix_def refused_outcome_def tally_def stage_key_def fresh_matrix_def Let_def)

theorem refuse_everything_is_not_sound_witness:
  "\<not> matrix_sound ((fresh_matrix stage_m1)\<lparr>good_rejected := 1\<rparr>)"
  by (rule refuse_everything_is_not_sound [of _ "[refused_outcome]"], unfold refused_score)
    (simp_all add: scored_for_def scored_def refused_outcome_def stage_key_def fresh_matrix_def)

text \<open>
   No bad candidate is ever scored for the sanitizer stage M3: its name is not one
  \<open>stageKey\<close> knows, so no reason is answerable to it, and its matrix counts no rejected,
  accepted or undecided bad candidate whatever the stage decided.
\<close>

theorem sanitizer_stage_is_never_scored:
  "list_all (\<lambda>m. mx_stage m = ''sanitizer-gated-reachability'' \<longrightarrow>
     bad_rejected m = 0 \<and> bad_accepted m = 0 \<and> undecided_in_scope m = 0 \<and> reason_matched m = 0) (score ocs)"
proof -
  let ?s = "''sanitizer-gated-reachability''"
  let ?z = "\<lambda>m. bad_rejected m = 0 \<and> bad_accepted m = 0 \<and> undecided_in_scope m = 0 \<and> reason_matched m = 0"
  have no: "answerable oc \<noteq> ?s" for oc
    by (simp add: answerable_def stage_for_def)
  have step: "?z (tally oc sr m)" if "?z m" "stage_key (sr_stage sr) = ?s" for oc sr and m :: matrix
    using that no [of oc] by (simp add: tally_def)
  have "?z (fold (\<lambda>(oc, sr). tally oc sr) ps m)"
    if "\<forall>(oc, sr)\<in>set ps. stage_key (sr_stage sr) = ?s" "?z m" for ps and m :: matrix
    using that by (induction ps arbitrary: m) (auto simp: step)
  from this [of "scored_for ?s ocs" "fresh_matrix ?s"]
  have "?z (fold (\<lambda>(oc, sr). tally oc sr) (scored_for ?s ocs) (fresh_matrix ?s))"
    by (auto simp: scored_for_def fresh_matrix_def)
  moreover have "mx_stage (fold (\<lambda>(oc, sr). tally oc sr) (scored_for s ocs) (fresh_matrix s)) = s" for s
    by (simp add: fresh_matrix_def)
  ultimately show ?thesis
    by (auto simp: list_all_iff score_set)
qed

text \<open>The matrix the theorem is about does arise: M3 refusing the candidate the key expects it to.\<close>

definition sanitizer_outcome :: outcome where
  "sanitizer_outcome = refused_outcome\<lparr>oc_label := label_regression, oc_expected := reason_new_sanitizer_finding,
     oc_decision := (oc_decision refused_outcome)\<lparr>d_reason := reason_new_sanitizer_finding,
       d_stages := [\<lparr>sr_stage = ''sanitizer-gated-reachability'', sr_outcome = outcome_failed,
         sr_reason = reason_new_sanitizer_finding, sr_evidence = [''site differs'']\<rparr>]\<rparr>\<rparr>"

lemma sanitizer_outcome_score:
  "score [sanitizer_outcome] = [(fresh_matrix ''sanitizer-gated-reachability'')\<lparr>out_of_scope := 1\<rparr>]"
  by (simp add: score_def stages_run_def score_table_def score_outcome_def score_result_def note_stage_def
      get_matrix_def refused_outcome_def sanitizer_outcome_def tally_def stage_key_def fresh_matrix_def
      answerable_def stage_for_def Let_def)

theorem sanitizer_stage_is_never_scored_witness:
  "bad_rejected (hd (score [sanitizer_outcome])) = 0 \<and> out_of_scope (hd (score [sanitizer_outcome])) = 1"
  using sanitizer_stage_is_never_scored [of "[sanitizer_outcome]"]
  unfolding sanitizer_outcome_score by (simp add: fresh_matrix_def)

text \<open>
  A bad candidate that M1 lets pass and M2 is answerable for: out of scope at M1, and at M2,
  which is undecided for another reason than the expected one, undecided and mismatched.
\<close>

definition leaking_outcome :: outcome where
  "leaking_outcome = refused_outcome\<lparr>oc_label := label_regression, oc_expected := reason_class_replay_fail,
     oc_decision := (oc_decision refused_outcome)\<lparr>d_stages :=
       [\<lparr>sr_stage = ''revert-to-attribute'', sr_outcome = outcome_passed, sr_reason = [], sr_evidence = [''silent'']\<rparr>,
        \<lparr>sr_stage = ''class-replay'', sr_outcome = outcome_undecided, sr_reason = reason_class_not_defined, sr_evidence = [''no class'']\<rparr>]\<rparr>\<rparr>"

lemma leaking_score:
  "score [leaking_outcome] = [(fresh_matrix stage_m1)\<lparr>out_of_scope := 1\<rparr>,
     (fresh_matrix stage_m2)\<lparr>undecided_in_scope := 1, reason_mismatch := 1\<rparr>]"
  by code_simp

theorem score_counts_every_result_witness:
  "map mx_stage (score [leaking_outcome]) = [stage_m1, stage_m2] \<and>
   bad_accepted (score [leaking_outcome] ! 0) = 0 \<and> out_of_scope (score [leaking_outcome] ! 0) = 1 \<and>
   list_all (\<lambda>m. matrix_counts (mx_stage m) (scored_for (mx_stage m) [leaking_outcome]) m) (score [leaking_outcome])"
  using score_counts_every_result [of "[leaking_outcome]"]
  unfolding leaking_score by (simp add: fresh_matrix_def)

end
