(* ===== verification/Go_Json.thy ===== *)
theory Go_Json
  imports Go_Text
begin

text \<open>
  The part of \<open>encoding/json\<close> the repository relies on: how \<open>Marshal\<close> writes texts,
  numbers and lists, and how \<open>Unmarshal\<close> reads a value.

  Reading has fuel for the nesting and the length of the value; \<open>parse_json\<close> gives as much
  as the text is long, which \<open>parse_json_enough_fuel\<close> shows is never too little.
\<close>

section \<open>Texts\<close>

definition backslash :: char where [simp]: "backslash = CHR 0x5C"
definition dquote :: char where [simp]: "dquote = CHR 0x22"

text \<open>How one byte below \<open>0x80\<close> is written, with or without the escapes for HTML.\<close>

definition json_ascii :: "bool \<Rightarrow> char \<Rightarrow> string" where
  "json_ascii html c =
     (if c = dquote \<or> c = backslash then [backslash, c]
      else if code c = 0x08 then [backslash, CHR ''b'']
      else if code c = 0x0C then [backslash, CHR ''f'']
      else if code c = 0x0A then [backslash, CHR ''n'']
      else if code c = 0x0D then [backslash, CHR ''r'']
      else if code c = 0x09 then [backslash, CHR ''t'']
      else if code c < 0x20 \<or> html \<and> c \<in> {CHR ''<'', CHR ''>'', CHR ''&''} then
        [backslash, CHR ''u'', CHR ''0'', CHR ''0'', hex_char (code c div 16), hex_char (code c mod 16)]
      else [c])"

text \<open>One rune: an invalid byte becomes the escape of the replacement character.\<close>

definition json_rune :: "string \<Rightarrow> string" where
  "json_rune r =
     (if r = [] then [backslash, CHR ''u'', CHR ''f'', CHR ''f'', CHR ''f'', CHR ''d'']
      else if rune_value r = 0x2028 then [backslash, CHR ''u'', CHR ''2'', CHR ''0'', CHR ''2'', CHR ''8'']
      else if rune_value r = 0x2029 then [backslash, CHR ''u'', CHR ''2'', CHR ''0'', CHR ''2'', CHR ''9'']
      else r)"

fun json_body :: "bool \<Rightarrow> string \<Rightarrow> string" where
  "json_body html [] = []"
| "json_body html (a # s) =
     (if code a < 0x80 then json_ascii html a @ json_body html s
      else json_rune (take (rune_width (a # s)) (a # s)) @
        json_body html (drop (rune_width (a # s) - 1) s))"

definition json_string :: "bool \<Rightarrow> string \<Rightarrow> string" where
  "json_string html s = [dquote] @ json_body html s @ [dquote]"

text \<open>Four hexadecimal digits, as an escape holds them.\<close>

fun hex4 :: "string \<Rightarrow> (nat \<times> string) option" where
  "hex4 (a # b # c # d # s) =
     (case (hex_val a, hex_val b, hex_val c, hex_val d) of
        (Some w, Some x, Some y, Some z) \<Rightarrow> Some (((w * 16 + x) * 16 + y) * 16 + z, s)
      | _ \<Rightarrow> None)"
| "hex4 s = None"

lemma hex4_shorter: "hex4 s = Some (n, t) \<Longrightarrow> length t < length s"
  by (induction s rule: hex4.induct) (auto split: option.splits)

text \<open>The second half of a surrogate pair, if one follows.\<close>

definition low_half :: "nat \<Rightarrow> string \<Rightarrow> (nat \<times> string) option" where
  "low_half hi s =
     (case s of
        a # b # t \<Rightarrow>
          if a = backslash \<and> b = CHR ''u'' then
            (case hex4 t of
               Some (lo, t') \<Rightarrow>
                 if 0xD800 \<le> hi \<and> hi < 0xDC00 \<and> 0xDC00 \<le> lo \<and> lo < 0xE000
                 then Some ((hi - 0xD800) * 1024 + (lo - 0xDC00) + 0x10000, t') else None
             | None \<Rightarrow> None)
          else None
      | _ \<Rightarrow> None)"

lemma low_half_shorter: "low_half hi s = Some (n, t) \<Longrightarrow> length t < length s"
  by (auto simp: low_half_def split: list.splits option.splits if_splits dest!: hex4_shorter)

text \<open>What follows a backslash: the text it stands for and the rest.\<close>

definition json_escape :: "string \<Rightarrow> (string \<times> string) option" where
  "json_escape s =
     (case s of
        [] \<Rightarrow> None
      | e # t \<Rightarrow>
          if e \<in> {dquote, backslash, CHR ''/''} then Some ([e], t)
          else if e = CHR ''b'' then Some ([byte 0x08], t)
          else if e = CHR ''f'' then Some ([byte 0x0C], t)
          else if e = CHR ''n'' then Some ([byte 0x0A], t)
          else if e = CHR ''r'' then Some ([byte 0x0D], t)
          else if e = CHR ''t'' then Some ([byte 0x09], t)
          else if e = CHR ''u'' then
            (case hex4 t of
               None \<Rightarrow> None
             | Some (r, t1) \<Rightarrow>
                 if surrogate r then
                   (case low_half r t1 of
                      Some (n, t2) \<Rightarrow> Some (encode_rune n, t2)
                    | None \<Rightarrow> Some (encode_rune rune_error, t1))
                 else Some (encode_rune r, t1))
          else None)"

lemma json_escape_shorter: "json_escape s = Some (x, t) \<Longrightarrow> length t < length s"
  by (auto simp: json_escape_def split: list.splits option.splits if_splits dest!: hex4_shorter low_half_shorter)

text \<open>The rest of a text after its opening quote: what it stands for and what follows it.\<close>

function parse_chars :: "string \<Rightarrow> (string \<times> string) option" where
  "parse_chars [] = None"
| "parse_chars (c # s) =
     (if c = dquote then Some ([], s)
      else if c = backslash then
        (case json_escape s of
           None \<Rightarrow> None
         | Some (x, t) \<Rightarrow> (case parse_chars t of None \<Rightarrow> None | Some (y, r) \<Rightarrow> Some (x @ y, r)))
      else if code c < 0x20 then None
      else
        (let w = rune_width (c # s)
         in case parse_chars (drop (w - 1) s) of
              None \<Rightarrow> None
            | Some (y, r) \<Rightarrow> Some ((if w = 0 then encode_rune rune_error else take w (c # s)) @ y, r)))"
  by pat_completeness auto
termination
  by (relation "measure length") (auto dest: json_escape_shorter)

declare parse_chars.simps(2) [simp del]

lemma parse_chars_shorter: "parse_chars s = Some (x, t) \<Longrightarrow> length t < length s"
proof (induction s arbitrary: x t rule: parse_chars.induct)
  case (2 c s)
  show ?case
  proof (cases "c = backslash")
    case True
    with "2.prems" obtain y t' where e: "json_escape s = Some (y, t')" and p: "parse_chars t' \<noteq> None"
      by (auto simp: parse_chars.simps(2) split: option.splits)
    from p obtain z where z: "parse_chars t' = Some (z, t)"
      using "2.prems" True e by (auto simp: parse_chars.simps(2) split: option.splits)
    have "length t < length t'"
      using "2.IH"(1) [OF _ True e refl z] True by simp
    with json_escape_shorter [OF e] show ?thesis by simp
  next
    case False
    show ?thesis
    proof (cases "c = dquote")
      case True
      with "2.prems" show ?thesis by (simp add: parse_chars.simps(2))
    next
      case q: False
      with False "2.prems" obtain z where
        nc: "\<not> code c < 0x20" and z: "parse_chars (drop (rune_width (c # s) - 1) s) = Some (z, t)"
        by (auto simp: parse_chars.simps(2) Let_def split: option.splits if_splits)
      have "length t < length (drop (rune_width (c # s) - 1) s)"
        using "2.IH"(2) [OF q False nc refl z] .
      then show ?thesis by simp
    qed
  qed
qed simp

section \<open>Reading back a text\<close>

lemma byte_nibbles: "code c div 16 < 16" "code c mod 16 < 16"
  using code_less [of c] by auto

lemma hex_val_0: "hex_val CHR ''0'' = Some 0"
  by (simp add: hex_val_def is_digit_nat)

lemma hex4_byte:
  "hex4 (CHR ''0'' # CHR ''0'' # hex_char (code c div 16) # hex_char (code c mod 16) # s) = Some (code c, s)"
  by (simp add: byte_nibbles hex_val_0)

lemma encode_ascii: "code c < 0x80 \<Longrightarrow> encode_rune (code c) = [c]"
  by (simp add: encode_rune_def rune_valid_def surrogate_def encode_valid_def)

lemma json_escape_byte:
  "code c < 0x80 \<Longrightarrow>
   json_escape (CHR ''u'' # CHR ''0'' # CHR ''0'' # hex_char (code c div 16) # hex_char (code c mod 16) # s) = Some ([c], s)"
  using hex4_byte [of c s] by (simp add: json_escape_def surrogate_def encode_ascii)

text \<open>An element of a text that reads as \<open>x\<close>, whatever follows.\<close>

definition reads_as :: "string \<Rightarrow> string \<Rightarrow> bool" where
  "reads_as w x = (\<forall>t. parse_chars (w @ t) =
     (case parse_chars t of None \<Rightarrow> None | Some (y, r) \<Rightarrow> Some (x @ y, r)))"

lemma reads_as_escape:
  "(\<And>t. json_escape (w @ t) = Some (x, t)) \<Longrightarrow> reads_as (backslash # w) x"
  by (simp add: reads_as_def parse_chars.simps(2))

lemma byte_eqI: "code c = n \<Longrightarrow> c = byte n"
  using byte_code [of c] by simp

lemma control_bytes:
  "byte 8 = CHR 0x08" "byte 12 = CHR 0x0C" "byte 10 = CHR 0x0A" "byte 13 = CHR 0x0D" "byte 9 = CHR 0x09"
  using byte_eqI [of "CHR 0x08" 8] byte_eqI [of "CHR 0x0C" 12] byte_eqI [of "CHR 0x0A" 10]
    byte_eqI [of "CHR 0x0D" 13] byte_eqI [of "CHR 0x09" 9]
  by (simp_all add: code_def)

lemma control_codes:
  "code (CHR 0x08) = 8" "code (CHR 0x0C) = 12" "code (CHR 0x0A) = 10" "code (CHR 0x0D) = 13" "code (CHR 0x09) = 9"
  by (simp_all add: code_def)

lemma reads_as_ascii:
  assumes "code c < 0x80"
  shows "reads_as (json_ascii html c) [c]"
proof -
  have short: "reads_as [backslash, e] [byte n]"
    if "\<And>t. json_escape (e # t) = Some ([byte n], t)" for e n
    using reads_as_escape [of "[e]" "[byte n]"] that by simp
  consider (quoted) "c = dquote \<or> c = backslash"
    | (b) "c = byte 8" | (f) "c = byte 12" | (n) "c = byte 10" | (r) "c = byte 13" | (t) "c = byte 9"
    | (hex) "c \<noteq> dquote" "c \<noteq> backslash" "code c \<notin> {8, 12, 10, 13, 9}"
        "code c < 0x20 \<or> html \<and> c \<in> {CHR ''<'', CHR ''>'', CHR ''&''}"
    | (plain) "c \<noteq> dquote" "c \<noteq> backslash" "code c \<notin> {8, 12, 10, 13, 9}"
        "\<not> (code c < 0x20 \<or> html \<and> c \<in> {CHR ''<'', CHR ''>'', CHR ''&''})"
    using byte_eqI by blast
  then show ?thesis
  proof cases
    case quoted
    then have j: "json_ascii html c = [backslash, c]" by (simp add: json_ascii_def)
    show ?thesis unfolding j by (rule reads_as_escape) (use quoted in \<open>auto simp: json_escape_def\<close>)
  next
    case hex
    then have j: "json_ascii html c =
        [backslash, CHR ''u'', CHR ''0'', CHR ''0'', hex_char (code c div 16), hex_char (code c mod 16)]"
      by (simp add: json_ascii_def)
    show ?thesis unfolding j by (rule reads_as_escape) (simp add: json_escape_byte assms)
  next
    case plain
    then have "json_ascii html c = [c]" unfolding json_ascii_def by auto
    with plain show ?thesis
      by (simp add: reads_as_def parse_chars.simps(2) assms split: option.split)
  next
    case b
    have "json_ascii html c = [backslash, CHR ''b'']" by (simp add: b json_ascii_def control_bytes control_codes)
    then show ?thesis using short [of "CHR ''b''"] by (simp add: b json_escape_def)
  next
    case f
    have "json_ascii html c = [backslash, CHR ''f'']" by (simp add: f json_ascii_def control_bytes control_codes)
    then show ?thesis using short [of "CHR ''f''"] by (simp add: f json_escape_def)
  next
    case n
    have "json_ascii html c = [backslash, CHR ''n'']" by (simp add: n json_ascii_def control_bytes control_codes)
    then show ?thesis using short [of "CHR ''n''"] by (simp add: n json_escape_def)
  next
    case r
    have "json_ascii html c = [backslash, CHR ''r'']" by (simp add: r json_ascii_def control_bytes control_codes)
    then show ?thesis using short [of "CHR ''r''"] by (simp add: r json_escape_def)
  next
    case t
    have "json_ascii html c = [backslash, CHR ''t'']" by (simp add: t json_ascii_def control_bytes control_codes)
    then show ?thesis using short [of "CHR ''t''"] by (simp add: t json_escape_def)
  qed
qed

text \<open>A rune beyond ASCII: its bytes as they are, or the escape of a line separator.\<close>

lemma three_bytes_value:
  assumes "rune_width r = length r" "rune_value r = 0x2020 + d" "8 \<le> d" "d \<le> 9"
  shows "r = [byte 0xE2, byte 0x80, byte (0xA0 + d)]"
proof -
  obtain a u where r: "r = a # u" using assms(2) by (cases r) auto
  have w: "rune_width r = lead_width a" "length u = lead_width a - 1" "list_all cont_byte u"
    using assms(1) r by (auto simp: rune_width.simps(2) Let_def split: if_splits)
  have "length r = lead_width a" using w assms(1) by simp
  then consider (one) "u = []" "code a < 0x80" | (two) b where "u = [b]" "in_bytes 0xC2 0xDF a"
    | (three) b c where "u = [b, c]" "in_bytes 0xE0 0xEF a"
    | (four) b c d where "u = [b, c, d]" "in_bytes 0xF0 0xF4 a" "second_ok a u"
    using w(2) assms(1) r
    by (auto simp: lead_width_def rune_width.simps(2) Let_def length_Suc_conv numeral_2_eq_2 numeral_3_eq_3 split: if_splits)
  then show ?thesis
  proof cases
    case one
    then show ?thesis using assms(2) r by simp
  next
    case two
    have "code a mod 32 < 32" "code b mod 64 < 64" by simp_all
    then show ?thesis using assms(2) r two by simp
  next
    case (four b c e)
    have "code a mod 8 < 8" "code b mod 64 < 64" "code c mod 64 < 64" "code e mod 64 < 64" by simp_all
    moreover have "0x10 \<le> code b mod 64 \<or> code a mod 8 \<noteq> 0"
    proof (cases "code a = 0xF0")
      case True
      then have "0x90 \<le> code b" "code b \<le> 0xBF" using four w(3) by (auto simp: second_ok_def in_bytes_def cont_byte_def)
      then have "code b = 0x80 + (code b - 0x80)" "0x10 \<le> code b - 0x80" "code b - 0x80 < 64" by simp_all
      then have "0x10 \<le> code b mod 64" by (metis mod_less mod_add_self1 mod_add_left_eq add.commute mod_self mult_2 numeral_Bit0 mod_mult_self1)
      then show ?thesis by simp
    next
      case False
      then have "code a = 0xF1 \<or> code a = 0xF2 \<or> code a = 0xF3 \<or> code a = 0xF4"
        using four by (auto simp: in_bytes_def)
      then show ?thesis by auto
    qed
    ultimately show ?thesis using assms(2-4) r four by simp
  next
    case (three b c)
    define i j k where "i = code a - 0xE0" "j = code b - 0x80" "k = code c - 0x80"
    have c: "code a = 0xE0 + i" "i < 16" "code b = 0x80 + j" "j < 64" "code c = 0x80 + k" "k < 64"
      using three w(3) by (auto simp: i_j_k_def in_bytes_def cont_byte_def)
    have "i * 4096 + j * 64 + k = 0x2020 + d"
      using assms(2) r three c by (simp add: mod_add_eq [symmetric])
    then have ij: "i * 4096 + j * 64 + k = 0x2020 + d" .
    have "i = 2" using ij c(2,4,6) assms(3,4) by linarith
    moreover from this have "j * 64 + k = 0x20 + d" using ij by simp
    then have "j = 0" using c(4,6) assms(3,4) by linarith
    ultimately have "i = 2" "j = 0" "k = 0x20 + d" using ij by simp_all
    then show ?thesis using c byte_eqI [of a] byte_eqI [of b] byte_eqI [of c] r three by simp
  qed
qed

lemma reads_as_rune:
  assumes "rune_width r = length r" "r = [] \<or> \<not> code (hd r) < 0x80"
  shows "reads_as (json_rune r) (if r = [] then encode_rune rune_error else r)"
proof -
  have h: "hex_val CHR ''f'' = Some 15" "hex_val CHR ''d'' = Some 13" "hex_val CHR ''2'' = Some 2"
    "hex_val CHR ''8'' = Some 8" "hex_val CHR ''9'' = Some 9"
    by (simp_all add: hex_val_def is_digit_nat less_eq_char_def)
  show ?thesis
  proof (cases "r = [] \<or> rune_value r = 0x2028 \<or> rune_value r = 0x2029")
    case True
    have e: "encode_rune 0x2028 = [byte 0xE2, byte 0x80, byte 0xA8]" "encode_rune 0x2029 = [byte 0xE2, byte 0x80, byte 0xA9]"
      by (simp_all add: encode_rune_def rune_valid_def surrogate_def encode_valid_def)
    have r: "rune_value r = 0x2028 \<Longrightarrow> r = encode_rune 0x2028" "rune_value r = 0x2029 \<Longrightarrow> r = encode_rune 0x2029"
      using three_bytes_value [OF assms(1), of 8] three_bytes_value [OF assms(1), of 9] by (simp_all add: e)
    from True show ?thesis
    proof (elim disjE)
      assume "r = []"
      then show ?thesis unfolding json_rune_def
        by simp (rule reads_as_escape [unfolded backslash_def], simp add: json_escape_def h surrogate_def rune_error_def)
    next
      assume v: "rune_value r = 0x2028"
      then have "r \<noteq> []" by auto
      with v r(1) show ?thesis unfolding json_rune_def
        by simp (rule reads_as_escape [unfolded backslash_def], simp add: json_escape_def h hex_val_0 surrogate_def)
    next
      assume v: "rune_value r = 0x2029"
      then have "r \<noteq> []" by auto
      with v r(2) show ?thesis unfolding json_rune_def
        by simp (rule reads_as_escape [unfolded backslash_def], simp add: json_escape_def h hex_val_0 surrogate_def)
    qed
  next
    case False
    then obtain a u where r: "r = a # u" by (cases r) auto
    have "a \<noteq> dquote" "a \<noteq> backslash" "\<not> code a < 0x20"
      using assms(2) r by (auto simp: code_def)
    moreover have "rune_width (a # u @ t) = Suc (length u)" for t
      using rune_width_append [of r t] assms(1) r by simp
    ultimately show ?thesis
      using False r by (simp add: json_rune_def reads_as_def parse_chars.simps(2) split: option.split)
  qed
qed

lemma reads_as_body: "reads_as (json_body html s) (utf8_repair s)"
proof (induction s rule: utf8_repair.induct)
  case 1
  then show ?case by (auto simp: reads_as_def split: option.split)
next
  case (2 a s)
  have app: "reads_as w x \<Longrightarrow> reads_as v y \<Longrightarrow> reads_as (w @ v) (x @ y)" for w x v y
    by (auto simp: reads_as_def split: option.splits)
  show ?case
  proof (cases "code a < 0x80")
    case True
    with app [OF reads_as_ascii [OF True] 2] show ?thesis by simp
  next
    case False
    let ?r = "take (rune_width (a # s)) (a # s)"
    have "rune_width ?r = length ?r" using rune_width_take [of "a # s"] rune_width_le [of "a # s"] by auto
    moreover have "?r = [] \<or> \<not> code (hd ?r) < 0x80" using False by (cases "rune_width (a # s)") auto
    ultimately have "reads_as (json_rune ?r) (if ?r = [] then encode_rune rune_error else ?r)"
      by (rule reads_as_rune)
    from app [OF this 2] False show ?thesis by simp
  qed
qed

text \<open>
  What is written reads back, with each invalid byte replaced: a text that is valid UTF-8
  comes back as it was.
\<close>

lemma parse_chars_body:
  "parse_chars (json_body html s @ dquote # t) = Some (utf8_repair s, t)"
  using reads_as_body [of html s] by (simp add: reads_as_def parse_chars.simps(2))

lemma parse_chars_valid:
  "utf8_valid s \<Longrightarrow> parse_chars (json_body html s @ dquote # t) = Some (s, t)"
  using parse_chars_body [of html s t] by (simp add: utf8_repair_valid)

section \<open>Values\<close>

datatype json =
    JNull
  | JBool bool
  | JNum string
  | JStr string
  | JArr "json list"
  | JObj "(string \<times> json) list"

datatype json_error = JSyntax | JTooDeep | JNoFuel | JBadType

definition json_ws :: "char \<Rightarrow> bool" where
  "json_ws c = (c \<in> {CHR 0x20, CHR 0x09, CHR 0x0A, CHR 0x0D})"

definition skip_ws :: "string \<Rightarrow> string" where
  "skip_ws s = dropWhile json_ws s"

lemma skip_ws_le: "length (skip_ws s) \<le> length s"
  by (simp add: skip_ws_def length_dropWhile_le)

definition starts_with :: "char \<Rightarrow> string \<Rightarrow> bool" where
  "starts_with c s = (s \<noteq> [] \<and> hd s = c)"

text \<open>The parts of a number: its integer, fraction and exponent.\<close>

definition number_digits :: "string \<Rightarrow> (string \<times> string) option" where
  "number_digits s =
     (if takeWhile is_digit s = [] then None else Some (takeWhile is_digit s, dropWhile is_digit s))"

definition number_int :: "string \<Rightarrow> (string \<times> string) option" where
  "number_int s = (if starts_with CHR ''0'' s then Some (''0'', tl s) else number_digits s)"

definition number_frac :: "string \<Rightarrow> (string \<times> string) option" where
  "number_frac s =
     (if starts_with CHR ''.'' s then map_option (\<lambda>(d, r). (CHR ''.'' # d, r)) (number_digits (tl s))
      else Some ([], s))"

definition number_exp :: "string \<Rightarrow> (string \<times> string) option" where
  "number_exp s =
     (if starts_with CHR ''e'' s \<or> starts_with CHR ''E'' s then
        (let t = tl s; sg = (if starts_with CHR ''+'' t \<or> starts_with CHR ''-'' t then [hd t] else [])
         in map_option (\<lambda>(d, r). (hd s # sg @ d, r)) (number_digits (drop (length sg) t)))
      else Some ([], s))"

definition parse_number :: "string \<Rightarrow> (string \<times> string) option" where
  "parse_number s =
     (let sg = (if starts_with CHR ''-'' s then ''-'' else [])
      in case number_int (drop (length sg) s) of
           None \<Rightarrow> None
         | Some (i, s1) \<Rightarrow>
             (case number_frac s1 of
                None \<Rightarrow> None
              | Some (f, s2) \<Rightarrow>
                  (case number_exp s2 of
                     None \<Rightarrow> None
                   | Some (e, s3) \<Rightarrow> Some (sg @ i @ f @ e, s3))))"

text \<open>The readers below are given texts with no white space in front.\<close>

fun parse_value :: "nat \<Rightarrow> nat \<Rightarrow> string \<Rightarrow> (json_error, json \<times> string) result"
and parse_members :: "nat \<Rightarrow> nat \<Rightarrow> string \<Rightarrow> (json_error, (string \<times> json) list \<times> string) result"
and parse_elements :: "nat \<Rightarrow> nat \<Rightarrow> string \<Rightarrow> (json_error, json list \<times> string) result" where
  "parse_value 0 d s = Inl JNoFuel"
| "parse_value (Suc n) d s =
     (if starts_with CHR ''{'' s then
        (if d = 0 then Inl JTooDeep
         else if starts_with CHR ''}'' (skip_ws (tl s)) then Inr (JObj [], tl (skip_ws (tl s)))
         else try_bind (parse_members n (d - 1) (skip_ws (tl s))) (\<lambda>(ms, r). Inr (JObj ms, r)))
      else if starts_with CHR ''['' s then
        (if d = 0 then Inl JTooDeep
         else if starts_with CHR '']'' (skip_ws (tl s)) then Inr (JArr [], tl (skip_ws (tl s)))
         else try_bind (parse_elements n (d - 1) (skip_ws (tl s))) (\<lambda>(vs, r). Inr (JArr vs, r)))
      else if starts_with dquote s then
        (case parse_chars (tl s) of None \<Rightarrow> Inl JSyntax | Some (x, r) \<Rightarrow> Inr (JStr x, r))
      else if has_prefix s ''true'' then Inr (JBool True, drop 4 s)
      else if has_prefix s ''false'' then Inr (JBool False, drop 5 s)
      else if has_prefix s ''null'' then Inr (JNull, drop 4 s)
      else (case parse_number s of None \<Rightarrow> Inl JSyntax | Some (x, r) \<Rightarrow> Inr (JNum x, r)))"
| "parse_members 0 d s = Inl JNoFuel"
| "parse_members (Suc n) d s =
     (if \<not> starts_with dquote s then Inl JSyntax
      else
        (case parse_chars (tl s) of
           None \<Rightarrow> Inl JSyntax
         | Some (k, r) \<Rightarrow>
             if \<not> starts_with CHR '':'' (skip_ws r) then Inl JSyntax
             else try_bind (parse_value n d (skip_ws (tl (skip_ws r)))) (\<lambda>(v, r2).
                    if starts_with CHR ''}'' (skip_ws r2) then Inr ([(k, v)], tl (skip_ws r2))
                    else if starts_with CHR '','' (skip_ws r2) then
                      try_bind (parse_members n d (skip_ws (tl (skip_ws r2)))) (\<lambda>(ms, r4). Inr ((k, v) # ms, r4))
                    else Inl JSyntax)))"
| "parse_elements 0 d s = Inl JNoFuel"
| "parse_elements (Suc n) d s =
     try_bind (parse_value n d s) (\<lambda>(v, r2).
       if starts_with CHR '']'' (skip_ws r2) then Inr ([v], tl (skip_ws r2))
       else if starts_with CHR '','' (skip_ws r2) then
         try_bind (parse_elements n d (skip_ws (tl (skip_ws r2)))) (\<lambda>(vs, r4). Inr (v # vs, r4))
       else Inl JSyntax)"

declare parse_value.simps [simp del]
declare parse_members.simps [simp del]
declare parse_elements.simps [simp del]

definition max_nesting :: nat where "max_nesting = 10000"

text \<open>\<open>Unmarshal\<close>'s reading of one value and nothing after it.\<close>

definition parse_json :: "string \<Rightarrow> (json_error, json) result" where
  "parse_json s =
     try_bind (parse_value (2 * length s + 1) max_nesting (skip_ws s)) (\<lambda>(v, r).
       if skip_ws r = [] then Inr v else Inl JSyntax)"

section \<open>The fuel is enough\<close>

definition consumes :: "nat \<Rightarrow> (json_error, 'a \<times> string) result \<Rightarrow> bool" where
  "consumes k r = (case r of Inl e \<Rightarrow> e \<noteq> JNoFuel | Inr (v, t) \<Rightarrow> length t < k)"

lemma consumes_simps [simp]:
  "consumes k (Inl e) \<longleftrightarrow> e \<noteq> JNoFuel" "consumes k (Inr (v, t)) \<longleftrightarrow> length t < k"
  by (simp_all add: consumes_def)

lemma consumes_bind:
  "consumes k m \<Longrightarrow> (\<And>x r. length r < k \<Longrightarrow> consumes k' (f (x, r))) \<Longrightarrow> consumes k' (try_bind m f)"
  by (cases m) (auto simp: consumes_def)

lemma number_digits_shorter: "number_digits s = Some (x, t) \<Longrightarrow> length t < length s"
  by (cases s) (auto simp: number_digits_def length_dropWhile_le le_imp_less_Suc split: if_splits)

lemma number_int_shorter: "number_int s = Some (x, t) \<Longrightarrow> length t < length s"
  by (auto simp: number_int_def starts_with_def split: if_splits dest: number_digits_shorter)

lemma number_frac_le: "number_frac s = Some (x, t) \<Longrightarrow> length t \<le> length s"
  by (auto simp: number_frac_def starts_with_def split: if_splits dest!: number_digits_shorter)

lemma number_exp_le: "number_exp s = Some (x, t) \<Longrightarrow> length t \<le> length s"
  by (auto simp: number_exp_def Let_def starts_with_def split: if_splits dest!: number_digits_shorter)

lemma starts_with_length: "starts_with c s \<Longrightarrow> length (tl s) < length s"
  by (cases s) (simp_all add: starts_with_def)

lemma tl_skip_length: "starts_with c (skip_ws s) \<Longrightarrow> length (tl (skip_ws s)) < length s"
  using starts_with_length [of c "skip_ws s"] skip_ws_le [of s] by simp

lemma parse_number_shorter:
  assumes "parse_number s = Some (x, t)"
  shows "length t < length s"
proof -
  have step: "length t < length u"
    if "number_int u = Some (i, s1)" "number_frac s1 = Some (f, s2)" "number_exp s2 = Some (e, t)" for u i s1 f s2 e
    using number_int_shorter [OF that(1)] number_frac_le [OF that(2)] number_exp_le [OF that(3)] by simp
  show ?thesis
  proof (cases "starts_with CHR ''-'' s")
    case True
    with assms step [of "tl s"] starts_with_length [OF True] show ?thesis
      by (fastforce simp: parse_number_def Let_def drop_Suc split: option.splits)
  next
    case False
    with assms step [of s] show ?thesis
      by (auto simp: parse_number_def Let_def split: option.splits)
  qed
qed

lemma consumes_if: "(b \<Longrightarrow> consumes k x) \<Longrightarrow> (\<not> b \<Longrightarrow> consumes k y) \<Longrightarrow> consumes k (if b then x else y)"
  by simp

lemma consumes_option:
  "(\<And>x r. m = Some (x, r) \<Longrightarrow> consumes k (f x r)) \<Longrightarrow> e \<noteq> JNoFuel \<Longrightarrow>
   consumes k (case m of None \<Rightarrow> Inl e | Some (x, r) \<Rightarrow> f x r)"
  by (cases m) auto

text \<open>What follows one element of an object or a list.\<close>

lemma consumes_rest:
  assumes "length v < length s" "consumes (length v) (parse_value n d v)"
    and "\<And>u. length u < length s \<Longrightarrow> consumes (length u) (more u)"
  shows "consumes (length s) (try_bind (parse_value n d v) (\<lambda>(v, r).
      if starts_with e (skip_ws r) then Inr (one v, tl (skip_ws r))
      else if starts_with CHR '','' (skip_ws r) then
        try_bind (more (skip_ws (tl (skip_ws r)))) (\<lambda>(ms, r4). Inr (cn v ms, r4))
      else Inl JSyntax))"
proof (rule consumes_bind [OF assms(2)])
  fix x and r :: string
  assume "length r < length v"
  with assms(1) have r: "length r < length s" by simp
  have rest: "length (skip_ws (tl (skip_ws r))) < length s" "length (tl (skip_ws r)) < length s"
    using r skip_ws_le [of r] skip_ws_le [of "tl (skip_ws r)"] by simp_all
  have "consumes (length s) (try_bind (more (skip_ws (tl (skip_ws r)))) (\<lambda>(ms, r4). Inr (cn x ms, r4)))"
    by (rule consumes_bind [OF assms(3) [OF rest(1)]]) (use rest in simp)
  with rest show "consumes (length s) (case (x, r) of (v, r) \<Rightarrow>
      if starts_with e (skip_ws r) then Inr (one v, tl (skip_ws r))
      else if starts_with CHR '','' (skip_ws r) then
        try_bind (more (skip_ws (tl (skip_ws r)))) (\<lambda>(ms, r4). Inr (cn v ms, r4))
      else Inl JSyntax)"
    by simp
qed

lemma parse_value_body:
  assumes "\<And>u. length u < length s \<Longrightarrow> consumes (length u) (parse_members n (d - 1) u)"
    and "\<And>u. length u < length s \<Longrightarrow> consumes (length u) (parse_elements n (d - 1) u)"
  shows "consumes (length s) (parse_value (Suc n) d s)"
proof -
  have obj: "consumes (length s) (try_bind (parse_members n (d - 1) v) (\<lambda>(ms, r). Inr (JObj ms, r)))"
    and arr: "consumes (length s) (try_bind (parse_elements n (d - 1) v) (\<lambda>(vs, r). Inr (JArr vs, r)))"
    if "length v < length s" for v
    by (rule consumes_bind [OF assms(1) [OF that]], use that in simp)
      (rule consumes_bind [OF assms(2) [OF that]], use that in simp)
  have body: "length (skip_ws (tl s)) < length s" "length (skip_ws (tl s)) - Suc 0 < length s" if "s \<noteq> []"
    using that skip_ws_le [of "tl s"] by (cases s; simp)+
  have chars: "length r < length s" if "parse_chars (tl s) = Some (x, r)" for x r
    using parse_chars_shorter [OF that] by simp
  show ?thesis
    unfolding parse_value.simps
    by (intro consumes_if consumes_option obj arr)
      (auto simp: starts_with_def has_prefix_iff body dest: chars parse_number_shorter)
qed

lemma parse_members_body:
  assumes "\<And>u. length u < length s \<Longrightarrow> consumes (length u) (parse_value n d u)"
    and "\<And>u. length u < length s \<Longrightarrow> consumes (length u) (parse_members n d u)"
  shows "consumes (length s) (parse_members (Suc n) d s)"
proof -
  have "length (skip_ws (tl (skip_ws r))) < length s" if "parse_chars (tl s) = Some (k, r)" for k r
    using parse_chars_shorter [OF that] skip_ws_le [of r] skip_ws_le [of "tl (skip_ws r)"] by simp
  then show ?thesis
    unfolding parse_members.simps
    by (intro consumes_if consumes_option consumes_rest assms) simp_all
qed

lemma parse_consumes:
  "2 * length s < n \<Longrightarrow> consumes (length s) (parse_value n d s)"
  "2 * length s < n \<Longrightarrow> consumes (length s) (parse_members n d s)"
  "2 * length s + 1 < n \<Longrightarrow> consumes (length s) (parse_elements n d s)"
proof (induction n arbitrary: d s)
  case (Suc n)
  {
    case 1
    show ?case by (rule parse_value_body; rule Suc.IH) (use 1 in simp_all)
  next
    case 2
    show ?case by (rule parse_members_body; rule Suc.IH) (use 2 in simp_all)
  next
    case 3
    show ?case
      unfolding parse_elements.simps
    proof (rule consumes_bind [OF Suc.IH(1)])
      show "2 * length s < n" using 3 by simp
      fix x and r :: string
      assume r: "length r < length s"
      have rest: "length (skip_ws (tl (skip_ws r))) < length s" "length (tl (skip_ws r)) < length s"
        using r skip_ws_le [of r] skip_ws_le [of "tl (skip_ws r)"] by simp_all
      have "consumes (length s) (try_bind (parse_elements n d (skip_ws (tl (skip_ws r)))) (\<lambda>(vs, r4). Inr (x # vs, r4)))"
        by (rule consumes_bind [OF Suc.IH(3)]) (use rest 3 in simp_all)
      with rest show "consumes (length s) (case (x, r) of (v, r2) \<Rightarrow>
          if starts_with CHR '']'' (skip_ws r2) then Inr ([v], tl (skip_ws r2))
          else if starts_with CHR '','' (skip_ws r2) then
            try_bind (parse_elements n d (skip_ws (tl (skip_ws r2)))) (\<lambda>(vs, r4). Inr (v # vs, r4))
          else Inl JSyntax)"
        by simp
    qed
  }
qed auto

lemma parse_json_enough_fuel: "parse_json s \<noteq> Inl JNoFuel"
proof -
  have "consumes (length (skip_ws s)) (parse_value (2 * length s + 1) max_nesting (skip_ws s))"
    using skip_ws_le [of s] by (intro parse_consumes) simp
  then have "parse_value (2 * length s + 1) max_nesting (skip_ws s) \<noteq> Inl JNoFuel"
    by (auto simp: consumes_def)
  then show ?thesis
    by (cases "parse_value (2 * length s + 1) max_nesting (skip_ws s)") (auto simp: parse_json_def split: if_splits)
qed

section \<open>Writing objects and lists\<close>

fun json_members :: "bool \<Rightarrow> (string \<times> string) list \<Rightarrow> string" where
  "json_members html [] = []"
| "json_members html [(k, w)] = json_string html k @ CHR '':'' # w"
| "json_members html ((k, w) # fs) = json_string html k @ CHR '':'' # w @ CHR '','' # json_members html fs"

definition json_object :: "bool \<Rightarrow> (string \<times> string) list \<Rightarrow> string" where
  "json_object html fs = CHR ''{'' # json_members html fs @ ''}''"

definition json_array :: "string list \<Rightarrow> string" where
  "json_array ws = CHR ''['' # join_with '','' ws @ '']''"

text \<open>
  \<open>w\<close> is read as the value \<open>v\<close> by a reader with enough fuel and nesting, before a comma,
  a closing bracket or the end.
\<close>

definition stops :: "string \<Rightarrow> bool" where
  "stops t = (t = [] \<or> hd t \<in> {CHR '','', CHR ''}'', CHR '']'', newline})"

definition reads_value :: "nat \<Rightarrow> string \<Rightarrow> json \<Rightarrow> bool" where
  "reads_value k w v =
     (w \<noteq> [] \<and> \<not> json_ws (hd w) \<and> hd w \<notin> {CHR ''}'', CHR '']''} \<and>
      (\<forall>n d t. 2 * length w < n \<longrightarrow> k \<le> d \<longrightarrow> stops t \<longrightarrow> parse_value n d (w @ t) = Inr (v, t)))"

lemma reads_valueD:
  "reads_value k w v \<Longrightarrow> 2 * length w < n \<Longrightarrow> k \<le> d \<Longrightarrow> stops t \<Longrightarrow> parse_value n d (w @ t) = Inr (v, t)"
  by (simp add: reads_value_def)

lemma reads_value_mono: "reads_value k w v \<Longrightarrow> k \<le> k' \<Longrightarrow> reads_value k' w v"
  by (auto simp: reads_value_def)

lemma skip_ws_stop: "w \<noteq> [] \<Longrightarrow> \<not> json_ws (hd w) \<Longrightarrow> skip_ws (w @ t) = w @ t"
  by (cases w) (simp_all add: skip_ws_def)

lemma skip_ws_Cons [simp]: "\<not> json_ws c \<Longrightarrow> skip_ws (c # t) = c # t"
  by (simp add: skip_ws_def)

lemma not_json_ws [simp]:
  "\<not> json_ws (CHR '':'')" "\<not> json_ws (CHR '','')" "\<not> json_ws (CHR ''}'')" "\<not> json_ws (CHR '']'')"
  "\<not> json_ws (CHR 0x22)" "\<not> json_ws (CHR ''{'')" "\<not> json_ws (CHR ''['')"
  by (simp_all add: json_ws_def)

lemma starts_with_Cons [simp]: "starts_with c (d # t) \<longleftrightarrow> d = c"
  by (auto simp: starts_with_def)

lemma reads_string: "reads_value 0 (json_string html s) (JStr (utf8_repair s))"
  unfolding reads_value_def
proof (intro conjI allI impI)
  fix n d t
  assume "2 * length (json_string html s) < n"
  then obtain m where "n = Suc m" by (cases n) auto
  then show "parse_value n d (json_string html s @ t) = Inr (JStr (utf8_repair s), t)"
    using parse_chars_body [of html s t] by (simp add: json_string_def parse_value.simps)
qed (simp_all add: json_string_def)

lemma digit_not: "is_digit c \<Longrightarrow> \<not> json_ws c \<and> c \<noteq> CHR ''{'' \<and> c \<noteq> CHR ''['' \<and> c \<noteq> CHR ''}'' \<and> c \<noteq> CHR '']'' \<and>
   c \<noteq> CHR 0x22 \<and> c \<noteq> CHR ''t'' \<and> c \<noteq> CHR ''f'' \<and> c \<noteq> CHR ''n'' \<and> c \<noteq> CHR ''-''"
  by (auto simp: is_digit_nat json_ws_def)

lemma stops_number: "stops t \<Longrightarrow> takeWhile is_digit t = [] \<and> dropWhile is_digit t = t \<and>
   \<not> starts_with CHR ''.'' t \<and> \<not> starts_with CHR ''e'' t \<and> \<not> starts_with CHR ''E'' t"
  by (cases t) (auto simp: stops_def starts_with_def is_digit_nat)

lemma parse_number_nat: "stops t \<Longrightarrow> parse_number (nat_dec n @ t) = Some (nat_dec n, t)"
proof -
  assume t: "stops t"
  note st = stops_number [OF t]
  have ds: "\<forall>c\<in>set (nat_dec n). is_digit c" using nat_dec_digits [of n] by (simp add: list_all_iff)
  have neg: "\<not> starts_with CHR ''-'' (nat_dec n @ t)"
    using ds digit_not [of "hd (nat_dec n)"] by (auto simp: starts_with_def)
  have int: "number_int (nat_dec n @ t) = Some (nat_dec n, t)"
  proof (cases "n = 0")
    case True
    then have "nat_dec n = ''0''" using digit_char_0 [of 0] by (simp add: nat_dec.simps)
    then show ?thesis by (simp add: number_int_def)
  next
    case False
    then have "\<not> starts_with CHR ''0'' (nat_dec n @ t)"
      using nat_dec_hd [of n] by (auto simp: starts_with_def)
    with ds st show ?thesis
      by (simp add: number_int_def number_digits_def takeWhile_append2 dropWhile_append2)
  qed
  show ?thesis
    using neg int st by (simp add: parse_number_def number_frac_def number_exp_def)
qed

lemma reads_nat: "reads_value 0 (nat_dec n) (JNum (nat_dec n))"
proof -
  have d: "is_digit (hd (nat_dec n))"
    using nat_dec_digits [of n] by (cases "nat_dec n") auto
  obtain c u where nd: "nat_dec n = c # u" by (cases "nat_dec n") auto
  have "parse_value m d (nat_dec n @ t) = Inr (JNum (nat_dec n), t)"
    if "2 * length (nat_dec n) < m" "stops t" for m d t
  proof -
    from that obtain k where "m = Suc k" by (cases m) auto
    with parse_number_nat [OF that(2), of n] d digit_not [of c] nd show ?thesis
      by (simp add: parse_value.simps)
  qed
  with d digit_not [of "hd (nat_dec n)"] show ?thesis by (simp add: reads_value_def)
qed

lemma reads_null: "reads_value 0 ''null'' JNull"
proof -
  have "parse_value m d (''null'' @ t) = Inr (JNull, t)" if "2 * length ''null'' < m" for m d t
    using that by (cases m) (simp_all add: parse_value.simps)
  then show ?thesis by (simp add: reads_value_def json_ws_def)
qed

text \<open>The fields of an object and what they are read as.\<close>

definition reads_fields :: "nat \<Rightarrow> (string \<times> string) list \<Rightarrow> (string \<times> json) list \<Rightarrow> bool" where
  "reads_fields k fs ms = list_all2 (\<lambda>(n, w) (n', v). n' = utf8_repair n \<and> reads_value k w v) fs ms"

lemma reads_members:
  "reads_fields k fs ms \<Longrightarrow> fs \<noteq> [] \<Longrightarrow> 2 * length (json_members html fs) + 2 < n \<Longrightarrow> k \<le> d \<Longrightarrow>
   parse_members n d (json_members html fs @ CHR ''}'' # t) = Inr (ms, t)"
proof (induction html fs arbitrary: ms n rule: json_members.induct)
  case (2 html name w)
  then obtain v where ms: "ms = [(utf8_repair name, v)]" and v: "reads_value k w v"
    by (auto simp: reads_fields_def list_all2_Cons1)
  from 2 obtain m where m: "n = Suc m" "2 * length w < m" by (cases n) (auto simp: json_string_def)
  have "parse_value m d (w @ CHR ''}'' # t) = Inr (v, CHR ''}'' # t)"
    by (rule reads_valueD [OF v m(2) 2(4)]) (simp add: stops_def)
  moreover have "skip_ws (w @ CHR ''}'' # t) = w @ CHR ''}'' # t"
    using v by (intro skip_ws_stop) (auto simp: reads_value_def)
  ultimately show ?case
    using parse_chars_body [of html name "CHR '':'' # w @ CHR ''}'' # t"]
    by (simp add: ms m parse_members.simps json_string_def)
next
  case (3 html name w f fs)
  then obtain v ms' where ms: "ms = (utf8_repair name, v) # ms'" and v: "reads_value k w v"
      and rest: "reads_fields k (f # fs) ms'"
    by (auto simp: reads_fields_def list_all2_Cons1)
  from 3 obtain m where m: "n = Suc m" "2 * length w < m" "2 * length (json_members html (f # fs)) + 2 < m"
    by (cases n) (auto simp: json_string_def)
  let ?r = "json_members html (f # fs) @ CHR ''}'' # t"
  have "parse_value m d (w @ CHR '','' # ?r) = Inr (v, CHR '','' # ?r)"
    by (rule reads_valueD [OF v m(2) 3(5)]) (simp add: stops_def)
  moreover have "skip_ws (w @ CHR '','' # ?r) = w @ CHR '','' # ?r"
    using v by (intro skip_ws_stop) (auto simp: reads_value_def)
  moreover have "skip_ws ?r = ?r"
    by (cases f; cases fs) (auto simp: json_string_def)
  moreover have "parse_members m d ?r = Inr (ms', t)"
    using "3.IH" [OF rest _ m(3) 3(5)] by simp
  ultimately show ?case
    using parse_chars_body [of html name "CHR '':'' # w @ CHR '','' # ?r"]
    by (simp add: ms m parse_members.simps json_string_def)
qed simp

text \<open>An object or a list needs no particular character after it.\<close>

lemma parse_object:
  assumes "reads_fields k fs ms" "fs \<noteq> []" "2 * length (json_object html fs) < n" "Suc k \<le> d"
  shows "parse_value n d (json_object html fs @ t) = Inr (JObj ms, t)"
proof -
  from assms(3) obtain m where m: "n = Suc m" "2 * length (json_members html fs) + 2 < m"
    by (cases n) (auto simp: json_object_def)
  have "parse_members m (d - 1) (json_members html fs @ CHR ''}'' # t) = Inr (ms, t)"
    by (rule reads_members [OF assms(1,2) m(2)]) (use assms(4) in simp)
  moreover have "\<exists>u. json_members html fs = dquote # u"
    using assms(2) by (cases "(html, fs)" rule: json_members.cases) (auto simp: json_string_def)
  ultimately show ?thesis using assms(4) by (auto simp: m json_object_def parse_value.simps)
qed

lemma reads_object:
  assumes "reads_fields k fs ms" "fs \<noteq> []"
  shows "reads_value (Suc k) (json_object html fs) (JObj ms)"
  using parse_object [OF assms] by (simp add: reads_value_def json_object_def)

lemma reads_elements:
  "list_all2 (reads_value k) ws vs \<Longrightarrow> ws \<noteq> [] \<Longrightarrow> 2 * length (join_with '','' ws) + 3 < n \<Longrightarrow> k \<le> d \<Longrightarrow>
   parse_elements n d (join_with '','' ws @ CHR '']'' # t) = Inr (vs, t)"
proof (induction ws arbitrary: vs n)
  case (Cons w ws)
  then obtain v vs' where vs: "vs = v # vs'" and v: "reads_value k w v" and rest: "list_all2 (reads_value k) ws vs'"
    by (auto simp: list_all2_Cons1)
  show ?case
  proof (cases ws)
    case Nil
    with Cons.prems obtain m where m: "n = Suc m" "2 * length w < m" by (cases n) auto
    have "parse_value m d (w @ CHR '']'' # t) = Inr (v, CHR '']'' # t)"
      by (rule reads_valueD [OF v m(2) Cons.prems(4)]) (simp add: stops_def)
    with Nil rest show ?thesis by (simp add: vs m parse_elements.simps)
  next
    case (Cons w' ws')
    let ?r = "join_with '','' ws @ CHR '']'' # t"
    from Cons Cons.prems(3) obtain m where m: "n = Suc m" "2 * length w < m" "2 * length (join_with '','' ws) + 3 < m"
      by (cases n) auto
    have "parse_value m d (w @ CHR '','' # ?r) = Inr (v, CHR '','' # ?r)"
      by (rule reads_valueD [OF v m(2) Cons.prems(4)]) (simp add: stops_def)
    moreover have "skip_ws ?r = ?r"
    proof -
      have "w' \<noteq> [] \<and> \<not> json_ws (hd w')" using rest Cons by (auto simp: list_all2_Cons1 reads_value_def)
      then show ?thesis
        using skip_ws_stop [of "join_with '','' ws" "CHR '']'' # t"] Cons by (cases ws') auto
    qed
    moreover have "parse_elements m d ?r = Inr (vs', t)"
      using Cons.IH [OF rest _ m(3) Cons.prems(4)] Cons by simp
    ultimately show ?thesis using Cons by (simp add: vs m parse_elements.simps)
  qed
qed simp

lemma reads_array:
  assumes "list_all2 (reads_value k) ws vs" "ws \<noteq> []"
  shows "reads_value (Suc k) (json_array ws) (JArr vs)"
proof -
  have "parse_value n d (json_array ws @ t) = Inr (JArr vs, t)"
    if n: "2 * length (json_array ws) < n" and d: "Suc k \<le> d" for n d t
  proof -
    from n obtain m where m: "n = Suc m" "2 * length (join_with '','' ws) + 3 < m"
      by (cases n) (auto simp: json_array_def)
    have "parse_elements m (d - 1) (join_with '','' ws @ CHR '']'' # t) = Inr (vs, t)"
      by (rule reads_elements [OF assms m(2)]) (use d in simp)
    moreover obtain w ws' where ws: "ws = w # ws'" using assms(2) by (cases ws) auto
    have w: "w \<noteq> []" "\<not> json_ws (hd w)" "hd w \<noteq> CHR '']''"
      using assms(1) ws by (auto simp: list_all2_Cons1 reads_value_def)
    have "join_with '','' ws \<noteq> [] \<and> hd (join_with '','' ws) = hd w"
      using w(1) ws by (cases ws') auto
    with w have "skip_ws (join_with '','' ws @ CHR '']'' # t) = join_with '','' ws @ CHR '']'' # t"
        "\<not> starts_with CHR '']'' (join_with '','' ws @ CHR '']'' # t)"
      by (auto simp: skip_ws_stop starts_with_def)
    ultimately show ?thesis using d by (simp add: m json_array_def parse_value.simps)
  qed
  then show ?thesis by (simp add: reads_value_def json_array_def)
qed

lemma reads_int: "reads_value 0 (int_dec i) (JNum (int_dec i))"
proof (cases "i < 0")
  case False
  then show ?thesis using reads_nat [of "nat i"] by (simp add: int_dec_def)
next
  case True
  let ?n = "nat (- i)"
  have "parse_value m d (int_dec i @ t) = Inr (JNum (int_dec i), t)"
    if "2 * length (int_dec i) < m" "stops t" for m d t
  proof -
    from that obtain k where m: "m = Suc k" by (cases m) auto
    have "parse_number (nat_dec ?n @ t) = Some (nat_dec ?n, t)" by (rule parse_number_nat [OF that(2)])
    moreover have "\<not> starts_with CHR ''-'' (nat_dec ?n @ t)"
      using nat_dec_digits [of ?n] digit_not [of "hd (nat_dec ?n)"]
      by (cases "nat_dec ?n") (auto simp: starts_with_def)
    ultimately have "parse_number (CHR ''-'' # nat_dec ?n @ t) = Some (CHR ''-'' # nat_dec ?n, t)"
      by (auto simp: parse_number_def Let_def split: option.splits)
    with True show ?thesis by (simp add: m int_dec_def parse_value.simps)
  qed
  then show ?thesis using True by (simp add: reads_value_def int_dec_def json_ws_def)
qed

lemma parse_json_reads: "reads_value k w v \<Longrightarrow> k \<le> max_nesting \<Longrightarrow> parse_json w = Inr v"
  using reads_valueD [of k w v "2 * length w + 1" max_nesting "[]"] skip_ws_stop [of w "[]"]
  by (simp add: parse_json_def reads_value_def stops_def skip_ws_def)

section \<open>What is read is valid UTF-8\<close>

lemma split_64: "n = 64 * (n div 64) + n mod 64" "n mod 64 < 64" for n :: nat
  by simp_all

lemma split_4096: "n = 4096 * (n div 4096) + 64 * (n div 64 mod 64) + n mod 64" for n :: nat
proof -
  have "n div 64 div 64 = n div 4096" by (simp add: div_mult2_eq [symmetric])
  with split_64(1) [of n] split_64(1) [of "n div 64"] show ?thesis by linarith
qed

lemma split_262144:
  "n = 262144 * (n div 262144) + 4096 * (n div 4096 mod 64) + 64 * (n div 64 mod 64) + n mod 64" for n :: nat
proof -
  have "n div 4096 div 64 = n div 262144" by (simp add: div_mult2_eq [symmetric])
  with split_4096 [of n] split_64(1) [of "n div 4096"] show ?thesis by linarith
qed

lemma rune_width_encode:
  assumes "rune_valid n"
  shows "rune_width (encode_valid n) = length (encode_valid n)"
proof -
  have b: "code (byte (0x80 + m mod 64)) = 0x80 + m mod 64" for m
    using split_64(2) [of m] by (intro code_byte) linarith
  have cont: "cont_byte (byte (0x80 + m mod 64))" for m
    using b [of m] split_64(2) [of m] by (simp add: cont_byte_def in_bytes_def)
  note m64 = split_64(2) [of n] split_64(2) [of "n div 64"] split_64(2) [of "n div 4096"]
  consider (one) "n < 0x80" | (two) "0x80 \<le> n" "n < 0x800" | (three) "0x800 \<le> n" "n < 0x10000"
    | (four) "0x10000 \<le> n" "n \<le> 0x10FFFF"
    using assms by (fastforce simp: rune_valid_def)
  then show ?thesis
  proof cases
    case one
    then show ?thesis by (simp add: encode_valid_def code_byte)
  next
    case two
    then have "2 \<le> n div 64" "n div 64 < 32" using split_64(1) [of n] m64(1) by linarith+
    with two cont [of n] show ?thesis
      by (simp add: encode_valid_def rune_width.simps(2) lead_width_def code_byte in_bytes_def second_ok_def)
  next
    case three
    define p q r where "p = n div 4096" "q = n div 64 mod 64" "r = n mod 64"
    have n: "n = 4096 * p + 64 * q + r" "q < 64" "r < 64"
      using split_4096 [of n] m64 by (simp_all add: p_q_r_def)
    have "p < 16" "p = 0 \<longrightarrow> 0x20 \<le> q" using n three by linarith+
    moreover have "p = 13 \<longrightarrow> q < 0x20"
      using n assms by (auto simp: rune_valid_def surrogate_def)
    ultimately show ?thesis
      using three cont [of "n div 64"] cont [of n] b [of "n div 64"]
      by (auto simp: encode_valid_def rune_width.simps(2) lead_width_def code_byte in_bytes_def second_ok_def p_q_r_def)
  next
    case four
    define o' p q r where "o' = n div 262144" "p = n div 4096 mod 64" "q = n div 64 mod 64" "r = n mod 64"
    have n: "n = 262144 * o' + 4096 * p + 64 * q + r" "p < 64" "q < 64" "r < 64"
      using split_262144 [of n] m64 by (simp_all add: o'_p_q_r_def)
    have "o' < 5" "o' = 0 \<longrightarrow> 0x10 \<le> p" "o' = 4 \<longrightarrow> p < 0x10" using n four by linarith+
    then show ?thesis
      using four cont [of "n div 64"] cont [of n] cont [of "n div 4096"] b [of "n div 4096"]
      by (auto simp: encode_valid_def rune_width.simps(2) lead_width_def code_byte in_bytes_def second_ok_def o'_p_q_r_def)
  qed
qed

lemma encode_rune_valid: "utf8_valid (encode_rune n @ s) = utf8_valid s"
proof -
  have v: "rune_valid (if rune_valid n then n else rune_error)"
    by (simp add: rune_valid_def surrogate_def rune_error_def)
  have "encode_valid m \<noteq> []" for m by (simp add: encode_valid_def)
  then show ?thesis
    unfolding encode_rune_def by (intro utf8_valid_rune_append rune_width_encode v)
qed

lemma json_escape_valid: "json_escape s = Some (x, t) \<Longrightarrow> utf8_valid (x @ y) = utf8_valid y"
  using encode_rune_valid
  by (auto simp: json_escape_def control_bytes code_def split: list.splits option.splits if_splits)

lemma parse_chars_out_valid: "parse_chars s = Some (x, t) \<Longrightarrow> utf8_valid x"
proof (induction s arbitrary: x t rule: parse_chars.induct)
  case (2 c s)
  show ?case
  proof (cases "c = backslash")
    case True
    with "2.prems" obtain y t' z where e: "json_escape s = Some (y, t')" and z: "parse_chars t' = Some (z, t)"
        and x: "x = y @ z"
      by (auto simp: parse_chars.simps(2) split: option.splits)
    with "2.IH"(1) [OF _ True e refl z] True json_escape_valid [OF e] show ?thesis by simp
  next
    case False
    show ?thesis
    proof (cases "c = dquote")
      case True
      with "2.prems" show ?thesis by (simp add: parse_chars.simps(2))
    next
      case q: False
      let ?w = "rune_width (c # s)"
      from False q "2.prems" obtain z where
        nc: "\<not> code c < 0x20" and z: "parse_chars (drop (?w - 1) s) = Some (z, t)"
        and x: "x = (if ?w = 0 then encode_rune rune_error else take ?w (c # s)) @ z"
        by (auto simp: parse_chars.simps(2) Let_def split: option.splits if_splits)
      have v: "utf8_valid z" using "2.IH"(2) [OF q False nc refl z] .
      show ?thesis
      proof (cases "?w = 0")
        case True
        with v x encode_rune_valid show ?thesis by simp
      next
        case nz: False
        have "rune_width (take ?w (c # s)) = length (take ?w (c # s))" "take ?w (c # s) \<noteq> []"
          using rune_width_take [of "c # s"] rune_width_le [of "c # s"] nz by auto
        with v x nz utf8_valid_rune_append show ?thesis by presburger
      qed
    qed
  qed
qed simp

function json_utf8 :: "json \<Rightarrow> bool" where
  "json_utf8 (JStr x) = utf8_valid x"
| "json_utf8 (JArr vs) = (\<forall>v\<in>set vs. json_utf8 v)"
| "json_utf8 (JObj ms) = (\<forall>p\<in>set ms. json_utf8 (snd p))"
| "json_utf8 JNull = True"
| "json_utf8 (JBool b) = True"
| "json_utf8 (JNum x) = True"
  by pat_completeness auto
termination
proof (relation "measure size", goal_cases)
  case (3 ms p)
  then show ?case by (induction ms) (auto, (case_tac p, auto)?)
qed (auto simp: less_Suc_eq_le size_list_estimation')

lemma parse_utf8:
  "parse_value n d s = Inr (v, t) \<Longrightarrow> json_utf8 v"
  "parse_members n d s = Inr (ms, t) \<Longrightarrow> \<forall>p\<in>set ms. json_utf8 (snd p)"
  "parse_elements n d s = Inr (vs, t) \<Longrightarrow> \<forall>v\<in>set vs. json_utf8 v"
proof (induction n arbitrary: d s v ms vs t)
  case (Suc n)
  {
    case 1
    then show ?case
      by (auto simp: parse_value.simps result_simps split: if_splits option.splits)
        (use Suc.IH(2,3) parse_chars_out_valid in fastforce)+
  next
    case 2
    then show ?case
      by (auto simp: parse_members.simps result_simps split: if_splits option.splits)
        (use Suc.IH(1,2) in fastforce)+
  next
    case 3
    then show ?case
      by (auto simp: parse_elements.simps result_simps split: if_splits option.splits)
        (use Suc.IH(1,3) in fastforce)+
  }
qed (simp_all add: parse_value.simps parse_members.simps parse_elements.simps)

lemma parse_json_utf8: "parse_json s = Inr v \<Longrightarrow> json_utf8 v"
  by (auto simp: parse_json_def result_simps split: if_splits dest: parse_utf8(1))

section \<open>Reading a struct\<close>

text \<open>
  Keys match a field when they are equal up to case folding, the long s and the Kelvin
  sign counting as \<open>s\<close> and \<open>k\<close> (\<open>foldName\<close>).
\<close>

definition upper_byte :: "char \<Rightarrow> char" where
  "upper_byte c = (if CHR ''a'' \<le> c \<and> c \<le> CHR ''z'' then byte (code c - 32) else c)"

fun fold_key :: "string \<Rightarrow> string" where
  "fold_key [] = []"
| "fold_key (a # s) =
     (if code a = 0xC5 \<and> take 1 s = [byte 0xBF] then CHR ''S'' # fold_key (drop 1 s)
      else if code a = 0xE2 \<and> take 2 s = [byte 0x84, byte 0xAA] then CHR ''K'' # fold_key (drop 2 s)
      else upper_byte a # fold_key s)"

type_synonym 'a fields = "(string \<times> (json \<Rightarrow> 'a \<Rightarrow> 'a option)) list"

definition find_field :: "'a fields \<Rightarrow> string \<Rightarrow> (json \<Rightarrow> 'a \<Rightarrow> 'a option) option" where
  "find_field fs key = map_option snd (find (\<lambda>(n, g). fold_key n = fold_key key) fs)"

text \<open>
  The members are stored in order, so of two with the same key the later one stays; a
  key that no field has is ignored, or an error for a strict reader; a value of the wrong type is an error, reported
  after the rest is stored.
\<close>

fun store_members :: "bool \<Rightarrow> 'a fields \<Rightarrow> (string \<times> json) list \<Rightarrow> 'a \<Rightarrow> bool \<Rightarrow> (json_error, 'a) result" where
  "store_members strict fs [] x ok = (if ok then Inr x else Inl JBadType)"
| "store_members strict fs ((k, v) # ms) x ok =
     (case find_field fs k of
        None \<Rightarrow> store_members strict fs ms x (ok \<and> \<not> strict)
      | Some g \<Rightarrow>
          (case g v x of
             None \<Rightarrow> store_members strict fs ms x False
           | Some y \<Rightarrow> store_members strict fs ms y ok))"

definition set_string :: "(string \<Rightarrow> 'a \<Rightarrow> 'a) \<Rightarrow> json \<Rightarrow> 'a \<Rightarrow> 'a option" where
  "set_string upd v x = (case v of JStr s \<Rightarrow> Some (upd s x) | JNull \<Rightarrow> Some x | _ \<Rightarrow> None)"

definition set_uint64 :: "(64 word \<Rightarrow> 'a \<Rightarrow> 'a) \<Rightarrow> json \<Rightarrow> 'a \<Rightarrow> 'a option" where
  "set_uint64 upd v x =
     (case v of JNum s \<Rightarrow> map_option (\<lambda>n. upd n x) (parse_uint64 s) | JNull \<Rightarrow> Some x | _ \<Rightarrow> None)"

text \<open>A value stored into a struct: an object field by field, nothing for null.\<close>

definition store_value :: "bool \<Rightarrow> 'a fields \<Rightarrow> 'a \<Rightarrow> json \<Rightarrow> (json_error, 'a) result" where
  "store_value strict fs zero v =
     (case v of
        JObj ms \<Rightarrow> store_members strict fs ms zero True
      | JNull \<Rightarrow> Inr zero
      | _ \<Rightarrow> Inl JBadType)"

definition unmarshal_struct :: "'a fields \<Rightarrow> 'a \<Rightarrow> string \<Rightarrow> (json_error, 'a) result" where
  "unmarshal_struct fs zero s = try_bind (parse_json s) (store_value False fs zero)"

text \<open>A property of the value that every field keeps holds of what is read.\<close>

lemma store_members_keeps:
  assumes "\<And>n g v x y. (n, g) \<in> set fs \<Longrightarrow> json_utf8 v \<Longrightarrow> P x \<Longrightarrow> g v x = Some y \<Longrightarrow> P y"
  shows "\<forall>p\<in>set ms. json_utf8 (snd p) \<Longrightarrow> P x \<Longrightarrow> store_members strict fs ms x ok = Inr y \<Longrightarrow> P y"
proof (induction ms arbitrary: x ok)
  case (Cons p ms)
  obtain k v where p: "p = (k, v)" by (cases p)
  show ?case
  proof (cases "find_field fs k")
    case None
    with Cons p show ?thesis by simp
  next
    case (Some g)
    then obtain n where g: "(n, g) \<in> set fs" by (auto simp: find_field_def find_Some_iff) (metis nth_mem)
    show ?thesis
    proof (cases "g v x")
      case None
      with Some Cons p show ?thesis by simp
    next
      case y: (Some y')
      have "P y'" using assms [OF g _ _ y] Cons.prems(1,2) p by simp
      with Some y Cons p show ?thesis by simp
    qed
  qed
qed (simp split: if_splits)

lemma store_value_Inr:
  "store_value strict fs zero v = Inr x \<longleftrightarrow>
     v = JNull \<and> x = zero \<or> (\<exists>ms. v = JObj ms \<and> store_members strict fs ms zero True = Inr x)"
  by (cases v) (auto simp: store_value_def)

lemma store_value_keeps:
  assumes "store_value strict fs zero v = Inr x" "P zero" "json_utf8 v"
    and "\<And>n g v x y. (n, g) \<in> set fs \<Longrightarrow> json_utf8 v \<Longrightarrow> P x \<Longrightarrow> g v x = Some y \<Longrightarrow> P y"
  shows "P x"
proof -
  from assms(1) consider "x = zero"
    | ms where "v = JObj ms" "store_members strict fs ms zero True = Inr x"
    unfolding store_value_Inr by blast
  then show ?thesis
  proof cases
    case 1
    with assms(2) show ?thesis by simp
  next
    case 2
    with assms(3) have "\<forall>p\<in>set ms. json_utf8 (snd p)" by simp
    from store_members_keeps [of fs P, OF assms(4) this assms(2) 2(2)] show ?thesis .
  qed
qed

lemma unmarshal_struct_keeps:
  assumes "unmarshal_struct fs zero s = Inr x" "P zero"
    and "\<And>n g v x y. (n, g) \<in> set fs \<Longrightarrow> json_utf8 v \<Longrightarrow> P x \<Longrightarrow> g v x = Some y \<Longrightarrow> P y"
  shows "P x"
proof -
  from assms(1) obtain v where v: "parse_json s = Inr v" "store_value False fs zero v = Inr x"
    by (auto simp: unmarshal_struct_def result_simps)
  show ?thesis
    by (rule store_value_keeps [where P = P, OF v(2) assms(2) parse_json_utf8 [OF v(1)] assms(3)])
qed

end
