(* ===== verification/Audit_Log.thy ===== *)
theory Audit_Log
  imports Go_Json
begin

text \<open>
  Package \<open>pkg/auditlog\<close>: the append-only, hash-chained event log.

  The hash function (\<open>crypto/sha256\<close>) is the parameter \<open>H\<close> of every definition that uses
  it, a function from the bytes hashed to the bytes of the digest; nothing is assumed of
  it, and where tampering is excluded only up to a collision, the two colliding texts are
  canonical entries of the logs at hand.  The contents of the log file are explicit.
\<close>

section \<open>Entries\<close>

record audit_entry =
  ae_seq :: "64 word"
  ae_ts :: string
  ae_event :: string
  ae_detail :: string
  ae_prev :: string
  ae_hash :: string

definition genesis_prev :: string where
  "genesis_prev = replicate 64 CHR ''0''"

definition zero_entry :: audit_entry where
  "zero_entry = \<lparr>ae_seq = 0, ae_ts = [], ae_event = [], ae_detail = [], ae_prev = [], ae_hash = []\<rparr>"

text \<open>\<open>json.Marshal\<close> of an entry: its fields in the order of the struct.\<close>

definition entry_fields :: "audit_entry \<Rightarrow> (string \<times> string) list" where
  "entry_fields e =
     [(''seq'', nat_dec (unat (ae_seq e))), (''ts'', json_string True (ae_ts e)),
      (''event'', json_string True (ae_event e)), (''detail'', json_string True (ae_detail e)),
      (''prev_hash'', json_string True (ae_prev e)), (''entry_hash'', json_string True (ae_hash e))]"

definition entry_json :: "audit_entry \<Rightarrow> string" where
  "entry_json e = json_object True (entry_fields e)"

text \<open>The canonical form an entry's hash is taken over has no hash in it.\<close>

definition entry_canon :: "audit_entry \<Rightarrow> string" where
  "entry_canon e = entry_json (e\<lparr>ae_hash := []\<rparr>)"

definition entry_hash :: "(string \<Rightarrow> string) \<Rightarrow> audit_entry \<Rightarrow> string" where
  "entry_hash H e = hex_encode (H (entry_canon e))"

definition entry_setters :: "audit_entry fields" where
  "entry_setters =
     [(''seq'', set_uint64 (\<lambda>n e. e\<lparr>ae_seq := n\<rparr>)), (''ts'', set_string (\<lambda>s e. e\<lparr>ae_ts := s\<rparr>)),
      (''event'', set_string (\<lambda>s e. e\<lparr>ae_event := s\<rparr>)), (''detail'', set_string (\<lambda>s e. e\<lparr>ae_detail := s\<rparr>)),
      (''prev_hash'', set_string (\<lambda>s e. e\<lparr>ae_prev := s\<rparr>)), (''entry_hash'', set_string (\<lambda>s e. e\<lparr>ae_hash := s\<rparr>))]"

definition parse_entry :: "string \<Rightarrow> (json_error, audit_entry) result" where
  "parse_entry line = unmarshal_struct entry_setters zero_entry line"

section \<open>Scanning a log\<close>

datatype audit_error =
    MalformedEntry "64 word" json_error
  | WrongSeq "64 word" "64 word"
  | NotChained "64 word"
  | HashMismatch "64 word"
  | LineTooLong

definition audit_scan_limit :: nat where "audit_scan_limit = 4 * 1024 * 1024"

text \<open>
  The loop of \<open>scan\<close>: the previous hash, the sequence number wanted, the number of
  entries and the last of them, and the error it stops with.
\<close>

fun scan_from :: "(string \<Rightarrow> string) \<Rightarrow> string list \<Rightarrow> string \<Rightarrow> 64 word \<Rightarrow> nat \<Rightarrow> audit_entry \<Rightarrow>
    nat \<times> audit_entry \<times> audit_error option" where
  "scan_from H [] prev want n lst = (n, lst, None)"
| "scan_from H (l # ls) prev want n lst =
     (let line = trim_space l
      in if line = [] then scan_from H ls prev want n lst
         else case parse_entry line of
                Inl e \<Rightarrow> (n, lst, Some (MalformedEntry want e))
              | Inr e \<Rightarrow>
                  if ae_seq e \<noteq> want then (n, lst, Some (WrongSeq want (ae_seq e)))
                  else if ae_prev e \<noteq> prev then (n, lst, Some (NotChained (ae_seq e)))
                  else if entry_hash H e \<noteq> ae_hash e then (n, lst, Some (HashMismatch (ae_seq e)))
                  else scan_from H ls (ae_hash e) (want + 1) (n + 1) e)"

definition audit_scan :: "(string \<Rightarrow> string) \<Rightarrow> string \<Rightarrow> nat \<times> audit_entry \<times> audit_error option" where
  "audit_scan H f =
     (let (ls, too_long) = scan_lines audit_scan_limit f
      in case scan_from H ls genesis_prev 1 0 zero_entry of
           (n, lst, Some e) \<Rightarrow> (n, lst, Some e)
         | (n, lst, None) \<Rightarrow> (n, lst, if too_long then Some LineTooLong else None))"

section \<open>The operations\<close>

record audit_log =
  lg_seq :: "64 word"
  lg_hash :: string

text \<open>What opening the path for reading gives.\<close>

datatype open_read = Missing | Unreadable string | Readable string

datatype log_error =
    BrokenChain audit_error
  | CannotOpen string
  | CannotWrite string
  | CannotSync string

definition fresh_log :: audit_log where
  "fresh_log = \<lparr>lg_seq = 0, lg_hash = genesis_prev\<rparr>"

text \<open>\<open>append_err\<close> is the error of opening the file for appending, if any.\<close>

definition log_open :: "(string \<Rightarrow> string) \<Rightarrow> open_read \<Rightarrow> string option \<Rightarrow> (log_error, audit_log) result" where
  "log_open H file append_err =
     try_bind
       (case file of
          Missing \<Rightarrow> Inr fresh_log
        | Unreadable e \<Rightarrow> Inl (CannotOpen e)
        | Readable f \<Rightarrow>
            (case audit_scan H f of
               (n, lst, Some e) \<Rightarrow> Inl (BrokenChain e)
             | (n, lst, None) \<Rightarrow>
                 Inr (if n > 0 then \<lparr>lg_seq = ae_seq lst, lg_hash = ae_hash lst\<rparr> else fresh_log)))
       (\<lambda>l. case append_err of None \<Rightarrow> Inr l | Some e \<Rightarrow> Inl (CannotOpen e))"

text \<open>How writing the line goes: in full, cut after some bytes, or in full but not synced.\<close>

datatype write_outcome = Written | Torn nat string | Unsynced string

definition log_entry :: "(string \<Rightarrow> string) \<Rightarrow> audit_log \<Rightarrow> string \<Rightarrow> string \<Rightarrow> string \<Rightarrow> audit_entry" where
  "log_entry H l ts event detail =
     (let e = \<lparr>ae_seq = lg_seq l + 1, ae_ts = ts, ae_event = event, ae_detail = detail,
               ae_prev = lg_hash l, ae_hash = []\<rparr>
      in e\<lparr>ae_hash := entry_hash H e\<rparr>)"

definition log_append :: "(string \<Rightarrow> string) \<Rightarrow> write_outcome \<Rightarrow> string \<Rightarrow> string \<Rightarrow> string \<Rightarrow>
    (audit_log \<times> string, log_error, audit_entry) action" where
  "log_append H wr ts event detail = (\<lambda>(l, f).
     (let e = log_entry H l ts event detail;
          line = entry_json e @ [newline]
      in case wr of
           Torn k err \<Rightarrow> (Inl (CannotWrite err), (l, f @ take k line))
         | Unsynced err \<Rightarrow> (Inl (CannotSync err), (l, f @ line))
         | Written \<Rightarrow> (Inr e, (\<lparr>lg_seq = ae_seq e, lg_hash = ae_hash e\<rparr>, f @ line))))"

definition log_verify :: "(string \<Rightarrow> string) \<Rightarrow> open_read \<Rightarrow> nat \<times> log_error option" where
  "log_verify H file =
     (case file of
        Missing \<Rightarrow> (0, Some (CannotOpen ''no such file or directory''))
      | Unreadable e \<Rightarrow> (0, Some (CannotOpen e))
      | Readable f \<Rightarrow> (case audit_scan H f of (n, lst, err) \<Rightarrow> (n, map_option BrokenChain err)))"

section \<open>Reading back an entry\<close>

definition entry_valid :: "audit_entry \<Rightarrow> bool" where
  "entry_valid e = (utf8_valid (ae_ts e) \<and> utf8_valid (ae_event e) \<and> utf8_valid (ae_detail e) \<and>
     utf8_valid (ae_prev e) \<and> utf8_valid (ae_hash e))"

definition entry_repair :: "audit_entry \<Rightarrow> audit_entry" where
  "entry_repair e = e\<lparr>ae_ts := utf8_repair (ae_ts e), ae_event := utf8_repair (ae_event e),
     ae_detail := utf8_repair (ae_detail e), ae_prev := utf8_repair (ae_prev e), ae_hash := utf8_repair (ae_hash e)\<rparr>"

lemma entry_repair_valid: "entry_valid e \<Longrightarrow> entry_repair e = e"
  by (simp add: entry_valid_def entry_repair_def utf8_repair_valid)

definition entry_members :: "audit_entry \<Rightarrow> (string \<times> json) list" where
  "entry_members e =
     [(''seq'', JNum (nat_dec (unat (ae_seq e)))), (''ts'', JStr (utf8_repair (ae_ts e))),
      (''event'', JStr (utf8_repair (ae_event e))), (''detail'', JStr (utf8_repair (ae_detail e))),
      (''prev_hash'', JStr (utf8_repair (ae_prev e))), (''entry_hash'', JStr (utf8_repair (ae_hash e)))]"

lemma reads_entry: "reads_value 1 (entry_json e) (JObj (entry_members e))"
proof -
  have "reads_fields 0 (entry_fields e) (entry_members e)"
    by (simp add: reads_fields_def entry_fields_def entry_members_def reads_string reads_nat
        ascii_repair code_def del: utf8_repair.simps)
  then show ?thesis
    unfolding entry_json_def using reads_object [of 0] by (simp add: entry_fields_def)
qed

lemma entry_field_names:
  "find_field entry_setters ''seq'' = Some (set_uint64 (\<lambda>n e. e\<lparr>ae_seq := n\<rparr>))"
  "find_field entry_setters ''ts'' = Some (set_string (\<lambda>s e. e\<lparr>ae_ts := s\<rparr>))"
  "find_field entry_setters ''event'' = Some (set_string (\<lambda>s e. e\<lparr>ae_event := s\<rparr>))"
  "find_field entry_setters ''detail'' = Some (set_string (\<lambda>s e. e\<lparr>ae_detail := s\<rparr>))"
  "find_field entry_setters ''prev_hash'' = Some (set_string (\<lambda>s e. e\<lparr>ae_prev := s\<rparr>))"
  "find_field entry_setters ''entry_hash'' = Some (set_string (\<lambda>s e. e\<lparr>ae_hash := s\<rparr>))"
  by (simp_all add: find_field_def entry_setters_def upper_byte_def code_def byte_def less_eq_char_def)

lemma parse_entry_json: "parse_entry (entry_json e) = Inr (entry_repair e)"
proof -
  have "parse_json (entry_json e) = Inr (JObj (entry_members e))"
    by (rule parse_json_reads [OF reads_entry]) (simp add: max_nesting_def)
  then show ?thesis
    by (simp add: parse_entry_def unmarshal_struct_def store_value_def entry_members_def entry_field_names
        set_string_def set_uint64_def parse_uint64_dec entry_repair_def zero_entry_def)
qed

lemma parse_entry_valid: "parse_entry s = Inr e \<Longrightarrow> entry_valid e"
  unfolding parse_entry_def
  by (erule unmarshal_struct_keeps)
    (auto simp: entry_valid_def zero_entry_def entry_setters_def set_string_def set_uint64_def
      split: json.splits)

text \<open>Canonical forms of valid entries are equal only for equal entries.\<close>

lemma entry_canon_inj:
  assumes "entry_valid e" "entry_valid e'" "entry_canon e = entry_canon e'"
  shows "e\<lparr>ae_hash := []\<rparr> = e'\<lparr>ae_hash := []\<rparr>"
proof -
  have v: "entry_valid (e\<lparr>ae_hash := []\<rparr>)" "entry_valid (e'\<lparr>ae_hash := []\<rparr>)"
    using assms(1,2) by (simp_all add: entry_valid_def)
  have "entry_repair (e\<lparr>ae_hash := []\<rparr>) = entry_repair (e'\<lparr>ae_hash := []\<rparr>)"
    using parse_entry_json [of "e\<lparr>ae_hash := []\<rparr>"] parse_entry_json [of "e'\<lparr>ae_hash := []\<rparr>"] assms(3)
    by (simp add: entry_canon_def)
  with v show ?thesis by (simp add: entry_repair_valid)
qed

section \<open>Chains\<close>

fun chain :: "(string \<Rightarrow> string) \<Rightarrow> string \<Rightarrow> 64 word \<Rightarrow> audit_entry list \<Rightarrow> bool" where
  "chain H prev want [] = True"
| "chain H prev want (e # es) =
     (ae_seq e = want \<and> ae_prev e = prev \<and> ae_hash e = entry_hash H e \<and> chain H (ae_hash e) (want + 1) es)"

text \<open>The entries the lines of a log hold, if every line that is not blank holds one.\<close>

fun parse_entries :: "string list \<Rightarrow> audit_entry list option" where
  "parse_entries [] = Some []"
| "parse_entries (l # ls) =
     (if trim_space l = [] then parse_entries ls
      else case parse_entry (trim_space l) of
             Inl e \<Rightarrow> None
           | Inr e \<Rightarrow> map_option (Cons e) (parse_entries ls))"

definition audit_entries :: "string \<Rightarrow> audit_entry list option" where
  "audit_entries f =
     (if list_all (\<lambda>l. length l < audit_scan_limit) (raw_lines f)
      then parse_entries (map drop_cr (raw_lines f)) else None)"

lemma scan_from_ok:
  "scan_from H ls prev want n lst = (m, b, None) \<longleftrightarrow>
     (\<exists>es. parse_entries ls = Some es \<and> chain H prev want es \<and> m = n + length es \<and>
        b = (if es = [] then lst else last es))"
proof (induction ls arbitrary: prev want n lst)
  case Nil
  then show ?case by auto
next
  case (Cons l ls)
  show ?case
  proof (cases "trim_space l = []")
    case True
    with Cons show ?thesis by simp
  next
    case False
    show ?thesis
    proof (cases "parse_entry (trim_space l)")
      case (Inl e)
      with False show ?thesis by simp
    next
      case (Inr e)
      show ?thesis
      proof (cases "ae_seq e = want \<and> ae_prev e = prev \<and> entry_hash H e = ae_hash e")
        case True
        then have step: "scan_from H (l # ls) prev want n lst = scan_from H ls (ae_hash e) (want + 1) (n + 1) e"
          using False Inr by (simp add: Let_def)
        have es: "parse_entries (l # ls) = Some es' \<longleftrightarrow> (\<exists>es. parse_entries ls = Some es \<and> es' = e # es)" for es'
          using False Inr by auto
        have ch: "chain H prev want (e # es) \<longleftrightarrow> chain H (ae_hash e) (want + 1) es" for es
          using True by simp
        have ex: "(\<exists>es'. (\<exists>es. P es \<and> es' = e # es) \<and> Q es') \<longleftrightarrow> (\<exists>es. P es \<and> Q (e # es))" for P Q
          by blast
        show ?thesis
          unfolding step Cons.IH es ex ch by (rule iff_exI) simp
      next
        case nok: False
        then have "scan_from H (l # ls) prev want n lst \<noteq> (m, b, None)"
          using False Inr by (simp add: Let_def)
        moreover have "\<not> chain H prev want es" if "parse_entries (l # ls) = Some es" for es
        proof -
          from that False Inr obtain es' where "es = e # es'" by auto
          with nok show ?thesis by (metis chain.simps(2))
        qed
        ultimately show ?thesis by blast
      qed
    qed
  qed
qed

text \<open>A log verifies exactly when its lines are entries and the entries are a chain.\<close>

lemma audit_scan_ok:
  "audit_scan H f = (n, b, None) \<longleftrightarrow>
     (\<exists>es. audit_entries f = Some es \<and> chain H genesis_prev 1 es \<and> n = length es \<and>
        b = (if es = [] then zero_entry else last es))"
proof (cases "list_all (\<lambda>l. length l < audit_scan_limit) (raw_lines f)")
  case True
  then have lines: "scan_lines audit_scan_limit f = (map drop_cr (raw_lines f), False)" by (rule scan_lines_ok)
  obtain m c e where r: "scan_from H (map drop_cr (raw_lines f)) genesis_prev 1 0 zero_entry = (m, c, e)"
    by (metis prod_cases3)
  have "audit_scan H f = (m, c, e)"
    by (cases e) (simp_all add: audit_scan_def lines r)
  with scan_from_ok [of H "map drop_cr (raw_lines f)" genesis_prev 1 0 zero_entry n b] True show ?thesis
    by (auto simp: audit_entries_def r)
next
  case False
  then have "snd (scan_lines audit_scan_limit f)" by (simp add: scan_lines_too_long)
  then obtain ls where lines: "scan_lines audit_scan_limit f = (ls, True)"
    by (cases "scan_lines audit_scan_limit f") auto
  obtain m c e where r: "scan_from H ls genesis_prev 1 0 zero_entry = (m, c, e)"
    by (metis prod_cases3)
  have "\<exists>err. audit_scan H f = (m, c, Some err)"
    by (cases e) (simp_all add: audit_scan_def lines r)
  with False show ?thesis by (auto simp: audit_entries_def)
qed

lemma chain_append:
  "chain H prev want (es @ fs) \<longleftrightarrow>
     chain H prev want es \<and> chain H (if es = [] then prev else ae_hash (last es)) (want + of_nat (length es)) fs"
  by (induction es arbitrary: prev want) (auto simp: algebra_simps)

lemma chain_seq: "chain H prev want es \<Longrightarrow> i < length es \<Longrightarrow> ae_seq (es ! i) = want + of_nat i"
  by (induction es arbitrary: prev want i) (auto simp: nth_Cons split: nat.splits)

lemma parse_entries_append:
  "parse_entries (xs @ ys) =
     (case parse_entries xs of None \<Rightarrow> None | Some es \<Rightarrow> map_option ((@) es) (parse_entries ys))"
  by (induction xs; cases "parse_entries ys") (auto split: option.splits sum.splits)

text \<open>The line of an entry: no line break in it, nothing to trim.\<close>

lemma json_object_line:
  "hd (json_object h fs) = CHR ''{'' \<and> last (json_object h fs) = CHR ''}'' \<and> json_object h fs \<noteq> []"
  by (simp add: json_object_def)

lemma json_ascii_no_newline: "CHR 0x0A \<notin> set (json_ascii h c)"
proof -
  have nl: "hex_char d \<noteq> CHR 0x0A" if "d < 16" for d
    using hex_char_solid [OF that] by (auto simp: solid_byte_nat)
  have "hex_char (code c div 16) \<noteq> CHR 0x0A" "hex_char (code c mod 16) \<noteq> CHR 0x0A"
    using byte_nibbles [of c] nl by blast+
  moreover have "code c \<noteq> 10 \<Longrightarrow> c \<noteq> CHR 0x0A" by (auto simp: code_def)
  moreover have "\<not> code c < 32 \<Longrightarrow> CHR 0x0A \<noteq> c" by (auto simp: code_def)
  ultimately show ?thesis by (simp add: json_ascii_def)
qed

lemma lead_width_newline: "rune_width (a # s) = Suc k \<Longrightarrow> \<not> code a < 0x80 \<Longrightarrow> newline \<notin> set (take (Suc k) (a # s))"
  by (auto simp: rune_width.simps(2) Let_def list_all_iff cont_byte_def in_bytes_def code_def split: if_splits)

lemma json_rune_no_newline: "newline \<notin> set r \<Longrightarrow> newline \<notin> set (json_rune r)"
  by (auto simp: json_rune_def)

lemma json_body_no_newline: "newline \<notin> set (json_body h s)"
proof (induction h s rule: json_body.induct)
  case (2 h a s)
  show ?case
  proof (cases "code a < 0x80")
    case True
    with 2 json_ascii_no_newline [of h a] show ?thesis by simp
  next
    case False
    have "newline \<notin> set (take (rune_width (a # s)) (a # s))"
      using lead_width_newline [OF _ False] by (cases "rune_width (a # s)") auto
    with False 2 json_rune_no_newline show ?thesis by simp
  qed
qed simp

lemma json_string_no_newline: "newline \<notin> set (json_string h s)"
  using json_body_no_newline [of h s] by (simp add: json_string_def)

lemma entry_json_no_newline: "newline \<notin> set (entry_json e)"
  using json_string_no_newline [of True] nat_dec_no_newline [of "unat (ae_seq e)"]
  by (auto simp: entry_json_def json_object_def entry_fields_def)

lemma entry_json_trim: "trim_space (drop_cr (entry_json e)) = entry_json e"
proof -
  have "drop_cr (entry_json e) = entry_json e"
    using json_object_line [of True "entry_fields e"] by (simp add: drop_cr_def entry_json_def)
  moreover have "trim_space (entry_json e) = entry_json e"
    using json_object_line [of True "entry_fields e"]
    by (intro trim_space_solid) (simp_all add: entry_json_def solid_byte_nat)
  ultimately show ?thesis by simp
qed

text \<open>Appending the line of an entry to a log that ends in a line break.\<close>

lemma audit_entries_snoc:
  assumes "terminated f" "audit_entries f = Some es" "length (entry_json e) < audit_scan_limit"
  shows "audit_entries (f @ entry_json e @ [newline]) = Some (es @ [entry_repair e])"
proof -
  have lines: "raw_lines (f @ entry_json e @ [newline]) = raw_lines f @ [entry_json e]"
    by (rule raw_lines_snoc [OF assms(1) entry_json_no_newline])
  have "parse_entries [drop_cr (entry_json e)] = Some [entry_repair e]"
    using json_object_line [of True "entry_fields e"]
    by (simp add: entry_json_trim parse_entry_json) (simp add: entry_json_def)
  then have "parse_entries (map drop_cr (raw_lines f @ [entry_json e])) =
      (case parse_entries (map drop_cr (raw_lines f)) of None \<Rightarrow> None | Some es \<Rightarrow> Some (es @ [entry_repair e]))"
    by (simp only: map_append list.map parse_entries_append option.map)
  then show ?thesis
    unfolding audit_entries_def lines using assms(2,3) by (auto simp: audit_entries_def split: if_splits)
qed

section \<open>The log and its file agree\<close>

definition log_matches :: "(string \<Rightarrow> string) \<Rightarrow> audit_log \<Rightarrow> string \<Rightarrow> audit_entry list \<Rightarrow> bool" where
  "log_matches H l f es =
     (terminated f \<and> audit_entries f = Some es \<and> chain H genesis_prev 1 es \<and>
      lg_seq l = of_nat (length es) \<and>
      lg_hash l = (if es = [] then genesis_prev else ae_hash (last es)))"

lemma log_matches_fresh: "log_matches H fresh_log [] []"
  by (simp add: log_matches_def terminated_def audit_entries_def fresh_log_def)

lemma chain_last_seq:
  "chain H genesis_prev 1 es \<Longrightarrow> es \<noteq> [] \<Longrightarrow> ae_seq (last es) = of_nat (length es)"
  using chain_seq [of H genesis_prev 1 es "length es - 1"]
  by (cases es rule: rev_cases) (auto simp: last_conv_nth)

lemma chain_hash_solid:
  "chain H genesis_prev 1 es \<Longrightarrow>
   list_all solid_byte (if es = [] then genesis_prev else ae_hash (last es))"
proof (cases es rule: rev_cases)
  case (snoc fs e)
  assume "chain H genesis_prev 1 es"
  then have "ae_hash e = hex_encode (H (entry_canon e))"
    by (simp add: snoc chain_append entry_hash_def)
  with snoc show ?thesis by (simp add: hex_encode_solid)
qed (simp add: genesis_prev_def list_all_iff solid_byte_nat)

lemma log_entry_hash: "ae_hash (log_entry H l ts ev d) = entry_hash H (log_entry H l ts ev d)"
  by (simp add: log_entry_def Let_def entry_hash_def entry_canon_def)

lemma log_entry_fields [simp]:
  "ae_seq (log_entry H l ts ev d) = lg_seq l + 1" "ae_ts (log_entry H l ts ev d) = ts"
  "ae_event (log_entry H l ts ev d) = ev" "ae_detail (log_entry H l ts ev d) = d"
  "ae_prev (log_entry H l ts ev d) = lg_hash l"
  by (simp_all add: log_entry_def Let_def)

lemma log_entry_valid:
  assumes "log_matches H l f es" "utf8_valid ts" "utf8_valid ev" "utf8_valid d"
  shows "entry_valid (log_entry H l ts ev d)"
proof -
  have "utf8_valid (lg_hash l)"
    using assms(1) chain_hash_solid [of H es] by (intro solid_valid) (simp add: log_matches_def)
  moreover have "utf8_valid (ae_hash (log_entry H l ts ev d))"
    unfolding log_entry_hash by (intro solid_valid) (simp add: entry_hash_def hex_encode_solid)
  ultimately show ?thesis using assms(2-4) by (simp add: entry_valid_def)
qed

text \<open>The entry a log appends is the next of its chain.\<close>

lemma log_entry_chain:
  assumes "log_matches H l f es"
  shows "chain H genesis_prev 1 (es @ [log_entry H l ts ev d])"
proof -
  show ?thesis
    using assms log_entry_hash [of H l ts ev d] by (auto simp: chain_append log_matches_def add.commute)
qed

lemma log_append_matches:
  assumes m: "log_matches H l f es" and v: "utf8_valid ts" "utf8_valid ev" "utf8_valid d"
    and short: "length (entry_json (log_entry H l ts ev d)) < audit_scan_limit"
  shows "\<exists>l'. log_append H Written ts ev d (l, f) =
       (Inr (log_entry H l ts ev d), (l', f @ entry_json (log_entry H l ts ev d) @ [newline])) \<and>
     log_matches H l' (f @ entry_json (log_entry H l ts ev d) @ [newline]) (es @ [log_entry H l ts ev d])"
proof -
  let ?e = "log_entry H l ts ev d"
  have "audit_entries (f @ entry_json ?e @ [newline]) = Some (es @ [entry_repair ?e])"
    using m by (intro audit_entries_snoc short) (auto simp: log_matches_def)
  then have "audit_entries (f @ entry_json ?e @ [newline]) = Some (es @ [?e])"
    using entry_repair_valid [OF log_entry_valid [OF m v]] by simp
  then have "log_matches H \<lparr>lg_seq = ae_seq ?e, lg_hash = ae_hash ?e\<rparr> (f @ entry_json ?e @ [newline]) (es @ [?e])"
    using m log_entry_chain [OF m, of ts ev d] terminated_snoc [of f "entry_json ?e"]
    by (simp add: log_matches_def)
  then show ?thesis by (simp add: log_append_def Let_def)
qed

lemma log_matches_scan:
  "log_matches H l f es \<Longrightarrow> audit_scan H f = (length es, (if es = [] then zero_entry else last es), None)"
  by (simp add: audit_scan_ok log_matches_def)

lemma log_open_matches:
  assumes "log_matches H l f es"
  shows "log_open H (Readable f) None = Inr l"
proof -
  have "audit_scan H f = (length es, (if es = [] then zero_entry else last es), None)"
    by (rule log_matches_scan [OF assms])
  moreover have "lg_seq l = of_nat (length es)" "lg_hash l = (if es = [] then genesis_prev else ae_hash (last es))"
      "es \<noteq> [] \<Longrightarrow> ae_seq (last es) = of_nat (length es)"
    using assms chain_last_seq [of H es] by (auto simp: log_matches_def)
  ultimately show ?thesis
    by (cases "es = []") (simp_all add: log_open_def fresh_log_def)
qed

text \<open>
  A life of a log: it starts empty, entries whose texts are UTF-8 and whose lines fit the
  reader are appended, and it may be closed and opened again at any point.
\<close>

inductive log_life :: "(string \<Rightarrow> string) \<Rightarrow> audit_log \<Rightarrow> string \<Rightarrow> audit_entry list \<Rightarrow> bool" for H where
  start: "log_open H Missing None = Inr l \<Longrightarrow> log_life H l [] []"
| append: "log_life H l f es \<Longrightarrow> utf8_valid ts \<Longrightarrow> utf8_valid ev \<Longrightarrow> utf8_valid d \<Longrightarrow>
     length (entry_json (log_entry H l ts ev d)) < audit_scan_limit \<Longrightarrow>
     log_append H Written ts ev d (l, f) = (Inr e, (l', f')) \<Longrightarrow> log_life H l' f' (es @ [e])"
| reopen: "log_life H l f es \<Longrightarrow> log_open H (Readable f) None = Inr l' \<Longrightarrow> log_life H l' f es"

lemma log_life_matches: "log_life H l f es \<Longrightarrow> log_matches H l f es"
proof (induction rule: log_life.induct)
  case (start l)
  then show ?case using log_matches_fresh by (simp add: log_open_def)
next
  case (append l f es ts ev d e l' f')
  from log_append_matches [OF append.IH append.hyps(2-5)] append.hyps(6) show ?case by auto
next
  case (reopen l f es l')
  with log_open_matches [OF reopen.IH] show ?case by simp
qed

text \<open>
  C25. A log that was started empty and grew by \<open>Append\<close> alone verifies, after any sequence
  of appends and reopenings in which every append had a time, an event and a detail in UTF-8,
  its line was shorter than the 4 MiB the reader takes, and its line was written in full:
  then \<open>Verify\<close> reports no error and as many entries as were appended, the file holds exactly
  those entries in order, and \<open>Open\<close> accepts it and continues where it ended.  Without these
  conditions it does not: a detail that is not UTF-8 breaks the log.
\<close>

theorem grown_log_verifies:
  assumes "log_life H l f es"
  shows "log_verify H (Readable f) = (length es, None) \<and> audit_entries f = Some es \<and>
     log_open H (Readable f) None = Inr l"
  using log_life_matches [OF assms] log_matches_scan [of H l f es] log_open_matches [of H l f es]
  by (simp add: log_verify_def log_matches_def)

text \<open>
   A log whose chain is broken is never extended: \<open>Open\<close> succeeds on an existing file
  exactly when it verifies, and then continues at its last entry.
\<close>

theorem open_exactly_on_verified_log:
  "log_open H (Readable f) None = Inr l \<longleftrightarrow>
     (\<exists>n b. audit_scan H f = (n, b, None) \<and>
        l = (if n = 0 then fresh_log else \<lparr>lg_seq = ae_seq b, lg_hash = ae_hash b\<rparr>))"
proof -
  obtain n b e where "audit_scan H f = (n, b, e)" by (metis prod_cases3)
  then show ?thesis by (cases e) (auto simp: log_open_def)
qed

section \<open>Tampering\<close>

lemma entries_valid: "parse_entries ls = Some es \<Longrightarrow> list_all entry_valid es"
  by (induction ls arbitrary: es) (auto split: if_splits sum.splits dest: parse_entry_valid)

lemma audit_entries_valid: "audit_entries f = Some es \<Longrightarrow> list_all entry_valid es"
  by (auto simp: audit_entries_def split: if_splits dest: entries_valid)

text \<open>Two different canonical entries with the same digest.\<close>

definition collision :: "(string \<Rightarrow> string) \<Rightarrow> audit_entry list \<Rightarrow> audit_entry list \<Rightarrow> bool" where
  "collision H es fs = (\<exists>e\<in>set es. \<exists>e'\<in>set fs.
     entry_canon e \<noteq> entry_canon e' \<and> H (entry_canon e) = H (entry_canon e'))"

lemma collision_append: "collision H es fs \<Longrightarrow> collision H (es @ a) (fs @ b)"
  by (auto simp: collision_def)

lemma same_head_same_chain:
  assumes "chain H genesis_prev 1 es" "chain H genesis_prev 1 fs" "length es = length fs"
    and "list_all entry_valid es" "list_all entry_valid fs"
    and "es \<noteq> [] \<Longrightarrow> ae_hash (last es) = ae_hash (last fs)"
  shows "es = fs \<or> collision H es fs"
  using assms
proof (induction es arbitrary: fs rule: rev_induct)
  case Nil
  then show ?case by simp
next
  case (snoc e es)
  then obtain gs g where fs: "fs = gs @ [g]" "length es = length gs"
    by (cases fs rule: rev_cases) auto
  have hash: "ae_hash e = ae_hash g" using snoc.prems(6) fs by simp
  have ch: "chain H genesis_prev 1 es" "chain H genesis_prev 1 gs"
    and eh: "ae_hash e = entry_hash H e" "ae_hash g = entry_hash H g"
    and prev: "ae_prev e = (if es = [] then genesis_prev else ae_hash (last es))"
              "ae_prev g = (if gs = [] then genesis_prev else ae_hash (last gs))"
    using snoc.prems(1,2) by (auto simp: chain_append fs)
  show ?case
  proof (cases "entry_canon e = entry_canon g")
    case False
    have "H (entry_canon e) = H (entry_canon g)"
      using hash eh by (simp add: entry_hash_def hex_encode_inj)
    with False have "collision H (es @ [e]) fs" by (auto simp: collision_def fs)
    then show ?thesis by simp
  next
    case True
    have "e\<lparr>ae_hash := []\<rparr> = g\<lparr>ae_hash := []\<rparr>"
      using snoc.prems(4,5) True by (intro entry_canon_inj) (simp_all add: fs)
    then have "e = g" using hash by (metis audit_entry.surjective audit_entry.update_convs(6) audit_entry.select_convs)
    moreover have "es \<noteq> [] \<Longrightarrow> ae_hash (last es) = ae_hash (last gs)"
      using prev fs(2) \<open>e = g\<close> by (auto split: if_splits)
    then have "es = gs \<or> collision H es gs"
      using snoc.prems(4,5) fs by (intro snoc.IH [OF ch fs(2)]) simp_all
    ultimately show ?thesis using collision_append [of H es gs "[e]" "[g]"] fs by auto
  qed
qed

text \<open>
  C26.  Tampering shows at the head: two logs that both verify, have as many entries and
  end in the same hash hold the same entries, or else exhibit two different canonical
  entries among them that the hash function maps to the same digest.
\<close>

theorem verified_logs_with_same_head_agree:
  assumes "audit_scan H f = (n, b, None)" "audit_scan H g = (n, c, None)" "ae_hash b = ae_hash c"
  shows "\<exists>es fs. audit_entries f = Some es \<and> audit_entries g = Some fs \<and> (es = fs \<or> collision H es fs)"
proof -
  from assms(1,2) obtain es fs where
    es: "audit_entries f = Some es" "chain H genesis_prev 1 es" "n = length es"
        "b = (if es = [] then zero_entry else last es)" and
    fs: "audit_entries g = Some fs" "chain H genesis_prev 1 fs" "n = length fs"
        "c = (if fs = [] then zero_entry else last fs)"
    unfolding audit_scan_ok by auto
  have "es = fs \<or> collision H es fs"
    using es fs assms(3) audit_entries_valid [OF es(1)] audit_entries_valid [OF fs(1)]
    by (intro same_head_same_chain) auto
  with es(1) fs(1) show ?thesis by blast
qed

lemma parse_entries_take:
  "parse_entries ls = Some es \<Longrightarrow> \<exists>m. parse_entries (take k ls) = Some (take m es)"
proof (induction ls arbitrary: k es)
  case Nil
  then show ?case by (intro exI [of _ 0]) simp
next
  case (Cons l ls)
  show ?case
  proof (cases k)
    case 0
    then show ?thesis by (intro exI [of _ 0]) simp
  next
    case (Suc j)
    show ?thesis
    proof (cases "trim_space l = []")
      case True
      with Cons Suc show ?thesis by simp
    next
      case False
      with Cons.prems obtain e es' where e: "parse_entry (trim_space l) = Inr e" "parse_entries ls = Some es'" "es = e # es'"
        by (auto split: sum.splits)
      from Cons.IH [OF e(2), of j] obtain m where "parse_entries (take j ls) = Some (take m es')" by blast
      with False e Suc show ?thesis by (intro exI [of _ "Suc m"]) simp
    qed
  qed
qed

text \<open>
   Dropping entries from the end is not detected, as the package says: whatever
  lines are cut from the end of a log that verifies, what is left verifies and holds a
  prefix of its entries.
\<close>

theorem truncated_log_verifies:
  assumes "audit_scan H f = (n, b, None)" "raw_lines g = take k (raw_lines f)"
  shows "\<exists>es m. audit_entries f = Some es \<and> audit_entries g = Some (take m es) \<and>
     snd (log_verify H (Readable g)) = None"
proof -
  from assms(1) obtain es where es: "audit_entries f = Some es" "chain H genesis_prev 1 es"
    unfolding audit_scan_ok by auto
  from es(1) have fit: "list_all (\<lambda>l. length l < audit_scan_limit) (raw_lines f)"
      and p: "parse_entries (map drop_cr (raw_lines f)) = Some es"
    by (auto simp: audit_entries_def split: if_splits)
  from parse_entries_take [OF p, of k] obtain m where m: "parse_entries (map drop_cr (raw_lines g)) = Some (take m es)"
    by (auto simp: assms(2) take_map)
  have "list_all (\<lambda>l. length l < audit_scan_limit) (raw_lines g)"
    using fit set_take_subset [of k "raw_lines f"] by (auto simp: assms(2) list_all_iff)
  with m have g: "audit_entries g = Some (take m es)" by (simp add: audit_entries_def)
  have "chain H genesis_prev 1 (take m es)"
    using es(2) chain_append [of H genesis_prev 1 "take m es" "drop m es"] by simp
  with g have "\<exists>n' b'. audit_scan H g = (n', b', None)" unfolding audit_scan_ok by blast
  with es(1) g show ?thesis by (auto simp: log_verify_def)
qed

section \<open>Appends that break the log\<close>

lemma scan_snoc_error:
  assumes m: "log_matches H l f es" and short: "length (entry_json e) < audit_scan_limit"
    and bad: "\<not> chain H genesis_prev 1 (es @ [entry_repair e])"
  shows "snd (log_verify H (Readable (f @ entry_json e @ [newline]))) \<noteq> None"
    and "log_open H (Readable (f @ entry_json e @ [newline])) None \<noteq> Inr l'"
proof -
  have "audit_entries (f @ entry_json e @ [newline]) = Some (es @ [entry_repair e])"
    using m by (intro audit_entries_snoc short) (auto simp: log_matches_def)
  then have no: "audit_scan H (f @ entry_json e @ [newline]) \<noteq> (n, b, None)" for n b
    unfolding audit_scan_ok using bad by auto
  obtain n b err where r: "audit_scan H (f @ entry_json e @ [newline]) = (n, b, err)" by (metis prod_cases3)
  with no obtain x where "err = Some x" by (cases err) auto
  with r show "snd (log_verify H (Readable (f @ entry_json e @ [newline]))) \<noteq> None"
    "log_open H (Readable (f @ entry_json e @ [newline])) None \<noteq> Inr l'"
    by (simp_all add: log_verify_def log_open_def)
qed

text \<open>
  C37.  A detail that is not valid UTF-8 ends the log: \<open>Append\<close> reports success, but the
  entry reads back with its invalid bytes replaced, so its hash no longer matches (unless
  the hash function maps the two canonical forms to the same digest), the log fails
  \<open>Verify\<close> and is never opened again.
\<close>

theorem invalid_utf8_detail_breaks_the_log:
  assumes "log_matches H l f es" "\<not> utf8_valid d"
    and "length (entry_json (log_entry H l ts ev d)) < audit_scan_limit"
    and "H (entry_canon (log_entry H l ts ev d)) \<noteq> H (entry_canon (entry_repair (log_entry H l ts ev d)))"
  shows "\<exists>e l' f'. log_append H Written ts ev d (l, f) = (Inr e, (l', f')) \<and> ae_detail e = d \<and>
     snd (log_verify H (Readable f')) \<noteq> None \<and> (\<nexists>l''. log_open H (Readable f') None = Inr l'')"
proof -
  let ?e = "log_entry H l ts ev d"
  have "ae_hash (entry_repair ?e) = ae_hash ?e"
  proof -
    have "utf8_repair (ae_hash ?e) = ae_hash ?e"
      unfolding log_entry_hash by (intro utf8_repair_valid solid_valid) (simp add: entry_hash_def hex_encode_solid)
    then show ?thesis by (simp add: entry_repair_def)
  qed
  then have "ae_hash (entry_repair ?e) \<noteq> entry_hash H (entry_repair ?e)"
    using assms(4) log_entry_hash [of H l ts ev d] by (simp add: entry_hash_def hex_encode_inj)
  then have bad: "\<not> chain H genesis_prev 1 (es @ [entry_repair ?e])"
    by (auto simp: chain_append)
  from scan_snoc_error [OF assms(1,3) bad] show ?thesis
    by (auto simp: log_append_def Let_def)
qed

text \<open>
   A failed sync is not undone: after an append whose line was written but not
  synced, the log keeps its old sequence number, so the next append, which reports
  success, writes a second entry with the same number and the log no longer verifies.
\<close>

theorem append_after_failed_sync_breaks_the_log:
  assumes "log_matches H l f es" "utf8_valid ts" "utf8_valid ev" "utf8_valid d"
    and "length (entry_json (log_entry H l ts ev d)) < audit_scan_limit"
  shows "\<exists>e f' f''. log_append H (Unsynced err) ts ev d (l, f) = (Inl (CannotSync err), (l, f')) \<and>
     fst (log_append H Written ts ev d (l, f')) = Inr e \<and>
     snd (snd (log_append H Written ts ev d (l, f'))) = f'' \<and>
     snd (log_verify H (Readable f'')) \<noteq> None"
proof -
  let ?e = "log_entry H l ts ev d" and ?g = "f @ entry_json (log_entry H l ts ev d) @ [newline]"
  from log_append_matches [OF assms] obtain l' where m: "log_matches H l' ?g (es @ [?e])" by blast
  have "chain H genesis_prev 1 (es @ [?e])" using m by (simp add: log_matches_def)
  then have "\<not> chain H genesis_prev 1 ((es @ [?e]) @ [entry_repair ?e])"
    using assms(1) by (auto simp: chain_append log_matches_def entry_repair_def)
  from scan_snoc_error(1) [OF m assms(5) this] show ?thesis
    by (auto simp: log_append_def Let_def)
qed

section \<open>How long a line can be\<close>

lemma json_ascii_length: "length (json_ascii h c) \<le> 6"
  by (simp add: json_ascii_def)

lemma json_body_length: "length (json_body h s) \<le> 6 * length s"
proof (induction h s rule: json_body.induct)
  case (2 h a s)
  show ?case
  proof (cases "code a < 0x80")
    case True
    with 2 json_ascii_length [of h a] show ?thesis by simp
  next
    case False
    let ?w = "rune_width (a # s)"
    have "length (json_rune (take ?w (a # s))) \<le> 6 * max 1 ?w"
      by (auto simp: json_rune_def)
    moreover have "length (json_body h (drop (?w - 1) s)) \<le> 6 * length (drop (?w - 1) s)"
      using 2(2) False by simp
    moreover have "max 1 ?w + length (drop (?w - 1) s) \<le> length (a # s)"
      using rune_width_le [of "a # s"] by (auto simp: max_def)
    ultimately show ?thesis using False by simp
  qed
qed simp

lemma nat_dec_length: "0 < k \<Longrightarrow> n < 10 ^ k \<Longrightarrow> length (nat_dec n) \<le> k"
proof (induction k arbitrary: n)
  case (Suc k)
  show ?case
  proof (cases "n < 10")
    case True
    then show ?thesis by (simp add: nat_dec.simps [of n])
  next
    case False
    with Suc.prems(2) have "0 < k" "n div 10 < 10 ^ k" by (cases k; simp add: less_mult_imp_div_less mult.commute)+
    with Suc.IH [of "n div 10"] False show ?thesis by (simp add: nat_dec.simps [of n])
  qed
qed simp

lemma entry_json_length:
  "length (entry_json e) \<le> 100 + 6 * (length (ae_ts e) + length (ae_event e) + length (ae_detail e) +
     length (ae_prev e) + length (ae_hash e))"
proof -
  have "unat (ae_seq e) < 10 ^ 20"
    using unsigned_less [of "ae_seq e", where 'a = nat] by simp
  then have "length (nat_dec (unat (ae_seq e))) \<le> 20" by (intro nat_dec_length) simp_all
  then show ?thesis
    using json_body_length [of True "ae_ts e"] json_body_length [of True "ae_event e"]
      json_body_length [of True "ae_detail e"] json_body_length [of True "ae_prev e"] json_body_length [of True "ae_hash e"]
    by (simp add: entry_json_def json_object_def entry_fields_def json_string_def json_ascii_def code_def)
qed

text \<open>Replacing an invalid byte shortens the line: the escape is six bytes, the rune three.\<close>

lemma json_body_rune:
  assumes "rune_width r = length r" "r \<noteq> []"
  shows "json_body h (r @ x) = (if code (hd r) < 0x80 then json_ascii h (hd r) else json_rune r) @ json_body h x"
proof -
  obtain a u where r: "r = a # u" using assms(2) by (cases r) auto
  have w: "rune_width (a # u @ x) = Suc (length u)"
    using rune_width_append [of r x] assms r by simp
  then have "code a < 0x80 \<Longrightarrow> u = []" by simp
  with w show ?thesis by (simp add: r)
qed

lemma json_body_repair:
  "length (json_body h (utf8_repair s)) + (if utf8_valid s then 0 else 3) \<le> length (json_body h s)"
proof (induction s rule: utf8_repair.induct)
  case (2 a s)
  let ?w = "rune_width (a # s)"
  let ?rest = "drop (?w - 1) s"
  show ?case
  proof (cases "?w = 0")
    case True
    have e: "json_body h (encode_rune rune_error @ utf8_repair ?rest) =
        [byte 0xEF, byte 0xBF, byte 0xBD] @ json_body h (utf8_repair ?rest)"
      using json_body_rune [of "[byte 0xEF, byte 0xBF, byte 0xBD]" h] error_rune_width [of "[]"]
      by (simp add: error_rune_bytes json_rune_def code_byte)
    have "\<not> code a < 0x80" using True by auto
    with True 2 e show ?thesis by (simp add: json_rune_def split: if_splits)
  next
    case False
    let ?r = "take ?w (a # s)"
    have r: "rune_width ?r = length ?r" "?r \<noteq> []"
      using rune_width_take [of "a # s"] rune_width_le [of "a # s"] False by auto
    have "hd ?r = a" using False by (cases ?w) auto
    moreover have "code a < 0x80 \<Longrightarrow> ?w = 1" by simp
    ultimately show ?thesis
      using 2 json_body_rune [OF r, of h "utf8_repair ?rest"] False by auto
  qed
qed simp

lemma invalid_detail_canon:
  assumes "\<not> utf8_valid (ae_detail e)"
  shows "entry_canon e \<noteq> entry_canon (entry_repair e)"
proof -
  have le: "length (json_body True (utf8_repair s)) \<le> length (json_body True s)" for s
    using json_body_repair [of True s] by simp
  have "length (json_body True (utf8_repair (ae_detail e))) < length (json_body True (ae_detail e))"
    using json_body_repair [of True "ae_detail e"] assms by simp
  with le [of "ae_ts e"] le [of "ae_event e"] le [of "ae_prev e"]
  have "length (entry_canon (entry_repair e)) < length (entry_canon e)"
    by (simp add: entry_canon_def entry_json_def json_object_def entry_fields_def json_string_def entry_repair_def)
  then show ?thesis by auto
qed

section \<open>Examples\<close>

text \<open>A hash that keeps the text it is given, so that a run can be followed.\<close>

definition plain_hash :: "string \<Rightarrow> string" where "plain_hash s = take 4 s"

definition sample_log_entry :: audit_entry where
  "sample_log_entry = log_entry plain_hash fresh_log ''t'' ''SEAL'' ''ok''"

definition sample_log_file :: string where
  "sample_log_file = [] @ entry_json sample_log_entry @ [newline]"

lemma sample_entry_length: "length (entry_json sample_log_entry) = 150"
  by code_simp

lemma sample_entry_short: "length (entry_json sample_log_entry) < audit_scan_limit"
  by (simp add: sample_entry_length audit_scan_limit_def)

lemma sample_log_matches:
  "\<exists>l. log_append plain_hash Written ''t'' ''SEAL'' ''ok'' (fresh_log, []) =
       (Inr sample_log_entry, (l, sample_log_file)) \<and> log_matches plain_hash l sample_log_file [sample_log_entry]"
  using log_append_matches [OF log_matches_fresh, of "''t''" "''SEAL''" "''ok''" plain_hash] sample_entry_short
  unfolding sample_log_entry_def [symmetric] sample_log_file_def by (simp add: code_def)

lemma sample_log_life: "\<exists>l. log_life plain_hash l sample_log_file [sample_log_entry]"
proof -
  from sample_log_matches obtain l where
    a: "log_append plain_hash Written ''t'' ''SEAL'' ''ok'' (fresh_log, []) =
       (Inr sample_log_entry, (l, sample_log_file))" by blast
  have "log_life plain_hash fresh_log [] []" by (rule log_life.start) (simp add: log_open_def)
  from log_life.append [OF this _ _ _ _ a] sample_entry_short show ?thesis
    unfolding sample_log_entry_def by (auto simp: code_def)
qed

lemma sample_log_scan: "audit_scan plain_hash sample_log_file = (1, sample_log_entry, None)"
  using sample_log_matches log_matches_scan by fastforce

theorem grown_log_verifies_witness:
  "\<exists>l. log_verify plain_hash (Readable sample_log_file) = (length [sample_log_entry], None) \<and>
     audit_entries sample_log_file = Some [sample_log_entry] \<and>
     log_open plain_hash (Readable sample_log_file) None = Inr l"
  using sample_log_life grown_log_verifies by blast

theorem verified_logs_with_same_head_agree_witness:
  "\<exists>es fs. audit_entries sample_log_file = Some es \<and> audit_entries (newline # sample_log_file) = Some fs \<and>
     (es = fs \<or> collision plain_hash es fs)"
proof -
  have "raw_lines (newline # sample_log_file) = [] # raw_lines sample_log_file"
    using raw_lines_append [of "[]" sample_log_file] by simp
  then have "audit_entries (newline # sample_log_file) = audit_entries sample_log_file"
    by (simp add: audit_entries_def audit_scan_limit_def drop_cr_def)
  then have "audit_scan plain_hash (newline # sample_log_file) = (1, sample_log_entry, None)"
    using sample_log_scan unfolding audit_scan_ok by simp
  from verified_logs_with_same_head_agree [OF sample_log_scan this refl] show ?thesis .
qed

theorem truncated_log_verifies_witness:
  "\<exists>es m. audit_entries sample_log_file = Some es \<and> audit_entries [] = Some (take m es) \<and>
     snd (log_verify plain_hash (Readable [])) = None"
  by (rule truncated_log_verifies [OF sample_log_scan, of "[]" 0]) simp

lemma bad_detail_entry:
  "length (entry_json (log_entry id fresh_log ''t'' ''SEAL'' [CHR 0xFF])) < audit_scan_limit"
  "id (entry_canon (log_entry id fresh_log ''t'' ''SEAL'' [CHR 0xFF])) \<noteq>
     id (entry_canon (entry_repair (log_entry id fresh_log ''t'' ''SEAL'' [CHR 0xFF])))"
proof -
  let ?e = "log_entry id fresh_log ''t'' ''SEAL'' [CHR 0xFF]"
  have "length (entry_canon ?e) \<le> 520"
    using entry_json_length [of "?e\<lparr>ae_hash := []\<rparr>"] by (simp add: entry_canon_def fresh_log_def genesis_prev_def)
  then have "length (ae_hash ?e) \<le> 1040" unfolding log_entry_hash by (simp add: entry_hash_def)
  then show "length (entry_json ?e) < audit_scan_limit"
    using entry_json_length [of ?e] by (simp add: audit_scan_limit_def fresh_log_def genesis_prev_def)
  show "id (entry_canon (log_entry id fresh_log ''t'' ''SEAL'' [CHR 0xFF])) \<noteq>
     id (entry_canon (entry_repair (log_entry id fresh_log ''t'' ''SEAL'' [CHR 0xFF])))"
    using invalid_detail_canon [of ?e] by (simp add: rune_width.simps(2) lead_width_def in_bytes_def code_def)
qed

theorem invalid_utf8_detail_breaks_the_log_witness:
  "\<exists>e l' f'. log_append id Written ''t'' ''SEAL'' [CHR 0xFF] (fresh_log, []) = (Inr e, (l', f')) \<and>
     ae_detail e = [CHR 0xFF] \<and> snd (log_verify id (Readable f')) \<noteq> None \<and>
     (\<nexists>l''. log_open id (Readable f') None = Inr l'')"
  by (rule invalid_utf8_detail_breaks_the_log [OF log_matches_fresh _ bad_detail_entry])
    (simp add: rune_width.simps(2) lead_width_def in_bytes_def code_def)

theorem append_after_failed_sync_breaks_the_log_witness:
  "\<exists>e f' f''. log_append plain_hash (Unsynced ''EIO'') ''t'' ''SEAL'' ''ok'' (fresh_log, []) =
       (Inl (CannotSync ''EIO''), (fresh_log, f')) \<and>
     fst (log_append plain_hash Written ''t'' ''SEAL'' ''ok'' (fresh_log, f')) = Inr e \<and>
     snd (snd (log_append plain_hash Written ''t'' ''SEAL'' ''ok'' (fresh_log, f'))) = f'' \<and>
     snd (log_verify plain_hash (Readable f'')) \<noteq> None"
  by (rule append_after_failed_sync_breaks_the_log [OF log_matches_fresh])
    (use sample_entry_short in \<open>simp_all add: code_def sample_log_entry_def\<close>)

end
