(* ===== verification/Manifest.thy ===== *)
theory Manifest
  imports Go_Json "HOL-Library.Multiset"
begin

text \<open>
  The bundle manifest and its canonical form (pkg/manifest/manifest.go).

  A manifest is what is signed, so \<open>Parse\<close> refuses any spelling other than the one
  \<open>Canonical\<close> writes.  \<open>sort.Slice\<close> is not stable: how it orders files of equal paths is
  left open, and \<open>srt\<close> is the ordering it computes.  \<open>encoding/json\<close> decodes a second
  \<open>files\<close> member into the elements of the first one; here each member is read afresh,
  which changes nothing of what \<open>Parse\<close> returns, since a text with a repeated member is
  not canonical and is refused either way.
\<close>

section \<open>Data\<close>

record mfile =
  mf_path :: string
  mf_sha256 :: string
  mf_size :: int

record manifest =
  mn_schema :: string
  mn_bundle_id :: string
  mn_version :: "64 word"
  mn_created :: string
  mn_files :: "mfile list"

definition manifest_schema :: string where
  "manifest_schema = ''arazu.bundle/v1''"

section \<open>Writing\<close>

definition mfile_fields :: "mfile \<Rightarrow> (string \<times> string) list" where
  "mfile_fields f =
     [(''path'', json_string False (mf_path f)), (''sha256'', json_string False (mf_sha256 f)),
      (''size'', int_dec (mf_size f))]"

definition mfile_json :: "mfile \<Rightarrow> string" where
  "mfile_json f = json_object False (mfile_fields f)"

text \<open>Copying no files with \<open>append\<close> gives the nil slice, which is written as \<open>null\<close>.\<close>

definition files_json :: "mfile list \<Rightarrow> string" where
  "files_json fs = (if fs = [] then ''null'' else json_array (map mfile_json fs))"

definition manifest_fields :: "manifest \<Rightarrow> (string \<times> string) list" where
  "manifest_fields m =
     [(''schema'', json_string False (mn_schema m)), (''bundle_id'', json_string False (mn_bundle_id m)),
      (''version'', nat_dec (unat (mn_version m))), (''created'', json_string False (mn_created m)),
      (''files'', files_json (mn_files m))]"

definition trim_newlines :: "string \<Rightarrow> string" where
  "trim_newlines s = rev (dropWhile (\<lambda>c. c = newline) (rev s))"

definition canonical :: "(mfile list \<Rightarrow> mfile list) \<Rightarrow> manifest \<Rightarrow> string" where
  "canonical srt m =
     trim_newlines (json_object False (manifest_fields (m\<lparr>mn_files := srt (mn_files m)\<rparr>)) @ [newline])"

section \<open>Reading\<close>

text \<open>\<open>strconv.ParseInt(s, 10, 64)\<close> on a JSON number.\<close>

definition parse_int64 :: "string \<Rightarrow> int option" where
  "parse_int64 s =
     (let neg = starts_with CHR ''-'' s; ds = (if neg then tl s else s);
          i = (if neg then - int (dec_val ds) else int (dec_val ds))
      in if ds \<noteq> [] \<and> list_all is_digit ds \<and> - (2 ^ 63) \<le> i \<and> i < 2 ^ 63 then Some i else None)"

definition set_int64 :: "(int \<Rightarrow> 'a \<Rightarrow> 'a) \<Rightarrow> json \<Rightarrow> 'a \<Rightarrow> 'a option" where
  "set_int64 upd v x =
     (case v of JNum s \<Rightarrow> map_option (\<lambda>n. upd n x) (parse_int64 s) | JNull \<Rightarrow> Some x | _ \<Rightarrow> None)"

definition zero_mfile :: mfile where
  "zero_mfile = \<lparr>mf_path = [], mf_sha256 = [], mf_size = 0\<rparr>"

definition mfile_setters :: "mfile Go_Json.fields" where
  "mfile_setters =
     [(''path'', set_string (\<lambda>s f. f\<lparr>mf_path := s\<rparr>)), (''sha256'', set_string (\<lambda>s f. f\<lparr>mf_sha256 := s\<rparr>)),
      (''size'', set_int64 (\<lambda>n f. f\<lparr>mf_size := n\<rparr>))]"

definition store_file :: "json \<Rightarrow> mfile option" where
  "store_file v = ok_value (store_value True mfile_setters zero_mfile v)"

fun store_files :: "json list \<Rightarrow> mfile list option" where
  "store_files [] = Some []"
| "store_files (v # vs) =
     (case (store_file v, store_files vs) of (Some f, Some fs) \<Rightarrow> Some (f # fs) | _ \<Rightarrow> None)"

definition set_files :: "json \<Rightarrow> manifest \<Rightarrow> manifest option" where
  "set_files v m =
     (case v of
        JArr vs \<Rightarrow> map_option (\<lambda>fs. m\<lparr>mn_files := fs\<rparr>) (store_files vs)
      | JNull \<Rightarrow> Some (m\<lparr>mn_files := []\<rparr>)
      | _ \<Rightarrow> None)"

definition zero_manifest :: manifest where
  "zero_manifest = \<lparr>mn_schema = [], mn_bundle_id = [], mn_version = 0, mn_created = [], mn_files = []\<rparr>"

definition manifest_setters :: "manifest Go_Json.fields" where
  "manifest_setters =
     [(''schema'', set_string (\<lambda>s m. m\<lparr>mn_schema := s\<rparr>)),
      (''bundle_id'', set_string (\<lambda>s m. m\<lparr>mn_bundle_id := s\<rparr>)),
      (''version'', set_uint64 (\<lambda>n m. m\<lparr>mn_version := n\<rparr>)),
      (''created'', set_string (\<lambda>s m. m\<lparr>mn_created := s\<rparr>)), (''files'', set_files)]"

datatype manifest_error =
    UndecodableManifest json_error
  | TrailingData
  | UnknownSchema string
  | NotCanonical

text \<open>\<open>Decoder.Decode\<close> reads one value and leaves what follows it; \<open>Decoder.More\<close> looks at that.\<close>

definition decode_manifest :: "string \<Rightarrow> (json_error, manifest \<times> string) result" where
  "decode_manifest b =
     try_bind (parse_value (2 * length b + 1) max_nesting (skip_ws b)) (\<lambda>(v, r).
     try_bind (store_value True manifest_setters zero_manifest v) (\<lambda>m. Inr (m, r)))"

definition more_follows :: "string \<Rightarrow> bool" where
  "more_follows r = (case skip_ws r of [] \<Rightarrow> False | c # _ \<Rightarrow> c \<noteq> CHR '']'' \<and> c \<noteq> CHR ''}'')"

definition manifest_parse :: "(mfile list \<Rightarrow> mfile list) \<Rightarrow> string \<Rightarrow> (manifest_error, manifest) result" where
  "manifest_parse srt b =
     (case decode_manifest b of
        Inl e \<Rightarrow> Inl (UndecodableManifest e)
      | Inr (m, r) \<Rightarrow>
          if more_follows r then Inl TrailingData
          else if mn_schema m \<noteq> manifest_schema then Inl (UnknownSchema (mn_schema m))
          else if canonical srt m \<noteq> trim_newlines b then Inl NotCanonical
          else Inr m)"

section \<open>What can be written\<close>

text \<open>Texts that are UTF-8 and sizes of 64 bits: what a manifest in memory that was read has.\<close>

definition int64 :: "int \<Rightarrow> bool" where
  "int64 i = (- (2 ^ 63) \<le> i \<and> i < 2 ^ 63)"

definition mfile_valid :: "mfile \<Rightarrow> bool" where
  "mfile_valid f = (utf8_valid (mf_path f) \<and> utf8_valid (mf_sha256 f) \<and> int64 (mf_size f))"

definition manifest_valid :: "manifest \<Rightarrow> bool" where
  "manifest_valid m = (utf8_valid (mn_schema m) \<and> utf8_valid (mn_bundle_id m) \<and> utf8_valid (mn_created m) \<and>
     (\<forall>f\<in>set (mn_files m). mfile_valid f))"

text \<open>What \<open>sort.Slice\<close> promises of the order it computes.\<close>

definition sorts_files :: "(mfile list \<Rightarrow> mfile list) \<Rightarrow> bool" where
  "sorts_files srt = (\<forall>fs. mset (srt fs) = mset fs \<and> sorted (map mf_path (srt fs)))"

lemma sorts_files_set: "sorts_files srt \<Longrightarrow> set (srt fs) = set fs"
  by (metis sorts_files_def set_mset_mset)

lemma sorts_files_id:
  assumes "sorts_files srt" "sorted (map mf_path fs)" "distinct (map mf_path fs)"
  shows "srt fs = fs"
proof -
  have m: "mset (srt fs) = mset fs" and o: "sorted (map mf_path (srt fs))"
    using assms(1) by (simp_all add: sorts_files_def)
  have "mset (map mf_path (srt fs)) = mset (map mf_path fs)" by (simp add: m)
  then have "map mf_path (srt fs) = map mf_path fs"
    using o assms(2) by (metis properties_for_sort)
  then show ?thesis
    by (rule map_inj_on) (use assms(3) sorts_files_set [OF assms(1)] in \<open>simp add: distinct_map\<close>)
qed

section \<open>Reading back what was written\<close>

lemma canonical_eq: "canonical srt m = json_object False (manifest_fields (m\<lparr>mn_files := srt (mn_files m)\<rparr>))"
  by (simp add: canonical_def trim_newlines_def json_object_def)

lemma parse_int64_dec: "int64 i \<Longrightarrow> parse_int64 (int_dec i) = Some i"
proof (cases "i < 0")
  case True
  assume "int64 i"
  with True show ?thesis
    by (simp add: parse_int64_def int_dec_def int64_def nat_dec_digits Let_def)
next
  case False
  obtain c u where n: "nat_dec (nat i) = c # u" by (cases "nat_dec (nat i)") auto
  have "is_digit c" using nat_dec_digits [of "nat i"] n by simp
  then have "c \<noteq> CHR ''-''" using digit_not by blast
  then have "\<not> starts_with CHR ''-'' (nat_dec (nat i))" by (simp add: n)
  moreover assume "int64 i"
  ultimately show ?thesis
    using False by (simp add: parse_int64_def int_dec_def int64_def nat_dec_digits Let_def)
qed

lemma parse_int64_range: "parse_int64 s = Some i \<Longrightarrow> int64 i"
  by (auto simp: parse_int64_def int64_def Let_def split: if_splits)

definition mfile_members :: "mfile \<Rightarrow> (string \<times> json) list" where
  "mfile_members f =
     [(''path'', JStr (utf8_repair (mf_path f))), (''sha256'', JStr (utf8_repair (mf_sha256 f))),
      (''size'', JNum (int_dec (mf_size f)))]"

lemma reads_mfile: "reads_value 1 (mfile_json f) (JObj (mfile_members f))"
proof -
  have "reads_fields 0 (mfile_fields f) (mfile_members f)"
    by (simp add: reads_fields_def mfile_fields_def mfile_members_def reads_string reads_int
        ascii_repair code_def del: utf8_repair.simps)
  then show ?thesis
    unfolding mfile_json_def using reads_object [of 0] by (simp add: mfile_fields_def)
qed

definition files_value :: "mfile list \<Rightarrow> json" where
  "files_value fs = (if fs = [] then JNull else JArr (map (\<lambda>f. JObj (mfile_members f)) fs))"

lemma reads_files: "reads_value 2 (files_json fs) (files_value fs)"
proof (cases "fs = []")
  case True
  then show ?thesis using reads_value_mono [OF reads_null, of 2] by (simp add: files_json_def files_value_def)
next
  case False
  have "list_all2 (reads_value 1) (map mfile_json fs) (map (\<lambda>f. JObj (mfile_members f)) fs)"
    using reads_mfile by (simp add: list_all2_map1 list_all2_map2 list.rel_refl_strong)
  from reads_array [OF this] False show ?thesis
    by (simp add: files_json_def files_value_def numeral_2_eq_2)
qed

definition manifest_members :: "manifest \<Rightarrow> (string \<times> json) list" where
  "manifest_members m =
     [(''schema'', JStr (utf8_repair (mn_schema m))), (''bundle_id'', JStr (utf8_repair (mn_bundle_id m))),
      (''version'', JNum (nat_dec (unat (mn_version m)))), (''created'', JStr (utf8_repair (mn_created m))),
      (''files'', files_value (mn_files m))]"

lemma reads_manifest_fields: "reads_fields 2 (manifest_fields m) (manifest_members m)"
  by (simp add: reads_fields_def manifest_fields_def manifest_members_def reads_files
      reads_value_mono [OF reads_string, of 2] reads_value_mono [OF reads_nat, of 2]
      ascii_repair code_def del: utf8_repair.simps)

lemma mfile_field_names:
  "find_field mfile_setters ''path'' = Some (set_string (\<lambda>s f. f\<lparr>mf_path := s\<rparr>))"
  "find_field mfile_setters ''sha256'' = Some (set_string (\<lambda>s f. f\<lparr>mf_sha256 := s\<rparr>))"
  "find_field mfile_setters ''size'' = Some (set_int64 (\<lambda>n f. f\<lparr>mf_size := n\<rparr>))"
  by (simp_all add: find_field_def mfile_setters_def upper_byte_def code_def byte_def less_eq_char_def)

lemma manifest_field_names:
  "find_field manifest_setters ''schema'' = Some (set_string (\<lambda>s m. m\<lparr>mn_schema := s\<rparr>))"
  "find_field manifest_setters ''bundle_id'' = Some (set_string (\<lambda>s m. m\<lparr>mn_bundle_id := s\<rparr>))"
  "find_field manifest_setters ''version'' = Some (set_uint64 (\<lambda>n m. m\<lparr>mn_version := n\<rparr>))"
  "find_field manifest_setters ''created'' = Some (set_string (\<lambda>s m. m\<lparr>mn_created := s\<rparr>))"
  "find_field manifest_setters ''files'' = Some set_files"
  by (simp_all add: find_field_def manifest_setters_def upper_byte_def code_def byte_def less_eq_char_def)

lemma store_mfile: "mfile_valid f \<Longrightarrow> store_file (JObj (mfile_members f)) = Some f"
  by (simp add: store_file_def store_value_def mfile_members_def mfile_field_names set_string_def
      set_int64_def parse_int64_dec mfile_valid_def utf8_repair_valid zero_mfile_def ok_value_def)

lemma store_files_members: "\<forall>f\<in>set fs. mfile_valid f \<Longrightarrow> store_files (map (\<lambda>f. JObj (mfile_members f)) fs) = Some fs"
  by (induction fs) (simp_all add: store_mfile)

lemma set_files_value:
  "\<forall>f\<in>set fs. mfile_valid f \<Longrightarrow> set_files (files_value fs) m = Some (m\<lparr>mn_files := fs\<rparr>)"
  by (simp add: set_files_def files_value_def store_files_members)

lemma store_manifest:
  "manifest_valid m \<Longrightarrow> store_value True manifest_setters zero_manifest (JObj (manifest_members m)) = Inr m"
  by (simp add: store_value_def manifest_members_def manifest_field_names set_string_def set_uint64_def
      parse_uint64_dec manifest_valid_def utf8_repair_valid zero_manifest_def set_files_value)

lemma decode_object:
  assumes "manifest_valid m"
  shows "decode_manifest (json_object False (manifest_fields m) @ t) = Inr (m, t)"
proof -
  let ?w = "json_object False (manifest_fields m)"
  have "parse_value (2 * length (?w @ t) + 1) max_nesting (?w @ t) = Inr (JObj (manifest_members m), t)"
    by (rule parse_object [OF reads_manifest_fields])
      (simp_all add: manifest_fields_def max_nesting_def)
  moreover have "skip_ws (?w @ t) = ?w @ t" by (simp add: json_object_def)
  ultimately show ?thesis by (simp add: decode_manifest_def store_manifest [OF assms])
qed

text \<open>Everything that is read can be written.\<close>

lemma store_file_valid: "store_file v = Some f \<Longrightarrow> json_utf8 v \<Longrightarrow> mfile_valid f"
proof -
  assume "store_file v = Some f" and j: "json_utf8 v"
  then have s: "store_value True mfile_setters zero_mfile v = Inr f"
    by (auto simp: store_file_def ok_value_def split: sum.splits)
  show "mfile_valid f"
    by (rule store_value_keeps [OF s _ j])
      (auto simp: mfile_valid_def zero_mfile_def int64_def mfile_setters_def set_string_def set_int64_def
        split: json.splits dest!: parse_int64_range)
qed

lemma store_files_valid:
  "store_files vs = Some fs \<Longrightarrow> \<forall>v\<in>set vs. json_utf8 v \<Longrightarrow> \<forall>f\<in>set fs. mfile_valid f"
  by (induction vs arbitrary: fs) (auto split: option.splits dest: store_file_valid)

lemma set_files_valid:
  "set_files v m = Some m' \<Longrightarrow> json_utf8 v \<Longrightarrow> manifest_valid m \<Longrightarrow> manifest_valid m'"
  by (auto simp: set_files_def manifest_valid_def split: json.splits dest!: store_files_valid)

lemma manifest_setter_valid:
  assumes "(n, g) \<in> set manifest_setters" "json_utf8 v" "manifest_valid m" "g v m = Some m'"
  shows "manifest_valid m'"
proof -
  have upd: "manifest_valid (m\<lparr>mn_version := w\<rparr>)" "utf8_valid s \<Longrightarrow> manifest_valid (m\<lparr>mn_schema := s\<rparr>)"
      "utf8_valid s \<Longrightarrow> manifest_valid (m\<lparr>mn_bundle_id := s\<rparr>)" "utf8_valid s \<Longrightarrow> manifest_valid (m\<lparr>mn_created := s\<rparr>)" for w s
    using assms(3) by (simp_all add: manifest_valid_def)
  from assms(1) consider "g = set_files"
    | upd where "g = set_string upd" "\<And>s. utf8_valid s \<Longrightarrow> manifest_valid (upd s m)"
    | upd where "g = set_uint64 upd" "\<And>w. manifest_valid (upd w m)"
    unfolding manifest_setters_def using upd by auto
  then show ?thesis
    using assms(2-4)
    by cases (auto simp: set_string_def set_uint64_def split: json.splits dest: set_files_valid)
qed

lemma decode_manifest_valid:
  assumes "decode_manifest b = Inr (m, r)"
  shows "manifest_valid m"
proof -
  from assms obtain v where p: "parse_value (2 * length b + 1) max_nesting (skip_ws b) = Inr (v, r)"
      and s: "store_value True manifest_setters zero_manifest v = Inr m"
    by (auto simp: decode_manifest_def result_simps)
  have z: "manifest_valid zero_manifest" by (simp add: manifest_valid_def zero_manifest_def)
  show ?thesis
    by (rule store_value_keeps [where P = manifest_valid, OF s z parse_utf8(1) [OF p]]) (rule manifest_setter_valid)
qed

lemma sorted_valid: "sorts_files srt \<Longrightarrow> manifest_valid (m\<lparr>mn_files := srt (mn_files m)\<rparr>) = manifest_valid m"
  by (simp add: manifest_valid_def sorts_files_set)

lemma newlines_end: "\<exists>k. s = trim_newlines s @ replicate k newline"
proof -
  define a where "a = takeWhile (\<lambda>c. c = newline) (rev s)"
  have "\<forall>c\<in>set a. c = newline" by (auto simp: a_def dest: set_takeWhileD)
  then have "a = replicate (length a) newline" by (metis replicate_length_same)
  then have "rev a = replicate (length a) newline" by (metis rev_replicate)
  moreover have "rev (rev s) = trim_newlines s @ rev a"
    unfolding trim_newlines_def a_def rev_append [symmetric] takeWhile_dropWhile_id ..
  ultimately show ?thesis by (intro exI [of _ "length a"]) simp
qed

lemma no_more: "\<not> more_follows (replicate k newline)"
  by (induction k) (simp_all add: more_follows_def skip_ws_def json_ws_def)

lemma decode_spelling:
  assumes "sorts_files srt" "manifest_valid m" "trim_newlines b = canonical srt m"
  shows "\<exists>k. decode_manifest b = Inr (m\<lparr>mn_files := srt (mn_files m)\<rparr>, replicate k newline)"
proof -
  obtain k where "b = canonical srt m @ replicate k newline" using newlines_end [of b] assms(3) by auto
  with decode_object [of "m\<lparr>mn_files := srt (mn_files m)\<rparr>"] show ?thesis
    using assms(1,2) by (auto simp: canonical_eq sorted_valid)
qed

section \<open>Properties\<close>

lemma parse_iff:
  assumes "sorts_files srt"
  shows "manifest_parse srt b = Inr m \<longleftrightarrow>
    trim_newlines b = canonical srt m \<and> mn_schema m = manifest_schema \<and> manifest_valid m \<and>
    srt (mn_files m) = mn_files m"
proof
  assume p: "manifest_parse srt b = Inr m"
  then obtain r where d: "decode_manifest b = Inr (m, r)" and c: "canonical srt m = trim_newlines b"
      and s: "mn_schema m = manifest_schema"
    by (auto simp: manifest_parse_def split: sum.splits if_splits)
  have v: "manifest_valid m" by (rule decode_manifest_valid [OF d])
  have "m\<lparr>mn_files := srt (mn_files m)\<rparr> = m"
    using decode_spelling [OF assms v] c d by fastforce
  then have "srt (mn_files m) = mn_files m" by (metis manifest.select_convs(5) manifest.surjective manifest.update_convs(5))
  with c s v show "trim_newlines b = canonical srt m \<and> mn_schema m = manifest_schema \<and> manifest_valid m \<and>
    srt (mn_files m) = mn_files m" by simp
next
  assume a: "trim_newlines b = canonical srt m \<and> mn_schema m = manifest_schema \<and> manifest_valid m \<and>
    srt (mn_files m) = mn_files m"
  then obtain k where "decode_manifest b = Inr (m, replicate k newline)"
    using decode_spelling [OF assms, of m b] by auto
  then show "manifest_parse srt b = Inr m" using a no_more [of k] by (simp add: manifest_parse_def)
qed

text \<open>
  C21. \<open>Parse\<close> accepts a text exactly when it is the canonical form of a manifest of the
  one known schema, newlines at the end aside, and returns that manifest: its texts are
  valid UTF-8, its sizes fit 64 bits, and its files are in the order \<open>Canonical\<close> writes
  them in.
\<close>

theorem manifest_parse_iff_canonical:
  assumes "sorts_files srt"
  shows "manifest_parse srt b = Inr m \<longleftrightarrow>
    trim_newlines b = canonical srt m \<and> mn_schema m = manifest_schema \<and> manifest_valid m \<and>
    srt (mn_files m) = mn_files m"
  by (rule parse_iff [OF assms])

text \<open>
  The bytes that are signed determine the bundle: manifests with the same canonical
  form agree in every field, their files being the same up to order; and for a manifest
  of the known schema with distinct paths those bytes parse back to it.
\<close>

theorem canonical_round_trip:
  assumes "sorts_files srt" "manifest_valid m" "mn_schema m = manifest_schema"
    and "distinct (map mf_path (mn_files m))" "manifest_valid m'"
  shows "manifest_parse srt (canonical srt m) = Inr (m\<lparr>mn_files := srt (mn_files m)\<rparr>) \<and>
    (canonical srt m' = canonical srt m \<longrightarrow>
       m'\<lparr>mn_files := mn_files m\<rparr> = m \<and> mset (mn_files m') = mset (mn_files m))"
proof
  let ?s = "\<lambda>m. m\<lparr>mn_files := srt (mn_files m)\<rparr>"
  have dec: "decode_manifest (canonical srt x) = Inr (?s x, [])" if "manifest_valid x" for x
    using decode_object [of "?s x" "[]"] that by (simp add: canonical_eq sorted_valid assms(1))
  have ms: "mset (srt fs) = mset fs" "sorted (map mf_path (srt fs))" for fs
    using assms(1) by (simp_all add: sorts_files_def)
  have "distinct (map mf_path (srt (mn_files m)))"
    using assms(4) ms(1) [of "mn_files m"] by (metis distinct_map mset_eq_imp_distinct_iff sorts_files_set [OF assms(1)])
  then have i: "srt (srt (mn_files m)) = srt (mn_files m)"
    by (intro sorts_files_id [OF assms(1) ms(2)])
  have "trim_newlines (canonical srt m) = canonical srt m"
    by (simp add: canonical_eq trim_newlines_def json_object_def)
  then show "manifest_parse srt (canonical srt m) = Inr (?s m)"
    using dec [OF assms(2)] i assms(3)
    by (simp add: manifest_parse_def more_follows_def skip_ws_def canonical_eq)
  show "canonical srt m' = canonical srt m \<longrightarrow>
       m'\<lparr>mn_files := mn_files m\<rparr> = m \<and> mset (mn_files m') = mset (mn_files m)"
  proof
    assume "canonical srt m' = canonical srt m"
    then have e: "?s m' = ?s m" using dec [OF assms(2)] dec [OF assms(5)] by simp
    then have "srt (mn_files m') = srt (mn_files m)" by (metis manifest.select_convs(5) manifest.surjective manifest.update_convs(5))
    then have "mset (mn_files m') = mset (mn_files m)" using ms(1) by metis
    moreover have "(?s m')\<lparr>mn_files := mn_files m\<rparr> = (?s m)\<lparr>mn_files := mn_files m\<rparr>" using e by simp
    ultimately show "m'\<lparr>mn_files := mn_files m\<rparr> = m \<and> mset (mn_files m') = mset (mn_files m)" by simp
  qed
qed

section \<open>An example\<close>

definition sample_manifest :: manifest where
  "sample_manifest = \<lparr>mn_schema = manifest_schema, mn_bundle_id = ''b1'', mn_version = 7, mn_created = ''now'',
     mn_files = [\<lparr>mf_path = ''bin/tool'', mf_sha256 = ''00ff'', mf_size = 12\<rparr>]\<rparr>"

lemma sort_key_sorts: "sorts_files (sort_key mf_path)"
  by (simp add: sorts_files_def)

lemma sample_manifest_ok:
  "manifest_valid sample_manifest" "mn_schema sample_manifest = manifest_schema"
  "sort_key mf_path (mn_files sample_manifest) = mn_files sample_manifest"
  "distinct (map mf_path (mn_files sample_manifest))"
proof -
  have a: "utf8_valid s" if "list_all (\<lambda>c. code c < 0x80) s" for s using ascii_valid [OF that] .
  show "manifest_valid sample_manifest"
    unfolding manifest_valid_def sample_manifest_def manifest_schema_def
    by (simp add: mfile_valid_def int64_def a code_def del: utf8_valid.simps)
qed (simp_all add: sample_manifest_def)

theorem manifest_parse_iff_canonical_witness:
  "manifest_parse (sort_key mf_path) (canonical (sort_key mf_path) sample_manifest @ [newline, newline]) =
     Inr sample_manifest"
proof -
  have "trim_newlines (canonical (sort_key mf_path) sample_manifest @ [newline, newline]) =
      canonical (sort_key mf_path) sample_manifest"
    by (simp add: canonical_eq trim_newlines_def json_object_def)
  then show ?thesis
    using manifest_parse_iff_canonical [OF sort_key_sorts, of "canonical (sort_key mf_path) sample_manifest @ [newline, newline]"]
    by (simp add: sample_manifest_ok)
qed

theorem canonical_round_trip_witness:
  "manifest_parse (sort_key mf_path) (canonical (sort_key mf_path) sample_manifest) = Inr sample_manifest"
  using canonical_round_trip [OF sort_key_sorts sample_manifest_ok(1,2,4,1)]
  by (simp add: sample_manifest_ok(3))

end
