(* ===== verification/Go_Base64.thy ===== *)
theory Go_Base64
  imports Go_Text
begin

text \<open>
  \<open>encoding/base64\<close>, the standard alphabet with padding: writing, reading (which skips line
  breaks and ignores the unused low bits of the last character) and the round trip.
\<close>

definition b64_char :: "nat \<Rightarrow> char" where
  "b64_char n =
     (if n < 26 then byte (65 + n) else if n < 52 then byte (71 + n)
      else if n < 62 then byte (n - 4) else if n = 62 then CHR ''+'' else CHR ''/'')"

definition b64_val :: "char \<Rightarrow> nat option" where
  "b64_val c =
     (if in_bytes 65 90 c then Some (code c - 65)
      else if in_bytes 97 122 c then Some (code c - 71)
      else if in_bytes 48 57 c then Some (code c + 4)
      else if c = CHR ''+'' then Some 62
      else if c = CHR ''/'' then Some 63
      else None)"

fun b64_encode :: "string \<Rightarrow> string" where
  "b64_encode [] = []"
| "b64_encode [x] = [b64_char (code x div 4), b64_char (code x mod 4 * 16), CHR ''='', CHR ''='']"
| "b64_encode [x, y] =
     [b64_char (code x div 4), b64_char (code x mod 4 * 16 + code y div 16), b64_char (code y mod 16 * 4), CHR ''='']"
| "b64_encode (x # y # z # s) =
     b64_char (code x div 4) # b64_char (code x mod 4 * 16 + code y div 16) #
     b64_char (code y mod 16 * 4 + code z div 64) # b64_char (code z mod 64) # b64_encode s"

definition b64_three :: "nat \<Rightarrow> nat \<Rightarrow> nat \<Rightarrow> nat \<Rightarrow> string" where
  "b64_three a b c d = [byte (a * 4 + b div 16), byte (b mod 16 * 16 + c div 4), byte (c mod 4 * 64 + d)]"

text \<open>Four characters at a time; padding only at the end.\<close>

fun b64_quads :: "string \<Rightarrow> string option" where
  "b64_quads [] = Some []"
| "b64_quads (a # b # c # d # s) =
     (case (b64_val a, b64_val b) of
        (Some v, Some w) \<Rightarrow>
          if c = CHR ''='' then (if d = CHR ''='' \<and> s = [] then Some (take 1 (b64_three v w 0 0)) else None)
          else
            (case b64_val c of
               None \<Rightarrow> None
             | Some x \<Rightarrow>
                 if d = CHR ''='' then (if s = [] then Some (take 2 (b64_three v w x 0)) else None)
                 else
                   (case (b64_val d, b64_quads s) of
                      (Some y, Some t) \<Rightarrow> Some (b64_three v w x y @ t)
                    | _ \<Rightarrow> None))
      | _ \<Rightarrow> None)"
| "b64_quads _ = None"

definition b64_decode :: "string \<Rightarrow> string option" where
  "b64_decode s = b64_quads (filter (\<lambda>c. c \<noteq> CHR 0x0A \<and> c \<noteq> CHR 0x0D) s)"

lemma b64_char_code:
  "n < 64 \<Longrightarrow> code (b64_char n) =
     (if n < 26 then 65 + n else if n < 52 then 71 + n else if n < 62 then n - 4 else if n = 62 then 43 else 47)"
  by (auto simp: b64_char_def code_byte) (auto simp: code_def)

lemma b64_char_not: "n < 64 \<Longrightarrow> b64_char n \<noteq> CHR ''='' \<and> b64_char n \<noteq> CHR 0x0A \<and> b64_char n \<noteq> CHR 0x0D"
proof -
  assume n: "n < 64"
  have "code (b64_char n) \<notin> {61, 10, 13}" using b64_char_code [OF n] by auto
  then show ?thesis by (auto simp: code_def)
qed

lemma b64_val_char: "n < 64 \<Longrightarrow> b64_val (b64_char n) = Some n"
proof -
  assume n: "n < 64"
  note c = b64_char_code [OF n]
  consider "n < 26" | "26 \<le> n" "n < 52" | "52 \<le> n" "n < 62" | "n = 62" | "n = 63" using n by linarith
  then show ?thesis
  proof cases
    case 4
    then show ?thesis by (simp add: b64_char_def b64_val_def in_bytes_def code_def)
  next
    case 5
    then show ?thesis by (simp add: b64_char_def b64_val_def in_bytes_def code_def)
  qed (use c in \<open>auto simp: b64_val_def in_bytes_def\<close>)
qed

lemma b64_parts:
  "code x div 4 < 64" "code x mod 4 * 16 < 64" "code x mod 4 * 16 + code y div 16 < 64"
  "code y mod 16 * 4 < 64" "code y mod 16 * 4 + code z div 64 < 64" "code z mod 64 < 64"
proof -
  have "code x < 4 * 64" "code y < 16 * 16" "code z < 64 * 4" using code_less [of x] code_less [of y] code_less [of z] by simp_all
  then have "code x div 4 < 64" "code y div 16 < 16" "code z div 64 < 4"
    by (simp_all only: less_mult_imp_div_less mult.commute)
  moreover have "code x mod 4 < 4" "code y mod 16 < 16" by simp_all
  ultimately show "code x div 4 < 64" "code x mod 4 * 16 < 64" "code x mod 4 * 16 + code y div 16 < 64"
    "code y mod 16 * 4 < 64" "code y mod 16 * 4 + code z div 64 < 64" "code z mod 64 < 64"
    by linarith+
qed

lemma b64_three_parts:
  "b64_three (code x div 4) (code x mod 4 * 16 + code y div 16) (code y mod 16 * 4 + code z div 64) (code z mod 64) = [x, y, z]"
proof -
  have "code y div 16 < 16" "code z div 64 < 4"
    using code_less [of y] code_less [of z] by (simp_all add: less_mult_imp_div_less)
  then have "(code x mod 4 * 16 + code y div 16) div 16 = code x mod 4"
    "(code x mod 4 * 16 + code y div 16) mod 16 = code y div 16"
    "(code y mod 16 * 4 + code z div 64) div 4 = code y mod 16"
    "(code y mod 16 * 4 + code z div 64) mod 4 = code z div 64"
    by simp_all
  then show ?thesis by (simp add: b64_three_def mult.commute)
qed

lemma b64_quads_encode: "b64_quads (b64_encode s) = Some s"
proof (induction s rule: b64_encode.induct)
  case (2 x)
  have "code (byte 0) = 0" by (simp add: code_byte)
  then show ?case
    using b64_three_parts [of x "byte 0" "byte 0"] b64_parts(1,2)
    by (simp add: b64_val_char b64_three_def)
next
  case (3 x y)
  have "code (byte 0) = 0" by (simp add: code_byte)
  then show ?case
    using b64_three_parts [of x y "byte 0"] b64_parts(1,3,4)
    by (simp add: b64_val_char b64_char_not b64_three_def)
next
  case (4 x y z s)
  then show ?case
    using b64_parts(1,3,5,6) by (simp add: b64_val_char b64_char_not b64_three_parts)
qed simp

lemma b64_char_solid: "n < 64 \<Longrightarrow> solid_byte (b64_char n)"
proof -
  assume n: "n < 64"
  have "0x21 \<le> code (b64_char n)" "code (b64_char n) \<le> 0x7E"
    using n unfolding b64_char_code [OF n] by auto
  then show ?thesis by (simp add: solid_byte_nat code_def)
qed

lemma b64_encode_solid: "list_all solid_byte (b64_encode s)"
proof -
  have "solid_byte CHR ''=''" by (simp add: solid_byte_nat)
  then show ?thesis
    by (induction s rule: b64_encode.induct) (simp_all add: b64_char_solid b64_parts)
qed

lemma b64_encode_chars: "c \<in> set (b64_encode s) \<Longrightarrow> c \<noteq> CHR 0x0A \<and> c \<noteq> CHR 0x0D"
  using b64_encode_solid [of s] by (auto simp: list_all_iff solid_byte_nat)

lemma b64_decode_encode [simp]: "b64_decode (b64_encode s) = Some s"
proof -
  have "filter (\<lambda>c. c \<noteq> CHR 0x0A \<and> c \<noteq> CHR 0x0D) (b64_encode s) = b64_encode s"
    using b64_encode_chars [of _ s] by (auto simp: filter_id_conv)
  then show ?thesis by (simp add: b64_decode_def b64_quads_encode)
qed

end
