(* ===== verification/Two_Person.thy ===== *)
theory Two_Person
  imports Arazu_Base
begin

text \<open>
  The interface behind two-person control.  Three packages check a list of approvals of one
  manifest, each with its own notion of an approval and of the person behind it
  (pkg/manifest/sign.go, pkg/signer/trust.go, pkg/fido/signers.go).  What each promises is
  stated here once: \<open>returns items n rs\<close> says that checking \<open>items\<close> with the threshold
  \<open>n\<close> may return \<open>rs\<close>, \<open>accepts i r\<close> that the single approval \<open>i\<close> is good and
  gives \<open>r\<close>, and \<open>person r\<close> is whom \<open>r\<close> counts for.
\<close>

locale two_person_control =
  fixes returns :: "'i list \<Rightarrow> int \<Rightarrow> 'r list \<Rightarrow> bool"
    and accepts :: "'i \<Rightarrow> 'r \<Rightarrow> bool"
    and person :: "'r \<Rightarrow> 'p"
  assumes each_accepted: "returns items n rs \<Longrightarrow> list_all2 accepts items rs"
    and all_distinct: "returns items n rs \<Longrightarrow> distinct (map person rs)"
    and enough: "returns items n rs \<Longrightarrow> n \<le> int (length rs)"
begin

text \<open>The people who approved: for each of them some approval is good.\<close>

definition approvers :: "'i list \<Rightarrow> 'p set" where
  "approvers items = {p. \<exists>i\<in>set items. \<exists>r. accepts i r \<and> person r = p}"

lemma returned_person:
  assumes "returns items n rs" "r \<in> set rs"
  shows "person r \<in> approvers items"
proof -
  from assms(2) obtain k where k: "k < length rs" "rs ! k = r" by (auto simp: in_set_conv_nth)
  have "list_all2 accepts items rs" by (rule each_accepted [OF assms(1)])
  then have "accepts (items ! k) r" "k < length items"
    using k by (auto simp: list_all2_conv_all_nth)
  then show ?thesis unfolding approvers_def by (blast intro: nth_mem)
qed

text \<open>As many people as the threshold asks for stand behind what is returned.\<close>

lemma threshold_of_people:
  assumes "returns items n rs"
  shows "person ` set rs \<subseteq> approvers items" "n \<le> int (card (person ` set rs))"
proof -
  show "person ` set rs \<subseteq> approvers items" using returned_person [OF assms] by blast
  have "card (set (map person rs)) = length (map person rs)"
    by (rule distinct_card [OF all_distinct [OF assms]])
  then show "n \<le> int (card (person ` set rs))" using enough [OF assms] by simp
qed

text \<open>Nobody passes for two, however many approvals they make.\<close>

lemma nobody_alone:
  assumes "\<And>i r. i \<in> set items \<Longrightarrow> accepts i r \<Longrightarrow> person r = p" "2 \<le> n"
  shows "\<not> returns items n rs"
proof
  assume ret: "returns items n rs"
  have "approvers items \<subseteq> {p}" using assms(1) by (auto simp: approvers_def)
  then have "person ` set rs \<subseteq> {p}" using threshold_of_people(1) [OF ret] by blast
  then have "card (person ` set rs) \<le> card {p}" by (intro card_mono) simp_all
  then show False using threshold_of_people(2) [OF ret] assms(2) by simp
qed

end

text \<open>
  Where checking one approval is a function, the whole check is determined: it returns
  exactly when every approval is good, no person appears twice and there are enough.
\<close>

locale exact_two_person_control = two_person_control returns accepts person
  for returns :: "'i list \<Rightarrow> int \<Rightarrow> 'r list \<Rightarrow> bool" and accepts :: "'i \<Rightarrow> 'r \<Rightarrow> bool" and person :: "'r \<Rightarrow> 'p" +
  assumes nothing_else: "list_all2 accepts items rs \<Longrightarrow> distinct (map person rs) \<Longrightarrow> n \<le> int (length rs) \<Longrightarrow>
    returns items n rs"
begin

lemma returns_iff:
  "returns items n rs \<longleftrightarrow> list_all2 accepts items rs \<and> distinct (map person rs) \<and> n \<le> int (length rs)"
  using each_accepted all_distinct enough nothing_else by blast

lemma lower_threshold: "returns items n rs \<Longrightarrow> m \<le> n \<Longrightarrow> returns items m rs"
  by (auto simp: returns_iff)

end

end
