(* ===== verification/Manifest_Sign.thy ===== *)
theory Manifest_Sign
  imports Manifest Go_Base64 Two_Person "HOL-Library.AList"
begin

text \<open>
  Signatures over a manifest with Ed25519 keys (pkg/manifest/sign.go): key identities,
  signing, the trusted-keys file and the check of a signature file.

  SHA-256 and Ed25519 are the parameters \<open>sha\<close>, \<open>ed_verify key message signature\<close>,
  \<open>ed_sign\<close> and \<open>ed_public\<close>; what they promise is the predicate \<open>ed25519_scheme\<close>.
\<close>

section \<open>Keys\<close>

definition key_id_for :: "(string \<Rightarrow> string) \<Rightarrow> string \<Rightarrow> string" where
  "key_id_for sha pub = hex_encode (take 8 (sha pub))"

definition ed_key_size :: nat where "ed_key_size = 32"

definition sign_alg :: string where "sign_alg = ''ed25519''"

definition sign_line :: "(string \<Rightarrow> string) \<Rightarrow> ('s \<Rightarrow> string) \<Rightarrow> ('s \<Rightarrow> string \<Rightarrow> string) \<Rightarrow> 's \<Rightarrow> string \<Rightarrow> string" where
  "sign_line sha ed_public ed_sign sec msg =
     sign_alg @ '' '' @ key_id_for sha (ed_public sec) @ '' '' @ b64_encode (ed_sign sec msg)"

text \<open>The map of trusted keys, as pairs of an identity and a key.\<close>

type_synonym key_map = "(string \<times> string) list"

datatype sign_error =
    KeysUnreadable string
  | KeyLineShape nat
  | KeyLineEncoding nat
  | KeyLineSize nat nat
  | KeyIdMismatch nat string string
  | NoTrustedKeys
  | TokenTooLong
  | BadSignatureLine nat
  | UntrustedSigner string
  | BadSignatureEncoding nat
  | BadSignature string
  | DuplicateSigner string
  | InsufficientSignatures nat int

text \<open>One line of the trusted-keys file: nothing for a blank line or a comment.\<close>

definition load_key_line :: "(string \<Rightarrow> string) \<Rightarrow> nat \<Rightarrow> string \<Rightarrow> (sign_error, (string \<times> string) option) result" where
  "load_key_line sha n text =
     (let line = trim_space text
      in if line = [] \<or> has_prefix line ''#'' then Inr None
         else case Arazu_Base.fields line of
                [kid, key] \<Rightarrow>
                  (case b64_decode key of
                     None \<Rightarrow> Inl (KeyLineEncoding n)
                   | Some raw \<Rightarrow>
                       if length raw \<noteq> ed_key_size then Inl (KeyLineSize n (length raw))
                       else if key_id_for sha raw \<noteq> kid then Inl (KeyIdMismatch n kid (key_id_for sha raw))
                       else Inr (Some (key_id_for sha raw, raw)))
              | _ \<Rightarrow> Inl (KeyLineShape n))"

fun load_key_lines :: "(string \<Rightarrow> string) \<Rightarrow> nat \<Rightarrow> string list \<Rightarrow> key_map \<Rightarrow> (sign_error, key_map) result" where
  "load_key_lines sha n [] keys = Inr keys"
| "load_key_lines sha n (l # ls) keys =
     try_bind (load_key_line sha n l) (\<lambda>k.
       load_key_lines sha (n + 1) ls (case k of None \<Rightarrow> keys | Some (kid, pub) \<Rightarrow> AList.update kid pub keys))"

text \<open>The file is the text of the file or the error of opening it.\<close>

definition load_public_keys :: "(string \<Rightarrow> string) \<Rightarrow> (string, string) result \<Rightarrow> (sign_error, key_map) result" where
  "load_public_keys sha file =
     (case file of
        Inl e \<Rightarrow> Inl (KeysUnreadable e)
      | Inr text \<Rightarrow>
          (let (ls, too_long) = scan_lines default_scan_limit text
           in try_bind (load_key_lines sha 1 ls []) (\<lambda>keys.
                if too_long then Inl TokenTooLong
                else if keys = [] then Inl NoTrustedKeys
                else Inr keys)))"

section \<open>The check of a signature file\<close>

text \<open>One line, up to the test for a repeated signer.\<close>

definition check_line :: "(string \<Rightarrow> string \<Rightarrow> string \<Rightarrow> bool) \<Rightarrow> string \<Rightarrow> key_map \<Rightarrow> nat \<Rightarrow> string \<Rightarrow>
    (sign_error, string) result" where
  "check_line ed_verify msg trusted n line =
     (case Arazu_Base.fields line of
        [alg, kid, sig64] \<Rightarrow>
          if alg \<noteq> sign_alg then Inl (BadSignatureLine n)
          else
            (case map_of trusted kid of
               None \<Rightarrow> Inl (UntrustedSigner kid)
             | Some pub \<Rightarrow>
                 (case b64_decode sig64 of
                    None \<Rightarrow> Inl (BadSignatureEncoding n)
                  | Some sig \<Rightarrow> if ed_verify pub msg sig then Inr kid else Inl (BadSignature kid)))
      | _ \<Rightarrow> Inl (BadSignatureLine n))"

fun check_lines :: "(string \<Rightarrow> string \<Rightarrow> string \<Rightarrow> bool) \<Rightarrow> string \<Rightarrow> key_map \<Rightarrow> nat \<Rightarrow> string list \<Rightarrow> string list \<Rightarrow>
    (sign_error, string list) result" where
  "check_lines ed_verify msg trusted n [] order = Inr order"
| "check_lines ed_verify msg trusted n (l # ls) order =
     (if trim_space l = [] then check_lines ed_verify msg trusted (n + 1) ls order
      else try_bind (check_line ed_verify msg trusted n (trim_space l)) (\<lambda>kid.
        if kid \<in> set order then Inl (DuplicateSigner kid)
        else check_lines ed_verify msg trusted (n + 1) ls (order @ [kid])))"

definition verify_signatures :: "(string \<Rightarrow> string \<Rightarrow> string \<Rightarrow> bool) \<Rightarrow> string \<Rightarrow> string \<Rightarrow> key_map \<Rightarrow> int \<Rightarrow>
    (sign_error, string list) result" where
  "verify_signatures ed_verify msg sig_file trusted min_distinct =
     (let (ls, too_long) = scan_lines default_scan_limit sig_file
      in try_bind (check_lines ed_verify msg trusted 1 ls []) (\<lambda>order.
           if too_long then Inl TokenTooLong
           else if int (length order) < min_distinct then
             Inl (InsufficientSignatures (length order) min_distinct)
           else Inr order))"

section \<open>What the check establishes\<close>

definition signature_lines :: "string \<Rightarrow> string list" where
  "signature_lines f = filter (\<lambda>l. l \<noteq> []) (map trim_space (fst (scan_lines default_scan_limit f)))"

text \<open>A line that carries a good signature of the message by the trusted key \<open>kid\<close>.\<close>

definition signed_by :: "(string \<Rightarrow> string \<Rightarrow> string \<Rightarrow> bool) \<Rightarrow> string \<Rightarrow> key_map \<Rightarrow> string \<Rightarrow> string \<Rightarrow> bool" where
  "signed_by ed_verify msg trusted line kid =
     (\<exists>sig64 pub sig. Arazu_Base.fields line = [sign_alg, kid, sig64] \<and> map_of trusted kid = Some pub \<and>
        b64_decode sig64 = Some sig \<and> ed_verify pub msg sig)"

lemma check_line_Inr:
  "check_line ed_verify msg trusted n line = Inr kid \<longleftrightarrow> signed_by ed_verify msg trusted line kid"
  by (auto simp: check_line_def signed_by_def split: list.splits option.splits)

lemma check_lines_Inr:
  "check_lines ed_verify msg trusted n ls order = Inr out \<longleftrightarrow>
     (\<exists>rs. out = order @ rs \<and>
        list_all2 (signed_by ed_verify msg trusted) (filter (\<lambda>l. l \<noteq> []) (map trim_space ls)) rs \<and>
        distinct rs \<and> set rs \<inter> set order = {})"
proof (induction ls arbitrary: n order)
  case (Cons l ls)
  show ?case
  proof (cases "trim_space l = []")
    case False
    have "check_lines ed_verify msg trusted n (l # ls) order = Inr out \<longleftrightarrow>
        (\<exists>kid. signed_by ed_verify msg trusted (trim_space l) kid \<and> kid \<notin> set order \<and>
          check_lines ed_verify msg trusted (n + 1) ls (order @ [kid]) = Inr out)"
      using False by (auto simp: result_simps check_line_Inr)
    then show ?thesis
      unfolding Cons.IH using False by (fastforce simp: list_all2_Cons1)
  qed (use Cons.IH in simp)
qed auto

lemma verify_signatures_Inr:
  "verify_signatures ed_verify msg f trusted n = Inr rs \<longleftrightarrow>
     \<not> snd (scan_lines default_scan_limit f) \<and>
     list_all2 (signed_by ed_verify msg trusted) (signature_lines f) rs \<and> distinct rs \<and> n \<le> int (length rs)"
proof -
  obtain ls b where s: "scan_lines default_scan_limit f = (ls, b)" by (cases "scan_lines default_scan_limit f")
  have "verify_signatures ed_verify msg f trusted n = Inr rs \<longleftrightarrow>
      check_lines ed_verify msg trusted 1 ls [] = Inr rs \<and> \<not> b \<and> \<not> int (length rs) < n"
    by (cases "check_lines ed_verify msg trusted 1 ls []") (auto simp: verify_signatures_def s)
  then show ?thesis by (auto simp: check_lines_Inr signature_lines_def s)
qed

interpretation key_signatures: two_person_control
  "\<lambda>items n rs. \<exists>f. signature_lines f = items \<and> verify_signatures ed_verify msg f trusted n = Inr rs"
  "signed_by ed_verify msg trusted" "\<lambda>kid. kid"
  for ed_verify msg trusted
  by unfold_locales (auto simp: verify_signatures_Inr)

text \<open>The trusted-keys file binds each identity to a key of its own.\<close>

definition keys_wf :: "(string \<Rightarrow> string) \<Rightarrow> key_map \<Rightarrow> bool" where
  "keys_wf sha keys = (\<forall>kid pub. map_of keys kid = Some pub \<longrightarrow> key_id_for sha pub = kid \<and> length pub = ed_key_size)"

lemma load_key_line_wf:
  "load_key_line sha n l = Inr (Some (kid, pub)) \<Longrightarrow> key_id_for sha pub = kid \<and> length pub = ed_key_size"
  by (auto simp: load_key_line_def Let_def split: list.splits option.splits if_splits)

lemma load_key_lines_wf:
  "load_key_lines sha n ls keys = Inr keys' \<Longrightarrow> keys_wf sha keys \<Longrightarrow> keys_wf sha keys'"
proof (induction ls arbitrary: n keys)
  case (Cons l ls)
  from Cons.prems(1) obtain k where k: "load_key_line sha n l = Inr k"
      and r: "load_key_lines sha (n + 1) ls (case k of None \<Rightarrow> keys | Some (kid, pub) \<Rightarrow> AList.update kid pub keys) = Inr keys'"
    by (auto simp: result_simps)
  show ?case
  proof (rule Cons.IH [OF r], cases k)
    case (Some p)
    obtain kid pub where p: "p = (kid, pub)" by (cases p)
    show "keys_wf sha (case k of None \<Rightarrow> keys | Some (kid, pub) \<Rightarrow> AList.update kid pub keys)"
      using Cons.prems(2) load_key_line_wf [OF k [unfolded Some p]]
      by (auto simp: Some p keys_wf_def update_conv')
  qed (use Cons.prems(2) in simp)
qed simp

lemma load_public_keys_wf: "load_public_keys sha file = Inr keys \<Longrightarrow> keys_wf sha keys"
proof -
  assume a: "load_public_keys sha file = Inr keys"
  then obtain ls where "load_key_lines sha 1 ls [] = Inr keys"
    by (auto simp: load_public_keys_def result_simps split: sum.splits prod.splits if_splits)
  from load_key_lines_wf [OF this] show ?thesis by (simp add: keys_wf_def)
qed

text \<open>
  What \<open>VerifySignatures\<close> accepts is signed by as many different keys as the
  threshold asks for: with the keys \<open>LoadPublicKeys\<close> read, there is a set of at least
  that many distinct 32-byte public keys of the file, each of which has a signature over
  exactly the bytes checked on some line of the signature file, and no line is left over.
\<close>

theorem accepted_manifest_has_distinct_keys:
  assumes "load_public_keys sha file = Inr trusted"
    and "verify_signatures ed_verify msg sig_file trusted n = Inr signers"
  shows "n \<le> int (card {pub. length pub = ed_key_size \<and> map_of trusted (key_id_for sha pub) = Some pub \<and>
      (\<exists>line\<in>set (signature_lines sig_file). signed_by ed_verify msg trusted line (key_id_for sha pub) \<and>
        (\<exists>sig. ed_verify pub msg sig))}) \<and>
    length (signature_lines sig_file) = length signers"
  (is "n \<le> int (card ?keys) \<and> _")
proof -
  have wf: "keys_wf sha trusted" by (rule load_public_keys_wf [OF assms(1)])
  note ret = exI [of "\<lambda>f. signature_lines f = signature_lines sig_file \<and> verify_signatures ed_verify msg f trusted n = Inr signers",
      OF conjI [OF refl assms(2)]]
  have len: "length (signature_lines sig_file) = length signers"
    using key_signatures.each_accepted [OF ret] by (rule list_all2_lengthD)
  have fin: "finite ?keys"
  proof (rule finite_subset)
    show "?keys \<subseteq> snd ` set trusted" by (force dest: map_of_SomeD)
  qed simp
  have "(\<lambda>kid. kid) ` set signers \<subseteq> key_id_for sha ` ?keys"
  proof
    fix kid assume "kid \<in> (\<lambda>kid. kid) ` set signers"
    then have "kid \<in> key_signatures.approvers ed_verify msg trusted (signature_lines sig_file)"
      using key_signatures.threshold_of_people(1) [OF ret] by blast
    then obtain line where l: "line \<in> set (signature_lines sig_file)" "signed_by ed_verify msg trusted line kid"
      by (auto simp: key_signatures.approvers_def)
    then obtain pub sig where p: "map_of trusted kid = Some pub" "ed_verify pub msg sig"
      by (auto simp: signed_by_def)
    with wf have "key_id_for sha pub = kid" "length pub = ed_key_size" by (auto simp: keys_wf_def)
    with l p show "kid \<in> key_id_for sha ` ?keys" by blast
  qed
  then have "card ((\<lambda>kid. kid) ` set signers) \<le> card (key_id_for sha ` ?keys)"
    by (intro card_mono finite_imageI fin)
  also have "\<dots> \<le> card ?keys" by (rule card_image_le [OF fin])
  finally show ?thesis using key_signatures.threshold_of_people(2) [OF ret] len by simp
qed

section \<open>Signing and checking\<close>

text \<open>What Ed25519 and SHA-256 promise: a signature verifies with the key of its signer, and the sizes.\<close>

definition ed25519_scheme :: "('s \<Rightarrow> string) \<Rightarrow> ('s \<Rightarrow> string \<Rightarrow> string) \<Rightarrow> (string \<Rightarrow> string \<Rightarrow> string \<Rightarrow> bool) \<Rightarrow> bool" where
  "ed25519_scheme ed_public ed_sign ed_verify =
     (\<forall>sec msg. ed_verify (ed_public sec) msg (ed_sign sec msg) \<and> length (ed_sign sec msg) = 64)"

definition sha256_size :: "(string \<Rightarrow> string) \<Rightarrow> bool" where
  "sha256_size sha = (\<forall>x. length (sha x) = 32)"

lemma key_id_solid:
  assumes "sha256_size sha"
  shows "key_id_for sha pub \<noteq> [] \<and> list_all solid_byte (key_id_for sha pub) \<and> length (key_id_for sha pub) = 16"
proof -
  have "length (key_id_for sha pub) = 16" using assms by (simp add: key_id_for_def sha256_size_def)
  moreover from this have "key_id_for sha pub \<noteq> []" by auto
  ultimately show ?thesis by (simp add: key_id_for_def hex_encode_solid)
qed

lemma b64_length: "length (b64_encode s) = 4 * ((length s + 2) div 3)"
proof (induction s rule: b64_encode.induct)
  case (4 x y z s)
  have "(length s + 2 + 3) div 3 = (length s + 2) div 3 + 1" by (rule div_add_self2) simp
  with 4 show ?case by (simp add: add.commute)
qed simp_all

lemma sign_line_shape:
  assumes "sha256_size sha" "ed25519_scheme ed_public ed_sign ed_verify"
    and l_def: "l = sign_line sha ed_public ed_sign sec msg"
  shows "Arazu_Base.fields l = [sign_alg, key_id_for sha (ed_public sec), b64_encode (ed_sign sec msg)]"
    and "trim_space l = l" "l \<noteq> []" "newline \<notin> set l" "length l = 113" "drop_cr l = l"
proof -
  let ?k = "key_id_for sha (ed_public sec)" and ?s = "b64_encode (ed_sign sec msg)"
  have ls: "length ?s = 88" using assms(2) by (simp add: b64_length ed25519_scheme_def)
  then have sn: "?s \<noteq> []" by auto
  have a: "list_all solid_byte sign_alg" "sign_alg \<noteq> []" by (simp_all add: sign_alg_def solid_byte_nat)
  note k = key_id_solid [OF assms(1), of "ed_public sec"]
  have j: "l = join_with [CHR 0x20] [sign_alg, ?k, ?s]" by (simp add: l_def sign_line_def)
  show "Arazu_Base.fields l = [sign_alg, ?k, ?s]"
    unfolding j by (rule fields_join_solid) (use a k sn b64_encode_solid in auto)
  show len: "length l = 113" using ls k by (simp add: l_def sign_line_def sign_alg_def)
  then show n: "l \<noteq> []" by auto
  have s: "solid_byte (hd l)" "solid_byte (last l)"
    using sn b64_encode_solid [of "ed_sign sec msg"]
    by (simp_all add: l_def sign_line_def sign_alg_def solid_byte_nat list_all_iff)
  then show "trim_space l = l" by (simp add: trim_space_solid)
  have "\<forall>c\<in>set l. solid_byte c \<or> c = CHR 0x20"
    using a k b64_encode_solid [of "ed_sign sec msg"] by (auto simp: l_def sign_line_def list_all_iff)
  then show "newline \<notin> set l" using solid_not_space(15) by fastforce
  have "last l \<noteq> CHR 0x0D" using s(2) by (auto simp: solid_byte_nat)
  then show "drop_cr l = l" by (simp add: drop_cr_def)
qed

lemma raw_lines_concat:
  "\<forall>l\<in>set ls. newline \<notin> set l \<Longrightarrow> raw_lines (concat (map (\<lambda>l. l @ [newline]) ls)) = ls"
proof (induction ls)
  case (Cons l ls)
  have "split_char newline (l @ newline # s) = l # split_char newline s" for s
    using Cons.prems by (intro split_char_append) simp
  then show ?case using Cons by (auto simp: raw_lines_def Let_def)
qed simp

definition signature_file :: "(string \<Rightarrow> string) \<Rightarrow> ('s \<Rightarrow> string) \<Rightarrow> ('s \<Rightarrow> string \<Rightarrow> string) \<Rightarrow> 's list \<Rightarrow> string \<Rightarrow> string" where
  "signature_file sha ed_public ed_sign secs msg =
     concat (map (\<lambda>sec. sign_line sha ed_public ed_sign sec msg @ [newline]) secs)"

lemma signature_file_lines:
  assumes "sha256_size sha" "ed25519_scheme ed_public ed_sign ed_verify"
  shows "scan_lines default_scan_limit (signature_file sha ed_public ed_sign secs msg) =
      (map (\<lambda>sec. sign_line sha ed_public ed_sign sec msg) secs, False)"
    and "signature_lines (signature_file sha ed_public ed_sign secs msg) =
      map (\<lambda>sec. sign_line sha ed_public ed_sign sec msg) secs"
proof -
  let ?l = "\<lambda>sec. sign_line sha ed_public ed_sign sec msg"
  note sh = sign_line_shape [OF assms refl, of _ msg]
  have r: "raw_lines (signature_file sha ed_public ed_sign secs msg) = map ?l secs"
    using raw_lines_concat [of "map ?l secs"] sh(4) by (auto simp: signature_file_def comp_def)
  have t: "takeWhile (\<lambda>_. True) xs = xs" for xs :: "'z list" by simp
  show s: "scan_lines default_scan_limit (signature_file sha ed_public ed_sign secs msg) = (map ?l secs, False)"
    using sh(5,6) by (simp add: scan_lines_def r default_scan_limit_def takeWhile_map comp_def t)
  show "signature_lines (signature_file sha ed_public ed_sign secs msg) = map ?l secs"
    using sh(2,3) by (simp add: signature_lines_def s comp_def filter_map)
qed

lemma signatures_verify:
  assumes "sha256_size sha" "ed25519_scheme ed_public ed_sign ed_verify"
    and "\<forall>sec\<in>set secs. map_of trusted (key_id_for sha (ed_public sec)) = Some (ed_public sec)"
    and "distinct (map (\<lambda>sec. key_id_for sha (ed_public sec)) secs)" "n \<le> int (length secs)"
  shows "verify_signatures ed_verify msg (signature_file sha ed_public ed_sign secs msg) trusted n =
    Inr (map (\<lambda>sec. key_id_for sha (ed_public sec)) secs)"
proof -
  have "signed_by ed_verify msg trusted (sign_line sha ed_public ed_sign sec msg) (key_id_for sha (ed_public sec))"
    if "sec \<in> set secs" for sec
    using sign_line_shape(1) [OF assms(1,2) refl, of sec msg] assms(2,3) that
    by (auto simp: signed_by_def ed25519_scheme_def)
  then show ?thesis
    using assms(4,5) signature_file_lines [OF assms(1,2), of secs msg]
    by (auto simp: verify_signatures_Inr list_all2_map1 list_all2_map2 intro: list.rel_refl_strong)
qed

text \<open>
  What \<open>Sign\<close> writes, \<open>VerifySignatures\<close> accepts: a file of one signature line for
  each of several signers, all of them trusted and with different key identities, is
  accepted for any threshold up to their number, and the signers are returned in order.
\<close>

theorem signed_manifest_verifies:
  assumes "sha256_size sha" "ed25519_scheme ed_public ed_sign ed_verify"
    and "\<forall>sec\<in>set secs. map_of trusted (key_id_for sha (ed_public sec)) = Some (ed_public sec)"
    and "distinct (map (\<lambda>sec. key_id_for sha (ed_public sec)) secs)" "n \<le> int (length secs)"
  shows "verify_signatures ed_verify msg (signature_file sha ed_public ed_sign secs msg) trusted n =
    Inr (map (\<lambda>sec. key_id_for sha (ed_public sec)) secs)"
  by (rule signatures_verify [OF assms])


text \<open>
  A scheme for the examples: a key signs by repeating its first byte, and the digest is
  the first bytes of the text, filled up.
\<close>

definition toy_public :: "char \<Rightarrow> string" where "toy_public c = replicate 32 c"
definition toy_sign :: "char \<Rightarrow> string \<Rightarrow> string" where "toy_sign c msg = replicate 64 c"
definition toy_verify :: "string \<Rightarrow> string \<Rightarrow> string \<Rightarrow> bool" where
  "toy_verify pub msg sig = (length pub = 32 \<and> sig = replicate 64 (hd pub))"
definition toy_sha :: "string \<Rightarrow> string" where "toy_sha x = take 32 (x @ replicate 32 CHR 0x00)"

lemma toy_scheme: "sha256_size toy_sha" "ed25519_scheme toy_public toy_sign toy_verify"
  by (simp_all add: sha256_size_def ed25519_scheme_def toy_sha_def toy_public_def toy_sign_def toy_verify_def min_def)

lemma toy_key_id: "key_id_for toy_sha (toy_public c) = key_id_for toy_sha (toy_public d) \<longleftrightarrow> c = d"
  by (simp add: key_id_for_def hex_encode_inj toy_sha_def toy_public_def)

definition toy_keys :: key_map where
  "toy_keys = map (\<lambda>c. (key_id_for toy_sha (toy_public c), toy_public c)) ''ab''"

theorem signed_manifest_verifies_witness:
  "verify_signatures toy_verify ''m'' (signature_file toy_sha toy_public toy_sign ''ab'' ''m'') toy_keys 2 =
     Inr [key_id_for toy_sha (toy_public CHR ''a''), key_id_for toy_sha (toy_public CHR ''b'')]"
  using signed_manifest_verifies [OF toy_scheme, of "''ab''" toy_keys 2 "''m''"]
  by (simp add: toy_keys_def toy_key_id)

text \<open>The trusted-keys file of the example.\<close>

definition key_line :: "char \<Rightarrow> string" where
  "key_line c = key_id_for toy_sha (toy_public c) @ '' '' @ b64_encode (toy_public c)"

definition toy_key_file :: string where
  "toy_key_file = key_line CHR ''a'' @ [newline] @ key_line CHR ''b'' @ [newline]"

lemma key_line_loads:
  assumes "c \<in> {CHR ''a'', CHR ''b''}"
  shows "load_key_line toy_sha n (key_line c) = Inr (Some (key_id_for toy_sha (toy_public c), toy_public c))"
    and "newline \<notin> set (key_line c)" "length (key_line c) = 61" "drop_cr (key_line c) = key_line c"
    and "Arazu_Base.fields (key_line c) = [key_id_for toy_sha (toy_public c), b64_encode (toy_public c)]"
    and "trim_space (key_line c) = key_line c" "hd (key_id_for toy_sha (toy_public c)) = CHR ''6''"
    and "\<not> has_prefix (key_line c) ''#''"
proof -
  let ?k = "key_id_for toy_sha (toy_public c)" and ?b = "b64_encode (toy_public c)"
  note k = key_id_solid [OF toy_scheme(1), of "toy_public c"]
  have ls: "length ?b = 44" by (simp add: b64_length toy_public_def)
  then have sn: "?b \<noteq> []" by auto
  have j: "key_line c = join_with [CHR 0x20] [?k, ?b]" by (simp add: key_line_def)
  show f: "Arazu_Base.fields (key_line c) = [?k, ?b]"
    unfolding j by (rule fields_join_solid) (use k sn b64_encode_solid in auto)
  have e: "key_line c \<noteq> []" "hd (key_line c) = hd ?k" "last (key_line c) = last ?b"
    using k sn by (simp_all add: key_line_def)
  have s: "solid_byte (hd (key_line c))" "solid_byte (last (key_line c))"
    using e k sn b64_encode_solid [of "toy_public c"] by (auto simp: list_all_iff)
  then show t: "trim_space (key_line c) = key_line c" by (simp add: trim_space_solid)
  have "take 8 (toy_sha (toy_public c)) = c # replicate 7 c"
    by (simp add: toy_sha_def toy_public_def flip: replicate_Suc)
  then have "hd ?k = hex_char (code c div 16)"
    using assms by (simp add: key_id_for_def hex_encode_def code_def)
  then show h6: "hd ?k = CHR ''6''"
    using assms by (auto simp: code_def hex_char_def char_of_def bit_Suc_0_iff)
  show h: "\<not> has_prefix (key_line c) ''#''"
    using e h6 by (cases "key_line c") auto
  show "load_key_line toy_sha n (key_line c) = Inr (Some (?k, toy_public c))"
    using e h by (simp add: load_key_line_def t f ed_key_size_def toy_public_def)
  show "length (key_line c) = 61" using ls k by (simp add: key_line_def)
  have "\<forall>x\<in>set (key_line c). solid_byte x \<or> x = CHR 0x20"
    using k b64_encode_solid [of "toy_public c"] by (auto simp: key_line_def list_all_iff)
  then show "newline \<notin> set (key_line c)" using solid_not_space(15) by fastforce
  have "last (key_line c) \<noteq> CHR 0x0D" using s(2) by (auto simp: solid_byte_nat)
  then show "drop_cr (key_line c) = key_line c" by (simp add: drop_cr_def)
qed

lemma toy_key_file_loads: "load_public_keys toy_sha (Inr toy_key_file) = Inr toy_keys"
proof -
  note l = key_line_loads [of "CHR ''a''"] key_line_loads [of "CHR ''b''"]
  have "raw_lines toy_key_file = [key_line CHR ''a'', key_line CHR ''b'']"
    using raw_lines_concat [of "[key_line CHR ''a'', key_line CHR ''b'']"] l by (simp add: toy_key_file_def)
  then have "scan_lines default_scan_limit toy_key_file = ([key_line CHR ''a'', key_line CHR ''b''], False)"
    using l by (simp add: scan_lines_def default_scan_limit_def)
  then show ?thesis using l by (simp add: load_public_keys_def toy_keys_def toy_key_id)
qed

theorem accepted_manifest_has_distinct_keys_witness:
  "length (signature_lines (signature_file toy_sha toy_public toy_sign ''ab'' ''m'')) = 2"
proof -
  have "verify_signatures toy_verify ''m'' (signature_file toy_sha toy_public toy_sign ''ab'' ''m'') toy_keys 2 =
      Inr [key_id_for toy_sha (toy_public CHR ''a''), key_id_for toy_sha (toy_public CHR ''b'')]"
    using signature_file_lines [OF toy_scheme, of "''ab''" "''m''"] sign_line_shape(1) [OF toy_scheme refl, of _ "''m''"]
      toy_scheme(2)
    by (auto simp: verify_signatures_Inr signed_by_def toy_keys_def toy_key_id ed25519_scheme_def)
  from accepted_manifest_has_distinct_keys [OF toy_key_file_loads this]
  show ?thesis by simp
qed

end
