(* ===== verification/Signer.thy ===== *)
theory Signer
  imports Manifest_Sign Os_Exec
begin

text \<open>
  Signatures with several kinds of keys (pkg/signer): identities and signature lines
  (signer.go), the check of one signature, which for SSH keys runs \<open>ssh-keygen\<close> (ssh.go),
  and the trust store with the check of all signatures (trust.go).

  The operating system is the record \<open>ssh_ops\<close>; SHA-256 and Ed25519 are parameters as in
  \<open>Manifest_Sign\<close>.
\<close>

section \<open>Keys and signature lines\<close>

definition alg_ed25519 :: string where "alg_ed25519 = ''ed25519''"
definition alg_ssh :: string where "alg_ssh = ''ssh-ed25519''"
definition alg_sk :: string where "alg_sk = ''sk-ssh-ed25519''"

datatype signer_error =
    SgMalformed string
  | SgUnknownAlgorithm string
  | SgVerifyFailed string
  | SgOs string
  | SgTrustLine nat signer_error
  | SgProvisionedTwice nat string
  | SgNoTrustedKeys
  | SgTokenTooLong
  | SgLine nat signer_error
  | SgUntrusted string
  | SgDuplicateKey string
  | SgDuplicatePerson string
  | SgInsufficient nat int

definition key_id_for_bytes :: "(string \<Rightarrow> string) \<Rightarrow> string \<Rightarrow> string" where
  "key_id_for_bytes sha pub = hex_encode (take 8 (sha pub))"

definition key_id_for_ssh :: "(string \<Rightarrow> string) \<Rightarrow> string \<Rightarrow> (signer_error, string) result" where
  "key_id_for_ssh sha line =
     (case Arazu_Base.fields (trim_space line) of
        _ # blob # _ \<Rightarrow>
          (case b64_decode blob of
             None \<Rightarrow> Inl (SgMalformed ''ssh key blob'')
           | Some raw \<Rightarrow> Inr (key_id_for_bytes sha raw))
      | _ \<Rightarrow> Inl (SgMalformed ''ssh public key needs a type and a blob''))"

record signature =
  sg_alg :: string
  sg_key_id :: string
  sg_payload :: string

definition parse_signature :: "string \<Rightarrow> (signer_error, signature) result" where
  "parse_signature line =
     (case Arazu_Base.fields (trim_space line) of
        [alg, kid, payload64] \<Rightarrow>
          if alg \<notin> {alg_ed25519, alg_ssh, alg_sk} then Inl (SgUnknownAlgorithm alg)
          else
            (case b64_decode payload64 of
               None \<Rightarrow> Inl (SgMalformed ''payload'')
             | Some payload \<Rightarrow> Inr \<lparr>sg_alg = alg, sg_key_id = kid, sg_payload = payload\<rparr>)
      | _ \<Rightarrow> Inl (SgMalformed ''fields''))"

definition signature_string :: "signature \<Rightarrow> string" where
  "signature_string s = sg_alg s @ '' '' @ sg_key_id s @ '' '' @ b64_encode (sg_payload s)"

definition sig_hardware_backed :: "signature \<Rightarrow> bool" where
  "sig_hardware_backed s = (sg_alg s = alg_sk)"

record trusted_key =
  tk_id :: string
  tk_alg :: string
  tk_ed25519 :: string
  tk_ssh_line :: string
  tk_signer :: string
  tk_named :: bool

definition key_hardware_backed :: "trusted_key \<Rightarrow> bool" where
  "key_hardware_backed k = (tk_alg k = alg_sk)"

definition unnamed_identity :: "string \<Rightarrow> string" where
  "unnamed_identity kid = ''keyid:'' @ kid"

definition signer_identity :: "trusted_key \<Rightarrow> string" where
  "signer_identity k = (if tk_signer k = [] then unnamed_identity (tk_id k) else tk_signer k)"

section \<open>Checking one signature\<close>

record 'w ssh_ops =
  ssh_look_path :: "string \<Rightarrow> ('w, string, unit) action"
  ssh_mkdir_temp :: "string \<Rightarrow> ('w, string, string) action"
  ssh_remove_all :: "string \<Rightarrow> ('w, string, unit) action"
  ssh_write_file :: "string \<Rightarrow> string \<Rightarrow> ('w, string, unit) action"
  ssh_read_file :: "string \<Rightarrow> ('w, string, string) action"
  ssh_run :: "string list \<Rightarrow> string \<Rightarrow> 'w \<Rightarrow> (string \<times> string option) \<times> 'w"

text \<open>\<open>ssh_run ops argv stdin\<close> gives the output of the command and its error, if any.\<close>

definition sign_namespace :: string where "sign_namespace = ''arazu-manifest''"

definition keygen_verify_argv :: "string \<Rightarrow> string \<Rightarrow> string \<Rightarrow> string list" where
  "keygen_verify_argv allowed kid sig_path =
     [''ssh-keygen'', ''-Y'', ''verify'', ''-f'', allowed, ''-I'', kid, ''-n'', sign_namespace, ''-s'', sig_path]"

definition run_keygen_verify :: "'w ssh_ops \<Rightarrow> string \<Rightarrow> string \<Rightarrow> string \<Rightarrow> string \<Rightarrow> ('w, signer_error, unit) action" where
  "run_keygen_verify ops allowed kid sig_path msg = (\<lambda>w.
     case ssh_run ops (keygen_verify_argv allowed kid sig_path) msg w of
       ((out, None), w') \<Rightarrow> (Inr (), w')
     | ((out, Some e), w') \<Rightarrow> (Inl (SgVerifyFailed (trim_space out)), w'))"

definition verify_ssh :: "'w ssh_ops \<Rightarrow> string \<Rightarrow> signature \<Rightarrow> trusted_key \<Rightarrow> ('w, signer_error, unit) action" where
  "verify_ssh ops msg sig key =
     act_bind (act_wrap SgVerifyFailed (ssh_look_path ops ''ssh-keygen'')) (\<lambda>_.
     act_bind (act_wrap SgOs (ssh_mkdir_temp ops ''arazu-verify-'')) (\<lambda>dir.
     act_defer (ssh_remove_all ops dir)
       (let allowed = path_join [dir, ''allowed_signers''];
            sig_path = path_join [dir, ''manifest.sig'']
        in act_bind (act_wrap SgOs (ssh_write_file ops allowed
               (tk_id key @ '' '' @ trim_space (tk_ssh_line key) @ [newline]))) (\<lambda>_.
           act_bind (act_wrap SgOs (ssh_write_file ops sig_path (sg_payload sig))) (\<lambda>_.
           run_keygen_verify ops allowed (tk_id key) sig_path msg)))))"

definition signer_verify :: "(string \<Rightarrow> string \<Rightarrow> string \<Rightarrow> bool) \<Rightarrow> 'w ssh_ops \<Rightarrow> string \<Rightarrow> signature \<Rightarrow> trusted_key \<Rightarrow>
    ('w, signer_error, unit) action" where
  "signer_verify ed_verify ops msg sig key =
     (if sg_key_id sig \<noteq> tk_id key then act_fail (SgVerifyFailed ''key id'')
      else if sg_alg sig \<noteq> tk_alg key then act_fail (SgVerifyFailed ''algorithm'')
      else if sg_alg sig = alg_ed25519 then
        (if length (tk_ed25519 key) \<noteq> ed_key_size then act_fail (SgVerifyFailed ''no ed25519 material'')
         else if \<not> ed_verify (tk_ed25519 key) msg (sg_payload sig) then act_fail (SgVerifyFailed ''ed25519'')
         else act_return ())
      else if sg_alg sig = alg_ssh \<or> sg_alg sig = alg_sk then verify_ssh ops msg sig key
      else act_fail (SgUnknownAlgorithm (sg_alg sig)))"

text \<open>Signing with an SSH key, on the low side.\<close>

definition keygen_sign_argv :: "string \<Rightarrow> string \<Rightarrow> string list" where
  "keygen_sign_argv key_path msg_path =
     [''ssh-keygen'', ''-Y'', ''sign'', ''-f'', key_path, ''-n'', sign_namespace, msg_path]"

definition sign_ssh :: "(string \<Rightarrow> string) \<Rightarrow> 'w ssh_ops \<Rightarrow> string \<Rightarrow> string \<Rightarrow> string \<Rightarrow> ('w, signer_error, signature) action" where
  "sign_ssh sha ops stdin key_path msg =
     act_bind (act_wrap SgOs (ssh_mkdir_temp ops ''arazu-sign-'')) (\<lambda>dir.
     act_defer (ssh_remove_all ops dir)
       (let msg_path = path_join [dir, ''manifest.json'']
        in act_bind (act_wrap SgOs (ssh_write_file ops msg_path msg)) (\<lambda>_.
           act_bind (\<lambda>w. case ssh_run ops (keygen_sign_argv key_path msg_path) stdin w of
               ((out, None), w') \<Rightarrow> (Inr (), w')
             | ((out, Some e), w') \<Rightarrow> (Inl (SgOs (e @ '': '' @ trim_space out)), w')) (\<lambda>_.
           act_bind (act_wrap SgOs (ssh_read_file ops (msg_path @ ''.sig''))) (\<lambda>armoured.
           act_bind (act_wrap SgOs (ssh_read_file ops (key_path @ ''.pub''))) (\<lambda>pub w.
             (try_bind (key_id_for_ssh sha pub) (\<lambda>kid.
                Inr \<lparr>sg_alg = (if has_prefix (trim_space pub) ''sk-ssh-ed25519'' then alg_sk else alg_ssh),
                     sg_key_id = kid, sg_payload = armoured\<rparr>), w)))))))"

section \<open>The trust store\<close>

type_synonym trust_store = "(string \<times> trusted_key) list"

definition trust_len :: "trust_store \<Rightarrow> nat" where "trust_len t = length t"

definition trust_get :: "trust_store \<Rightarrow> string \<Rightarrow> trusted_key option" where "trust_get t kid = map_of t kid"

definition unnamed_count :: "trust_store \<Rightarrow> nat" where
  "unnamed_count t = length (filter (\<lambda>(kid, k). \<not> tk_named k) t)"

definition hardware_backed_count :: "trust_store \<Rightarrow> nat" where
  "hardware_backed_count t = length (filter (\<lambda>(kid, k). key_hardware_backed k) t)"

definition signer_name :: "string list \<Rightarrow> string \<Rightarrow> string \<times> bool" where
  "signer_name rest kid =
     (let name = trim_space (join_with '' '' rest)
      in if name = [] then (unnamed_identity kid, False) else (name, True))"

definition trust_ssh_key :: "(string \<Rightarrow> string) \<Rightarrow> string \<Rightarrow> string \<Rightarrow> string \<Rightarrow> string list \<Rightarrow> (signer_error, trusted_key) result" where
  "trust_ssh_key sha line kind blob rest =
     try_bind (key_id_for_ssh sha line) (\<lambda>kid.
       let (name, named) = signer_name rest kid
       in Inr \<lparr>tk_id = kid, tk_alg = (if has_prefix kind ''sk-'' then alg_sk else alg_ssh), tk_ed25519 = [],
               tk_ssh_line = kind @ '' '' @ blob, tk_signer = name, tk_named = named\<rparr>)"

definition trust_ed25519_key :: "(string \<Rightarrow> string) \<Rightarrow> string \<Rightarrow> string \<Rightarrow> string list \<Rightarrow> (signer_error, trusted_key) result" where
  "trust_ed25519_key sha kid key rest =
     (case b64_decode key of
        None \<Rightarrow> Inl (SgMalformed ''base64'')
      | Some raw \<Rightarrow>
          if length raw \<noteq> ed_key_size then Inl (SgMalformed ''size'')
          else if key_id_for_bytes sha raw \<noteq> kid then Inl (SgMalformed ''key id'')
          else (let (name, named) = signer_name rest (key_id_for_bytes sha raw)
                in Inr \<lparr>tk_id = key_id_for_bytes sha raw, tk_alg = alg_ed25519, tk_ed25519 = raw,
                        tk_ssh_line = [], tk_signer = name, tk_named = named\<rparr>))"

text \<open>A line that is not blank has a first field, so the code's \<open>fields[0]\<close> is in range.\<close>

definition parse_trust_line :: "(string \<Rightarrow> string) \<Rightarrow> string \<Rightarrow> (signer_error, trusted_key) result" where
  "parse_trust_line sha line =
     (case Arazu_Base.fields line of
        [] \<Rightarrow> Inl (SgMalformed ''unrecognised'')
      | kind # args \<Rightarrow>
          if has_prefix kind ''sk-ssh-ed25519'' \<or> has_prefix kind ''ssh-ed25519'' then
            (case args of
               [] \<Rightarrow> Inl (SgMalformed ''ssh key line needs a blob'')
             | blob # rest \<Rightarrow> trust_ssh_key sha line kind blob rest)
          else
            (case args of
               [key] \<Rightarrow> trust_ed25519_key sha kind key []
             | [key, name] \<Rightarrow> trust_ed25519_key sha kind key [name]
             | _ \<Rightarrow> Inl (SgMalformed ''unrecognised'')))"

fun load_trust_lines :: "(string \<Rightarrow> string) \<Rightarrow> nat \<Rightarrow> string list \<Rightarrow> trust_store \<Rightarrow> (signer_error, trust_store) result" where
  "load_trust_lines sha n [] t = Inr t"
| "load_trust_lines sha n (l # ls) t =
     (let line = trim_space l
      in if line = [] \<or> has_prefix line ''#'' then load_trust_lines sha (n + 1) ls t
         else case parse_trust_line sha line of
                Inl e \<Rightarrow> Inl (SgTrustLine n e)
              | Inr key \<Rightarrow>
                  if map_of t (tk_id key) \<noteq> None then Inl (SgProvisionedTwice n (tk_id key))
                  else load_trust_lines sha (n + 1) ls (t @ [(tk_id key, key)]))"

definition load_trust_store :: "(string \<Rightarrow> string) \<Rightarrow> (string, string) result \<Rightarrow> (signer_error, trust_store) result" where
  "load_trust_store sha file =
     (case file of
        Inl e \<Rightarrow> Inl (SgOs e)
      | Inr text \<Rightarrow>
          (let (ls, too_long) = scan_lines default_scan_limit text
           in try_bind (load_trust_lines sha 1 ls []) (\<lambda>t.
                if too_long then Inl SgTokenTooLong
                else if t = [] then Inl SgNoTrustedKeys
                else Inr t)))"

section \<open>The check of all signatures\<close>

text \<open>One line: the key that signed, before the tests for repeated keys and people.\<close>

definition check_sig_line :: "(string \<Rightarrow> string \<Rightarrow> string \<Rightarrow> bool) \<Rightarrow> 'w ssh_ops \<Rightarrow> trust_store \<Rightarrow> string \<Rightarrow> nat \<Rightarrow> string \<Rightarrow>
    ('w, signer_error, trusted_key) action" where
  "check_sig_line ed_verify ops trust msg n line =
     (case parse_signature line of
        Inl e \<Rightarrow> act_fail (SgLine n e)
      | Inr sig \<Rightarrow>
          (case trust_get trust (sg_key_id sig) of
             None \<Rightarrow> act_fail (SgUntrusted (sg_key_id sig))
           | Some key \<Rightarrow>
               act_bind (signer_verify ed_verify ops msg sig key) (\<lambda>_. act_return key)))"

text \<open>
  \<open>signers\<close> are the keys so far; the code's sets \<open>seenKey\<close> and \<open>seenSigner\<close> are the
  identities of these keys and of the people they belong to.
\<close>

fun check_sig_lines :: "(string \<Rightarrow> string \<Rightarrow> string \<Rightarrow> bool) \<Rightarrow> 'w ssh_ops \<Rightarrow> trust_store \<Rightarrow> string \<Rightarrow> nat \<Rightarrow> string list \<Rightarrow>
    trusted_key list \<Rightarrow> ('w, signer_error, trusted_key list) action" where
  "check_sig_lines ed_verify ops trust msg n [] signers = act_return signers"
| "check_sig_lines ed_verify ops trust msg n (l # ls) signers =
     (if trim_space l = [] then check_sig_lines ed_verify ops trust msg (n + 1) ls signers
      else act_bind (check_sig_line ed_verify ops trust msg n (trim_space l)) (\<lambda>key.
        if tk_id key \<in> set (map tk_id signers) then act_fail (SgDuplicateKey (tk_id key))
        else if signer_identity key \<in> set (map signer_identity signers) then
          act_fail (SgDuplicatePerson (signer_identity key))
        else check_sig_lines ed_verify ops trust msg (n + 1) ls (signers @ [key])))"

definition signer_verify_all :: "(string \<Rightarrow> string \<Rightarrow> string \<Rightarrow> bool) \<Rightarrow> 'w ssh_ops \<Rightarrow> trust_store \<Rightarrow> string \<Rightarrow> string \<Rightarrow> int \<Rightarrow>
    ('w, signer_error, trusted_key list) action" where
  "signer_verify_all ed_verify ops trust msg sig_file min_distinct =
     (let (ls, too_long) = scan_lines default_scan_limit sig_file
      in act_bind (check_sig_lines ed_verify ops trust msg 1 ls []) (\<lambda>signers.
           if too_long then act_fail SgTokenTooLong
           else if int (length signers) < min_distinct then
             act_fail (SgInsufficient (length signers) min_distinct)
           else act_return signers))"

section \<open>Two-person control\<close>

definition line_approved :: "(string \<Rightarrow> string \<Rightarrow> string \<Rightarrow> bool) \<Rightarrow> 'w ssh_ops \<Rightarrow> trust_store \<Rightarrow> string \<Rightarrow> string \<Rightarrow>
    trusted_key \<Rightarrow> bool" where
  "line_approved ed_verify ops trust msg line key =
     (\<exists>sig w w'. parse_signature line = Inr sig \<and> trust_get trust (sg_key_id sig) = Some key \<and>
        signer_verify ed_verify ops msg sig key w = (Inr (), w'))"

lemma check_sig_line_approved:
  "check_sig_line ed_verify ops trust msg n line w = (Inr key, w') \<Longrightarrow> line_approved ed_verify ops trust msg line key"
  by (auto simp: check_sig_line_def line_approved_def result_simps split: sum.splits option.splits)

lemma check_sig_lines_approved:
  "check_sig_lines ed_verify ops trust msg n ls signers w = (Inr out, w') \<Longrightarrow> distinct (map signer_identity signers) \<Longrightarrow>
   \<exists>rs. out = signers @ rs \<and> distinct (map signer_identity out) \<and>
     list_all2 (line_approved ed_verify ops trust msg) (filter (\<lambda>l. l \<noteq> []) (map trim_space ls)) rs"
proof (induction ls arbitrary: n signers w)
  case Nil
  then show ?case by (simp add: act_return_def)
next
  case (Cons l ls)
  show ?case
  proof (cases "trim_space l = []")
    case True
    with Cons show ?thesis by simp
  next
    case False
    then obtain key w1 where k: "check_sig_line ed_verify ops trust msg n (trim_space l) w = (Inr key, w1)"
        and d: "signer_identity key \<notin> set (map signer_identity signers)"
        and r: "check_sig_lines ed_verify ops trust msg (n + 1) ls (signers @ [key]) w1 = (Inr out, w')"
      using Cons.prems(1) by (auto simp: act_bind_Inr act_fail_def split: if_splits)
    have "distinct (map signer_identity (signers @ [key]))" using Cons.prems(2) d by auto
    from Cons.IH [OF r this] obtain rs where "out = (signers @ [key]) @ rs" "distinct (map signer_identity out)"
        "list_all2 (line_approved ed_verify ops trust msg) (filter (\<lambda>l. l \<noteq> []) (map trim_space ls)) rs"
      by blast
    with check_sig_line_approved [OF k] False show ?thesis by (intro exI [of _ "key # rs"]) simp
  qed
qed

lemma signer_verify_all_Inr:
  assumes "signer_verify_all ed_verify ops trust msg f n w = (Inr rs, w')"
  shows "list_all2 (line_approved ed_verify ops trust msg) (signature_lines f) rs \<and>
    distinct (map signer_identity rs) \<and> n \<le> int (length rs)"
proof -
  obtain ls b where s: "scan_lines default_scan_limit f = (ls, b)" by (cases "scan_lines default_scan_limit f")
  from assms have "check_sig_lines ed_verify ops trust msg 1 ls [] w = (Inr rs, w')" and n: "n \<le> int (length rs)"
    by (auto simp: signer_verify_all_def s act_bind_Inr act_fail_def act_return_def split: if_splits)
  from check_sig_lines_approved [OF this(1)] n show ?thesis
    by (auto simp: signature_lines_def s)
qed

interpretation people: two_person_control
  "\<lambda>items n rs. \<exists>f w w'. signature_lines f = items \<and> signer_verify_all ed_verify ops trust msg f n w = (Inr rs, w')"
  "line_approved ed_verify ops trust msg" signer_identity
  for ed_verify and ops :: "'w ssh_ops" and trust msg
  by unfold_locales (auto dest!: signer_verify_all_Inr)

text \<open>
  C16. \<open>signer.VerifyAll\<close> counts people: when every line that checks out belongs to keys
  of one person, however many keys and signatures there are, a threshold of two or more is
  not met, whatever the operating system answers.
\<close>

theorem one_person_is_refused:
  assumes "\<forall>line\<in>set (signature_lines f). \<forall>key. line_approved ed_verify ops trust msg line key \<longrightarrow> signer_identity key = p"
    and "2 \<le> n"
  shows "\<exists>e w'. signer_verify_all ed_verify ops trust msg f n w = (Inl e, w')"
proof -
  have "\<not> (\<exists>f' w w'. signature_lines f' = signature_lines f \<and> signer_verify_all ed_verify ops trust msg f' n w = (Inr rs, w'))" for rs
    by (rule people.nobody_alone [of "signature_lines f" ed_verify ops trust msg p n rs]) (use assms in auto)
  then show ?thesis by (metis old.sum.exhaust surj_pair)
qed

lemma run_keygen_verify_Inr [result_simps]:
  "run_keygen_verify ops allowed kid sig_path msg w = (Inr (), w') \<longleftrightarrow>
     (\<exists>out. ssh_run ops (keygen_verify_argv allowed kid sig_path) msg w = ((out, None), w'))"
  by (auto simp: run_keygen_verify_def split: prod.splits option.splits)

lemma signer_verify_Inr:
  assumes "signer_verify ed_verify ops msg sig key w = (Inr (), w')"
  shows "sg_alg sig = tk_alg key \<and> sg_key_id sig = tk_id key \<and>
    (tk_alg key = alg_ed25519 \<and> length (tk_ed25519 key) = ed_key_size \<and> ed_verify (tk_ed25519 key) msg (sg_payload sig) \<or>
     tk_alg key \<in> {alg_ssh, alg_sk} \<and>
       (\<exists>allowed sig_path w1 w2 out. ssh_run ops (keygen_verify_argv allowed (tk_id key) sig_path) msg w1 = ((out, None), w2)))"
proof -
  have run: "\<exists>allowed sig_path w1 w2 out. ssh_run ops (keygen_verify_argv allowed (tk_id key) sig_path) msg w1 = ((out, None), w2)"
    if "verify_ssh ops msg sig key w = (Inr (), w')"
    using that
    unfolding verify_ssh_def Let_def act_bind_Inr act_defer_Inr run_keygen_verify_Inr by blast
  from assms show ?thesis
    by (auto simp: signer_verify_def act_fail_def split: if_splits dest: run)
qed

text \<open>
  Every key \<open>signer.VerifyAll\<close> returns was checked by the mechanism it is provisioned
  for, over the very bytes given: an Ed25519 key by a signature that verifies with its
  32-byte key, an SSH or security key by a run of \<open>ssh-keygen -Y verify\<close> under the
  key's own identity and this program's namespace that succeeded.  No signature of one
  kind satisfies a key of another, and the signature is one of a line of the file.
\<close>

theorem approvals_use_the_provisioned_mechanism:
  assumes "signer_verify_all ed_verify ops trust msg f n w = (Inr keys, w')" "key \<in> set keys"
  shows "\<exists>line\<in>set (signature_lines f). \<exists>sig. parse_signature line = Inr sig \<and> sg_alg sig = tk_alg key \<and>
    sg_key_id sig = tk_id key \<and>
    (tk_alg key = alg_ed25519 \<and> length (tk_ed25519 key) = ed_key_size \<and> ed_verify (tk_ed25519 key) msg (sg_payload sig) \<or>
     tk_alg key \<in> {alg_ssh, alg_sk} \<and>
       (\<exists>allowed sig_path w1 w2 out. ssh_run ops (keygen_verify_argv allowed (tk_id key) sig_path) msg w1 = ((out, None), w2)))"
proof -
  from assms(2) obtain k where k: "k < length keys" "keys ! k = key" by (auto simp: in_set_conv_nth)
  have "list_all2 (line_approved ed_verify ops trust msg) (signature_lines f) keys"
    using signer_verify_all_Inr [OF assms(1)] by blast
  then have "line_approved ed_verify ops trust msg (signature_lines f ! k) key" "k < length (signature_lines f)"
    using k by (auto simp: list_all2_conv_all_nth)
  then obtain sig v v' where l: "signature_lines f ! k \<in> set (signature_lines f)"
      and p: "parse_signature (signature_lines f ! k) = Inr sig"
      and s: "signer_verify ed_verify ops msg sig key v = (Inr (), v')"
    unfolding line_approved_def by (metis nth_mem)
  show ?thesis
    by (rule bexI [OF _ l], rule exI [of _ sig]) (rule conjI [OF p signer_verify_Inr [OF s]])
qed

section \<open>What a loaded trust store holds\<close>

definition trusted_key_wf :: "trusted_key \<Rightarrow> bool" where
  "trusted_key_wf k = (tk_signer k \<noteq> [] \<and> (\<not> tk_named k \<longrightarrow> tk_signer k = unnamed_identity (tk_id k)) \<and>
     tk_alg k \<in> {alg_ed25519, alg_ssh, alg_sk} \<and> (tk_alg k = alg_ed25519 \<longrightarrow> length (tk_ed25519 k) = ed_key_size))"

definition trust_store_wf :: "trust_store \<Rightarrow> bool" where
  "trust_store_wf t = (distinct (map fst t) \<and> (\<forall>(kid, k)\<in>set t. tk_id k = kid \<and> trusted_key_wf k))"

lemma signer_name_wf:
  "fst (signer_name rest kid) \<noteq> []" "\<not> snd (signer_name rest kid) \<Longrightarrow> fst (signer_name rest kid) = unnamed_identity kid"
  by (auto simp: signer_name_def unnamed_identity_def Let_def split: if_splits)

lemma algs_distinct: "alg_ssh \<noteq> alg_ed25519" "alg_sk \<noteq> alg_ed25519" "alg_sk \<noteq> alg_ssh"
  by (simp_all add: alg_ssh_def alg_ed25519_def alg_sk_def)

lemma trust_key_wf:
  "trust_ssh_key sha line kind blob rest = Inr k \<Longrightarrow> trusted_key_wf k"
  "trust_ed25519_key sha kid key rest = Inr k \<Longrightarrow> trusted_key_wf k"
  using algs_distinct
  by (auto simp: trust_ssh_key_def trust_ed25519_key_def trusted_key_wf_def result_simps Let_def split_beta signer_name_wf
      split: option.splits if_splits)

lemma parse_trust_line_wf: "parse_trust_line sha line = Inr k \<Longrightarrow> trusted_key_wf k"
  by (auto simp: parse_trust_line_def split: list.splits if_splits dest: trust_key_wf)

lemma load_trust_lines_wf:
  "load_trust_lines sha n ls t = Inr t' \<Longrightarrow> trust_store_wf t \<Longrightarrow> trust_store_wf t'"
proof (induction ls arbitrary: n t)
  case (Cons l ls)
  show ?case
  proof (cases "trim_space l = [] \<or> has_prefix (trim_space l) ''#''")
    case True
    with Cons show ?thesis by (auto simp: Let_def)
  next
    case False
    then obtain k where k: "parse_trust_line sha (trim_space l) = Inr k" "map_of t (tk_id k) = None"
        and r: "load_trust_lines sha (n + 1) ls (t @ [(tk_id k, k)]) = Inr t'"
      using Cons.prems(1) by (auto simp: Let_def split: sum.splits if_splits)
    have "trust_store_wf (t @ [(tk_id k, k)])"
      using Cons.prems(2) k parse_trust_line_wf [OF k(1)]
      by (auto simp: trust_store_wf_def map_of_eq_None_iff image_iff)
    then show ?thesis by (rule Cons.IH [OF r])
  qed
qed simp

text \<open>
  C22. What \<open>LoadTrustStore\<close> returns: at least one key, each under its own identity, none
  provisioned twice, all of algorithms this build can check; every key has a signer, and
  keys the file does not name count as different people.
\<close>

theorem loaded_trust_store_wf:
  assumes "load_trust_store sha file = Inr t"
  shows "trust_store_wf t \<and> t \<noteq> [] \<and>
    (\<forall>(a, j)\<in>set t. \<forall>(b, k)\<in>set t. \<not> tk_named j \<and> \<not> tk_named k \<and> signer_identity j = signer_identity k \<longrightarrow> j = k)"
proof -
  from assms obtain ls where "load_trust_lines sha 1 ls [] = Inr t" and n: "t \<noteq> []"
    by (auto simp: load_trust_store_def result_simps split: sum.splits prod.splits if_splits)
  then have wf: "trust_store_wf t"
    by (auto simp: trust_store_wf_def dest!: load_trust_lines_wf)
  have "j = k" if "(a, j) \<in> set t" "(b, k) \<in> set t" "\<not> tk_named j" "\<not> tk_named k" "signer_identity j = signer_identity k"
    for a j b k
  proof -
    have w: "tk_id j = a" "tk_id k = b" "trusted_key_wf j" "trusted_key_wf k"
      using wf that(1,2) by (auto simp: trust_store_wf_def)
    then have "unnamed_identity a = unnamed_identity b"
      using that(3-5) by (metis trusted_key_wf_def signer_identity_def)
    then have "a = b" by (simp add: unnamed_identity_def)
    then show ?thesis using wf that(1,2) by (auto simp: trust_store_wf_def dest: eq_key_imp_eq_value)
  qed
  then show ?thesis using wf n by blast
qed

section \<open>Signature lines\<close>

text \<open>
  A signature line reads back as the signature it was written from, for every
  algorithm the build accepts, a key identity of printable characters and a payload.
\<close>

theorem signature_line_round_trip:
  assumes "sg_alg s \<in> {alg_ed25519, alg_ssh, alg_sk}" "sg_key_id s \<noteq> []" "list_all solid_byte (sg_key_id s)"
    and "sg_payload s \<noteq> []"
  shows "parse_signature (signature_string s) = Inr s"
proof -
  have a: "sg_alg s \<noteq> []" "list_all solid_byte (sg_alg s)"
    using assms(1) by (auto simp: alg_ed25519_def alg_ssh_def alg_sk_def solid_byte_nat)
  have b: "b64_encode (sg_payload s) \<noteq> []"
    using assms(4) by (cases "sg_payload s" rule: b64_encode.cases) simp_all
  have j: "signature_string s = join_with [CHR 0x20] [sg_alg s, sg_key_id s, b64_encode (sg_payload s)]"
    by (simp add: signature_string_def)
  have f: "Arazu_Base.fields (signature_string s) = [sg_alg s, sg_key_id s, b64_encode (sg_payload s)]"
    unfolding j by (rule fields_join_solid) (use a b assms(2,3) b64_encode_solid in auto)
  have "hd (signature_string s) = hd (sg_alg s)" "last (signature_string s) = last (b64_encode (sg_payload s))"
    using a b by (simp_all add: signature_string_def)
  then have "trim_space (signature_string s) = signature_string s"
    using a b b64_encode_solid [of "sg_payload s"] by (intro trim_space_solid) (auto simp: list_all_iff)
  then show ?thesis using assms(1) by (simp add: parse_signature_def f)
qed

section \<open>Examples\<close>

definition toy_trusted :: "char \<Rightarrow> string \<Rightarrow> trusted_key" where
  "toy_trusted c name =
     \<lparr>tk_id = key_id_for_bytes toy_sha (toy_public c), tk_alg = alg_ed25519, tk_ed25519 = toy_public c,
      tk_ssh_line = [], tk_signer = name, tk_named = True\<rparr>"

definition toy_store :: "string \<Rightarrow> string \<Rightarrow> trust_store" where
  "toy_store x y = [(tk_id (toy_trusted CHR ''a'' x), toy_trusted CHR ''a'' x), (tk_id (toy_trusted CHR ''b'' y), toy_trusted CHR ''b'' y)]"

definition toy_ssh :: "unit ssh_ops" where
  "toy_ssh = \<lparr>ssh_look_path = \<lambda>_ w. (Inl ''not found'', w), ssh_mkdir_temp = \<lambda>_ w. (Inr ''/tmp/x'', w),
     ssh_remove_all = \<lambda>_ w. (Inr (), w), ssh_write_file = \<lambda>_ _ w. (Inr (), w),
     ssh_read_file = \<lambda>_ w. (Inl ''no such file'', w), ssh_run = \<lambda>_ _ w. (([], Some ''exit status 1''), w)\<rparr>"

definition toy_signatures :: string where
  "toy_signatures = signature_file toy_sha toy_public toy_sign ''ab'' ''m''"

lemma key_id_same: "key_id_for_bytes = key_id_for"
  by (rule ext) (simp add: fun_eq_iff key_id_for_bytes_def key_id_for_def)

lemma toy_store_person: "x \<noteq> [] \<Longrightarrow> trust_get (toy_store x x) kid = Some key \<Longrightarrow> signer_identity key = signer_identity (toy_trusted CHR ''a'' x)"
  by (auto simp: trust_get_def toy_store_def toy_trusted_def signer_identity_def unnamed_identity_def split: if_splits)

theorem one_person_is_refused_witness:
  "\<exists>e w'. signer_verify_all toy_verify toy_ssh (toy_store ''pat'' ''pat'') ''m'' toy_signatures 2 () = (Inl e, w')"
  by (rule one_person_is_refused [where p = "signer_identity (toy_trusted CHR ''a'' ''pat'')"])
    (auto simp: line_approved_def intro: toy_store_person [of "''pat''"])

lemma toy_run:
  "signer_verify_all toy_verify toy_ssh (toy_store ''pat'' ''sam'') ''m'' toy_signatures 2 () =
     (Inr [toy_trusted CHR ''a'' ''pat'', toy_trusted CHR ''b'' ''sam''], ())"
proof -
  let ?l = "\<lambda>c. sign_line toy_sha toy_public toy_sign c ''m''"
  note sh = sign_line_shape [OF toy_scheme refl, of _ "''m''"]
  have p: "parse_signature (?l c) =
      Inr \<lparr>sg_alg = alg_ed25519, sg_key_id = key_id_for toy_sha (toy_public c), sg_payload = toy_sign c ''m''\<rparr>" for c
    using sh(1,2) [of c] by (simp add: parse_signature_def alg_ed25519_def sign_alg_def)
  have v: "signer_verify toy_verify toy_ssh ''m''
      \<lparr>sg_alg = alg_ed25519, sg_key_id = key_id_for toy_sha (toy_public c), sg_payload = toy_sign c ''m''\<rparr>
      (toy_trusted c x) () = (Inr (), ())" for c x
    by (simp add: signer_verify_def toy_trusted_def key_id_same act_return_def act_fail_def ed_key_size_def
        toy_verify_def toy_sign_def toy_public_def numeral_eq_Suc)
  have g: "trust_get (toy_store ''pat'' ''sam'') (key_id_for toy_sha (toy_public CHR ''a'')) = Some (toy_trusted CHR ''a'' ''pat'')"
      "trust_get (toy_store ''pat'' ''sam'') (key_id_for toy_sha (toy_public CHR ''b'')) = Some (toy_trusted CHR ''b'' ''sam'')"
    by (simp_all add: trust_get_def toy_store_def toy_trusted_def key_id_same toy_key_id)
  have c: "check_sig_line toy_verify toy_ssh (toy_store ''pat'' ''sam'') ''m'' n (?l CHR ''a'') () = (Inr (toy_trusted CHR ''a'' ''pat''), ())"
      "check_sig_line toy_verify toy_ssh (toy_store ''pat'' ''sam'') ''m'' n (?l CHR ''b'') () = (Inr (toy_trusted CHR ''b'' ''sam''), ())" for n
    by (simp_all add: check_sig_line_def p g v act_bind_def act_return_def)
  have d: "tk_id (toy_trusted CHR ''b'' ''sam'') \<noteq> tk_id (toy_trusted CHR ''a'' ''pat'')"
      "signer_identity (toy_trusted CHR ''b'' ''sam'') \<noteq> signer_identity (toy_trusted CHR ''a'' ''pat'')"
    by (simp_all add: toy_trusted_def key_id_same toy_key_id signer_identity_def)
  show ?thesis
    unfolding toy_signatures_def signer_verify_all_def signature_file_lines(1) [OF toy_scheme]
    using sh(2,3) d by (simp add: act_bind_def act_return_def c)
qed

theorem approvals_use_the_provisioned_mechanism_witness:
  "\<exists>line\<in>set (signature_lines toy_signatures). \<exists>sig. parse_signature line = Inr sig \<and> sg_key_id sig = tk_id (toy_trusted CHR ''b'' ''sam'')"
  using approvals_use_the_provisioned_mechanism [OF toy_run, of "toy_trusted CHR ''b'' ''sam''"] by auto

theorem loaded_trust_store_wf_witness:
  "\<exists>t. load_trust_store toy_sha (Inr toy_key_file) = Inr t \<and> trust_store_wf t"
proof -
  note l = key_line_loads [of "CHR ''a''"] key_line_loads [of "CHR ''b''"]
  have "raw_lines toy_key_file = [key_line CHR ''a'', key_line CHR ''b'']"
    using raw_lines_concat [of "[key_line CHR ''a'', key_line CHR ''b'']"] l by (simp add: toy_key_file_def)
  then have s: "scan_lines default_scan_limit toy_key_file = ([key_line CHR ''a'', key_line CHR ''b''], False)"
    using l by (simp add: scan_lines_def default_scan_limit_def)
  have n: "key_line c \<noteq> []" if "c \<in> {CHR ''a'', CHR ''b''}" for c using key_line_loads(3) [OF that] by auto
  have h: "\<not> has_prefix (key_id_for toy_sha (toy_public c)) (CHR ''s'' # u)" if "c \<in> {CHR ''a'', CHR ''b''}" for c u
    using key_line_loads(7) [OF that] by (cases "key_id_for toy_sha (toy_public c)") auto
  have p: "\<exists>k. parse_trust_line toy_sha (key_line c) = Inr k \<and> tk_id k = key_id_for toy_sha (toy_public c)"
    if "c \<in> {CHR ''a'', CHR ''b''}" for c
    using key_line_loads(5) [OF that] h [OF that]
    by (simp add: parse_trust_line_def trust_ed25519_key_def key_id_same toy_public_def ed_key_size_def split_beta)
  obtain ka kb where k: "parse_trust_line toy_sha (key_line CHR ''a'') = Inr ka" "tk_id ka = key_id_for toy_sha (toy_public CHR ''a'')"
      "parse_trust_line toy_sha (key_line CHR ''b'') = Inr kb" "tk_id kb = key_id_for toy_sha (toy_public CHR ''b'')"
    using p [of "CHR ''a''"] p [of "CHR ''b''"] by auto
  have "\<exists>t. load_trust_store toy_sha (Inr toy_key_file) = Inr t"
    using l(6,8,14,16) n [of "CHR ''a''"] n [of "CHR ''b''"] k
    by (simp add: load_trust_store_def s Let_def toy_key_id)
  then show ?thesis using loaded_trust_store_wf by blast
qed

theorem signature_line_round_trip_witness:
  "parse_signature (signature_string \<lparr>sg_alg = alg_sk, sg_key_id = ''00ff'', sg_payload = ''sig''\<rparr>) =
     Inr \<lparr>sg_alg = alg_sk, sg_key_id = ''00ff'', sg_payload = ''sig''\<rparr>"
  by (rule signature_line_round_trip) (simp_all add: solid_byte_nat)

end
