(* ===== verification/Fido.thy ===== *)
theory Fido
  imports Two_Person Go_Text "HOL-Library.AList"
begin

text \<open>
  FIDO2 assertions as manifest signatures (pkg/fido): the check of one assertion
  (fido.go), and the store of credentials with the check of all of them and the signature
  counters (signers.go).

  The cryptography is the record \<open>fido_crypto\<close>; decoding the provisioning file is a
  parameter, what \<open>encoding/json\<close> reads it as.
\<close>

section \<open>Data\<close>

datatype fido_error =
    FdUnknownCredential string
  | FdBadSignature
  | FdRPMismatch
  | FdNoUserPresence
  | FdNoUserVerification
  | FdCounterRegression "32 word" "32 word"
  | FdCounterUnsupported
  | FdMalformedAuthData nat
  | FdAlgorithmMismatch
  | FdAssertion nat fido_error
  | FdDuplicateSigner string
  | FdInsufficientSigners nat int

record fido_crypto =
  fc_sha256 :: "string \<Rightarrow> string"
  fc_ed_verify :: "string \<Rightarrow> string \<Rightarrow> string \<Rightarrow> bool"
  fc_p256_point :: "string \<Rightarrow> bool"
  fc_ecdsa_verify :: "string \<Rightarrow> string \<Rightarrow> string \<Rightarrow> bool"

text \<open>\<open>fc_p256_point key\<close> says that the key unmarshals to a point of P-256.\<close>

definition alg_eddsa :: string where "alg_eddsa = ''eddsa''"
definition alg_es256 :: string where "alg_es256 = ''es256''"

definition client_data_domain :: string where
  "client_data_domain = ''arazu-manifest-sig-v1'' @ [CHR 0x0A]"

definition flag_up :: "8 word" where "flag_up = 0x01"
definition flag_uv :: "8 word" where "flag_uv = 0x04"
definition flag_at :: "8 word" where "flag_at = 0x40"
definition flag_ed :: "8 word" where "flag_ed = 0x80"

definition auth_data_min_len :: nat where "auth_data_min_len = 37"

record credential =
  cr_id :: string
  cr_signer :: string
  cr_alg :: string
  cr_public_key :: string
  cr_rpid :: string

record policy =
  po_rpid :: string
  po_require_uv :: bool
  po_require_counter :: bool

record assertion =
  as_credential_id :: string
  as_auth_data :: string
  as_signature :: string

record auth_data =
  ad_rpid_hash :: string
  ad_flags :: "8 word"
  ad_sign_count :: "32 word"

record fido_result =
  fr_signer :: string
  fr_sign_count :: "32 word"
  fr_counter_checked :: bool
  fr_user_verified :: bool

section \<open>One assertion\<close>

unbundle bit_operations_syntax

definition has_flag :: "8 word \<Rightarrow> 8 word \<Rightarrow> bool" where
  "has_flag flags f = (flags AND f \<noteq> 0)"

definition block_flags :: "8 word" where "block_flags = flag_at OR flag_ed"


definition user_present :: "auth_data \<Rightarrow> bool" where "user_present a = has_flag (ad_flags a) flag_up"

definition user_verified :: "auth_data \<Rightarrow> bool" where "user_verified a = has_flag (ad_flags a) flag_uv"

definition client_data_hash :: "fido_crypto \<Rightarrow> string \<Rightarrow> string" where
  "client_data_hash fc canonical = fc_sha256 fc (client_data_domain @ canonical)"

text \<open>\<open>binary.BigEndian.Uint32\<close>.\<close>

definition big_endian32 :: "string \<Rightarrow> 32 word" where
  "big_endian32 b = of_nat (foldl (\<lambda>n c. n * 256 + code c) 0 (take 4 b))"

definition parse_auth_data :: "string \<Rightarrow> (fido_error, auth_data) result" where
  "parse_auth_data b =
     (if length b < auth_data_min_len then Inl (FdMalformedAuthData (length b))
      else
        (let ad = \<lparr>ad_rpid_hash = take 32 b, ad_flags = of_nat (code (b ! 32)), ad_sign_count = big_endian32 (drop 33 b)\<rparr>
         in if \<not> has_flag (ad_flags ad) block_flags \<and> length b \<noteq> auth_data_min_len
            then Inl (FdMalformedAuthData (length b)) else Inr ad))"

definition fido_verify_signature :: "fido_crypto \<Rightarrow> credential \<Rightarrow> string \<Rightarrow> string \<Rightarrow> (fido_error, unit) result" where
  "fido_verify_signature fc c message sig =
     (if cr_alg c = alg_eddsa then
        (if length (cr_public_key c) \<noteq> 32 then Inl FdAlgorithmMismatch
         else ensure (fc_ed_verify fc (cr_public_key c) message sig) FdBadSignature)
      else if cr_alg c = alg_es256 then
        (if \<not> fc_p256_point fc (cr_public_key c) then Inl FdAlgorithmMismatch
         else ensure (fc_ecdsa_verify fc (cr_public_key c) (fc_sha256 fc message) sig) FdBadSignature)
      else Inl FdAlgorithmMismatch)"

text \<open>The counter rule: whether cloning was checked for, or why the assertion is refused.\<close>

definition check_counter :: "policy \<Rightarrow> 32 word \<Rightarrow> 32 word \<Rightarrow> (fido_error, bool) result" where
  "check_counter p count last_count =
     (if count > last_count then Inr True
      else if count = 0 \<and> last_count = 0 then
        (if po_require_counter p then Inl FdCounterUnsupported else Inr False)
      else Inl (FdCounterRegression count last_count))"

definition fido_verify :: "fido_crypto \<Rightarrow> assertion \<Rightarrow> credential \<Rightarrow> policy \<Rightarrow> 32 word \<Rightarrow> string \<Rightarrow>
    (fido_error, fido_result) result" where
  "fido_verify fc a c p last_count canonical =
     (if as_credential_id a \<noteq> cr_id c then Inl (FdUnknownCredential (as_credential_id a))
      else if cr_rpid c \<noteq> po_rpid p then Inl FdRPMismatch
      else
        try_bind (parse_auth_data (as_auth_data a)) (\<lambda>ad.
          if ad_rpid_hash ad \<noteq> fc_sha256 fc (po_rpid p) then Inl FdRPMismatch
          else if \<not> user_present ad then Inl FdNoUserPresence
          else if po_require_uv p \<and> \<not> user_verified ad then Inl FdNoUserVerification
          else
            try_bind (fido_verify_signature fc c (as_auth_data a @ client_data_hash fc canonical) (as_signature a)) (\<lambda>_.
            try_bind (check_counter p (ad_sign_count ad) last_count) (\<lambda>checked.
              Inr \<lparr>fr_signer = cr_signer c, fr_sign_count = ad_sign_count ad, fr_counter_checked = checked,
                   fr_user_verified = user_verified ad\<rparr>))))"

section \<open>The store\<close>

record fido_store =
  fs_policy :: policy
  fs_credentials :: "credential list"
  fs_counters :: "(string \<times> 32 word) list"
  fs_by_id :: "(string \<times> credential) list"

datatype store_error =
    StoreUnreadable string
  | StoreUndecodable string
  | StoreBlank string
  | StoreTwice string
  | StoreEmpty

fun index_credentials :: "credential list \<Rightarrow> (string \<times> credential) list \<Rightarrow>
    (store_error, (string \<times> credential) list) result" where
  "index_credentials [] m = Inr m"
| "index_credentials (c # cs) m =
     (if cr_id c = [] \<or> cr_signer c = [] then Inl (StoreBlank (cr_id c))
      else if map_of m (cr_id c) \<noteq> None then Inl (StoreTwice (cr_id c))
      else index_credentials cs (m @ [(cr_id c, c)]))"

text \<open>\<open>decode\<close> is \<open>json.Unmarshal\<close> into a store, whose counters are empty when absent.\<close>

definition load_store :: "(string \<Rightarrow> (string, fido_store) result) \<Rightarrow> (string, string) result \<Rightarrow>
    (store_error, fido_store) result" where
  "load_store decode file =
     (case file of
        Inl e \<Rightarrow> Inl (StoreUnreadable e)
      | Inr text \<Rightarrow>
          (case decode text of
             Inl e \<Rightarrow> Inl (StoreUndecodable e)
           | Inr s \<Rightarrow>
               try_bind (index_credentials (fs_credentials s) []) (\<lambda>m.
                 if m = [] then Inl StoreEmpty else Inr (s\<lparr>fs_by_id := m\<rparr>))))"

text \<open>A missing counter reads as zero.\<close>

definition last_count :: "fido_store \<Rightarrow> string \<Rightarrow> 32 word" where
  "last_count s cid = (case map_of (fs_counters s) cid of None \<Rightarrow> 0 | Some n \<Rightarrow> n)"

definition verify_assertion :: "fido_crypto \<Rightarrow> fido_store \<Rightarrow> string \<Rightarrow> nat \<Rightarrow> assertion \<Rightarrow>
    (fido_error, fido_result) result" where
  "verify_assertion fc s canonical i a =
     (case map_of (fs_by_id s) (as_credential_id a) of
        None \<Rightarrow> Inl (FdUnknownCredential (as_credential_id a))
      | Some c \<Rightarrow>
          (case fido_verify fc a c (fs_policy s) (last_count s (as_credential_id a)) canonical of
             Inl e \<Rightarrow> Inl (FdAssertion (i + 1) e)
           | Inr r \<Rightarrow> Inr r))"

fun verify_assertions :: "fido_crypto \<Rightarrow> fido_store \<Rightarrow> string \<Rightarrow> nat \<Rightarrow> assertion list \<Rightarrow> fido_result list \<Rightarrow>
    (fido_error, fido_result list) result" where
  "verify_assertions fc s canonical i [] results = Inr results"
| "verify_assertions fc s canonical i (a # as) results =
     try_bind (verify_assertion fc s canonical i a) (\<lambda>r.
       if fr_signer r \<in> set (map fr_signer results) then Inl (FdDuplicateSigner (fr_signer r))
       else verify_assertions fc s canonical (i + 1) as (results @ [r]))"

text \<open>Each result has a signer of its own, so \<open>len(seen)\<close> is their number.\<close>

definition fido_verify_all :: "fido_crypto \<Rightarrow> fido_store \<Rightarrow> assertion list \<Rightarrow> string \<Rightarrow> int \<Rightarrow>
    (fido_error, fido_result list) result" where
  "fido_verify_all fc s as canonical min_distinct =
     try_bind (verify_assertions fc s canonical 0 as []) (\<lambda>results.
       if int (card (set (map fr_signer results))) < min_distinct then
         Inl (FdInsufficientSigners (card (set (map fr_signer results))) min_distinct)
       else Inr results)"

fun commit_counters :: "(string \<times> 32 word) list \<Rightarrow> fido_result list \<Rightarrow> assertion list \<Rightarrow> (string \<times> 32 word) list" where
  "commit_counters m (r # rs) (a # as) =
     commit_counters (if fr_counter_checked r then AList.update (as_credential_id a) (fr_sign_count r) m else m) rs as"
| "commit_counters m rs as = m"

definition commit :: "fido_store \<Rightarrow> fido_result list \<Rightarrow> assertion list \<Rightarrow> fido_store" where
  "commit s rs as = s\<lparr>fs_counters := commit_counters (fs_counters s) rs as\<rparr>"

definition store_signers :: "fido_store \<Rightarrow> string list" where
  "store_signers s = sort (remdups (map cr_signer (fs_credentials s)))"

section \<open>What is accepted\<close>

definition genuine_signature :: "fido_crypto \<Rightarrow> credential \<Rightarrow> string \<Rightarrow> string \<Rightarrow> bool" where
  "genuine_signature fc c message sig =
     (cr_alg c = alg_eddsa \<and> length (cr_public_key c) = 32 \<and> fc_ed_verify fc (cr_public_key c) message sig \<or>
      cr_alg c = alg_es256 \<and> fc_p256_point fc (cr_public_key c) \<and>
        fc_ecdsa_verify fc (cr_public_key c) (fc_sha256 fc message) sig)"

text \<open>
  What is asked of an assertion, and what it establishes: it is the credential's, made for
  this relying party by somebody present and, where the policy asks for it, verified, its
  signature covers its own data and this manifest, and its counter is new.
\<close>

definition assertion_genuine :: "fido_crypto \<Rightarrow> fido_store \<Rightarrow> string \<Rightarrow> assertion \<Rightarrow> fido_result \<Rightarrow> bool" where
  "assertion_genuine fc s canonical a r =
     (\<exists>c. map_of (fs_by_id s) (as_credential_id a) = Some c \<and> as_credential_id a = cr_id c \<and>
        cr_rpid c = po_rpid (fs_policy s) \<and>
        (let b = as_auth_data a; flags = of_nat (code (b ! 32)); count = big_endian32 (drop 33 b);
             old = last_count s (as_credential_id a)
         in 37 \<le> length b \<and> (has_flag flags block_flags \<or> length b = 37) \<and>
            take 32 b = fc_sha256 fc (po_rpid (fs_policy s)) \<and>
            has_flag flags flag_up \<and> (po_require_uv (fs_policy s) \<longrightarrow> has_flag flags flag_uv) \<and>
            genuine_signature fc c (b @ fc_sha256 fc (client_data_domain @ canonical)) (as_signature a) \<and>
            (old < count \<or> count = 0 \<and> old = 0 \<and> \<not> po_require_counter (fs_policy s)) \<and>
            r = \<lparr>fr_signer = cr_signer c, fr_sign_count = count, fr_counter_checked = (old < count),
                 fr_user_verified = has_flag flags flag_uv\<rparr>))"

lemma algs_eddsa_es256: "alg_es256 \<noteq> alg_eddsa"
  by (simp add: alg_es256_def alg_eddsa_def)

lemma verify_signature_Inr: "fido_verify_signature fc c message sig = Inr u \<longleftrightarrow> genuine_signature fc c message sig"
  using algs_eddsa_es256 by (auto simp: fido_verify_signature_def genuine_signature_def result_simps)

lemma check_counter_Inr:
  "check_counter p count old = Inr k \<longleftrightarrow>
     (old < count \<or> count = 0 \<and> old = 0 \<and> \<not> po_require_counter p) \<and> k = (old < count)"
  by (auto simp: check_counter_def)

lemma parse_auth_data_Inr:
  "parse_auth_data b = Inr ad \<longleftrightarrow>
     37 \<le> length b \<and> (has_flag (ad_flags ad) block_flags \<or> length b = 37) \<and>
     ad = \<lparr>ad_rpid_hash = take 32 b, ad_flags = of_nat (code (b ! 32)), ad_sign_count = big_endian32 (drop 33 b)\<rparr>"
  by (auto simp: parse_auth_data_def auth_data_min_len_def Let_def)

lemma fido_verify_Inr:
  "fido_verify fc a c p old canonical = Inr r \<longleftrightarrow>
     as_credential_id a = cr_id c \<and> cr_rpid c = po_rpid p \<and>
     (\<exists>ad. parse_auth_data (as_auth_data a) = Inr ad \<and> ad_rpid_hash ad = fc_sha256 fc (po_rpid p) \<and>
        user_present ad \<and> (po_require_uv p \<longrightarrow> user_verified ad) \<and>
        genuine_signature fc c (as_auth_data a @ client_data_hash fc canonical) (as_signature a) \<and>
        (old < ad_sign_count ad \<or> ad_sign_count ad = 0 \<and> old = 0 \<and> \<not> po_require_counter p) \<and>
        r = \<lparr>fr_signer = cr_signer c, fr_sign_count = ad_sign_count ad,
             fr_counter_checked = (old < ad_sign_count ad), fr_user_verified = user_verified ad\<rparr>)"
  unfolding fido_verify_def
  by (auto simp: result_simps verify_signature_Inr check_counter_Inr split: if_splits)

lemma verify_assertion_Inr: "verify_assertion fc s canonical i a = Inr r \<longleftrightarrow> assertion_genuine fc s canonical a r"
proof -
  have "verify_assertion fc s canonical i a = Inr r \<longleftrightarrow>
      (\<exists>c. map_of (fs_by_id s) (as_credential_id a) = Some c \<and>
        fido_verify fc a c (fs_policy s) (last_count s (as_credential_id a)) canonical = Inr r)"
    by (auto simp: verify_assertion_def split: option.splits sum.splits)
  then show ?thesis
    unfolding fido_verify_Inr assertion_genuine_def parse_auth_data_Inr Let_def
    by (auto simp: user_present_def user_verified_def client_data_hash_def)
qed

lemma verify_assertions_Inr:
  "verify_assertions fc s canonical i as results = Inr out \<longleftrightarrow>
     (\<exists>rs. out = results @ rs \<and> list_all2 (assertion_genuine fc s canonical) as rs \<and>
        distinct (map fr_signer rs) \<and> set (map fr_signer rs) \<inter> set (map fr_signer results) = {})"
proof (induction as arbitrary: i results)
  case (Cons a as)
  have "verify_assertions fc s canonical i (a # as) results = Inr out \<longleftrightarrow>
      (\<exists>r. assertion_genuine fc s canonical a r \<and> fr_signer r \<notin> set (map fr_signer results) \<and>
        verify_assertions fc s canonical (i + 1) as (results @ [r]) = Inr out)"
    by (auto simp: result_simps verify_assertion_Inr)
  then show ?case
    unfolding Cons.IH by (fastforce simp: list_all2_Cons1)
qed auto

lemma fido_verify_all_Inr:
  "fido_verify_all fc s as canonical n = Inr rs \<longleftrightarrow>
     list_all2 (assertion_genuine fc s canonical) as rs \<and> distinct (map fr_signer rs) \<and> n \<le> int (length rs)"
proof -
  have "fido_verify_all fc s as canonical n = Inr rs \<longleftrightarrow>
      verify_assertions fc s canonical 0 as [] = Inr rs \<and> \<not> int (card (set (map fr_signer rs))) < n"
    by (cases "verify_assertions fc s canonical 0 as []") (auto simp: fido_verify_all_def)
  moreover have "distinct (map fr_signer rs) \<Longrightarrow> card (set (map fr_signer rs)) = length rs"
    using distinct_card [of "map fr_signer rs"] by simp
  ultimately show ?thesis by (auto simp: verify_assertions_Inr)
qed

interpretation assertions: exact_two_person_control
  "\<lambda>as n rs. fido_verify_all fc s as canonical n = Inr rs" "assertion_genuine fc s canonical" fr_signer
  for fc s canonical
  by unfold_locales (simp_all add: fido_verify_all_Inr)

text \<open>
  C23. \<open>fido.VerifyAll\<close> accepts assertions exactly when each of them is genuine, in the
  sense of the conditions written out in \<open>assertion_genuine\<close>, no two are of the same
  person and there are as many as the threshold asks for; and then as many different people
  stand behind them, however many authenticators each of them holds.
\<close>

theorem fido_verify_all_iff:
  "fido_verify_all fc s as canonical n = Inr rs \<longleftrightarrow>
     list_all2 (assertion_genuine fc s canonical) as rs \<and> distinct (map fr_signer rs) \<and> n \<le> int (length rs) \<and>
     n \<le> int (card (fr_signer ` set rs))"
  using assertions.returns_iff [of fc s as canonical n rs] assertions.threshold_of_people(2) [of fc s as canonical n rs]
  by blast

section \<open>Counters\<close>

lemma commit_counters_cases:
  "map_of (commit_counters m rs as) cid = map_of m cid \<or>
   (\<exists>(a, r)\<in>set (zip as rs). as_credential_id a = cid \<and> fr_counter_checked r \<and>
      map_of (commit_counters m rs as) cid = Some (fr_sign_count r))"
proof (induction m rs as rule: commit_counters.induct)
  case (1 m r rs a as)
  let ?m = "if fr_counter_checked r then AList.update (as_credential_id a) (fr_sign_count r) m else m"
  from 1 consider "map_of (commit_counters ?m rs as) cid = map_of ?m cid"
    | "\<exists>(a, r)\<in>set (zip as rs). as_credential_id a = cid \<and> fr_counter_checked r \<and>
        map_of (commit_counters ?m rs as) cid = Some (fr_sign_count r)" by blast
  then show ?case
    by cases (auto simp: update_conv' split: if_splits)
qed simp_all

lemma commit_counters_other:
  "cid \<notin> set (map as_credential_id as) \<Longrightarrow> map_of (commit_counters m rs as) cid = map_of m cid"
  using commit_counters_cases [of m rs as cid] by (fastforce dest: set_zip_leftD)

lemma commit_counters_at:
  "distinct (map as_credential_id as) \<Longrightarrow> (a, r) \<in> set (zip as rs) \<Longrightarrow> fr_counter_checked r \<Longrightarrow>
   map_of (commit_counters m rs as) (as_credential_id a) = Some (fr_sign_count r)"
proof (induction m rs as rule: commit_counters.induct)
  case (1 m r' rs a' as)
  then show ?case
    using commit_counters_other [of "as_credential_id a'" as _ rs]
    by (auto simp: update_conv')
qed simp_all

text \<open>What an accepted pair of an assertion and a result says.\<close>

lemma accepted_pair:
  assumes "fido_verify_all fc s as canonical n = Inr rs" "(a, r) \<in> set (zip as rs)"
  shows "assertion_genuine fc s canonical a r"
  using assms unfolding fido_verify_all_Inr list_all2_iff by auto

lemma genuine_counter:
  assumes "assertion_genuine fc s canonical a r"
  shows "fr_sign_count r = big_endian32 (drop 33 (as_auth_data a))"
    and "fr_counter_checked r \<longleftrightarrow> last_count s (as_credential_id a) < fr_sign_count r"
    and "fr_sign_count r = 0 \<or> fr_counter_checked r"
  using assms by (auto simp: assertion_genuine_def Let_def)

lemma accepted_credentials_distinct:
  assumes "fido_verify_all fc s as canonical n = Inr rs"
  shows "distinct (map as_credential_id as)"
proof -
  have l: "list_all2 (assertion_genuine fc s canonical) as rs" and d: "distinct (map fr_signer rs)"
    using assms by (simp_all add: fido_verify_all_Inr)
  have "map fr_signer rs = map (\<lambda>cid. cr_signer (the (map_of (fs_by_id s) cid))) (map as_credential_id as)"
    using l by (induction rule: list_all2_induct) (auto simp: assertion_genuine_def Let_def)
  with d show ?thesis by (metis distinct_map)
qed

text \<open>
  Committing an accepted set of assertions never lowers a counter, of these
  credentials or of any other.
\<close>

theorem commit_never_lowers_a_counter:
  assumes "fido_verify_all fc s as canonical n = Inr rs"
  shows "last_count s cid \<le> last_count (commit s rs as) cid"
proof -
  from commit_counters_cases [of "fs_counters s" rs as cid]
  consider "map_of (commit_counters (fs_counters s) rs as) cid = map_of (fs_counters s) cid"
    | a r where "(a, r) \<in> set (zip as rs)" "as_credential_id a = cid" "fr_counter_checked r"
        "map_of (commit_counters (fs_counters s) rs as) cid = Some (fr_sign_count r)"
    by blast
  then show ?thesis
  proof cases
    case 1
    then show ?thesis by (simp add: last_count_def commit_def)
  next
    case 2
    then have "last_count (commit s rs as) cid = fr_sign_count r" by (simp add: last_count_def commit_def)
    then show ?thesis
      using genuine_counter(2) [OF accepted_pair [OF assms 2(1)]] 2 by simp
  qed
qed

text \<open>
  C24. No replay: once the counters of an accepted set of assertions are committed, the
  same assertions are refused, over the same manifest or another and whatever the
  threshold, if any of them went through the counter check.
\<close>

theorem committed_assertions_are_not_accepted_again:
  assumes "fido_verify_all fc s as canonical n = Inr rs" "r \<in> set rs" "fr_counter_checked r"
  shows "\<exists>e. fido_verify_all fc (commit s rs as) as canonical' n' = Inl e"
proof (rule ccontr)
  assume "\<nexists>e. fido_verify_all fc (commit s rs as) as canonical' n' = Inl e"
  then obtain rs' where again: "fido_verify_all fc (commit s rs as) as canonical' n' = Inr rs'"
    by (cases "fido_verify_all fc (commit s rs as) as canonical' n'") auto
  have len: "length as = length rs" "length as = length rs'"
    using assms(1) again by (auto simp: fido_verify_all_Inr dest: list_all2_lengthD)
  from assms(2) obtain k where k: "k < length rs" "rs ! k = r" by (auto simp: in_set_conv_nth)
  have p: "(as ! k, r) \<in> set (zip as rs)" "(as ! k, rs' ! k) \<in> set (zip as rs')"
    using k len by (auto simp: set_zip)
  note g = genuine_counter [OF accepted_pair [OF assms(1) p(1)]]
    and g' = genuine_counter [OF accepted_pair [OF again p(2)]]
  have "map_of (commit_counters (fs_counters s) rs as) (as_credential_id (as ! k)) = Some (fr_sign_count r)"
    by (rule commit_counters_at [OF accepted_credentials_distinct [OF assms(1)] p(1) assms(3)])
  then have "last_count (commit s rs as) (as_credential_id (as ! k)) = fr_sign_count r"
    by (simp add: last_count_def commit_def)
  then have "\<not> fr_counter_checked (rs' ! k)" using g(1) g'(1,2) by simp
  then have "fr_sign_count r = 0" using g(1) g'(1,3) by simp
  then show False using g(2) assms(3) by simp
qed

section \<open>An example\<close>

definition sample_crypto :: fido_crypto where
  "sample_crypto = \<lparr>fc_sha256 = \<lambda>_. replicate 32 CHR ''h'', fc_ed_verify = \<lambda>_ _ sig. sig = ''ok'',
     fc_p256_point = \<lambda>_. False, fc_ecdsa_verify = \<lambda>_ _ _. False\<rparr>"

definition sample_credential :: credential where
  "sample_credential = \<lparr>cr_id = ''c1'', cr_signer = ''pat'', cr_alg = alg_eddsa, cr_public_key = replicate 32 CHR ''k'',
     cr_rpid = ''arazu''\<rparr>"

definition sample_fido_store :: fido_store where
  "sample_fido_store = \<lparr>fs_policy = \<lparr>po_rpid = ''arazu'', po_require_uv = True, po_require_counter = True\<rparr>,
     fs_credentials = [sample_credential], fs_counters = [(''c1'', 6)], fs_by_id = [(''c1'', sample_credential)]\<rparr>"

definition sample_assertion :: assertion where
  "sample_assertion = \<lparr>as_credential_id = ''c1'',
     as_auth_data = replicate 32 CHR ''h'' @ [CHR 0x05, CHR 0x00, CHR 0x00, CHR 0x00, CHR 0x07], as_signature = ''ok''\<rparr>"

definition sample_fido_result :: fido_result where
  "sample_fido_result = \<lparr>fr_signer = ''pat'', fr_sign_count = 7, fr_counter_checked = True, fr_user_verified = True\<rparr>"

lemma sample_assertion_accepted:
  "fido_verify_all sample_crypto sample_fido_store [sample_assertion] ''m'' 1 = Inr [sample_fido_result]"
proof -
  have b: "as_auth_data sample_assertion ! 32 = CHR 0x05"
      "drop 33 (as_auth_data sample_assertion) = [CHR 0x00, CHR 0x00, CHR 0x00, CHR 0x07]"
      "take 32 (as_auth_data sample_assertion) = replicate 32 CHR ''h''" "length (as_auth_data sample_assertion) = 37"
    by (simp_all add: sample_assertion_def nth_append)
  have a: "as_credential_id sample_assertion = ''c1''" "as_signature sample_assertion = ''ok''"
    by (simp_all add: sample_assertion_def)
  have f: "has_flag (of_nat (code (CHR 0x05))) flag_up" "has_flag (of_nat (code (CHR 0x05))) flag_uv"
    by (simp_all add: has_flag_def flag_up_def flag_uv_def code_def)
  have c: "big_endian32 [CHR 0x00, CHR 0x00, CHR 0x00, CHR 0x07] = 7"
    by (simp add: big_endian32_def code_def)
  have "assertion_genuine sample_crypto sample_fido_store ''m'' sample_assertion sample_fido_result"
    unfolding assertion_genuine_def b f c
    by (rule exI [of _ sample_credential])
      (simp add: a sample_fido_store_def sample_credential_def sample_crypto_def sample_fido_result_def
        genuine_signature_def last_count_def f c b Let_def)
  then show ?thesis by (simp add: fido_verify_all_Inr)
qed

theorem commit_never_lowers_a_counter_witness:
  "last_count sample_fido_store ''c1'' \<le> last_count (commit sample_fido_store [sample_fido_result] [sample_assertion]) ''c1''"
  by (rule commit_never_lowers_a_counter [OF sample_assertion_accepted])

theorem committed_assertions_are_not_accepted_again_witness:
  "\<exists>e. fido_verify_all sample_crypto (commit sample_fido_store [sample_fido_result] [sample_assertion]) [sample_assertion] ''n'' 1 = Inl e"
  by (rule committed_assertions_are_not_accepted_again [OF sample_assertion_accepted, of sample_fido_result])
    (simp_all add: sample_fido_result_def)

end
