(* ===== verification/Content_Store.thy ===== *)
theory Content_Store
  imports Manifest Go_Path "HOL-Library.AList"
begin

text \<open>
  The content store of a bundle (pkg/contentstore/contentstore.go): the content root that
  is measured, the walk over a directory, the path check, the check of an unpacked bundle
  against its manifest and the measurement of a bundle from disk.

  A directory tree is a \<open>node\<close>.  Its entries stand in the order \<open>os.ReadDir\<close> lists
  them, by name.  What lies behind a symbolic link is outside the tree: \<open>fo target names\<close>
  is the node found by resolving \<open>names\<close> from there.  SHA-256 is the parameter \<open>sha\<close>,
  and \<open>srt\<close> the order \<open>sort.Slice\<close> computes, as in \<open>Manifest\<close>.
\<close>

section \<open>The content root\<close>

definition nul :: char where "nul = CHR 0x00"

definition content_root_domain :: string where
  "content_root_domain = ''arazu-content-root-v1'' @ [newline]"

definition content_line :: "mfile \<Rightarrow> string" where
  "content_line f = mf_path f @ [nul] @ mf_sha256 f @ [nul] @ int_dec (mf_size f) @ [newline]"

definition content_text :: "(mfile list \<Rightarrow> mfile list) \<Rightarrow> mfile list \<Rightarrow> string" where
  "content_text srt fs = content_root_domain @ concat (map content_line (srt fs))"

definition content_root :: "(mfile list \<Rightarrow> mfile list) \<Rightarrow> (string \<Rightarrow> string) \<Rightarrow> mfile list \<Rightarrow> string" where
  "content_root srt sha fs = hex_encode (sha (content_text srt fs))"

section \<open>Trees\<close>

datatype node =
    Reg string
  | Locked
  | Dir "(string \<times> node) list"
  | ShutDir
  | Link string
  | Special

text \<open>\<open>Locked\<close> is a regular file that cannot be opened, \<open>ShutDir\<close> a directory that cannot be read.\<close>

type_synonym follow = "string \<Rightarrow> string list \<Rightarrow> node option"

datatype content_error =
    HashMismatch string
  | UnmanifestedFile string
  | MissingFile string
  | AllowlistViolation string
  | UnsafePath string
  | ContentIO string

definition rel_path :: "string list \<Rightarrow> string" where
  "rel_path ns = (if ns = [] then ''.'' else join_with ''/'' ns)"

text \<open>Hashing a regular file.\<close>

definition file_at :: "(string \<Rightarrow> string) \<Rightarrow> string list \<Rightarrow> string \<Rightarrow> mfile" where
  "file_at sha ns c = \<lparr>mf_path = rel_path ns, mf_sha256 = hex_encode (sha c), mf_size = int (length c)\<rparr>"

fun walk :: "(string \<Rightarrow> string) \<Rightarrow> string list \<Rightarrow> node \<Rightarrow> (content_error, mfile list) result"
and walk_entries :: "(string \<Rightarrow> string) \<Rightarrow> string list \<Rightarrow> (string \<times> node) list \<Rightarrow> (content_error, mfile list) result" where
  "walk sha ns (Reg c) = Inr [file_at sha ns c]"
| "walk sha ns Locked = Inl (ContentIO (rel_path ns))"
| "walk sha ns (Dir es) = walk_entries sha ns es"
| "walk sha ns ShutDir = Inl (ContentIO (rel_path ns))"
| "walk sha ns (Link t) = Inl (UnsafePath (rel_path ns))"
| "walk sha ns Special = Inl (UnsafePath (rel_path ns))"
| "walk_entries sha ns [] = Inr []"
| "walk_entries sha ns ((n, x) # es) =
     try_bind (walk sha (ns @ [n]) x) (\<lambda>fs.
     try_bind (walk_entries sha ns es) (\<lambda>gs. Inr (fs @ gs)))"

definition scan_dir :: "(mfile list \<Rightarrow> mfile list) \<Rightarrow> (string \<Rightarrow> string) \<Rightarrow> node option \<Rightarrow> (content_error, mfile list) result" where
  "scan_dir srt sha root =
     (case root of
        None \<Rightarrow> Inl (ContentIO ''no such file or directory'')
      | Some x \<Rightarrow> try_bind (walk sha [] x) (\<lambda>fs. Inr (srt fs)))"

text \<open>What is at a path below a node, a symbolic link at its end not followed.\<close>

fun find_at :: "follow \<Rightarrow> node \<Rightarrow> string list \<Rightarrow> node option" where
  "find_at fo x [] = Some x"
| "find_at fo (Dir es) (n # ns) = (case map_of es n of None \<Rightarrow> None | Some y \<Rightarrow> find_at fo y ns)"
| "find_at fo (Link t) (n # ns) = fo t (n # ns)"
| "find_at fo x (n # ns) = None"

text \<open>Opening follows a link at the end too.\<close>

definition open_at :: "follow \<Rightarrow> node \<Rightarrow> string list \<Rightarrow> string option" where
  "open_at fo x ns =
     (case find_at fo x ns of
        Some (Reg c) \<Rightarrow> Some c
      | Some (Link t) \<Rightarrow> (case fo t [] of Some (Reg c) \<Rightarrow> Some c | _ \<Rightarrow> None)
      | _ \<Rightarrow> None)"

section \<open>Checking a bundle\<close>

definition check_path :: "string \<Rightarrow> string list \<Rightarrow> (content_error, unit) result" where
  "check_path p allow =
     (if p = [] then Inl (UnsafePath p)
      else if is_abs p \<or> has_prefix p ''/'' then Inl (UnsafePath p)
      else if clean p \<noteq> p then Inl (UnsafePath p)
      else if ''..'' \<in> set (split_char slash p) then Inl (UnsafePath p)
      else if list_ex (has_prefix p) allow then Inr ()
      else Inl (AllowlistViolation p))"

definition path_elems :: "string \<Rightarrow> string list" where
  "path_elems p = (if p = ''.'' then [] else split_char slash p)"

definition check_present :: "follow \<Rightarrow> node \<Rightarrow> mfile \<Rightarrow> (content_error, unit) result" where
  "check_present fo root f =
     (case find_at fo root (path_elems (mf_path f)) of
        None \<Rightarrow> Inl (MissingFile (mf_path f))
      | Some (Reg c) \<Rightarrow> Inr ()
      | Some Locked \<Rightarrow> Inr ()
      | Some x \<Rightarrow> Inl (UnsafePath (mf_path f)))"

definition check_content :: "(string \<Rightarrow> string) \<Rightarrow> follow \<Rightarrow> node \<Rightarrow> mfile \<Rightarrow> (content_error, unit) result" where
  "check_content sha fo root f =
     (case open_at fo root (path_elems (mf_path f)) of
        None \<Rightarrow> Inl (HashMismatch (mf_path f))
      | Some c \<Rightarrow>
          if hex_encode (sha c) \<noteq> mf_sha256 f then Inl (HashMismatch (mf_path f))
          else ensure (int (length c) = mf_size f) (HashMismatch (mf_path f)))"

definition is_bundle_metadata :: "string \<Rightarrow> bool" where
  "is_bundle_metadata p = (p = ''manifest.json'' \<or> p = ''manifest.sig'')"

definition check_listed :: "string list \<Rightarrow> mfile \<Rightarrow> (content_error, unit) result" where
  "check_listed listed f =
     ensure (is_bundle_metadata (mf_path f) \<or> mf_path f \<in> set listed) (UnmanifestedFile (mf_path f))"

definition verify_against :: "(mfile list \<Rightarrow> mfile list) \<Rightarrow> (string \<Rightarrow> string) \<Rightarrow> follow \<Rightarrow> node option \<Rightarrow> mfile list \<Rightarrow>
    string list \<Rightarrow> (content_error, unit) result" where
  "verify_against srt sha fo root files allow =
     try_bind (check_all (\<lambda>f. check_path (mf_path f) allow) files) (\<lambda>_.
     try_bind (scan_dir srt sha root) (\<lambda>present.
     try_bind (check_all (check_present fo (the root)) files) (\<lambda>_.
     try_bind (check_all (check_content sha fo (the root)) files) (\<lambda>_.
     check_all (check_listed (map mf_path files)) present))))"

definition measure_bundle :: "(mfile list \<Rightarrow> mfile list) \<Rightarrow> (string \<Rightarrow> string) \<Rightarrow> node option \<Rightarrow>
    (content_error, mfile list \<times> string) result" where
  "measure_bundle srt sha root =
     try_bind (scan_dir srt sha root) (\<lambda>all.
       let payload = filter (\<lambda>f. \<not> is_bundle_metadata (mf_path f)) all
       in Inr (payload, content_root srt sha payload))"

section \<open>Paths\<close>

text \<open>Directory entries have names of their own, which the kernel keeps free of slashes and NULs.\<close>

definition entry_name :: "string \<Rightarrow> bool" where
  "entry_name n = (plain_elem n \<and> nul \<notin> set n)"

fun wf_node :: "node \<Rightarrow> bool" and wf_entries :: "(string \<times> node) list \<Rightarrow> bool" where
  "wf_node (Dir es) = wf_entries es"
| "wf_node x = True"
| "wf_entries [] = True"
| "wf_entries ((n, x) # es) = (entry_name n \<and> n \<notin> set (map fst es) \<and> wf_node x \<and> wf_entries es)"

lemma plain_path_facts: "plain_path p \<Longrightarrow> p \<noteq> [] \<and> \<not> is_abs p \<and> p \<noteq> ''.'' \<and> ''..'' \<notin> set (split_char slash p)"
proof (intro conjI notI)
  assume p: "plain_path p"
  then have e: "e \<in> set (split_char slash p) \<Longrightarrow> plain_elem e" for e by (simp add: plain_path_def list_all_iff)
  {
    assume "p = []"
    then have "[] \<in> set (split_char slash p)" by simp
    then show False using e [of "[]"] by (simp add: plain_elem_def)
  next
    assume "is_abs p"
    then obtain q where "p = CHR ''/'' # q" by (auto simp: is_abs_def has_prefix_iff)
    then have "[] \<in> set (split_char slash p)" by simp
    then show False using e [of "[]"] by (simp add: plain_elem_def)
  next
    assume "p = ''.''"
    then have "''.'' \<in> set (split_char slash p)" by simp
    then show False using e [of "''.''"] by (simp add: plain_elem_def)
  next
    assume "''..'' \<in> set (split_char slash p)"
    then show False using e [of "''..''"] by (simp add: plain_elem_def)
  }
qed

lemma check_path_plain:
  "check_path p allow =
     (if plain_path p \<or> p = ''.'' then
        (if \<exists>a\<in>set allow. has_prefix p a then Inr () else Inl (AllowlistViolation p))
      else Inl (UnsafePath p))"
proof (cases "plain_path p \<or> p = ''.''")
  case True
  have "p \<noteq> [] \<and> \<not> is_abs p \<and> clean p = p \<and> ''..'' \<notin> set (split_char slash p)"
  proof (cases "p = ''.''")
    case True
    then show ?thesis by (simp add: clean_def is_abs_def clean_elems_def)
  next
    case False
    with True have "plain_path p" by simp
    then show ?thesis using clean_plain [of p] plain_path_facts [of p] by blast
  qed
  with True show ?thesis by (simp add: check_path_def is_abs_def list_ex_iff del: split_char.simps)
next
  case False
  then have "\<not> (clean p = p \<and> \<not> is_abs p \<and> ''..'' \<notin> set (split_char slash p))"
    using clean_fixed_plain by blast
  with False show ?thesis by (auto simp: check_path_def)
qed

text \<open>
  The path check accepts exactly the paths below the store under an allowed prefix:
  those whose every element names something (none empty, \<open>.\<close> or \<open>..\<close>), so that
  following them from the root never leaves it, and the root \<open>.\<close> itself; everything else
  is an unsafe path, whatever the allowlist says, and a good path outside the prefixes an
  allowlist violation.
\<close>

theorem check_path_accepts_plain_paths:
  "check_path p allow =
     (if plain_path p \<or> p = ''.'' then
        (if \<exists>a\<in>set allow. has_prefix p a then Inr () else Inl (AllowlistViolation p))
      else Inl (UnsafePath p))"
  by (rule check_path_plain)

section \<open>The walk\<close>

lemma wf_entries_distinct: "wf_entries es \<Longrightarrow> distinct (map fst es)"
proof (induction es)
  case (Cons e es)
  then show ?case by (cases e) simp
qed simp

lemma wf_entries_in: "wf_entries es \<Longrightarrow> (n, x) \<in> set es \<Longrightarrow> entry_name n \<and> wf_node x"
  by (induction es) auto

lemma find_at_Dir:
  assumes "wf_entries es"
  shows "find_at fo (Dir es) ms = Some y \<longleftrightarrow>
    ms = [] \<and> y = Dir es \<or> (\<exists>n x ms'. ms = n # ms' \<and> (n, x) \<in> set es \<and> find_at fo x ms' = Some y)"
proof (cases ms)
  case (Cons n ms')
  have m: "map_of es n = Some x \<longleftrightarrow> (n, x) \<in> set es" for x
    by (rule map_of_eq_Some_iff [OF wf_entries_distinct [OF assms]])
  show ?thesis
  proof (cases "map_of es n")
    case None
    then show ?thesis using m Cons by auto
  next
    case (Some x)
    then have "(n, x') \<in> set es \<longleftrightarrow> x' = x" for x' using m [of x'] by auto
    with Some Cons show ?thesis by auto
  qed
qed auto

text \<open>What a walk leaves behind: regular files and directories.\<close>

fun is_walked :: "node \<Rightarrow> bool" where
  "is_walked (Reg c) = True"
| "is_walked (Dir es) = True"
| "is_walked x = False"

lemma walk_found:
  "walk sha ns x = Inr fs \<Longrightarrow> wf_node x \<Longrightarrow>
     set fs = {f. \<exists>ms c. find_at fo x ms = Some (Reg c) \<and> f = file_at sha (ns @ ms) c} \<and>
     (\<forall>ms y. find_at fo x ms = Some y \<longrightarrow> list_all entry_name ms \<and> is_walked y)"
  "walk_entries sha ns es = Inr fs \<Longrightarrow> wf_entries es \<Longrightarrow>
     set fs = {f. \<exists>n x ms c. (n, x) \<in> set es \<and> find_at fo x ms = Some (Reg c) \<and> f = file_at sha (ns @ n # ms) c} \<and>
     (\<forall>n x ms y. (n, x) \<in> set es \<and> find_at fo x ms = Some y \<longrightarrow> list_all entry_name ms \<and> is_walked y)"
proof (induction sha ns x and sha ns es arbitrary: fs and fs rule: walk_walk_entries.induct)
  case (1 sha ns c)
  have "find_at fo (Reg c) ms = Some y \<longleftrightarrow> ms = [] \<and> y = Reg c" for ms y by (cases ms) auto
  with 1 show ?case by auto
next
  case (3 sha ns es)
  then have wf: "wf_entries es" by simp
  note IH = 3(1) [OF 3(2) [simplified] wf]
  have "list_all entry_name ms \<and> is_walked y" if y: "find_at fo (Dir es) ms = Some y" for ms y
  proof (cases "ms = []")
    case False
    with y obtain n x ms' where m: "ms = n # ms'" "(n, x) \<in> set es" "find_at fo x ms' = Some y"
      unfolding find_at_Dir [OF wf] by blast
    with IH [THEN conjunct2] wf_entries_in [OF wf m(2)] show ?thesis by simp
  qed (use y in auto)
  moreover have "set fs = {f. \<exists>ms c. find_at fo (Dir es) ms = Some (Reg c) \<and> f = file_at sha (ns @ ms) c}"
    unfolding IH [THEN conjunct1] find_at_Dir [OF wf] by blast
  ultimately show ?case by blast
next
  case (8 sha ns n x es)
  from 8(3) obtain gs hs where g: "walk sha (ns @ [n]) x = Inr gs" and h: "walk_entries sha ns es = Inr hs"
      and fs: "fs = gs @ hs"
    by (auto simp: result_simps)
  have wf: "wf_node x" "wf_entries es" using 8(4) by auto
  note a = 8(1) [OF g wf(1)] and b = 8(2) [OF h wf(2)]
  have "set fs = {f. \<exists>n' x' ms c. (n', x') \<in> set ((n, x) # es) \<and> find_at fo x' ms = Some (Reg c) \<and> f = file_at sha (ns @ n' # ms) c}"
    unfolding fs set_append a [THEN conjunct1] b [THEN conjunct1] list.set(2) append_assoc append_Cons append_Nil by blast
  then show ?case using a [THEN conjunct2] b [THEN conjunct2] by fastforce
qed simp_all

lemma entry_names_plain: "list_all entry_name ms \<Longrightarrow> list_all plain_elem ms"
  by (auto simp: list_all_iff entry_name_def)

lemma path_elems_rel: "list_all plain_elem ms \<Longrightarrow> path_elems (rel_path ms) = ms"
proof (cases "ms = []")
  case False
  assume p: "list_all plain_elem ms"
  have s: "split_char slash (join_with ''/'' ms) = ms"
    by (rule split_join_elems [OF False plain_no_slash [OF p]])
  have "join_with ''/'' ms \<noteq> ''.''"
  proof
    assume "join_with ''/'' ms = ''.''"
    then have "ms = [''.'']" using s by simp
    with p show False by (simp add: plain_elem_def)
  qed
  with s False show ?thesis by (simp add: path_elems_def rel_path_def)
qed (simp add: path_elems_def rel_path_def)

lemma rel_path_elems: "plain_path p \<or> p = ''.'' \<Longrightarrow> rel_path (path_elems p) = p"
  using join_split_char [of slash p] by (auto simp: path_elems_def rel_path_def)

text \<open>Writing an entry into a directory.\<close>

lemma update_entries:
  assumes "distinct (map fst es)"
  shows "distinct (map fst (AList.update k v es))"
    and "set (AList.update k v es) = insert (k, v) {e \<in> set es. fst e \<noteq> k}"
proof -
  show d: "distinct (map fst (AList.update k v es))" by (rule distinct_update [OF assms])
  show "set (AList.update k v es) = insert (k, v) {e \<in> set es. fst e \<noteq> k}"
  proof (rule set_eqI)
    fix e :: "'a \<times> 'b"
    obtain a b where e: "e = (a, b)" by (cases e)
    have "e \<in> set (AList.update k v es) \<longleftrightarrow> map_of (AList.update k v es) a = Some b"
      by (simp add: e map_of_eq_Some_iff [OF d])
    also have "\<dots> \<longleftrightarrow> (if a = k then b = v else map_of es a = Some b)" by (auto simp: update_conv')
    also have "\<dots> \<longleftrightarrow> e \<in> insert (k, v) {e \<in> set es. fst e \<noteq> k}"
      by (auto simp: e map_of_eq_Some_iff [OF assms])
    finally show "e \<in> set (AList.update k v es) \<longleftrightarrow> e \<in> insert (k, v) {e \<in> set es. fst e \<noteq> k}" .
  qed
qed

lemma wf_entries_iff: "wf_entries es \<longleftrightarrow> distinct (map fst es) \<and> (\<forall>(n, x)\<in>set es. entry_name n \<and> wf_node x)"
proof (induction es)
  case (Cons e es)
  then show ?case by (cases e) (simp, blast)
qed simp

lemma walk_entries_ok: "(\<exists>fs. walk_entries sha ns es = Inr fs) \<longleftrightarrow> (\<forall>(n, x)\<in>set es. \<exists>fs. walk sha (ns @ [n]) x = Inr fs)"
proof (induction es)
  case (Cons e es)
  obtain n x where e: "e = (n, x)" by (cases e)
  show ?case
    using Cons.IH by (cases "walk sha (ns @ [n]) x"; cases "walk_entries sha ns es") (auto simp: e)
qed simp

section \<open>What the check establishes\<close>

text \<open>A walked tree, its files and their records.\<close>

lemma walked_tree:
  assumes "walk sha [] root = Inr all" "wf_node root"
  shows "f \<in> set all \<longleftrightarrow> (\<exists>ms c. find_at fo root ms = Some (Reg c) \<and> f = file_at sha ms c)"
    and "find_at fo root ms = Some y \<Longrightarrow> list_all plain_elem ms \<and> is_walked y"
proof -
  note w = walk_found(1) [OF assms, of fo]
  show "f \<in> set all \<longleftrightarrow> (\<exists>ms c. find_at fo root ms = Some (Reg c) \<and> f = file_at sha ms c)"
    unfolding w [THEN conjunct1] by simp
  show "find_at fo root ms = Some y \<Longrightarrow> list_all plain_elem ms \<and> is_walked y"
    using w [THEN conjunct2] entry_names_plain by blast
qed

lemma walked_file:
  assumes "walk sha [] root = Inr all" "wf_node root"
  shows "f \<in> set all \<longleftrightarrow> (\<exists>c. find_at fo root (path_elems (mf_path f)) = Some (Reg c) \<and>
      rel_path (path_elems (mf_path f)) = mf_path f \<and> mf_sha256 f = hex_encode (sha c) \<and> mf_size f = int (length c))"
  (is "_ \<longleftrightarrow> ?rhs")
proof
  assume "f \<in> set all"
  then obtain ms c where m: "find_at fo root ms = Some (Reg c)" "f = file_at sha ms c"
    using walked_tree(1) [OF assms, of f fo] by blast
  then have "path_elems (mf_path f) = ms"
    using walked_tree(2) [OF assms m(1)] by (simp add: file_at_def path_elems_rel)
  with m show ?rhs by (simp add: file_at_def)
next
  assume ?rhs
  then obtain c where c: "find_at fo root (path_elems (mf_path f)) = Some (Reg c)"
      and "f = file_at sha (path_elems (mf_path f)) c" by (auto simp: file_at_def)
  then show "f \<in> set all" using walked_tree(1) [OF assms, of f fo] by blast
qed

lemma walked_paths_distinct:
  assumes "walk sha [] root = Inr all" "wf_node root" "f \<in> set all" "g \<in> set all" "mf_path f = mf_path g"
  shows "f = g"
  using assms(3,4) unfolding walked_file [OF assms(1,2), of _ "\<lambda>_ _. None"] using assms(5) by auto

lemma check_content_walked:
  assumes "walk sha [] root = Inr all" "wf_node root" "check_path (mf_path f) allow = Inr ()"
  shows "check_present fo root f = Inr () \<and> check_content sha fo root f = Inr () \<longleftrightarrow> f \<in> set all"
proof -
  have r: "rel_path (path_elems (mf_path f)) = mf_path f"
    using assms(3) by (intro rel_path_elems) (auto simp: check_path_plain split: if_splits)
  let ?x = "find_at fo root (path_elems (mf_path f))"
  consider "?x = None" | c where "?x = Some (Reg c)" | es where "?x = Some (Dir es)"
    using walked_tree(2) [OF assms(1,2), of fo "path_elems (mf_path f)"]
    by (metis is_walked.elims(2) option.exhaust)
  then show ?thesis
    unfolding walked_file [OF assms(1,2), of f fo]
    by cases (auto simp: check_present_def check_content_def open_at_def r result_simps)
qed

lemma verify_against_sets:
  assumes "sorts_files srt" "wf_node root"
  shows "verify_against srt sha fo (Some root) files allow = Inr () \<longleftrightarrow>
    (\<forall>f\<in>set files. check_path (mf_path f) allow = Inr ()) \<and>
    (\<exists>all. walk sha [] root = Inr all \<and> set files \<subseteq> set all \<and>
       (\<forall>f\<in>set all. is_bundle_metadata (mf_path f) \<or> f \<in> set files))"
proof (cases "walk sha [] root")
  case (Inl e)
  then show ?thesis by (simp add: verify_against_def scan_dir_def result_simps)
next
  case (Inr all)
  have v: "verify_against srt sha fo (Some root) files allow = Inr () \<longleftrightarrow>
      (\<forall>f\<in>set files. check_path (mf_path f) allow = Inr ()) \<and> (\<forall>f\<in>set files. check_present fo root f = Inr ()) \<and>
      (\<forall>f\<in>set files. check_content sha fo root f = Inr ()) \<and>
      (\<forall>f\<in>set all. is_bundle_metadata (mf_path f) \<or> mf_path f \<in> mf_path ` set files)"
    unfolding verify_against_def scan_dir_def
    by (simp add: Inr result_simps check_listed_def sorts_files_set [OF assms(1)])
  show ?thesis
  proof (cases "\<forall>f\<in>set files. check_path (mf_path f) allow = Inr ()")
    case True
    then have "(\<forall>f\<in>set files. check_present fo root f = Inr ()) \<and> (\<forall>f\<in>set files. check_content sha fo root f = Inr ()) \<longleftrightarrow>
        set files \<subseteq> set all"
      using check_content_walked [OF Inr assms(2), of _ allow fo] by blast
    then have "verify_against srt sha fo (Some root) files allow = Inr () \<longleftrightarrow> set files \<subseteq> set all \<and>
        (\<forall>f\<in>set all. is_bundle_metadata (mf_path f) \<or> mf_path f \<in> mf_path ` set files)"
      unfolding v using True by blast
    also have "\<dots> \<longleftrightarrow> set files \<subseteq> set all \<and> (\<forall>f\<in>set all. is_bundle_metadata (mf_path f) \<or> f \<in> set files)"
    proof (rule conj_cong [OF refl], rule ball_cong [OF refl])
      fix f assume s: "set files \<subseteq> set all" and f: "f \<in> set all"
      have "mf_path f \<in> mf_path ` set files \<longleftrightarrow> f \<in> set files"
      proof
        assume "mf_path f \<in> mf_path ` set files"
        then obtain g where g: "g \<in> set files" "mf_path f = mf_path g" by blast
        with walked_paths_distinct [OF Inr assms(2) f] s show "f \<in> set files" by blast
      qed simp
      then show "(is_bundle_metadata (mf_path f) \<or> mf_path f \<in> mf_path ` set files) =
          (is_bundle_metadata (mf_path f) \<or> f \<in> set files)" by simp
    qed
    finally show ?thesis using True Inr by simp
  next
    case False
    then show ?thesis unfolding v by blast
  qed
qed

text \<open>
  C19. A bundle is accepted exactly when its manifest and its tree say the same: every
  listed path is safe and allowed, the tree holds only directories and regular files that
  can be read (no symbolic link anywhere), each listed file is one of the tree with this
  digest and size, and every file of the tree but the manifest and its signatures is
  listed.  So the verdict does not depend on where symbolic links would lead.
\<close>

theorem verify_against_iff_same_files:
  assumes "sorts_files srt" "wf_node root"
  shows "verify_against srt sha fo (Some root) files allow = Inr () \<longleftrightarrow>
    (\<forall>f\<in>set files. (plain_path (mf_path f) \<or> mf_path f = ''.'') \<and> (\<exists>a\<in>set allow. has_prefix (mf_path f) a)) \<and>
    (\<exists>all. walk sha [] root = Inr all \<and> set files \<subseteq> set all \<and>
       (\<forall>f\<in>set all. is_bundle_metadata (mf_path f) \<or> f \<in> set files))"
proof -
  have "check_path p allow = Inr () \<longleftrightarrow> (plain_path p \<or> p = ''.'') \<and> (\<exists>a\<in>set allow. has_prefix p a)" for p
    unfolding check_path_plain by simp
  then show ?thesis unfolding verify_against_sets [OF assms] by simp
qed

section \<open>Measuring\<close>

lemma scan_all: "scan_dir srt sha (Some root) = Inr fs \<longleftrightarrow> (\<exists>all. walk sha [] root = Inr all \<and> fs = srt all)"
  by (auto simp: scan_dir_def result_simps)

lemma walk_distinct:
  "walk sha ns x = Inr fs \<Longrightarrow> wf_node x \<Longrightarrow> list_all plain_elem ns \<Longrightarrow> distinct (map mf_path fs)"
  "walk_entries sha ns es = Inr fs \<Longrightarrow> wf_entries es \<Longrightarrow> list_all plain_elem ns \<Longrightarrow> distinct (map mf_path fs)"
proof (induction sha ns x and sha ns es arbitrary: fs and fs rule: walk_walk_entries.induct)
  case (8 sha ns n x es)
  from 8(3) obtain gs hs where g: "walk sha (ns @ [n]) x = Inr gs" and h: "walk_entries sha ns es = Inr hs"
      and fs: "fs = gs @ hs"
    by (auto simp: result_simps)
  have wf: "wf_node x" "wf_entries es" "n \<notin> set (map fst es)" "plain_elem n" using 8(4) by (auto simp: entry_name_def)
  have pl: "list_all plain_elem (ns @ [n])" using 8(5) wf(4) by simp
  have d: "distinct (map mf_path gs)" "distinct (map mf_path hs)"
    using 8(1) [OF g wf(1) pl] 8(2) [OF h wf(2) 8(5)] by blast+
  have "mf_path f \<noteq> mf_path f'" if f: "f \<in> set gs" and f': "f' \<in> set hs" for f f'
  proof -
    define fo :: follow where "fo = (\<lambda>_ _. None)"
    obtain ms c where m: "find_at fo x ms = Some (Reg c)" "f = file_at sha ((ns @ [n]) @ ms) c"
      using f walk_found(1) [OF g wf(1), of fo] by blast
    obtain n' x' ms' c' where m': "(n', x') \<in> set es" "find_at fo x' ms' = Some (Reg c')" "f' = file_at sha (ns @ n' # ms') c'"
      using f' walk_found(2) [OF h wf(2), of fo] by blast
    have "list_all plain_elem (ns @ n # ms)" "list_all plain_elem (ns @ n' # ms')"
      using pl m m' walk_found(1) [OF g wf(1), of fo] walk_found(2) [OF h wf(2), of fo] wf_entries_in [OF wf(2) m'(1)]
        entry_names_plain by (auto simp: entry_name_def)
    then have "path_elems (mf_path f) = ns @ n # ms" "path_elems (mf_path f') = ns @ n' # ms'"
      using m(2) m'(3) by (simp_all add: file_at_def path_elems_rel)
    moreover have "n \<noteq> n'" using m'(1) wf(3) by force
    ultimately show ?thesis by (metis append_same_eq list.inject same_append_eq)
  qed
  then show ?case using d unfolding fs by fastforce
qed simp_all

lemma filter_sorted_files:
  assumes "sorts_files srt"
  shows "sorted (map mf_path (filter P (srt fs)))"
  using assms by (auto simp: sorts_files_def intro: sorted_filter)

text \<open>What is measured from disk is the payload, in the order the gate hashes it in.\<close>

lemma measured_payload:
  assumes "sorts_files srt" "wf_node root" "walk sha [] root = Inr all"
  defines "payload \<equiv> filter (\<lambda>f. \<not> is_bundle_metadata (mf_path f)) (srt all)"
  shows "measure_bundle srt sha (Some root) = Inr (payload, content_root srt sha payload)"
    and "sorted (map mf_path payload)" "distinct (map mf_path payload)" "srt payload = payload"
    and "set payload = {f \<in> set all. \<not> is_bundle_metadata (mf_path f)}"
proof -
  show "measure_bundle srt sha (Some root) = Inr (payload, content_root srt sha payload)"
    by (simp add: measure_bundle_def scan_dir_def assms(3) payload_def Let_def)
  show s: "sorted (map mf_path payload)" unfolding payload_def by (rule filter_sorted_files [OF assms(1)])
  have "mset (map mf_path (srt all)) = mset (map mf_path all)" using assms(1) by (simp add: sorts_files_def)
  then have "distinct (map mf_path (srt all))"
    using walk_distinct(1) [OF assms(3,2)] mset_eq_imp_distinct_iff by fastforce
  then show d: "distinct (map mf_path payload)" unfolding payload_def by (rule distinct_map_filter)
  show "srt payload = payload" by (rule sorts_files_id [OF assms(1) s d])
  show "set payload = {f \<in> set all. \<not> is_bundle_metadata (mf_path f)}"
    by (simp add: payload_def sorts_files_set [OF assms(1)])
qed

lemma accepted_payload:
  assumes "sorts_files srt" "wf_node root" "verify_against srt sha fo (Some root) files allow = Inr ()"
    and "distinct (map mf_path files)" "\<forall>f\<in>set files. \<not> is_bundle_metadata (mf_path f)"
  shows "measure_bundle srt sha (Some root) = Inr (srt files, content_root srt sha files)"
proof -
  obtain all where all: "walk sha [] root = Inr all" "set files \<subseteq> set all"
      "\<forall>f\<in>set all. is_bundle_metadata (mf_path f) \<or> f \<in> set files"
    using assms(3) verify_against_sets [OF assms(1,2)] by blast
  note m = measured_payload [OF assms(1,2) all(1)]
  let ?p = "filter (\<lambda>f. \<not> is_bundle_metadata (mf_path f)) (srt all)"
  have sf: "mset (srt files) = mset files" "sorted (map mf_path (srt files))"
    using assms(1) by (simp_all add: sorts_files_def)
  have "set ?p = set files" using all(2,3) assms(5) unfolding m(5) by blast
  moreover have "distinct ?p" "distinct files" using m(3) assms(4) by (simp_all add: distinct_map)
  ultimately have e: "mset ?p = mset files" using set_eq_iff_mset_eq_distinct by blast
  have "mset (map mf_path (srt files)) = mset (map mf_path ?p)" using sf(1) e by simp
  then have "map mf_path (srt files) = map mf_path ?p"
    by (metis m(2) sf(2) properties_for_sort)
  moreover have "inj_on mf_path (set (srt files) \<union> set ?p)"
    using assms(4) \<open>set ?p = set files\<close> sorts_files_set [OF assms(1)] by (simp add: distinct_map)
  ultimately have p: "srt files = ?p" by (rule map_inj_on)
  then have "content_root srt sha files = content_root srt sha ?p"
    using m(4) by (simp add: content_root_def content_text_def)
  with m(1) p show ?thesis by simp
qed

text \<open>
  The gate and the measurement at run time agree: for a manifest that lists each
  payload path once, a bundle the gate accepts measures from disk to the files of the
  manifest and to the very content root the gate computed from the manifest.
\<close>

theorem accepted_bundle_measures_to_the_gates_root:
  assumes "sorts_files srt" "wf_node root" "verify_against srt sha fo (Some root) files allow = Inr ()"
    and "distinct (map mf_path files)" "\<forall>f\<in>set files. \<not> is_bundle_metadata (mf_path f)"
  shows "measure_bundle srt sha (Some root) = Inr (srt files, content_root srt sha files)"
  by (rule accepted_payload [OF assms])

section \<open>Tampering\<close>

lemma split_at_eq: "(a :: string) @ d # s = b @ d # t \<Longrightarrow> d \<notin> set a \<Longrightarrow> d \<notin> set b \<Longrightarrow> a = b \<and> s = t"
  by (metis cut_char_append option.inject prod.inject)

definition content_plain :: "mfile \<Rightarrow> bool" where
  "content_plain f = (nul \<notin> set (mf_path f) \<and> nul \<notin> set (mf_sha256 f) \<and> 0 \<le> mf_size f)"

lemma content_line_inj:
  assumes "content_line f @ s = content_line g @ t" "content_plain f" "content_plain g"
  shows "f = g \<and> s = t"
proof -
  have a: "mf_path f @ nul # (mf_sha256 f @ nul # (int_dec (mf_size f) @ newline # s)) =
      mf_path g @ nul # (mf_sha256 g @ nul # (int_dec (mf_size g) @ newline # t))"
    using assms(1) by (simp add: content_line_def)
  have p: "mf_path f = mf_path g"
    and b: "mf_sha256 f @ nul # (int_dec (mf_size f) @ newline # s) = mf_sha256 g @ nul # (int_dec (mf_size g) @ newline # t)"
    using split_at_eq [OF a] assms(2,3) unfolding content_plain_def by blast+
  have h: "mf_sha256 f = mf_sha256 g" and c: "int_dec (mf_size f) @ newline # s = int_dec (mf_size g) @ newline # t"
    using split_at_eq [OF b] assms(2,3) unfolding content_plain_def by blast+
  have d: "int_dec (mf_size f) = nat_dec (nat (mf_size f))" "int_dec (mf_size g) = nat_dec (nat (mf_size g))"
    using assms(2,3) by (simp_all add: int_dec_def content_plain_def)
  have "nat_dec (nat (mf_size f)) = nat_dec (nat (mf_size g)) \<and> s = t"
    using split_at_eq [OF c [unfolded d]] nat_dec_no_newline by blast
  then have "mf_size f = mf_size g \<and> s = t"
    using assms(2,3) by (simp add: content_plain_def eq_nat_nat_iff)
  with p h show ?thesis by simp
qed

lemma content_lines_inj:
  "concat (map content_line fs) = concat (map content_line gs) \<Longrightarrow> \<forall>f\<in>set fs. content_plain f \<Longrightarrow>
   \<forall>g\<in>set gs. content_plain g \<Longrightarrow> fs = gs"
proof (induction fs arbitrary: gs)
  case Nil
  then show ?case by (cases gs) (simp_all add: content_line_def)
next
  case (Cons f fs)
  then obtain g gs' where g: "gs = g # gs'" by (cases gs) (simp_all add: content_line_def)
  have "f = g \<and> concat (map content_line fs) = concat (map content_line gs')"
    by (rule content_line_inj) (use Cons.prems g in simp_all)
  then show ?case using Cons.IH [of gs'] Cons.prems g by simp
qed

lemma nul_not_solid: "list_all solid_byte s \<Longrightarrow> nul \<notin> set s"
  by (auto simp: list_all_iff solid_byte_nat nul_def)

lemma nul_not_joined: "\<forall>e\<in>set ns. nul \<notin> set e \<Longrightarrow> nul \<notin> set (join_with ''/'' ns)"
  by (induction "''/''" ns rule: join_with.induct) (auto simp: nul_def)

lemma walked_plain:
  assumes "walk sha [] root = Inr all" "wf_node root" "f \<in> set all"
  shows "content_plain f"
proof -
  define fo :: follow where "fo = (\<lambda>_ _. None)"
  obtain ms c where m: "find_at fo root ms = Some (Reg c)" "f = file_at sha ms c"
    using walked_tree(1) [OF assms(1,2), of f fo] assms(3) by blast
  have "list_all entry_name ms" using walk_found(1) [OF assms(1,2), of fo] m(1) by blast
  then have "nul \<notin> set (rel_path ms)"
    using nul_not_joined [of ms] by (auto simp: rel_path_def list_all_iff entry_name_def nul_def)
  then show ?thesis
    using nul_not_solid [OF hex_encode_solid] by (simp add: content_plain_def m(2) file_at_def)
qed

text \<open>What is hashed when a tree is measured: its payload text and the contents of its files.\<close>

definition hashed_texts :: "(mfile list \<Rightarrow> mfile list) \<Rightarrow> (string \<Rightarrow> string) \<Rightarrow> node \<Rightarrow> string set" where
  "hashed_texts srt sha root =
     {content_text srt payload | payload r. measure_bundle srt sha (Some root) = Inr (payload, r)} \<union>
     {c. \<exists>ms. find_at (\<lambda>_ _. None) root ms = Some (Reg c)}"

definition payload_at :: "node \<Rightarrow> string \<Rightarrow> string option" where
  "payload_at root p =
     (if is_bundle_metadata p then None
      else case find_at (\<lambda>_ _. None) root (path_elems p) of
             Some (Reg c) \<Rightarrow> if rel_path (path_elems p) = p then Some c else None
           | _ \<Rightarrow> None)"

lemma payload_at_iff:
  "payload_at root p = Some c \<longleftrightarrow> \<not> is_bundle_metadata p \<and>
    find_at (\<lambda>_ _. None) root (path_elems p) = Some (Reg c) \<and> rel_path (path_elems p) = p"
  by (auto simp: payload_at_def split: option.splits node.splits if_splits)

lemma same_files_same_content:
  assumes t: "walk sha [] t = Inr l" "wf_node t" and t': "walk sha [] t' = Inr l'" "wf_node t'"
    and e: "{f \<in> set l. \<not> is_bundle_metadata (mf_path f)} = {f \<in> set l'. \<not> is_bundle_metadata (mf_path f)}"
    and i: "inj_on sha (hashed_texts srt sha t \<union> hashed_texts srt sha t')"
    and p: "payload_at t p = Some c"
  shows "payload_at t' p = Some c"
proof -
  let ?fo = "\<lambda>_ _. None" and ?f = "\<lparr>mf_path = p, mf_sha256 = hex_encode (sha c), mf_size = int (length c)\<rparr>"
  have q: "\<not> is_bundle_metadata p" "find_at ?fo t (path_elems p) = Some (Reg c)" "rel_path (path_elems p) = p"
    using p payload_at_iff by blast+
  then have "?f \<in> set l" unfolding walked_file [OF t, of ?f ?fo] by simp
  then have "?f \<in> {f \<in> set l. \<not> is_bundle_metadata (mf_path f)}" by (simp add: q(1))
  then have "?f \<in> {f \<in> set l'. \<not> is_bundle_metadata (mf_path f)}" unfolding e .
  then have "?f \<in> set l'" by simp
  then obtain c' where c': "find_at ?fo t' (path_elems p) = Some (Reg c')" "hex_encode (sha c) = hex_encode (sha c')"
    unfolding walked_file [OF t', of ?f ?fo] by auto
  have "c \<in> hashed_texts srt sha t" "c' \<in> hashed_texts srt sha t'"
    using q(2) c'(1) by (auto simp: hashed_texts_def)
  then have "c = c'" using i c'(2) by (auto simp: hex_encode_inj dest: inj_onD)
  then show ?thesis using payload_at_iff q c'(1) by blast
qed

text \<open>The same root over two trees comes from the same list of files.\<close>

lemma same_root_same_files:
  assumes "sorts_files srt" "wf_node root" "wf_node root'"
    and "measure_bundle srt sha (Some root) = Inr (fs, r)" "measure_bundle srt sha (Some root') = Inr (fs', r)"
    and "inj_on sha (hashed_texts srt sha root \<union> hashed_texts srt sha root')"
  shows "fs = fs'"
proof -
  obtain all all' where a: "walk sha [] root = Inr all" "walk sha [] root' = Inr all'"
    using assms(4,5) by (auto simp: measure_bundle_def scan_dir_def result_simps)
  note m = measured_payload [OF assms(1,2) a(1)] and m' = measured_payload [OF assms(1,3) a(2)]
  have fs: "fs = filter (\<lambda>f. \<not> is_bundle_metadata (mf_path f)) (srt all)" "r = content_root srt sha fs"
    and fs': "fs' = filter (\<lambda>f. \<not> is_bundle_metadata (mf_path f)) (srt all')" "r = content_root srt sha fs'"
    using m(1) m'(1) assms(4,5) by simp_all
  have "sha (content_text srt fs) = sha (content_text srt fs')"
    using fs(2) fs'(2) by (simp add: content_root_def hex_encode_inj)
  moreover have "content_text srt fs \<in> hashed_texts srt sha root" "content_text srt fs' \<in> hashed_texts srt sha root'"
    using assms(4,5) by (auto simp: hashed_texts_def)
  ultimately have "content_text srt fs = content_text srt fs'"
    using assms(6) by (auto dest: inj_onD)
  then have "concat (map content_line fs) = concat (map content_line fs')"
    using m(4) m'(4) fs(1) fs'(1) by (simp add: content_text_def)
  then show "fs = fs'"
  proof (rule content_lines_inj)
    show "\<forall>f\<in>set fs. content_plain f" using walked_plain [OF a(1) assms(2)] m(5) fs(1) by blast
    show "\<forall>f\<in>set fs'. content_plain f" using walked_plain [OF a(2) assms(3)] m'(5) fs'(1) by blast
  qed
qed

lemma same_root_payload:
  assumes "sorts_files srt" "wf_node root" "wf_node root'"
    and "measure_bundle srt sha (Some root) = Inr (fs, r)" "measure_bundle srt sha (Some root') = Inr (fs', r)"
    and "inj_on sha (hashed_texts srt sha root \<union> hashed_texts srt sha root')"
  shows "payload_at root = payload_at root'"
proof -
  obtain all all' where a: "walk sha [] root = Inr all" "walk sha [] root' = Inr all'"
    using assms(4,5) by (auto simp: measure_bundle_def scan_dir_def result_simps)
  note m = measured_payload [OF assms(1,2) a(1)] and m' = measured_payload [OF assms(1,3) a(2)]
  have fs: "fs = filter (\<lambda>f. \<not> is_bundle_metadata (mf_path f)) (srt all)"
    and fs': "fs' = filter (\<lambda>f. \<not> is_bundle_metadata (mf_path f)) (srt all')"
    using m(1) m'(1) assms(4,5) by simp_all
  have e: "{f \<in> set all. \<not> is_bundle_metadata (mf_path f)} = {f \<in> set all'. \<not> is_bundle_metadata (mf_path f)}"
    unfolding m(5) [symmetric] m'(5) [symmetric] fs [symmetric] fs' [symmetric] same_root_same_files [OF assms] ..
  show ?thesis
  proof
    fix p
    show "payload_at root p = payload_at root' p"
      using same_files_same_content [OF a(1) assms(2) a(2) assms(3) e assms(6), of p]
        same_files_same_content [OF a(2) assms(3) a(1) assms(2) e [symmetric], of srt p] assms(6)
      by (cases "payload_at root p"; cases "payload_at root' p") (auto simp: Un_commute)
  qed
qed

text \<open>
  C20. Tampering is detected: two trees that measure to the same content root hold the
  same payload, path for path and byte for byte, unless SHA-256 has a collision among the
  texts these two measurements hash.
\<close>

theorem same_root_means_same_payload:
  assumes "sorts_files srt" "wf_node root" "wf_node root'"
    and "measure_bundle srt sha (Some root) = Inr (fs, r)" "measure_bundle srt sha (Some root') = Inr (fs', r)"
    and "inj_on sha (hashed_texts srt sha root \<union> hashed_texts srt sha root')"
  shows "payload_at root = payload_at root'"
  by (rule same_root_payload [OF assms])

section \<open>A path listed twice\<close>

text \<open>
  Nothing refuses a manifest that lists a path twice: repeating an entry of an
  accepted manifest gives an accepted manifest, whose content root is taken over a longer
  text than the one the run-time measurement hashes.
\<close>

theorem repeated_entry_is_accepted:
  assumes "sorts_files srt" "wf_node root" "verify_against srt sha fo (Some root) files allow = Inr ()"
    and "distinct (map mf_path files)" "\<forall>f\<in>set files. \<not> is_bundle_metadata (mf_path f)" "f \<in> set files"
  shows "verify_against srt sha fo (Some root) (f # files) allow = Inr () \<and>
    (\<exists>measured. measure_bundle srt sha (Some root) = Inr (measured, content_root srt sha measured) \<and>
       length (content_text srt (f # files)) > length (content_text srt measured))"
proof
  have "set (f # files) = set files" using assms(6) by auto
  then show "verify_against srt sha fo (Some root) (f # files) allow = Inr ()"
    using assms(3) unfolding verify_against_sets [OF assms(1,2)] by simp
  have mm: "mset (srt xs) = mset xs" for xs using assms(1) by (simp add: sorts_files_def)
  have len: "length (concat (map content_line xs)) = sum_mset (image_mset (\<lambda>f. length (content_line f)) (mset xs))" for xs
    by (simp add: length_concat comp_def sum_mset_sum_list flip: mset_map)
  have "content_line f \<noteq> []" by (simp add: content_line_def)
  then have "length (content_text srt (f # files)) > length (content_text srt files)"
    by (simp add: content_text_def len mm)
  moreover have "content_text srt (srt files) = content_text srt files"
  proof -
    have "srt (srt files) = srt files"
    proof (rule sorts_files_id [OF assms(1)])
      show "sorted (map mf_path (srt files))" using assms(1) by (simp add: sorts_files_def)
      show "distinct (map mf_path (srt files))"
        using assms(4) mm [of files] by (metis distinct_map mset_eq_imp_distinct_iff sorts_files_set [OF assms(1)])
    qed
    then show ?thesis by (simp add: content_text_def)
  qed
  ultimately show "\<exists>measured. measure_bundle srt sha (Some root) = Inr (measured, content_root srt sha measured) \<and>
       length (content_text srt (f # files)) > length (content_text srt measured)"
    using accepted_payload [OF assms(1-5)] by (intro exI [of _ "srt files"]) (simp add: content_root_def)
qed

section \<open>An example\<close>

definition sample_tree :: "string \<Rightarrow> node" where
  "sample_tree json = Dir [(''content'', Dir [(''a'', Reg ''hi'')]), (''manifest.json'', Reg json)]"

definition sample_file :: mfile where
  "sample_file = file_at (\<lambda>x. x) [''content'', ''a''] ''hi''"

lemma sample_tree_facts:
  "wf_node (sample_tree json)"
  "walk (\<lambda>x. x) [] (sample_tree json) = Inr [sample_file, file_at (\<lambda>x. x) [''manifest.json''] json]"
  "mf_path sample_file = ''content/a''" "mf_path (file_at sha [''manifest.json''] json) = ''manifest.json''"
  "\<not> is_bundle_metadata ''content/a''" "is_bundle_metadata ''manifest.json''"
  by (simp_all add: sample_tree_def entry_name_def plain_elem_def nul_def sample_file_def file_at_def rel_path_def
      is_bundle_metadata_def)

lemma sample_accepted: "verify_against (sort_key mf_path) (\<lambda>x. x) fo (Some (sample_tree json)) [sample_file] [''content/''] = Inr ()"
proof -
  have "check_path ''content/a'' [''content/''] = Inr ()"
    unfolding check_path_plain by (simp add: plain_path_def plain_elem_def)
  then show ?thesis
    unfolding verify_against_sets [OF sort_key_sorts sample_tree_facts(1)] sample_tree_facts(2)
    by (simp add: sample_tree_facts)
qed

lemma sample_measured:
  "measure_bundle (sort_key mf_path) (\<lambda>x. x) (Some (sample_tree json)) =
     Inr ([sample_file], content_root (sort_key mf_path) (\<lambda>x. x) [sample_file])"
  using accepted_payload [OF sort_key_sorts sample_tree_facts(1) sample_accepted] sample_tree_facts(3,5) by simp

theorem verify_against_iff_same_files_witness:
  "verify_against (sort_key mf_path) (\<lambda>x. x) (\<lambda>_ _. None) (Some (sample_tree ''{}'')) [sample_file] [''content/''] = Inr ()"
proof -
  have "plain_path ''content/a''" "has_prefix ''content/a'' ''content/''"
    by (simp_all add: plain_path_def plain_elem_def)
  then show ?thesis
    unfolding verify_against_iff_same_files [OF sort_key_sorts sample_tree_facts(1)] sample_tree_facts(2)
    by (simp add: sample_tree_facts)
qed

theorem accepted_bundle_measures_to_the_gates_root_witness:
  "measure_bundle (sort_key mf_path) (\<lambda>x. x) (Some (sample_tree ''{}'')) =
     Inr ([sample_file], content_root (sort_key mf_path) (\<lambda>x. x) [sample_file])"
  using accepted_bundle_measures_to_the_gates_root [OF sort_key_sorts sample_tree_facts(1) sample_accepted [of "\<lambda>_ _. None" "''{}''"]]
    sample_tree_facts(3,5) by simp

theorem same_root_means_same_payload_witness:
  "payload_at (sample_tree ''{}'') = payload_at (sample_tree ''[]'')"
  by (rule same_root_means_same_payload [OF sort_key_sorts sample_tree_facts(1) sample_tree_facts(1) sample_measured sample_measured])
    (rule inj_onI)

theorem repeated_entry_is_accepted_witness:
  "verify_against (sort_key mf_path) (\<lambda>x. x) (\<lambda>_ _. None) (Some (sample_tree ''{}'')) [sample_file, sample_file] [''content/''] = Inr ()"
  using repeated_entry_is_accepted [OF sort_key_sorts sample_tree_facts(1) sample_accepted [of "\<lambda>_ _. None" "''{}''"], of sample_file]
    sample_tree_facts(3,5) by simp

end
