(* ===== verification/Ingress.thy ===== *)
theory Ingress
  imports Manifest_Sign Content_Store Audit_Log
begin

text \<open>
  The ingress gate (cmd/ingress-verify/main.go): the ordered checks of a bundle, the state
  of accepted versions, the record in the audit log and the decision.

  The bundle is a tree, the state a set of version files and the log.  How each of the
  writes goes is given by a record of outcomes.  The texts of errors only go into notes and
  the log; \<open>show_err\<close> gives them.
\<close>

section \<open>Data\<close>

definition required_signers :: int where "required_signers = 2"

record check =
  ck_name :: string
  ck_ok :: bool
  ck_note :: string

record ingress_decision =
  dc_decision :: string
  dc_reason :: string
  dc_bundle_id :: string
  dc_version :: "64 word"
  dc_content_root :: string
  dc_signers :: "string list"
  dc_checks :: "check list"

definition empty_decision :: ingress_decision where
  "empty_decision = \<lparr>dc_decision = [], dc_reason = [], dc_bundle_id = [], dc_version = 0, dc_content_root = [],
     dc_signers = [], dc_checks = []\<rparr>"

text \<open>
  What the program is called with and what it reads; the flags are the bundle, the trusted
  keys, the state directory and the log.
\<close>

record ingress_env =
  ie_flags :: "string list"
  ie_bundle :: "node option"
  ie_follow :: follow
  ie_trusted :: "(string, string) result"
  ie_state :: string
  ie_allow :: "string list"

text \<open>The libraries: SHA-256, Ed25519, the order of \<open>sort.Slice\<close> and the texts of errors.\<close>

datatype ingress_error =
    IeManifestUnreadable
  | IeManifest manifest_error
  | IeKeys sign_error
  | IeSignaturesUnreadable
  | IeSignatures sign_error
  | IeStateUnreadable string
  | IeStateMalformed
  | IeRollback "64 word" "64 word"
  | IeContent content_error

record ingress_lib =
  il_sha :: "string \<Rightarrow> string"
  il_ed_verify :: "string \<Rightarrow> string \<Rightarrow> string \<Rightarrow> bool"
  il_sort :: "mfile list \<Rightarrow> mfile list"
  il_show :: "ingress_error \<Rightarrow> string"

text \<open>The state on disk: version files by path, and the log.\<close>

record ingress_world =
  iw_versions :: "string \<Rightarrow> open_read"
  iw_log :: open_read

text \<open>
  How the writes go: an error of each; a write of the version that fails leaves the file
  alone or, once it is truncated, a part of the text.
\<close>

record ingress_io =
  io_mkdir_state :: "string option"
  io_write_version :: "(nat option \<times> string) option"
  io_mkdir_log :: "string option"
  io_open_log :: "string option"
  io_write_log :: write_outcome
  io_time :: string

section \<open>The checks\<close>

definition add_note :: "string \<Rightarrow> bool \<Rightarrow> string \<Rightarrow> ingress_decision \<Rightarrow> ingress_decision" where
  "add_note name ok txt d = d\<lparr>dc_checks := dc_checks d @ [\<lparr>ck_name = name, ck_ok = ok, ck_note = txt\<rparr>]\<rparr>"

text \<open>One step of \<open>verify\<close>: note what came of a check and go on with its value or stop.\<close>

definition noted :: "ingress_lib \<Rightarrow> string \<Rightarrow> (ingress_error, 'a) result \<Rightarrow> ('a \<Rightarrow> string) \<Rightarrow>
    (ingress_decision, ingress_error, 'a) action" where
  "noted lib name r txt = (\<lambda>d.
     case r of
       Inl e \<Rightarrow> (Inl e, add_note name False (il_show lib e) d)
     | Inr x \<Rightarrow> (Inr x, add_note name True (txt x) d))"

definition set_decision :: "(ingress_decision \<Rightarrow> ingress_decision) \<Rightarrow> (ingress_decision, ingress_error, unit) action" where
  "set_decision f = (\<lambda>d. (Inr (), f d))"

text \<open>A file of the bundle: missing, unreadable or its text.\<close>

definition bundle_file :: "ingress_env \<Rightarrow> string \<Rightarrow> open_read" where
  "bundle_file env name =
     (case ie_bundle env of
        None \<Rightarrow> Missing
      | Some root \<Rightarrow>
          (case find_at (ie_follow env) root [name] of
             None \<Rightarrow> Missing
           | Some (Link t) \<Rightarrow>
               (case ie_follow env t [] of
                  None \<Rightarrow> Missing
                | Some (Reg c) \<Rightarrow> Readable c
                | Some x \<Rightarrow> Unreadable ''read error'')
           | Some (Reg c) \<Rightarrow> Readable c
           | Some x \<Rightarrow> Unreadable ''read error''))"

definition read_manifest :: "ingress_env \<Rightarrow> (ingress_error, string) result" where
  "read_manifest env =
     (case bundle_file env ''manifest.json'' of Readable b \<Rightarrow> Inr b | _ \<Rightarrow> Inl IeManifestUnreadable)"

text \<open>A missing signature file is read as an empty one.\<close>

definition read_signatures :: "ingress_env \<Rightarrow> (ingress_error, string) result" where
  "read_signatures env =
     (case bundle_file env ''manifest.sig'' of
        Readable b \<Rightarrow> Inr b
      | Missing \<Rightarrow> Inr []
      | Unreadable e \<Rightarrow> Inl IeSignaturesUnreadable)"

definition map_error :: "('e \<Rightarrow> 'f) \<Rightarrow> ('e, 'a) result \<Rightarrow> ('f, 'a) result" where
  "map_error f r = (case r of Inl e \<Rightarrow> Inl (f e) | Inr x \<Rightarrow> Inr x)"

definition version_file :: "ingress_env \<Rightarrow> string \<Rightarrow> string" where
  "version_file env bundle_id =
     path_join [ie_state env, ''last-accepted-'' @ map (\<lambda>c. if c = slash then CHR ''_'' else c) bundle_id]"

definition parse_version :: "open_read \<Rightarrow> (ingress_error, 64 word) result" where
  "parse_version file =
     (case file of
        Missing \<Rightarrow> Inr 0
      | Unreadable e \<Rightarrow> Inl (IeStateUnreadable e)
      | Readable b \<Rightarrow> (case parse_uint64 (trim_space b) of None \<Rightarrow> Inl IeStateMalformed | Some v \<Rightarrow> Inr v))"

definition last_accepted :: "ingress_env \<Rightarrow> ingress_world \<Rightarrow> string \<Rightarrow> (ingress_error, 64 word) result" where
  "last_accepted env w bundle_id = parse_version (iw_versions w (version_file env bundle_id))"

definition check_version :: "ingress_env \<Rightarrow> ingress_world \<Rightarrow> manifest \<Rightarrow> (ingress_error, 64 word) result" where
  "check_version env w m =
     try_bind (last_accepted env w (mn_bundle_id m)) (\<lambda>prior.
       if mn_version m \<le> prior then Inl (IeRollback (mn_version m) prior) else Inr prior)"

definition version_text :: "64 word \<Rightarrow> string" where "version_text v = nat_dec (unat v)"

definition ingress_verify :: "ingress_lib \<Rightarrow> ingress_env \<Rightarrow> ingress_world \<Rightarrow>
    (ingress_decision, ingress_error, manifest \<times> string) action" where
  "ingress_verify lib env w =
     act_bind (noted lib ''manifest-present'' (read_manifest env) (\<lambda>_. [])) (\<lambda>b.
     act_bind (noted lib ''manifest-canonical'' (map_error IeManifest (manifest_parse (il_sort lib) b)) (\<lambda>_. [])) (\<lambda>m.
     act_bind (set_decision (\<lambda>d. d\<lparr>dc_bundle_id := mn_bundle_id m, dc_version := mn_version m\<rparr>)) (\<lambda>_.
     act_bind (noted lib ''trusted-keys'' (map_error IeKeys (load_public_keys (il_sha lib) (ie_trusted env)))
       (\<lambda>trusted. nat_dec (length trusted) @ '' provisioned'')) (\<lambda>trusted.
     act_bind (case read_signatures env of
         Inl e \<Rightarrow> noted lib ''signatures'' (Inl e) (\<lambda>_. [])
       | Inr s \<Rightarrow> act_return s) (\<lambda>sig_file.
     act_bind (noted lib ''signatures''
       (map_error IeSignatures (verify_signatures (il_ed_verify lib) b sig_file trusted required_signers))
       (\<lambda>signers. nat_dec (length signers) @ '' distinct trusted signers'')) (\<lambda>signers.
     act_bind (set_decision (\<lambda>d. d\<lparr>dc_signers := dc_signers d @ signers\<rparr>)) (\<lambda>_.
     act_bind (noted lib ''version-rollback'' (check_version env w m)
       (\<lambda>prior. ''version '' @ version_text (mn_version m) @ '' follows '' @ version_text prior)) (\<lambda>_.
     act_bind (noted lib ''content''
       (map_error IeContent (verify_against (il_sort lib) (il_sha lib) (ie_follow env) (ie_bundle env) (mn_files m) (ie_allow env)))
       (\<lambda>_. nat_dec (length (mn_files m)) @ '' files'')) (\<lambda>_.
     let root = content_root (il_sort lib) (il_sha lib) (mn_files m)
     in act_bind (set_decision (add_note ''content-root'' True root)) (\<lambda>_. act_return (m, root)))))))))))"

section \<open>The decision\<close>

definition content_reason :: "content_error \<Rightarrow> string" where
  "content_reason e =
     (case e of
        content_error.HashMismatch _ \<Rightarrow> ''hash-mismatch''
      | UnmanifestedFile _ \<Rightarrow> ''unmanifested-file''
      | MissingFile _ \<Rightarrow> ''missing-file''
      | AllowlistViolation _ \<Rightarrow> ''allowlist-violation''
      | UnsafePath _ \<Rightarrow> ''unsafe-path''
      | ContentIO _ \<Rightarrow> ''unverifiable'')"

definition signature_reason :: "sign_error \<Rightarrow> string" where
  "signature_reason e =
     (case e of
        UntrustedSigner _ \<Rightarrow> ''untrusted-signer''
      | InsufficientSignatures _ _ \<Rightarrow> ''insufficient-signatures''
      | DuplicateSigner _ \<Rightarrow> ''duplicate-signer''
      | BadSignatureLine _ \<Rightarrow> ''bad-signature''
      | BadSignatureEncoding _ \<Rightarrow> ''bad-signature''
      | BadSignature _ \<Rightarrow> ''bad-signature''
      | _ \<Rightarrow> ''unverifiable'')"

definition reason_of :: "ingress_error \<Rightarrow> string" where
  "reason_of e =
     (case e of
        IeContent c \<Rightarrow> content_reason c
      | IeSignatures s \<Rightarrow> signature_reason s
      | IeSignaturesUnreadable \<Rightarrow> ''bad-signature''
      | IeManifest _ \<Rightarrow> ''manifest-parse''
      | IeManifestUnreadable \<Rightarrow> ''manifest-parse''
      | IeStateMalformed \<Rightarrow> ''version-rollback''
      | IeRollback _ _ \<Rightarrow> ''version-rollback''
      | IeKeys _ \<Rightarrow> ''unverifiable''
      | IeStateUnreadable _ \<Rightarrow> ''unverifiable'')"

definition dec_accept :: string where "dec_accept = ''ACCEPT''"
definition dec_reject :: string where "dec_reject = ''REJECT''"
definition dec_error :: string where "dec_error = ''ERROR''"

text \<open>\<open>emit\<close> prints the decision and exits with a code.\<close>

type_synonym ingress_exit = "ingress_decision \<times> int"

definition emit :: "string \<Rightarrow> string \<Rightarrow> int \<Rightarrow> ingress_decision \<Rightarrow> ingress_exit" where
  "emit dec reason exit_code d =
     (d\<lparr>dc_decision := dec, dc_reason := (if reason \<noteq> [] then reason else dc_reason d)\<rparr>, exit_code)"

definition log_unavailable :: string where "log_unavailable = ''audit-log-unavailable''"

text \<open>
  Appending to the log: the new state and whether the record failed, which exits the
  program.  When the directory of the log cannot be made the function just returns.
\<close>

definition append_log :: "ingress_lib \<Rightarrow> ingress_io \<Rightarrow> string \<Rightarrow> string \<Rightarrow> ingress_world \<Rightarrow> ingress_world \<times> bool" where
  "append_log lib io event detail w =
     (if io_mkdir_log io \<noteq> None then (w, True)
      else
        (case log_open (il_sha lib) (iw_log w) (io_open_log io) of
           Inl e \<Rightarrow> (w, False)
         | Inr l \<Rightarrow>
             (let f = (case iw_log w of Readable f \<Rightarrow> f | _ \<Rightarrow> [])
              in case log_append (il_sha lib) (io_write_log io) (io_time io) event detail (l, f) of
                   (r, (l', f')) \<Rightarrow>
                     (w\<lparr>iw_log := Readable f'\<rparr>, (case r of Inl e \<Rightarrow> False | Inr e \<Rightarrow> True)))))"

definition ev_ingress_accept :: string where "ev_ingress_accept = ''INGRESS_ACCEPT''"
definition ev_ingress_reject :: string where "ev_ingress_reject = ''INGRESS_REJECT''"

definition reject_detail :: "ingress_lib \<Rightarrow> ingress_decision \<Rightarrow> ingress_error \<Rightarrow> string" where
  "reject_detail lib d e =
     ''bundle='' @ dc_bundle_id d @ '' version='' @ version_text (dc_version d) @ '' reason='' @ reason_of e @
     '' detail='' @ il_show lib e"

definition ingress_reject :: "ingress_lib \<Rightarrow> ingress_io \<Rightarrow> ingress_error \<Rightarrow> ingress_decision \<Rightarrow> ingress_world \<Rightarrow>
    ingress_exit \<times> ingress_world" where
  "ingress_reject lib io e d w =
     (case append_log lib io ev_ingress_reject (reject_detail lib d e) w of
        (w', False) \<Rightarrow> (emit dec_error log_unavailable 2 d, w')
      | (w', True) \<Rightarrow> (emit dec_reject (reason_of e) 1 (d\<lparr>dc_reason := reason_of e\<rparr>), w'))"

definition accept_detail :: "ingress_decision \<Rightarrow> manifest \<Rightarrow> string \<Rightarrow> string" where
  "accept_detail d m root =
     ''bundle='' @ mn_bundle_id m @ '' version='' @ version_text (mn_version m) @ '' content_root='' @ root @
     '' signers='' @ join_with '','' (dc_signers d)"

definition ingress_accept :: "ingress_lib \<Rightarrow> ingress_env \<Rightarrow> ingress_io \<Rightarrow> manifest \<Rightarrow> string \<Rightarrow> ingress_decision \<Rightarrow>
    ingress_world \<Rightarrow> ingress_exit \<times> ingress_world" where
  "ingress_accept lib env io m root d w =
     (case io_mkdir_state io of
        Some e \<Rightarrow> (emit dec_error e 2 d, w)
      | None \<Rightarrow>
          (let p = version_file env (mn_bundle_id m); txt = version_text (mn_version m) @ [newline]
           in case io_write_version io of
                Some (None, e) \<Rightarrow> (emit dec_error e 2 d, w)
              | Some (Some k, e) \<Rightarrow> (emit dec_error e 2 d, w\<lparr>iw_versions := (iw_versions w)(p := Readable (take k txt))\<rparr>)
              | None \<Rightarrow>
                  (let w1 = w\<lparr>iw_versions := (iw_versions w)(p := Readable txt)\<rparr>; d1 = d\<lparr>dc_content_root := root\<rparr>
                   in case append_log lib io ev_ingress_accept (accept_detail d1 m root) w1 of
                        (w2, False) \<Rightarrow> (emit dec_error log_unavailable 2 d1, w2)
                      | (w2, True) \<Rightarrow> (emit dec_accept [] 0 d1, w2))))"

definition default_allow :: "string list" where "default_allow = [''content/'']"

text \<open>\<open>main\<close>, its flags given; without \<open>-allow\<close> the payload is under \<open>content/\<close>.\<close>

definition ingress_main :: "ingress_lib \<Rightarrow> ingress_env \<Rightarrow> ingress_io \<Rightarrow> ingress_world \<Rightarrow> ingress_exit \<times> ingress_world" where
  "ingress_main lib env io w =
     (if [] \<in> set (ie_flags env) then (emit dec_error ''usage'' 2 empty_decision, w)
      else let env = env\<lparr>ie_allow := (if ie_allow env = [] then default_allow else ie_allow env)\<rparr>
      in case ingress_verify lib env w empty_decision of
           (Inl e, d) \<Rightarrow> ingress_reject lib io e d w
         | (Inr (m, root), d) \<Rightarrow> ingress_accept lib env io m root d w)"

section \<open>What the checks establish\<close>

lemma noted_Inr [result_simps]:
  "noted lib name r txt d = (Inr x, d') \<longleftrightarrow> r = Inr x \<and> d' = add_note name True (txt x) d"
  by (auto simp: noted_def split: sum.splits)

lemma set_decision_Inr [result_simps]: "set_decision f d = (Inr u, d') \<longleftrightarrow> d' = f d"
  by (auto simp: set_decision_def)

lemma map_error_Inr [result_simps]: "map_error f r = Inr x \<longleftrightarrow> r = Inr x"
  by (auto simp: map_error_def split: sum.splits)

lemma check_version_Inr [result_simps]:
  "check_version env w m = Inr prior \<longleftrightarrow> last_accepted env w (mn_bundle_id m) = Inr prior \<and> prior < mn_version m"
  by (auto simp: check_version_def result_simps not_le)

text \<open>
  Everything a bundle has to pass: a canonical manifest, two different trusted keys that
  signed its bytes, a version newer than the last accepted one, and content that is what
  the manifest lists.
\<close>

definition bundle_passes :: "ingress_lib \<Rightarrow> ingress_env \<Rightarrow> ingress_world \<Rightarrow> manifest \<Rightarrow> string list \<Rightarrow> bool" where
  "bundle_passes lib env w m signers =
     (\<exists>b trusted s prior.
        read_manifest env = Inr b \<and> manifest_parse (il_sort lib) b = Inr m \<and>
        load_public_keys (il_sha lib) (ie_trusted env) = Inr trusted \<and> read_signatures env = Inr s \<and>
        verify_signatures (il_ed_verify lib) b s trusted 2 = Inr signers \<and>
        last_accepted env w (mn_bundle_id m) = Inr prior \<and> prior < mn_version m \<and>
        verify_against (il_sort lib) (il_sha lib) (ie_follow env) (ie_bundle env) (mn_files m) (ie_allow env) = Inr ())"

lemma add_note_fields [simp]:
  "dc_bundle_id (add_note n k t d) = dc_bundle_id d" "dc_version (add_note n k t d) = dc_version d"
  "dc_signers (add_note n k t d) = dc_signers d" "dc_content_root (add_note n k t d) = dc_content_root d"
  "dc_decision (add_note n k t d) = dc_decision d" "dc_reason (add_note n k t d) = dc_reason d"
  by (simp_all add: add_note_def)

lemma read_step_Inr:
  "(case read_signatures env of Inl e \<Rightarrow> noted lib n (Inl e) t | Inr s \<Rightarrow> act_return s) d = (Inr x, d') \<longleftrightarrow>
     read_signatures env = Inr x \<and> d' = d"
  by (cases "read_signatures env") (auto simp: result_simps)

lemma ingress_verify_Inr:
  assumes "ingress_verify lib env w d = (Inr (m, root), d')"
  shows "\<exists>signers. bundle_passes lib env w m signers \<and> dc_signers d' = dc_signers d @ signers \<and>
    dc_bundle_id d' = mn_bundle_id m \<and> dc_version d' = mn_version m \<and>
    root = content_root (il_sort lib) (il_sha lib) (mn_files m)"
proof -
  from assms obtain b trusted s signers prior where
    "read_manifest env = Inr b" "manifest_parse (il_sort lib) b = Inr m"
    "load_public_keys (il_sha lib) (ie_trusted env) = Inr trusted" "read_signatures env = Inr s"
    "verify_signatures (il_ed_verify lib) b s trusted required_signers = Inr signers"
    "last_accepted env w (mn_bundle_id m) = Inr prior" "prior < mn_version m"
    "verify_against (il_sort lib) (il_sha lib) (ie_follow env) (ie_bundle env) (mn_files m) (ie_allow env) = Inr ()"
    "root = content_root (il_sort lib) (il_sha lib) (mn_files m)"
    and "dc_signers d' = dc_signers d @ signers" "dc_bundle_id d' = mn_bundle_id m" "dc_version d' = mn_version m"
    unfolding ingress_verify_def act_bind_Inr noted_Inr set_decision_Inr map_error_Inr check_version_Inr read_step_Inr
      Let_def act_return_Inr
    by auto
  then show ?thesis unfolding bundle_passes_def required_signers_def by blast
qed

lemma ingress_verify_passes:
  assumes "bundle_passes lib env w m signers"
  shows "\<exists>d'. ingress_verify lib env w d = (Inr (m, content_root (il_sort lib) (il_sha lib) (mn_files m)), d')"
proof -
  obtain b trusted s prior where p:
    "read_manifest env = Inr b" "manifest_parse (il_sort lib) b = Inr m"
    "load_public_keys (il_sha lib) (ie_trusted env) = Inr trusted" "read_signatures env = Inr s"
    "verify_signatures (il_ed_verify lib) b s trusted required_signers = Inr signers"
    "last_accepted env w (mn_bundle_id m) = Inr prior" "prior < mn_version m"
    "verify_against (il_sort lib) (il_sha lib) (ie_follow env) (ie_bundle env) (mn_files m) (ie_allow env) = Inr ()"
    using assms unfolding bundle_passes_def required_signers_def by blast
  have "check_version env w m = Inr prior" using p(6,7) by (simp add: check_version_Inr)
  then show ?thesis
    by (simp add: ingress_verify_def p noted_def map_error_def act_bind_def set_decision_def act_return_def Let_def)
qed

text \<open>The environment with the default allowlist filled in.\<close>

definition with_allow :: "ingress_env \<Rightarrow> ingress_env" where
  "with_allow env = env\<lparr>ie_allow := (if ie_allow env = [] then default_allow else ie_allow env)\<rparr>"

lemma bundle_passes_manifest:
  "bundle_passes lib env w m signers \<Longrightarrow> bundle_passes lib env w' m' signers' \<Longrightarrow> m' = m"
  by (auto simp: bundle_passes_def)

lemma with_allow_simps [simp]:
  "version_file (with_allow env) = version_file env" "last_accepted (with_allow env) w = last_accepted env w"
  by (simp_all add: with_allow_def version_file_def last_accepted_def fun_eq_iff)

lemma ingress_main_cases:
  assumes "ingress_main lib env io w = (ex, w')"
  obtains (usage) "[] \<in> set (ie_flags env)" "ex = emit dec_error ''usage'' 2 empty_decision" "w' = w"
  | (reject) e d where "ingress_verify lib (with_allow env) w empty_decision = (Inl e, d)"
      "ingress_reject lib io e d w = (ex, w')"
  | (accept) m root d where "ingress_verify lib (with_allow env) w empty_decision = (Inr (m, root), d)"
      "ingress_accept lib (with_allow env) io m root d w = (ex, w')"
proof -
  show ?thesis
  proof (cases "[] \<in> set (ie_flags env)")
    case True
    with assms usage show ?thesis by (simp add: ingress_main_def)
  next
    case False
    obtain r d where v: "ingress_verify lib (with_allow env) w empty_decision = (r, d)"
      by (cases "ingress_verify lib (with_allow env) w empty_decision")
    show ?thesis
    proof (cases r)
      case (Inl e)
      with assms False v show ?thesis by (intro reject) (simp_all add: ingress_main_def with_allow_def)
    next
      case (Inr x)
      obtain m root where "x = (m, root)" by (cases x)
      with Inr assms False v show ?thesis by (intro accept) (simp_all add: ingress_main_def with_allow_def)
    qed
  qed
qed

lemma dec_distinct: "dec_accept \<noteq> dec_error" "dec_accept \<noteq> dec_reject" "dec_reject \<noteq> dec_error"
  "dec_error \<noteq> dec_accept" "dec_reject \<noteq> dec_accept" "dec_error \<noteq> dec_reject"
  by (simp_all add: dec_accept_def dec_error_def dec_reject_def)

lemma emit_simps [simp]: "dc_decision (fst (emit dec r k d)) = dec" "snd (emit dec r k d) = k"
  "dc_signers (fst (emit dec r k d)) = dc_signers d" "dc_content_root (fst (emit dec r k d)) = dc_content_root d"
  "dc_bundle_id (fst (emit dec r k d)) = dc_bundle_id d" "dc_version (fst (emit dec r k d)) = dc_version d"
  "dc_reason (fst (emit dec r k d)) = (if r \<noteq> [] then r else dc_reason d)"
  by (simp_all add: emit_def)

lemma append_log_versions [simp]: "iw_versions (fst (append_log lib io ev detail w)) = iw_versions w"
  by (auto simp: append_log_def Let_def split: sum.splits prod.splits)

lemma append_log_keeps_versions: "append_log lib io ev detail w = (w', k) \<Longrightarrow> iw_versions w' = iw_versions w"
  by (metis append_log_versions fst_conv)

text \<open>A record that succeeded: it was skipped, or the log took a new entry.\<close>

lemma append_log_True:
  assumes "append_log lib io ev detail w = (w', True)"
  shows "io_mkdir_log io \<noteq> None \<and> w' = w \<or>
    (\<exists>l. io_mkdir_log io = None \<and> log_open (il_sha lib) (iw_log w) (io_open_log io) = Inr l \<and>
       iw_log w' = Readable ((case iw_log w of Readable f \<Rightarrow> f | _ \<Rightarrow> []) @
         entry_json (log_entry (il_sha lib) l (io_time io) ev detail) @ [newline]))"
  using assms
  by (auto simp: append_log_def log_append_def Let_def split: if_splits sum.splits write_outcome.splits)

lemma ingress_accept_accept:
  assumes "ingress_accept lib env io m root d w = (ex, w')" "dc_decision (fst ex) = dec_accept"
  shows "snd ex = 0 \<and> dc_signers (fst ex) = dc_signers d \<and> dc_content_root (fst ex) = root \<and>
    dc_bundle_id (fst ex) = dc_bundle_id d \<and> dc_version (fst ex) = dc_version d \<and>
    iw_versions w' = (iw_versions w)(version_file env (mn_bundle_id m) := Readable (version_text (mn_version m) @ [newline])) \<and>
    (\<exists>w1 detail. iw_log w1 = iw_log w \<and> append_log lib io ev_ingress_accept detail w1 = (w', True))"
proof -
  let ?p = "version_file env (mn_bundle_id m)" and ?t = "version_text (mn_version m) @ [newline]"
  let ?w1 = "w\<lparr>iw_versions := (iw_versions w)(?p := Readable ?t)\<rparr>" and ?d1 = "d\<lparr>dc_content_root := root\<rparr>"
  have n: "io_mkdir_state io = None" "io_write_version io = None"
    using assms dec_distinct by (auto simp: ingress_accept_def Let_def split: option.splits prod.splits)
  obtain w2 k where a: "append_log lib io ev_ingress_accept (accept_detail ?d1 m root) ?w1 = (w2, k)"
    by (cases "append_log lib io ev_ingress_accept (accept_detail ?d1 m root) ?w1")
  have "k" using assms n a dec_distinct by (cases k) (auto simp: ingress_accept_def Let_def)
  then have ex: "ex = emit dec_accept [] 0 ?d1" "w' = w2"
    using assms(1) n a by (simp_all add: ingress_accept_def Let_def)
  have v: "iw_versions w2 = (iw_versions w)(?p := Readable ?t)"
    using append_log_keeps_versions [OF a] by simp
  have "\<exists>w1 detail. iw_log w1 = iw_log w \<and> append_log lib io ev_ingress_accept detail w1 = (w', True)"
    by (rule exI [of _ ?w1], rule exI [of _ "accept_detail ?d1 m root"]) (use ex a \<open>k\<close> in simp)
  then show ?thesis using ex v by simp
qed

lemma ingress_reject_result:
  assumes "ingress_reject lib io e d w = (ex, w')"
  shows "iw_versions w' = iw_versions w \<and> dc_decision (fst ex) \<in> {dec_reject, dec_error} \<and>
    (dc_decision (fst ex) = dec_reject \<longrightarrow> snd ex = 1 \<and> dc_reason (fst ex) = reason_of e)"
proof -
  obtain w1 k where a: "append_log lib io ev_ingress_reject (reject_detail lib d e) w = (w1, k)"
    by (cases "append_log lib io ev_ingress_reject (reject_detail lib d e) w")
  show ?thesis
    using assms a append_log_keeps_versions [OF a] dec_distinct by (cases k) (auto simp: ingress_reject_def)
qed

lemma accept_verified:
  assumes "ingress_main lib env io w = ((d, exit_code), w')" "dc_decision d = dec_accept"
  shows "\<exists>m signers. bundle_passes lib (with_allow env) w m signers \<and> exit_code = 0 \<and>
    dc_bundle_id d = mn_bundle_id m \<and> dc_version d = mn_version m \<and> dc_signers d = signers \<and>
    dc_content_root d = content_root (il_sort lib) (il_sha lib) (mn_files m) \<and>
    iw_versions w' = (iw_versions w)(version_file env (mn_bundle_id m) := Readable (version_text (mn_version m) @ [newline])) \<and>
    (if io_mkdir_log io \<noteq> None then iw_log w' = iw_log w
     else \<exists>l detail. log_open (il_sha lib) (iw_log w) (io_open_log io) = Inr l \<and>
       iw_log w' = Readable ((case iw_log w of Readable f \<Rightarrow> f | _ \<Rightarrow> []) @
         entry_json (log_entry (il_sha lib) l (io_time io) ev_ingress_accept detail) @ [newline]))"
  using assms(1)
proof (cases rule: ingress_main_cases)
  case usage
  then show ?thesis using assms(2) dec_distinct by (simp add: emit_def)
next
  case (reject e d0)
  then show ?thesis using ingress_reject_result [OF reject(2)] assms(2) dec_distinct by auto
next
  case (accept m root d0)
  from ingress_verify_Inr [OF accept(1)] obtain signers where v: "bundle_passes lib (with_allow env) w m signers"
      "dc_signers d0 = signers" "dc_bundle_id d0 = mn_bundle_id m" "dc_version d0 = mn_version m"
      "root = content_root (il_sort lib) (il_sha lib) (mn_files m)"
    by (auto simp: empty_decision_def)
  from ingress_accept_accept [OF accept(2)] assms(2) obtain w1 detail where a: "exit_code = 0"
      "dc_signers d = dc_signers d0" "dc_content_root d = root" "dc_bundle_id d = dc_bundle_id d0" "dc_version d = dc_version d0"
      "iw_versions w' = (iw_versions w)(version_file env (mn_bundle_id m) := Readable (version_text (mn_version m) @ [newline]))"
      "iw_log w1 = iw_log w" "append_log lib io ev_ingress_accept detail w1 = (w', True)"
    by auto
  have l: "if io_mkdir_log io \<noteq> None then iw_log w' = iw_log w
     else \<exists>l detail. log_open (il_sha lib) (iw_log w) (io_open_log io) = Inr l \<and>
       iw_log w' = Readable ((case iw_log w of Readable f \<Rightarrow> f | _ \<Rightarrow> []) @
         entry_json (log_entry (il_sha lib) l (io_time io) ev_ingress_accept detail) @ [newline])"
    using append_log_True [OF a(8)] a(7) by (auto simp: append_log_def)
  show ?thesis by (rule exI [of _ m], rule exI [of _ signers]) (use v a l in simp)
qed

text \<open>
  C3. ACCEPT means that everything was checked and done: the bundle has a canonical
  manifest, signed over its very bytes by two different trusted keys, with a version newer
  than the recorded one and content that is exactly what it lists; the decision carries the
  identity, version, signers and content root of that manifest; and the version is now
  recorded.  The log ends with a new entry, except when its directory could not be made,
  in which case the bundle is accepted with no record at all.
\<close>

theorem ingress_accept_means_verified:
  assumes "ingress_main lib env io w = ((d, exit_code), w')" "dc_decision d = dec_accept"
  shows "\<exists>m signers. bundle_passes lib (with_allow env) w m signers \<and> exit_code = 0 \<and>
    dc_bundle_id d = mn_bundle_id m \<and> dc_version d = mn_version m \<and> dc_signers d = signers \<and>
    dc_content_root d = content_root (il_sort lib) (il_sha lib) (mn_files m) \<and>
    iw_versions w' = (iw_versions w)(version_file env (mn_bundle_id m) := Readable (version_text (mn_version m) @ [newline])) \<and>
    (if io_mkdir_log io \<noteq> None then iw_log w' = iw_log w
     else \<exists>l detail. log_open (il_sha lib) (iw_log w) (io_open_log io) = Inr l \<and>
       iw_log w' = Readable ((case iw_log w of Readable f \<Rightarrow> f | _ \<Rightarrow> []) @
         entry_json (log_entry (il_sha lib) l (io_time io) ev_ingress_accept detail) @ [newline]))"
  by (rule accept_verified [OF assms])

text \<open>
  A rejection consumes nothing: when the decision is REJECT, the recorded versions
  are what they were, the exit code is 1, and the reason is that of the check that failed.
\<close>

theorem ingress_reject_advances_nothing:
  assumes "ingress_main lib env io w = ((d, exit_code), w')" "dc_decision d = dec_reject"
  shows "iw_versions w' = iw_versions w \<and> exit_code = 1 \<and>
    (\<exists>e d0. ingress_verify lib (with_allow env) w empty_decision = (Inl e, d0) \<and> dc_reason d = reason_of e)"
  using assms(1)
proof (cases rule: ingress_main_cases)
  case usage
  then show ?thesis using assms(2) dec_distinct by (simp add: emit_def)
next
  case (reject e d0)
  then show ?thesis using ingress_reject_result [OF reject(2)] assms(2) by auto
next
  case (accept m root d0)
  have "dc_decision (fst (d, exit_code)) \<noteq> dec_reject"
    using accept(2) dec_distinct
    by (auto simp: ingress_accept_def Let_def emit_def split: option.splits prod.splits bool.splits)
  with assms(2) show ?thesis by simp
qed

section \<open>Versions over many runs\<close>

lemma trim_newline_end:
  assumes "s \<noteq> []" "solid_byte (hd s)" "solid_byte (last s)"
  shows "trim_space (s @ [newline]) = s"
proof -
  have l: "trim_left_space (s @ [newline]) = s @ [newline]" using assms(1,2) by (intro trim_left_solid) simp_all
  have "trail_space_rev (newline # rev s) = 1"
    by (cases "newline # rev s" rule: trail_space_rev.cases) (simp_all add: ascii_space_def)
  then have "trim_right_rev (newline # rev s) = trim_right_rev (rev s)"
    using trim_right_step [of "newline # rev s"] by simp
  also have "\<dots> = rev s" using assms(1,3) by (intro trim_right_solid) (simp_all add: hd_rev)
  finally show ?thesis unfolding trim_space_def l by simp
qed

lemma parse_version_text: "parse_version (Readable (version_text v @ [newline])) = Inr v"
proof -
  have "\<forall>c\<in>set (version_text v). solid_byte c"
    using nat_dec_digits [of "unat v"] is_digit_solid by (auto simp: version_text_def list_all_iff)
  moreover have "version_text v \<noteq> []" by (simp add: version_text_def)
  ultimately have "trim_space (version_text v @ [newline]) = version_text v"
    by (intro trim_newline_end) simp_all
  then show ?thesis by (simp add: parse_version_def version_text_def parse_uint64_dec)
qed

definition recorded :: "ingress_world \<Rightarrow> string \<Rightarrow> 64 word \<Rightarrow> bool" where
  "recorded w p v = (\<exists>u. parse_version (iw_versions w p) = Inr u \<and> v \<le> u)"

fun run_all :: "ingress_lib \<Rightarrow> (ingress_env \<times> ingress_io) list \<Rightarrow> ingress_world \<Rightarrow> ingress_exit list \<times> ingress_world" where
  "run_all lib [] w = ([], w)"
| "run_all lib ((env, io) # runs) w =
     (let (ex, w1) = ingress_main lib env io w; (exs, w2) = run_all lib runs w1 in (ex # exs, w2))"

text \<open>A run that shares the state directory and does not tear a version file.\<close>

definition sound_run :: "string \<Rightarrow> ingress_env \<times> ingress_io \<Rightarrow> bool" where
  "sound_run st r = (ie_state (fst r) = st \<and> (\<forall>k e. io_write_version (snd r) \<noteq> Some (Some k, e)))"

lemma version_file_state: "ie_state env = ie_state env' \<Longrightarrow> version_file env i = version_file env' i"
  by (simp add: version_file_def)

lemma run_keeps_recorded:
  assumes "ingress_main lib env io w = (ex, w')" "sound_run st (env, io)" "recorded w p v"
  shows "recorded w' p v"
  using assms(1)
proof (cases rule: ingress_main_cases)
  case usage
  then show ?thesis using assms(3) by simp
next
  case (reject e d)
  then show ?thesis using ingress_reject_result [OF reject(2)] assms(3) by (simp add: recorded_def)
next
  case (accept m root d)
  from ingress_verify_Inr [OF accept(1)] obtain prior where
    prior: "parse_version (iw_versions w (version_file env (mn_bundle_id m))) = Inr prior" "prior < mn_version m"
    by (auto simp: bundle_passes_def last_accepted_def)
  have "iw_versions w' = iw_versions w \<or>
      iw_versions w' = (iw_versions w)(version_file env (mn_bundle_id m) := Readable (version_text (mn_version m) @ [newline]))"
    using accept(2) assms(2)
    by (auto simp: ingress_accept_def Let_def sound_run_def split: option.splits prod.splits bool.splits
        dest!: append_log_keeps_versions)
  then show ?thesis
    using assms(3) prior parse_version_text [of "mn_version m"] by (auto simp: recorded_def)
qed

lemma accepted_run:
  assumes "ingress_main lib env io w = (ex, w')" "dc_decision (fst ex) = dec_accept"
  shows "recorded w' (version_file env (dc_bundle_id (fst ex))) (dc_version (fst ex))"
    and "recorded w (version_file env (dc_bundle_id (fst ex))) v \<Longrightarrow> v < dc_version (fst ex)"
proof -
  obtain d c where ex: "ex = (d, c)" by (cases ex)
  from assms(1) show r: "recorded w' (version_file env (dc_bundle_id (fst ex))) (dc_version (fst ex))"
  proof (cases rule: ingress_main_cases)
    case usage
    then show ?thesis using assms(2) dec_distinct by simp
  next
    case (reject e d0)
    then show ?thesis using ingress_reject_result [OF reject(2)] assms(2) dec_distinct by auto
  next
    case (accept m root d0)
    then show ?thesis
      using ingress_verify_Inr [OF accept(1)] ingress_accept_accept [OF accept(2) assms(2)] parse_version_text
      by (auto simp: recorded_def)
  qed
  assume old: "recorded w (version_file env (dc_bundle_id (fst ex))) v"
  from assms(1) show "v < dc_version (fst ex)"
  proof (cases rule: ingress_main_cases)
    case usage
    then show ?thesis using assms(2) dec_distinct by simp
  next
    case (reject e d0)
    then show ?thesis using ingress_reject_result [OF reject(2)] assms(2) dec_distinct by auto
  next
    case (accept m root d0)
    have i: "dc_bundle_id (fst ex) = mn_bundle_id m" "dc_version (fst ex) = mn_version m"
      using ingress_verify_Inr [OF accept(1)] ingress_accept_accept [OF accept(2) assms(2)] by auto
    obtain prior where "parse_version (iw_versions w (version_file env (mn_bundle_id m))) = Inr prior" "prior < mn_version m"
      using ingress_verify_Inr [OF accept(1)] by (auto simp: bundle_passes_def last_accepted_def)
    with old i show ?thesis by (auto simp: recorded_def)
  qed
qed

lemma later_accept_is_newer:
  assumes "run_all lib runs w = (outs, w')" "\<forall>r\<in>set runs. sound_run st r" "recorded w p v" "j < length outs"
    "dc_decision (fst (outs ! j)) = dec_accept" "version_file env0 (dc_bundle_id (fst (outs ! j))) = p" "ie_state env0 = st"
  shows "v < dc_version (fst (outs ! j))"
  using assms(1-6)
proof (induction runs arbitrary: w outs j)
  case (Cons r runs)
  obtain env io where r: "r = (env, io)" by (cases r)
  obtain ex w1 exs where e: "ingress_main lib env io w = (ex, w1)" "run_all lib runs w1 = (exs, w')" "outs = ex # exs"
    using Cons.prems(1) by (auto simp: r Let_def split: prod.splits)
  have s: "sound_run st (env, io)" "\<forall>r\<in>set runs. sound_run st r" using Cons.prems(2) by (auto simp: r)
  show ?case
  proof (cases j)
    case 0
    have "version_file env (dc_bundle_id (fst ex)) = p"
      using Cons.prems(6) e(3) 0 s(1) assms(7) version_file_state [of env env0] by (simp add: sound_run_def)
    then show ?thesis using accepted_run(2) [OF e(1)] Cons.prems(3,5) e(3) 0 by simp
  next
    case (Suc k)
    show ?thesis
      using Cons.IH [OF e(2) s(2) run_keeps_recorded [OF e(1) s(1) Cons.prems(3)], of k] Cons.prems(4-6) e(3) Suc by simp
  qed
qed simp

text \<open>
  C17. No rollback over any sequence of runs: if two runs with the same state directory
  accept bundles of the same identity, the later one has the greater version, whatever
  happens in between (rejections, errors, other bundles, failing logs), as long as no
  write of a version file is torn.
\<close>

theorem accepted_versions_increase:
  assumes "run_all lib runs w = (outs, w')" "\<forall>r\<in>set runs. sound_run st r" "i < j" "j < length outs"
    and "dc_decision (fst (outs ! i)) = dec_accept" "dc_decision (fst (outs ! j)) = dec_accept"
    and "dc_bundle_id (fst (outs ! i)) = dc_bundle_id (fst (outs ! j))"
  shows "dc_version (fst (outs ! i)) < dc_version (fst (outs ! j))"
  using assms
proof (induction runs arbitrary: w outs i j)
  case (Cons r runs)
  obtain env io where r: "r = (env, io)" by (cases r)
  obtain ex w1 exs where e: "ingress_main lib env io w = (ex, w1)" "run_all lib runs w1 = (exs, w')" "outs = ex # exs"
    using Cons.prems(1) by (auto simp: r Let_def split: prod.splits)
  have s: "sound_run st (env, io)" "\<forall>r\<in>set runs. sound_run st r" using Cons.prems(2) by (auto simp: r)
  obtain k where k: "j = Suc k" using Cons.prems(3) by (cases j) auto
  show ?case
  proof (cases i)
    case 0
    have "recorded w1 (version_file env (dc_bundle_id (fst ex))) (dc_version (fst ex))"
      using accepted_run(1) [OF e(1)] Cons.prems(5) e(3) 0 by simp
    from later_accept_is_newer [OF e(2) s(2) this, of k env] show ?thesis
      using Cons.prems(4,6,7) e(3) 0 k s(1) by (simp add: sound_run_def)
  next
    case (Suc i')
    show ?thesis using Cons.IH [OF e(2) s(2), of i' k] Cons.prems(3-7) e(3) Suc k by simp
  qed
qed simp

section \<open>A record that fails\<close>

lemma run_all_keeps_recorded:
  assumes "run_all lib runs w = (outs, w')" "\<forall>r\<in>set runs. sound_run st r" "recorded w p v"
  shows "recorded w' p v"
  using assms
proof (induction runs arbitrary: w outs)
  case (Cons r runs)
  obtain env io where r: "r = (env, io)" by (cases r)
  obtain ex w1 exs where e: "ingress_main lib env io w = (ex, w1)" "run_all lib runs w1 = (exs, w')"
    using Cons.prems(1) by (auto simp: r Let_def split: prod.splits)
  have s: "sound_run st (env, io)" "\<forall>r\<in>set runs. sound_run st r" using Cons.prems(2) by (auto simp: r)
  show ?case by (rule Cons.IH [OF e(2) s(2) run_keeps_recorded [OF e(1) s(1) Cons.prems(3)]])
qed simp

text \<open>A bundle that passed every check fails at the version once its version is recorded.\<close>

lemma recorded_bundle_rolls_back:
  assumes "bundle_passes lib env w m signers" "recorded w' (version_file env (mn_bundle_id m)) (mn_version m)"
  shows "\<exists>prior d'. ingress_verify lib env w' d = (Inl (IeRollback (mn_version m) prior), d') \<and> mn_version m \<le> prior"
proof -
  obtain b trusted s where p:
    "read_manifest env = Inr b" "manifest_parse (il_sort lib) b = Inr m"
    "load_public_keys (il_sha lib) (ie_trusted env) = Inr trusted" "read_signatures env = Inr s"
    "verify_signatures (il_ed_verify lib) b s trusted required_signers = Inr signers"
    using assms(1) unfolding bundle_passes_def required_signers_def by blast
  obtain prior where u: "last_accepted env w' (mn_bundle_id m) = Inr prior" "mn_version m \<le> prior"
    using assms(2) by (auto simp: recorded_def last_accepted_def)
  then have "check_version env w' m = Inl (IeRollback (mn_version m) prior)" by (simp add: check_version_def)
  with u(2) show ?thesis
    by (simp add: ingress_verify_def p noted_def map_error_def act_bind_def set_decision_def act_return_def Let_def)
qed

text \<open>
  C36. A good bundle whose acceptance cannot be logged is lost: the run ends in ERROR, as it
  is to, but the version is recorded before the log is written.  After any further runs with
  the same state directory that tear no version file, whatever they decide, a run over the
  same bundle with the same flags passes every earlier check and fails the version check: it
  ends in REJECT for \<open>version-rollback\<close>, or in ERROR if that cannot be logged either; and no
  run in between accepts the identity of the bundle at its version or an older one.
\<close>

theorem unlogged_acceptance_blocks_the_bundle:
  assumes "bundle_passes lib (with_allow env) w m signers" "[] \<notin> set (ie_flags env)"
    and "io_mkdir_state io = None" "io_write_version io = None" "io_mkdir_log io = None"
    and "log_open (il_sha lib) (iw_log w) (io_open_log io) = Inl e"
    and "ingress_main lib env io w = ((d, exit_code), w1)"
    and "run_all lib runs w1 = (outs, w2)" "\<forall>r\<in>set runs. sound_run (ie_state env) r"
    and "ingress_main lib env io' w2 = ((d', exit_code'), w3)"
  shows "dc_decision d = dec_error \<and> exit_code = 2 \<and>
    (\<exists>prior d1. ingress_verify lib (with_allow env) w2 empty_decision = (Inl (IeRollback (mn_version m) prior), d1) \<and>
       mn_version m \<le> prior) \<and>
    (dc_decision d', exit_code', dc_reason d') \<in> {(dec_reject, 1, ''version-rollback''), (dec_error, 2, log_unavailable)} \<and>
    (\<forall>j<length outs. dc_decision (fst (outs ! j)) = dec_accept \<longrightarrow> dc_bundle_id (fst (outs ! j)) = mn_bundle_id m \<longrightarrow>
       mn_version m < dc_version (fst (outs ! j)))"
proof -
  obtain d0 where v: "ingress_verify lib (with_allow env) w empty_decision =
      (Inr (m, content_root (il_sort lib) (il_sha lib) (mn_files m)), d0)"
    using ingress_verify_passes [OF assms(1)] by blast
  let ?p = "version_file env (mn_bundle_id m)"
  have r: "dc_decision d = dec_error" "exit_code = 2" "iw_versions w1 ?p = Readable (version_text (mn_version m) @ [newline])"
    using assms(2-7) v
    by (auto simp: ingress_main_def with_allow_def [symmetric] Let_def ingress_accept_def append_log_def emit_def)
  then have rec1: "recorded w1 ?p (mn_version m)" using parse_version_text by (simp add: recorded_def)
  have "recorded w2 (version_file (with_allow env) (mn_bundle_id m)) (mn_version m)"
    using run_all_keeps_recorded [OF assms(8,9) rec1] by simp
  from recorded_bundle_rolls_back [OF assms(1) this] obtain prior d1 where
    f: "ingress_verify lib (with_allow env) w2 empty_decision = (Inl (IeRollback (mn_version m) prior), d1)" "mn_version m \<le> prior"
    by blast
  have m: "ingress_reject lib io' (IeRollback (mn_version m) prior) d1 w2 = ((d', exit_code'), w3)"
    using assms(2,10) f(1) by (simp add: ingress_main_def with_allow_def [symmetric] Let_def)
  have "(dc_decision d', exit_code', dc_reason d') \<in> {(dec_reject, 1, ''version-rollback''), (dec_error, 2, log_unavailable)}"
    using m by (auto simp: ingress_reject_def reason_of_def emit_def log_unavailable_def split: prod.splits bool.splits)
  moreover have "mn_version m < dc_version (fst (outs ! j))"
    if "j < length outs" "dc_decision (fst (outs ! j)) = dec_accept" "dc_bundle_id (fst (outs ! j)) = mn_bundle_id m" for j
    by (rule later_accept_is_newer [OF assms(8,9) rec1 that(1,2), of env]) (simp_all add: that(3))
  ultimately show ?thesis using r(1,2) f by blast
qed

end
