(* ===== verification/Bundle_Sign.thy ===== *)
theory Bundle_Sign
  imports Ingress
begin

text \<open>
  Preparing and signing a bundle on the low side (cmd/bundle-sign/main.go,
  cmd/keygen/main.go), and the whole transfer: what is signed there by two trusted signers
  the ingress gate accepts.
\<close>

section \<open>Signing a directory\<close>

datatype sign_cmd_error =
    ScScan content_error
  | ScSecret string
  | ScWrite string

definition ed_secret_size :: nat where "ed_secret_size = 64"

definition load_secret :: "(string, string) result \<Rightarrow> (sign_cmd_error, string) result" where
  "load_secret file =
     (case file of
        Inl e \<Rightarrow> Inl (ScSecret e)
      | Inr text \<Rightarrow>
          (case b64_decode (trim_space text) of
             None \<Rightarrow> Inl (ScSecret ''base64'')
           | Some raw \<Rightarrow> if length raw \<noteq> ed_secret_size then Inl (ScSecret ''size'') else Inr raw))"

fun load_secrets :: "(string, string) result list \<Rightarrow> (sign_cmd_error, string list) result" where
  "load_secrets [] = Inr []"
| "load_secrets (f # fs) = try_bind (load_secret f) (\<lambda>sec. try_bind (load_secrets fs) (\<lambda>secs. Inr (sec # secs)))"

text \<open>Writing a file into a directory; over anything but a regular file it fails.\<close>

definition write_entry :: "string \<Rightarrow> string \<Rightarrow> node \<Rightarrow> (sign_cmd_error, node) result" where
  "write_entry name c dir =
     (case dir of
        Dir es \<Rightarrow>
          (case map_of es name of
             None \<Rightarrow> Inr (Dir (AList.update name (Reg c) es))
           | Some (Reg old) \<Rightarrow> Inr (Dir (AList.update name (Reg c) es))
           | Some x \<Rightarrow> Inl (ScWrite name))
      | _ \<Rightarrow> Inl (ScWrite name))"

definition bundle_manifest :: "string \<Rightarrow> 64 word \<Rightarrow> string \<Rightarrow> mfile list \<Rightarrow> manifest" where
  "bundle_manifest bundle_id version created payload =
     \<lparr>mn_schema = manifest_schema, mn_bundle_id = bundle_id, mn_version = version, mn_created = created, mn_files = payload\<rparr>"

definition bundle_sign :: "(mfile list \<Rightarrow> mfile list) \<Rightarrow> (string \<Rightarrow> string) \<Rightarrow> (string \<Rightarrow> string) \<Rightarrow> (string \<Rightarrow> string \<Rightarrow> string) \<Rightarrow>
    node \<Rightarrow> string \<Rightarrow> 64 word \<Rightarrow> string \<Rightarrow> (string, string) result list \<Rightarrow> (sign_cmd_error, manifest \<times> node) result" where
  "bundle_sign srt sha ed_public ed_sign dir bundle_id version created key_files =
     try_bind (map_error ScScan (scan_dir srt sha (Some dir))) (\<lambda>files.
     let m = bundle_manifest bundle_id version created (filter (\<lambda>f. \<not> is_bundle_metadata (mf_path f)) files)
     in try_bind (load_secrets key_files) (\<lambda>secs.
        try_bind (write_entry ''manifest.json'' (canonical srt m) dir) (\<lambda>dir1.
        try_bind (write_entry ''manifest.sig'' (signature_file sha ed_public ed_sign secs (canonical srt m)) dir1) (\<lambda>dir2.
        Inr (m, dir2)))))"

section \<open>Keys for the fixtures\<close>

text \<open>
  \<open>keygen\<close> writes fixed keys: for each signer a secret and a public file, and the file of
  the trusted ones.  \<open>ed_from_seed\<close> is \<open>ed25519.NewKeyFromSeed\<close>.
\<close>

record fixture_signer =
  fx_name :: string
  fx_seed :: char
  fx_trusted :: bool

definition fixture_signers :: "fixture_signer list" where
  "fixture_signers =
     [\<lparr>fx_name = ''signer-a'', fx_seed = CHR 0x01, fx_trusted = True\<rparr>,
      \<lparr>fx_name = ''signer-b'', fx_seed = CHR 0x02, fx_trusted = True\<rparr>,
      \<lparr>fx_name = ''untrusted'', fx_seed = CHR 0x09, fx_trusted = False\<rparr>]"

definition pub_line :: "(string \<Rightarrow> string) \<Rightarrow> string \<Rightarrow> string" where
  "pub_line sha pub = key_id_for sha pub @ '' '' @ b64_encode pub @ [newline]"

definition fixture_secret :: "(string \<Rightarrow> string) \<Rightarrow> fixture_signer \<Rightarrow> string" where
  "fixture_secret ed_from_seed s = ed_from_seed (replicate 32 (fx_seed s))"

definition keygen_files :: "(string \<Rightarrow> string) \<Rightarrow> (string \<Rightarrow> string) \<Rightarrow> (string \<Rightarrow> string) \<Rightarrow> string \<Rightarrow> (string \<times> string) list" where
  "keygen_files sha ed_public ed_from_seed out =
     concat (map (\<lambda>s. let sec = fixture_secret ed_from_seed s
        in [(path_join [out, fx_name s @ ''.sec''], b64_encode sec @ [newline]),
            (path_join [out, fx_name s @ ''.pub''], pub_line sha (ed_public sec))]) fixture_signers) @
     [(path_join [out, ''trusted.pub''],
       ''# public keys provisioned on the high side'' @ [newline] @
       concat (map (\<lambda>s. pub_line sha (ed_public (fixture_secret ed_from_seed s))) (filter fx_trusted fixture_signers)))]"

section \<open>The signed tree\<close>

definition metadata_name :: "string \<Rightarrow> bool" where
  "metadata_name n = (n = ''manifest.json'' \<or> n = ''manifest.sig'')"

lemma metadata_entry_name: "metadata_name n \<Longrightarrow> entry_name n"
  by (auto simp: metadata_name_def entry_name_def plain_elem_def nul_def)

text \<open>A metadata file written into a walked directory leaves a walked directory with the same payload.\<close>

lemma write_entry_walk:
  assumes "write_entry name c dir = Inr dir'" "metadata_name name" "wf_node dir" "walk sha [] dir = Inr all"
  shows "wf_node dir'" "find_at fo dir' [name] = Some (Reg c)"
    and "n \<noteq> name \<Longrightarrow> find_at fo dir' [n] = find_at fo dir [n]"
    and "\<exists>all'. walk sha [] dir' = Inr all' \<and>
      {f \<in> set all'. \<not> is_bundle_metadata (mf_path f)} = {f \<in> set all. \<not> is_bundle_metadata (mf_path f)}"
proof -
  obtain es where es: "dir = Dir es" "dir' = Dir (AList.update name (Reg c) es)"
    using assms(1) by (auto simp: write_entry_def split: node.splits option.splits)
  have wf: "wf_entries es" using assms(3) es by simp
  note u = update_entries [OF wf_entries_distinct [OF wf], of name "Reg c"]
  show wf': "wf_node dir'"
    using wf u metadata_entry_name [OF assms(2)] by (auto simp: es wf_entries_iff)
  show "find_at fo dir' [name] = Some (Reg c)" by (simp add: es update_conv')
  show "n \<noteq> name \<Longrightarrow> find_at fo dir' [n] = find_at fo dir [n]" by (simp add: es update_conv')
  have "\<forall>(n, x)\<in>set (AList.update name (Reg c) es). \<exists>fs. walk sha [n] x = Inr fs"
    using walk_entries_ok [of sha "[]" es] assms(4) u(2) by (auto simp: es)
  then obtain all' where w: "walk sha [] dir' = Inr all'"
    using walk_entries_ok [of sha "[]" "AList.update name (Reg c) es"] by (auto simp: es)
  define none :: follow where "none = (\<lambda>_ _. None)"
  have "f \<in> set all' \<longleftrightarrow> f \<in> set all" if n: "\<not> is_bundle_metadata (mf_path f)" for f
  proof -
    have "find_at none dir' (path_elems (mf_path f)) = Some (Reg c') \<longleftrightarrow> find_at none dir (path_elems (mf_path f)) = Some (Reg c')"
      if r: "rel_path (path_elems (mf_path f)) = mf_path f" for c'
    proof (cases "path_elems (mf_path f)")
      case (Cons a ms)
      show ?thesis
      proof (cases "a = name")
        case True
        have "ms \<noteq> []"
          using n r Cons True assms(2) by (auto simp: rel_path_def is_bundle_metadata_def metadata_name_def)
        moreover from this obtain b ms' where "ms = b # ms'" by (cases ms) auto
        moreover have "find_at none dir (name # b # ms') \<noteq> Some (Reg c')" for b ms'
          using assms(1) by (auto simp: write_entry_def es split: option.splits node.splits)
        ultimately show ?thesis by (simp add: Cons True es update_conv')
      qed (simp add: Cons es update_conv')
    qed (simp add: es)
    then show ?thesis
      unfolding walked_file [OF w wf', of f none] walked_file [OF assms(4,3), of f none] by blast
  qed
  then have "{f \<in> set all'. \<not> is_bundle_metadata (mf_path f)} = {f \<in> set all. \<not> is_bundle_metadata (mf_path f)}" by blast
  with w show "\<exists>all'. walk sha [] dir' = Inr all' \<and>
      {f \<in> set all'. \<not> is_bundle_metadata (mf_path f)} = {f \<in> set all. \<not> is_bundle_metadata (mf_path f)}" by blast
qed

lemma bundle_sign_parts:
  assumes "bundle_sign srt sha ed_public ed_sign dir bid version created key_files = Inr (m, dir2)"
  obtains all secs dir1 where "walk sha [] dir = Inr all" "load_secrets key_files = Inr secs"
    "m = bundle_manifest bid version created (filter (\<lambda>f. \<not> is_bundle_metadata (mf_path f)) (srt all))"
    "write_entry ''manifest.json'' (canonical srt m) dir = Inr dir1"
    "write_entry ''manifest.sig'' (signature_file sha ed_public ed_sign secs (canonical srt m)) dir1 = Inr dir2"
  using assms by (auto simp: bundle_sign_def result_simps scan_all Let_def)

text \<open>The signed tree: its manifest, its signatures, and a content the gate's check accepts.\<close>

lemma signed_tree:
  assumes "bundle_sign srt sha ed_public ed_sign dir bid version created key_files = Inr (m, dir2)"
    and "sorts_files srt" "wf_node dir" "load_secrets key_files = Inr secs"
  shows "find_at fo dir2 [''manifest.json''] = Some (Reg (canonical srt m))"
    and "find_at fo dir2 [''manifest.sig''] = Some (Reg (signature_file sha ed_public ed_sign secs (canonical srt m)))"
    and "distinct (map mf_path (mn_files m))" "srt (mn_files m) = mn_files m" "mn_schema m = manifest_schema"
    and "mn_bundle_id m = bid" "mn_version m = version"
    and "\<forall>f\<in>set (mn_files m). check_path (mf_path f) allow = Inr () \<Longrightarrow>
      verify_against srt sha fo (Some dir2) (mn_files m) allow = Inr ()"
    and "measure_bundle srt sha (Some dir2) = Inr (mn_files m, content_root srt sha (mn_files m))"
proof -
  obtain all secs' dir1 where
    all: "walk sha [] dir = Inr all"
    and m: "m = bundle_manifest bid version created (filter (\<lambda>f. \<not> is_bundle_metadata (mf_path f)) (srt all))"
    and d1: "write_entry ''manifest.json'' (canonical srt m) dir = Inr dir1"
    and l: "load_secrets key_files = Inr secs'"
    and d2': "write_entry ''manifest.sig'' (signature_file sha ed_public ed_sign secs' (canonical srt m)) dir1 = Inr dir2"
    by (rule bundle_sign_parts [OF assms(1)])
  have d2: "write_entry ''manifest.sig'' (signature_file sha ed_public ed_sign secs (canonical srt m)) dir1 = Inr dir2"
    using d2' l assms(4) by simp
  have n: "metadata_name ''manifest.json''" "metadata_name ''manifest.sig''" by (simp_all add: metadata_name_def)
  note w1 = write_entry_walk [OF d1 n(1) assms(3) all]
  obtain all1 where all1: "walk sha [] dir1 = Inr all1"
      "{f \<in> set all1. \<not> is_bundle_metadata (mf_path f)} = {f \<in> set all. \<not> is_bundle_metadata (mf_path f)}"
    using w1(4) by blast
  note w2 = write_entry_walk [OF d2 n(2) w1(1) all1(1)]
  obtain all2 where all2: "walk sha [] dir2 = Inr all2"
      "{f \<in> set all2. \<not> is_bundle_metadata (mf_path f)} = {f \<in> set all. \<not> is_bundle_metadata (mf_path f)}"
    using w2(4) all1(2) by blast
  show "find_at fo dir2 [''manifest.json''] = Some (Reg (canonical srt m))"
    using w2(3) [of "''manifest.json''"] w1(2) by simp
  show "find_at fo dir2 [''manifest.sig''] = Some (Reg (signature_file sha ed_public ed_sign secs (canonical srt m)))"
    by (rule w2(2))
  note p = measured_payload [OF assms(2,3) all] and p2 = measured_payload [OF assms(2) w2(1) all2(1)]
  have files: "mn_files m = filter (\<lambda>f. \<not> is_bundle_metadata (mf_path f)) (srt all)"
    by (simp add: m bundle_manifest_def)
  show "distinct (map mf_path (mn_files m))" "srt (mn_files m) = mn_files m" using p(3,4) by (simp_all add: files)
  show "mn_schema m = manifest_schema" "mn_bundle_id m = bid" "mn_version m = version"
    by (simp_all add: m bundle_manifest_def)
  have s: "set (mn_files m) = {f \<in> set all2. \<not> is_bundle_metadata (mf_path f)}"
    using p(5) all2(2) files by simp
  have v: "verify_against srt sha fo (Some dir2) (mn_files m) allow = Inr ()"
    if "\<forall>f\<in>set (mn_files m). check_path (mf_path f) allow = Inr ()" for allow
    using that all2(1) s by (auto simp: verify_against_sets [OF assms(2) w2(1)])
  then show "\<forall>f\<in>set (mn_files m). check_path (mf_path f) allow = Inr () \<Longrightarrow>
      verify_against srt sha fo (Some dir2) (mn_files m) allow = Inr ()" .
  have "mset (filter (\<lambda>f. \<not> is_bundle_metadata (mf_path f)) (srt all2)) = mset (mn_files m)"
  proof -
    have "distinct (filter (\<lambda>f. \<not> is_bundle_metadata (mf_path f)) (srt all2))" "distinct (mn_files m)"
      using p2(3) p(3) files by (simp_all add: distinct_map)
    then show ?thesis using s p2(5) set_eq_iff_mset_eq_distinct by metis
  qed
  then have "mset (map mf_path (filter (\<lambda>f. \<not> is_bundle_metadata (mf_path f)) (srt all2))) = mset (map mf_path (mn_files m))"
    by simp
  then have "map mf_path (filter (\<lambda>f. \<not> is_bundle_metadata (mf_path f)) (srt all2)) = map mf_path (mn_files m)"
    using p2(2) p(2) files by (metis properties_for_sort)
  moreover have "inj_on mf_path (set (filter (\<lambda>f. \<not> is_bundle_metadata (mf_path f)) (srt all2)) \<union> set (mn_files m))"
    using p2(3,5) s by (simp add: distinct_map)
  ultimately have "filter (\<lambda>f. \<not> is_bundle_metadata (mf_path f)) (srt all2) = mn_files m" by (rule map_inj_on)
  then show "measure_bundle srt sha (Some dir2) = Inr (mn_files m, content_root srt sha (mn_files m))"
    using p2(1) by simp
qed

section \<open>The transfer\<close>

text \<open>The gate's inputs when the signed tree arrives whole.\<close>

definition arrived :: "ingress_env \<Rightarrow> node \<Rightarrow> ingress_env" where
  "arrived env dir = env\<lparr>ie_bundle := Some dir\<rparr>"

definition quiet_io :: "ingress_io \<Rightarrow> bool" where
  "quiet_io io = (io_mkdir_state io = None \<and> io_write_version io = None \<and> io_mkdir_log io = None \<and>
     io_open_log io = None \<and> io_write_log io = Written)"

text \<open>A bundle that passes is accepted when nothing goes wrong with the writes.\<close>

lemma passing_bundle_accepted:
  assumes "bundle_passes lib (with_allow env) w m signers" "[] \<notin> set (ie_flags env)"
    and "io_mkdir_state io = None" "io_write_version io = None"
    and "\<And>detail w1. iw_log w1 = iw_log w \<Longrightarrow> snd (append_log lib io ev_ingress_accept detail w1)"
  shows "\<exists>d w'. ingress_main lib env io w = ((d, 0), w') \<and> dc_decision d = dec_accept \<and>
    dc_content_root d = content_root (il_sort lib) (il_sha lib) (mn_files m)"
proof -
  obtain d0 where v: "ingress_verify lib (with_allow env) w empty_decision =
      (Inr (m, content_root (il_sort lib) (il_sha lib) (mn_files m)), d0)"
    using ingress_verify_passes [OF assms(1)] by blast
  let ?root = "content_root (il_sort lib) (il_sha lib) (mn_files m)" and ?d1 = "d0\<lparr>dc_content_root := content_root (il_sort lib) (il_sha lib) (mn_files m)\<rparr>"
  let ?w1 = "w\<lparr>iw_versions := (iw_versions w)(version_file env (mn_bundle_id m) := Readable (version_text (mn_version m) @ [newline]))\<rparr>"
  obtain w2 k where a: "append_log lib io ev_ingress_accept (accept_detail ?d1 m ?root) ?w1 = (w2, k)"
    by (cases "append_log lib io ev_ingress_accept (accept_detail ?d1 m ?root) ?w1")
  have "k" using assms(5) [of ?w1 "accept_detail ?d1 m ?root"] a by simp
  then have "ingress_main lib env io w = (emit dec_accept [] 0 ?d1, w2)"
    using assms(2-4) v a by (simp add: ingress_main_def with_allow_def [symmetric] Let_def ingress_accept_def)
  then show ?thesis by (simp add: emit_def)
qed

lemma quiet_log:
  assumes "quiet_io io" "log_open (il_sha lib) (iw_log w) None = Inr l" "iw_log w1 = iw_log w"
  shows "snd (append_log lib io ev detail w1)"
  using assms by (simp add: append_log_def quiet_io_def log_append_def Let_def)

lemma signed_bundle_passes:
  assumes "sorts_files (il_sort lib)" "sha256_size (il_sha lib)" "ed25519_scheme ed_public ed_sign (il_ed_verify lib)"
    and "bundle_sign (il_sort lib) (il_sha lib) ed_public ed_sign dir bid version created key_files = Inr (m, dir2)"
    and "wf_node dir" "load_secrets key_files = Inr secs" "manifest_valid m"
    and "\<forall>f\<in>set (mn_files m). check_path (mf_path f) (ie_allow (with_allow env)) = Inr ()"
    and "load_public_keys (il_sha lib) (ie_trusted env) = Inr trusted"
    and "\<forall>sec\<in>set secs. map_of trusted (key_id_for (il_sha lib) (ed_public sec)) = Some (ed_public sec)"
    and "distinct (map (\<lambda>sec. key_id_for (il_sha lib) (ed_public sec)) secs)" "2 \<le> length secs"
    and "last_accepted env w bid = Inr prior" "prior < version"
  shows "bundle_passes lib (with_allow (arrived env dir2)) w m (map (\<lambda>sec. key_id_for (il_sha lib) (ed_public sec)) secs)"
proof -
  let ?env = "with_allow (arrived env dir2)" and ?signers = "map (\<lambda>sec. key_id_for (il_sha lib) (ed_public sec)) secs"
  note t = signed_tree [OF assms(4,1,5,6)]
  have e: "ie_bundle ?env = Some dir2" "ie_trusted ?env = ie_trusted env" "ie_allow ?env = ie_allow (with_allow env)"
      "ie_follow ?env = ie_follow env"
    by (simp_all add: with_allow_def arrived_def)
  have "read_manifest ?env = Inr (canonical (il_sort lib) m)"
    using t(1) by (simp add: read_manifest_def bundle_file_def e)
  moreover have "manifest_parse (il_sort lib) (canonical (il_sort lib) m) = Inr m"
  proof -
    have "trim_newlines (canonical (il_sort lib) m) = canonical (il_sort lib) m"
      by (simp add: canonical_eq trim_newlines_def json_object_def)
    then show ?thesis
      using parse_iff [OF assms(1), of "canonical (il_sort lib) m" m] t(4,5) assms(7) by simp
  qed
  moreover have "read_signatures ?env = Inr (signature_file (il_sha lib) ed_public ed_sign secs (canonical (il_sort lib) m))"
    using t(2) by (simp add: read_signatures_def bundle_file_def e)
  moreover have "verify_signatures (il_ed_verify lib) (canonical (il_sort lib) m)
      (signature_file (il_sha lib) ed_public ed_sign secs (canonical (il_sort lib) m)) trusted 2 = Inr ?signers"
    by (rule signatures_verify [OF assms(2,3,10,11)]) (use assms(12) in simp)
  moreover have "last_accepted ?env w (mn_bundle_id m) = Inr prior"
    using assms(13) t(6) by (simp add: last_accepted_def version_file_def arrived_def)
  moreover have "verify_against (il_sort lib) (il_sha lib) (ie_follow ?env) (Some dir2) (mn_files m) (ie_allow ?env) = Inr ()"
    by (rule t(8)) (use assms(8) e in simp)
  ultimately show ?thesis
    unfolding bundle_passes_def e using assms(9,14) t(7) by blast
qed

lemma transfer_accepted:
  assumes "sorts_files (il_sort lib)" "sha256_size (il_sha lib)" "ed25519_scheme ed_public ed_sign (il_ed_verify lib)"
    and "bundle_sign (il_sort lib) (il_sha lib) ed_public ed_sign dir bid version created key_files = Inr (m, dir2)"
    and "wf_node dir" "load_secrets key_files = Inr secs" "manifest_valid m"
    and "\<forall>f\<in>set (mn_files m). check_path (mf_path f) (ie_allow (with_allow env)) = Inr ()"
    and "load_public_keys (il_sha lib) (ie_trusted env) = Inr trusted"
    and "\<forall>sec\<in>set secs. map_of trusted (key_id_for (il_sha lib) (ed_public sec)) = Some (ed_public sec)"
    and "distinct (map (\<lambda>sec. key_id_for (il_sha lib) (ed_public sec)) secs)" "2 \<le> length secs"
    and "last_accepted env w bid = Inr prior" "prior < version"
    and "[] \<notin> set (ie_flags env)" "quiet_io io" "log_open (il_sha lib) (iw_log w) None = Inr l"
  shows "\<exists>d w'. ingress_main lib (arrived env dir2) io w = ((d, 0), w') \<and> dc_decision d = dec_accept \<and>
    measure_bundle (il_sort lib) (il_sha lib) (Some dir2) = Inr (mn_files m, dc_content_root d)"
proof -
  note p = signed_bundle_passes [OF assms(1-14)]
  have q: "io_mkdir_state io = None" "io_write_version io = None" using assms(16) by (simp_all add: quiet_io_def)
  have f: "[] \<notin> set (ie_flags (arrived env dir2))" using assms(15) by (simp add: arrived_def)
  obtain d w' where "ingress_main lib (arrived env dir2) io w = ((d, 0), w')" "dc_decision d = dec_accept"
      "dc_content_root d = content_root (il_sort lib) (il_sha lib) (mn_files m)"
    using passing_bundle_accepted [OF p f q quiet_log [OF assms(16,17)]] by blast
  with signed_tree(9) [OF assms(4,1,5,6)] show ?thesis by simp
qed

text \<open>
  C18. From the low side to the high side: a directory that \<open>bundle-sign\<close> signed with two
  or more keys, all provisioned as trusted and with different identities, is accepted by
  \<open>ingress-verify\<close> when it arrives unchanged, its paths are allowed, its version is newer
  than the last accepted one and the log and the state can be written; and what is then
  measured at run time is the content root of the decision.  This holds for a manifest that
  the JSON of the bundle can carry: the identity of the bundle, the time of creation and the
  names of all its files are UTF-8, and every size is below 2^63; a directory with a file
  name that is not UTF-8 is not covered.  The names in each directory are proper and distinct.  Signing and sorting are the library's: a signature
  made with a key verifies under it, and the files come back in the order of their paths.
\<close>

theorem signed_bundle_is_accepted:
  assumes "sorts_files (il_sort lib)" "sha256_size (il_sha lib)" "ed25519_scheme ed_public ed_sign (il_ed_verify lib)"
    and "bundle_sign (il_sort lib) (il_sha lib) ed_public ed_sign dir bid version created key_files = Inr (m, dir2)"
    and "wf_node dir" "load_secrets key_files = Inr secs" "manifest_valid m"
    and "\<forall>f\<in>set (mn_files m). check_path (mf_path f) (ie_allow (with_allow env)) = Inr ()"
    and "load_public_keys (il_sha lib) (ie_trusted env) = Inr trusted"
    and "\<forall>sec\<in>set secs. map_of trusted (key_id_for (il_sha lib) (ed_public sec)) = Some (ed_public sec)"
    and "distinct (map (\<lambda>sec. key_id_for (il_sha lib) (ed_public sec)) secs)" "2 \<le> length secs"
    and "last_accepted env w bid = Inr prior" "prior < version"
    and "[] \<notin> set (ie_flags env)" "quiet_io io" "log_open (il_sha lib) (iw_log w) None = Inr l"
  shows "\<exists>d w'. ingress_main lib (arrived env dir2) io w = ((d, 0), w') \<and> dc_decision d = dec_accept \<and>
    measure_bundle (il_sort lib) (il_sha lib) (Some dir2) = Inr (mn_files m, dc_content_root d)"
  by (rule transfer_accepted [OF assms])

section \<open>An example\<close>

definition toy_secret :: "char \<Rightarrow> string" where "toy_secret c = replicate 64 c"
definition toy_public_of :: "string \<Rightarrow> string" where "toy_public_of sec = toy_public (hd sec)"
definition toy_sign_with :: "string \<Rightarrow> string \<Rightarrow> string" where "toy_sign_with sec msg = toy_sign (hd sec) msg"

definition toy_lib :: ingress_lib where
  "toy_lib = \<lparr>il_sha = toy_sha, il_ed_verify = toy_verify, il_sort = sort_key mf_path, il_show = \<lambda>_. ''error''\<rparr>"

definition toy_env :: ingress_env where
  "toy_env = \<lparr>ie_flags = [''b'', ''t'', ''s'', ''l''], ie_bundle = None, ie_follow = \<lambda>_ _. None,
     ie_trusted = Inr toy_key_file, ie_state = ''s'', ie_allow = []\<rparr>"

definition toy_world :: ingress_world where
  "toy_world = \<lparr>iw_versions = \<lambda>_. Missing, iw_log = Missing\<rparr>"

definition toy_io :: "string option \<Rightarrow> string option \<Rightarrow> ingress_io" where
  "toy_io no_dir no_log = \<lparr>io_mkdir_state = None, io_write_version = None, io_mkdir_log = no_dir, io_open_log = no_log,
     io_write_log = Written, io_time = ''now''\<rparr>"

definition toy_dir :: node where "toy_dir = Dir [(''content'', Dir [(''a'', Reg ''hi'')])]"

definition toy_file :: mfile where "toy_file = file_at toy_sha [''content'', ''a''] ''hi''"

definition toy_bundle :: "64 word \<Rightarrow> manifest" where "toy_bundle v = bundle_manifest ''b1'' v ''now'' [toy_file]"

definition toy_signed :: "64 word \<Rightarrow> node" where
  "toy_signed v = Dir [(''content'', Dir [(''a'', Reg ''hi'')]),
     (''manifest.json'', Reg (canonical (sort_key mf_path) (toy_bundle v))),
     (''manifest.sig'', Reg (signature_file toy_sha toy_public_of toy_sign_with [toy_secret CHR ''a'', toy_secret CHR ''b'']
        (canonical (sort_key mf_path) (toy_bundle v))))]"

definition toy_secret_files :: "(string, string) result list" where
  "toy_secret_files = [Inr (b64_encode (toy_secret CHR ''a'')), Inr (b64_encode (toy_secret CHR ''b''))]"

lemma toy_secrets: "load_secrets toy_secret_files = Inr [toy_secret CHR ''a'', toy_secret CHR ''b'']"
proof -
  have "trim_space (b64_encode (toy_secret c)) = b64_encode (toy_secret c)" for c
    using b64_encode_solid [of "toy_secret c"] by (intro trim_space_solid) (auto simp: list_all_iff)
  then show ?thesis by (simp add: toy_secret_files_def load_secret_def toy_secret_def ed_secret_size_def)
qed

lemma toy_lib_ok:
  "sorts_files (il_sort toy_lib)" "sha256_size (il_sha toy_lib)"
  "ed25519_scheme toy_public_of toy_sign_with (il_ed_verify toy_lib)"
  using toy_scheme sort_key_sorts
  by (simp_all add: toy_lib_def ed25519_scheme_def toy_public_of_def toy_sign_with_def)

lemma toy_dir_facts: "wf_node toy_dir" "mf_path toy_file = ''content/a''" "\<not> is_bundle_metadata ''content/a''"
  "walk toy_sha [] toy_dir = Inr [toy_file]"
  by (simp_all add: toy_dir_def entry_name_def plain_elem_def nul_def toy_file_def file_at_def rel_path_def is_bundle_metadata_def)

lemma toy_bundle_signed:
  "bundle_sign (il_sort toy_lib) (il_sha toy_lib) toy_public_of toy_sign_with toy_dir ''b1'' v ''now'' toy_secret_files =
     Inr (toy_bundle v, toy_signed v)"
proof -
  have "scan_dir (sort_key mf_path) toy_sha (Some toy_dir) = Inr [toy_file]"
    using toy_dir_facts(4) by (simp add: scan_all)
  moreover have "write_entry ''manifest.json'' c toy_dir = Inr (Dir [(''content'', Dir [(''a'', Reg ''hi'')]), (''manifest.json'', Reg c)])" for c
    by (simp add: write_entry_def toy_dir_def)
  moreover have "write_entry ''manifest.sig'' s (Dir [(''content'', x), (''manifest.json'', Reg c)]) =
      Inr (Dir [(''content'', x), (''manifest.json'', Reg c), (''manifest.sig'', Reg s)])" for s c x
    by (simp add: write_entry_def)
  ultimately show ?thesis
    by (simp add: bundle_sign_def toy_lib_def map_error_def Let_def toy_secrets toy_dir_facts(2,3) toy_bundle_def [symmetric] toy_signed_def)
qed

lemma toy_bundle_valid: "manifest_valid (toy_bundle v)"
proof -
  have "utf8_valid s" if "list_all (\<lambda>c. code c < 0x80) s" for s by (rule ascii_valid [OF that])
  then have "utf8_valid ''content/a''" "utf8_valid manifest_schema" "utf8_valid ''b1''" "utf8_valid ''now''"
    by (simp_all add: code_def manifest_schema_def del: utf8_valid.simps)
  moreover have "utf8_valid (hex_encode x)" for x by (rule solid_valid [OF hex_encode_solid])
  ultimately show ?thesis
    using toy_dir_facts(2)
    by (simp add: manifest_valid_def toy_bundle_def bundle_manifest_def mfile_valid_def int64_def toy_file_def file_at_def
        del: utf8_valid.simps)
qed

lemma toy_files_allowed: "\<forall>f\<in>set (mn_files (toy_bundle v)). check_path (mf_path f) (ie_allow (with_allow toy_env)) = Inr ()"
  by (simp add: toy_bundle_def bundle_manifest_def toy_dir_facts(2) with_allow_def toy_env_def default_allow_def check_path_plain
      plain_path_def plain_elem_def)

lemma toy_trusts:
  "load_public_keys (il_sha toy_lib) (ie_trusted toy_env) = Inr toy_keys"
  "\<forall>sec\<in>set [toy_secret CHR ''a'', toy_secret CHR ''b'']. map_of toy_keys (key_id_for (il_sha toy_lib) (toy_public_of sec)) = Some (toy_public_of sec)"
  "distinct (map (\<lambda>sec. key_id_for (il_sha toy_lib) (toy_public_of sec)) [toy_secret CHR ''a'', toy_secret CHR ''b''])"
  "2 \<le> length [toy_secret CHR ''a'', toy_secret CHR ''b'']"
  using toy_key_file_loads
  by (simp_all add: toy_env_def toy_lib_def toy_public_of_def toy_secret_def toy_keys_def toy_key_id)

text \<open>The toy bundle passes in every state that has not yet seen its version.\<close>

lemma toy_passes:
  assumes "last_accepted toy_env w ''b1'' = Inr prior" "prior < v"
  shows "\<exists>signers. bundle_passes toy_lib (with_allow (arrived toy_env (toy_signed v))) w (toy_bundle v) signers"
  using signed_bundle_passes [OF toy_lib_ok toy_bundle_signed toy_dir_facts(1) toy_secrets toy_bundle_valid toy_files_allowed toy_trusts assms]
  by blast

lemma toy_fresh: "last_accepted toy_env toy_world bid = Inr 0"
  by (simp add: last_accepted_def toy_world_def parse_version_def)

theorem signed_bundle_is_accepted_witness:
  "\<exists>d w'. ingress_main toy_lib (arrived toy_env (toy_signed 1)) (toy_io None None) toy_world = ((d, 0), w') \<and>
     dc_decision d = dec_accept"
proof -
  have l: "log_open (il_sha toy_lib) (iw_log toy_world) None = Inr fresh_log"
    by (simp add: log_open_def toy_world_def)
  have q: "quiet_io (toy_io None None)" "[] \<notin> set (ie_flags toy_env)"
    by (simp_all add: quiet_io_def toy_io_def toy_env_def)
  show ?thesis
    using signed_bundle_is_accepted [OF toy_lib_ok toy_bundle_signed toy_dir_facts(1) toy_secrets toy_bundle_valid
        toy_files_allowed toy_trusts toy_fresh _ q(2,1) l, of 1]
    by auto
qed


text \<open>The gate of the example run on a version, with a log or without its directory.\<close>

lemma toy_accepts:
  assumes "last_accepted toy_env w ''b1'' = Inr prior" "prior < v" "iw_log w = Missing"
  shows "\<exists>d w'. ingress_main toy_lib (arrived toy_env (toy_signed v)) (toy_io no_dir None) w = ((d, 0), w') \<and>
    dc_decision d = dec_accept \<and> dc_bundle_id d = ''b1'' \<and> (no_dir \<noteq> None \<longrightarrow> iw_log w' = Missing) \<and>
    last_accepted toy_env w' ''b1'' = Inr v"
proof -
  let ?env = "arrived toy_env (toy_signed v)"
  obtain signers where p: "bundle_passes toy_lib (with_allow ?env) w (toy_bundle v) signers"
    using toy_passes [OF assms(1,2)] by blast
  have l: "log_open (il_sha toy_lib) (iw_log w) None = Inr fresh_log" by (simp add: log_open_def assms(3))
  have a: "snd (append_log toy_lib (toy_io no_dir None) ev detail w1)" if "iw_log w1 = iw_log w" for ev detail w1
  proof (cases no_dir)
    case None
    then show ?thesis using quiet_log [OF _ l that] by (simp add: quiet_io_def toy_io_def)
  next
    case (Some e)
    then show ?thesis by (simp add: append_log_def toy_io_def)
  qed
  have q: "[] \<notin> set (ie_flags ?env)" "io_mkdir_state (toy_io no_dir None) = None" "io_write_version (toy_io no_dir None) = None"
    by (simp_all add: arrived_def toy_env_def toy_io_def)
  obtain d w' where r: "ingress_main toy_lib ?env (toy_io no_dir None) w = ((d, 0), w')" "dc_decision d = dec_accept"
    using passing_bundle_accepted [OF p q a] by blast
  from accept_verified [OF r] obtain m signers' where
    "bundle_passes toy_lib (with_allow ?env) w m signers'" "dc_bundle_id d = mn_bundle_id m"
    "iw_versions w' = (iw_versions w)(version_file ?env (mn_bundle_id m) := Readable (version_text (mn_version m) @ [newline]))"
    "no_dir \<noteq> None \<longrightarrow> iw_log w' = iw_log w"
    by (auto simp: toy_io_def)
  moreover from this(1) have "m = toy_bundle v" by (rule bundle_passes_manifest [OF p])
  moreover have "version_file ?env = version_file toy_env" by (simp add: fun_eq_iff version_file_def arrived_def)
  ultimately show ?thesis
    using r assms(3) parse_version_text [of v] by (simp add: last_accepted_def toy_bundle_def bundle_manifest_def)
qed

theorem ingress_accept_means_verified_witness:
  "\<exists>d w' m signers. ingress_main toy_lib (arrived toy_env (toy_signed 1)) (toy_io None None) toy_world = ((d, 0), w') \<and>
     dc_decision d = dec_accept \<and> bundle_passes toy_lib (with_allow (arrived toy_env (toy_signed 1))) toy_world m signers \<and>
     dc_signers d = signers"
proof -
  have "iw_log toy_world = Missing" by (simp add: toy_world_def)
  then obtain d w' where "ingress_main toy_lib (arrived toy_env (toy_signed 1)) (toy_io None None) toy_world = ((d, 0), w')"
      "dc_decision d = dec_accept"
    using toy_accepts [OF toy_fresh, of 1 None] by auto
  from this ingress_accept_means_verified [OF this] show ?thesis by blast
qed

theorem ingress_reject_advances_nothing_witness:
  "\<exists>d w'. ingress_main toy_lib toy_env (toy_io (Some ''x'') None) toy_world = ((d, 1), w') \<and> dc_decision d = dec_reject \<and>
     iw_versions w' = iw_versions toy_world"
proof -
  obtain d where v: "ingress_verify toy_lib (with_allow toy_env) toy_world empty_decision = (Inl IeManifestUnreadable, d)"
    by (simp add: ingress_verify_def act_bind_def noted_def read_manifest_def bundle_file_def with_allow_def toy_env_def)
  have f: "[] \<notin> set (ie_flags toy_env)" "append_log toy_lib (toy_io (Some ''x'') None) ev x toy_world = (toy_world, True)" for ev x
    by (simp_all add: toy_env_def append_log_def toy_io_def)
  obtain d' where r: "ingress_main toy_lib toy_env (toy_io (Some ''x'') None) toy_world = ((d', 1), toy_world)"
      "dc_decision d' = dec_reject"
    using v f by (simp add: ingress_main_def with_allow_def [symmetric] Let_def ingress_reject_def emit_def)
  from ingress_reject_advances_nothing [OF r] r show ?thesis by blast
qed

theorem accepted_versions_increase_witness:
  "\<exists>x1 x2 w'. run_all toy_lib [(arrived toy_env (toy_signed 1), toy_io (Some ''x'') None),
       (arrived toy_env (toy_signed 2), toy_io (Some ''x'') None)] toy_world = ([x1, x2], w') \<and>
     dc_decision (fst x1) = dec_accept \<and> dc_decision (fst x2) = dec_accept \<and> dc_version (fst x1) < dc_version (fst x2)"
proof -
  let ?io = "toy_io (Some ''x'') None"
  have "iw_log toy_world = Missing" by (simp add: toy_world_def)
  then obtain d1 w1 where r1: "ingress_main toy_lib (arrived toy_env (toy_signed 1)) ?io toy_world = ((d1, 0), w1)"
      "dc_decision d1 = dec_accept" "dc_bundle_id d1 = ''b1''" "iw_log w1 = Missing" "last_accepted toy_env w1 ''b1'' = Inr 1"
    using toy_accepts [OF toy_fresh, of 1 "Some ''x''"] by auto
  obtain d2 w2 where r2: "ingress_main toy_lib (arrived toy_env (toy_signed 2)) ?io w1 = ((d2, 0), w2)"
      "dc_decision d2 = dec_accept" "dc_bundle_id d2 = ''b1''"
    using toy_accepts [OF r1(5) _ r1(4), of 2 "Some ''x''"] by auto
  have a: "run_all toy_lib [(arrived toy_env (toy_signed 1), ?io), (arrived toy_env (toy_signed 2), ?io)] toy_world =
      ([(d1, 0), (d2, 0)], w2)"
    using r1(1) r2(1) by simp
  have "\<forall>r\<in>set [(arrived toy_env (toy_signed 1), ?io), (arrived toy_env (toy_signed 2), ?io)]. sound_run ''s'' r"
    by (simp add: sound_run_def arrived_def toy_env_def toy_io_def)
  from accepted_versions_increase [OF a this, of 0 1] a r1 r2 show ?thesis by auto
qed

text \<open>The log cannot be opened, then version 2 is accepted, then version 1 comes again.\<close>

theorem unlogged_acceptance_blocks_the_bundle_witness:
  "\<exists>d w1 x w2 d' w3. ingress_main toy_lib (arrived toy_env (toy_signed 1)) (toy_io None (Some ''denied'')) toy_world = ((d, 2), w1) \<and>
     dc_decision d = dec_error \<and>
     run_all toy_lib [(arrived toy_env (toy_signed 2), toy_io (Some ''x'') None)] w1 = ([x], w2) \<and>
     ingress_main toy_lib (arrived toy_env (toy_signed 1)) (toy_io (Some ''x'') None) w2 = ((d', 1), w3) \<and>
     dc_decision d' = dec_reject \<and> dc_reason d' = ''version-rollback''"
proof -
  let ?env = "arrived toy_env (toy_signed 1)" and ?io = "toy_io None (Some ''denied'')" and ?io' = "toy_io (Some ''x'') None"
  obtain signers where p: "bundle_passes toy_lib (with_allow ?env) toy_world (toy_bundle 1) signers"
    using toy_passes [OF toy_fresh, of 1] by auto
  obtain e where l: "log_open (il_sha toy_lib) (iw_log toy_world) (io_open_log ?io) = Inl e"
    by (simp add: log_open_def toy_world_def toy_io_def)
  obtain d k w1 where r: "ingress_main toy_lib ?env ?io toy_world = ((d, k), w1)" by (metis prod.collapse)
  obtain x w2 where "ingress_main toy_lib (arrived toy_env (toy_signed 2)) ?io' w1 = (x, w2)" by (metis prod.collapse)
  then have a: "run_all toy_lib [(arrived toy_env (toy_signed 2), ?io')] w1 = ([x], w2)" by simp
  obtain d' k' w3 where r': "ingress_main toy_lib ?env ?io' w2 = ((d', k'), w3)" by (metis prod.collapse)
  have q: "[] \<notin> set (ie_flags ?env)" "io_mkdir_state ?io = None" "io_write_version ?io = None" "io_mkdir_log ?io = None"
    by (simp_all add: arrived_def toy_env_def toy_io_def)
  have s: "\<forall>r\<in>set [(arrived toy_env (toy_signed 2), ?io')]. sound_run (ie_state ?env) r"
    by (simp add: sound_run_def arrived_def toy_env_def toy_io_def)
  have "\<not> (dc_decision d' = dec_error \<and> k' = 2)"
  proof
    assume "dc_decision d' = dec_error \<and> k' = 2"
    have n: "io_mkdir_log ?io' = Some ''x''" by (simp add: toy_io_def)
    from unlogged_acceptance_blocks_the_bundle [OF p q l r a s r'] obtain prior d1 where
      "ingress_verify toy_lib (with_allow ?env) w2 empty_decision = (Inl (IeRollback (mn_version (toy_bundle 1)) prior), d1)" by blast
    then have "ingress_main toy_lib ?env ?io' w2 = ingress_reject toy_lib ?io' (IeRollback (mn_version (toy_bundle 1)) prior) d1 w2"
      using q(1) by (simp add: ingress_main_def with_allow_def [symmetric] Let_def)
    with r' \<open>dc_decision d' = dec_error \<and> k' = 2\<close> show False
      by (simp add: ingress_reject_def append_log_def n emit_def)
  qed
  with unlogged_acceptance_blocks_the_bundle [OF p q l r a s r'] r a r' show ?thesis by blast
qed

end
