(* ===== verification/Go_Json_Indent.thy ===== *)
theory Go_Json_Indent
  imports Go_Json
begin

text \<open>
  \<open>encoding/json\<close>, continued: \<open>MarshalIndent\<close> with two spaces, and reading back what it
  writes.
\<close>

section \<open>Writing with indentation\<close>

definition json_line :: "nat \<Rightarrow> string" where
  "json_line d = newline # replicate (2 * d) CHR 0x20"

definition json_block :: "nat \<Rightarrow> char \<Rightarrow> char \<Rightarrow> string list \<Rightarrow> string" where
  "json_block d open_ch close_ch ws =
     (if ws = [] then [open_ch, close_ch]
      else open_ch # json_line (Suc d) @ join_with (CHR '','' # json_line (Suc d)) ws @ json_line d @ [close_ch])"

definition json_indent_member :: "string \<Rightarrow> string \<Rightarrow> string" where
  "json_indent_member k w = json_string True k @ '': '' @ w"

function json_indent :: "nat \<Rightarrow> json \<Rightarrow> string" where
  "json_indent d JNull = ''null''"
| "json_indent d (JBool b) = (if b then ''true'' else ''false'')"
| "json_indent d (JNum x) = x"
| "json_indent d (JStr x) = json_string True x"
| "json_indent d (JArr vs) = json_block d CHR ''['' CHR '']'' (map (json_indent (Suc d)) vs)"
| "json_indent d (JObj ms) =
     json_block d CHR ''{'' CHR ''}'' (map (\<lambda>p. json_indent_member (fst p) (json_indent (Suc d) (snd p))) ms)"
  by pat_completeness auto
termination
proof (relation "measure (\<lambda>(d, v). size v)", goal_cases)
  case (3 d ms p)
  then show ?case by (induction ms) (auto, (case_tac p, auto)?)
qed (auto simp: less_Suc_eq_le size_list_estimation')

text \<open>The depth of nesting, and the values \<open>Marshal\<close> makes of records of texts and integers.\<close>

function json_depth :: "json \<Rightarrow> nat" where
  "json_depth (JArr vs) = Suc (foldr max (map json_depth vs) 0)"
| "json_depth (JObj ms) = Suc (foldr max (map (\<lambda>p. json_depth (snd p)) ms) 0)"
| "json_depth JNull = 0"
| "json_depth (JBool b) = 0"
| "json_depth (JNum x) = 0"
| "json_depth (JStr x) = 0"
  by pat_completeness auto
termination
proof (relation "measure size", goal_cases)
  case (3 ms p)
  then show ?case by (induction ms) (auto, (case_tac p, auto)?)
qed (auto simp: less_Suc_eq_le size_list_estimation')

text \<open>A value whose texts are UTF-8 and whose numbers are those of integers, with no empty list or object.\<close>

function json_plain :: "json \<Rightarrow> bool" where
  "json_plain (JStr x) = utf8_valid x"
| "json_plain (JNum x) = (\<exists>i. x = int_dec i)"
| "json_plain JNull = True"
| "json_plain (JBool b) = False"
| "json_plain (JArr vs) = (vs \<noteq> [] \<and> (\<forall>v\<in>set vs. json_plain v))"
| "json_plain (JObj ms) = (ms \<noteq> [] \<and> (\<forall>p\<in>set ms. utf8_valid (fst p) \<and> json_plain (snd p)))"
  by pat_completeness auto
termination
proof (relation "measure size", goal_cases)
  case (2 ms p)
  then show ?case by (induction ms) (auto, (case_tac p, auto)?)
qed (auto simp: less_Suc_eq_le size_list_estimation')


section \<open>Reading back\<close>

lemma skip_line [simp]: "skip_ws (json_line d @ s) = skip_ws s"
proof -
  have "\<forall>c\<in>set (json_line d). json_ws c" by (auto simp: json_line_def json_ws_def)
  then show ?thesis by (simp add: skip_ws_def dropWhile_append2)
qed

lemma skip_blank [simp]: "skip_ws (CHR 0x20 # s) = skip_ws s"
  by (simp add: skip_ws_def json_ws_def)

lemma stops_line [simp]: "stops (json_line d @ s)"
  by (simp add: stops_def json_line_def)

lemma skip_value: "reads_value k w v \<Longrightarrow> skip_ws (w @ t) = w @ t"
  by (rule skip_ws_stop) (auto simp: reads_value_def)

definition member_reads :: "nat \<Rightarrow> string \<Rightarrow> string \<times> json \<Rightarrow> bool" where
  "member_reads k w p = (\<exists>x. w = json_indent_member (fst p) x \<and> utf8_valid (fst p) \<and> reads_value k x (snd p))"

lemma reads_block_members:
  "list_all2 (member_reads k) ws ms \<Longrightarrow> ws \<noteq> [] \<Longrightarrow> 2 * length (join_with (CHR '','' # json_line l) ws) + 2 < n \<Longrightarrow> k \<le> d \<Longrightarrow>
   parse_members n d (join_with (CHR '','' # json_line l) ws @ json_line l' @ CHR ''}'' # t) = Inr (ms, t)"
proof (induction ws arbitrary: ms n)
  case (Cons w ws)
  then obtain p ms' where ms: "ms = p # ms'" and w: "member_reads k w p" and rest: "list_all2 (member_reads k) ws ms'"
    by (auto simp: list_all2_Cons1)
  obtain key v where p: "p = (key, v)" by (cases p)
  from w p obtain x where x: "w = json_indent_member key x" "utf8_valid key" "reads_value k x v"
    by (auto simp: member_reads_def)
  show ?case
  proof (cases ws)
    case Nil
    with Cons.prems obtain m where m: "n = Suc m" "2 * length x < m"
      by (cases n) (auto simp: x json_indent_member_def json_string_def)
    have "parse_value m d (x @ json_line l' @ CHR ''}'' # t) = Inr (v, json_line l' @ CHR ''}'' # t)"
      by (rule reads_valueD [OF x(3) m(2) Cons.prems(4)]) simp
    with Nil rest skip_value [OF x(3)] show ?thesis
      using parse_chars_body [of True key "'': '' @ x @ json_line l' @ CHR ''}'' # t"]
      by (simp add: ms p x(1,2) m(1) parse_members.simps json_indent_member_def json_string_def utf8_repair_valid)
  next
    case (Cons w' ws')
    let ?r = "join_with (CHR '','' # json_line l) ws @ json_line l' @ CHR ''}'' # t"
    from Cons Cons.prems(3) obtain m where m: "n = Suc m" "2 * length x < m"
        "2 * length (join_with (CHR '','' # json_line l) ws) + 2 < m"
      by (cases n) (auto simp: x json_indent_member_def json_string_def)
    have "parse_value m d (x @ CHR '','' # json_line l @ ?r) = Inr (v, CHR '','' # json_line l @ ?r)"
      by (rule reads_valueD [OF x(3) m(2) Cons.prems(4)]) (simp add: stops_def)
    moreover have "skip_ws ?r = ?r"
      using rest Cons by (cases ws') (auto simp: list_all2_Cons1 member_reads_def json_indent_member_def json_string_def)
    moreover have "parse_members m d ?r = Inr (ms', t)"
      using Cons.IH [OF rest _ m(3) Cons.prems(4)] Cons by simp
    ultimately show ?thesis
      using Cons skip_value [OF x(3)] parse_chars_body [of True key "'': '' @ x @ CHR '','' # json_line l @ ?r"]
      by (simp add: ms p x(1,2) m(1) parse_members.simps json_indent_member_def json_string_def utf8_repair_valid)
  qed
qed simp

lemma reads_block_elements:
  "list_all2 (reads_value k) ws vs \<Longrightarrow> ws \<noteq> [] \<Longrightarrow> 2 * length (join_with (CHR '','' # json_line l) ws) + 3 < n \<Longrightarrow> k \<le> d \<Longrightarrow>
   parse_elements n d (join_with (CHR '','' # json_line l) ws @ json_line l' @ CHR '']'' # t) = Inr (vs, t)"
proof (induction ws arbitrary: vs n)
  case (Cons w ws)
  then obtain v vs' where vs: "vs = v # vs'" and v: "reads_value k w v" and rest: "list_all2 (reads_value k) ws vs'"
    by (auto simp: list_all2_Cons1)
  show ?case
  proof (cases ws)
    case Nil
    with Cons.prems obtain m where m: "n = Suc m" "2 * length w < m" by (cases n) auto
    have "parse_value m d (w @ json_line l' @ CHR '']'' # t) = Inr (v, json_line l' @ CHR '']'' # t)"
      by (rule reads_valueD [OF v m(2) Cons.prems(4)]) simp
    with Nil rest show ?thesis by (simp add: vs m parse_elements.simps)
  next
    case (Cons w' ws')
    let ?r = "join_with (CHR '','' # json_line l) ws @ json_line l' @ CHR '']'' # t"
    from Cons Cons.prems(3) obtain m where m: "n = Suc m" "2 * length w < m"
        "2 * length (join_with (CHR '','' # json_line l) ws) + 3 < m"
      by (cases n) auto
    have "parse_value m d (w @ CHR '','' # json_line l @ ?r) = Inr (v, CHR '','' # json_line l @ ?r)"
      by (rule reads_valueD [OF v m(2) Cons.prems(4)]) (simp add: stops_def)
    moreover have "skip_ws ?r = ?r"
    proof -
      obtain v' where "reads_value k w' v'" using rest Cons by (auto simp: list_all2_Cons1)
      from skip_value [OF this] show ?thesis using Cons by (cases ws') auto
    qed
    moreover have "parse_elements m d ?r = Inr (vs', t)"
      using Cons.IH [OF rest _ m(3) Cons.prems(4)] Cons by simp
    ultimately show ?thesis using Cons by (simp add: vs m parse_elements.simps)
  qed
qed simp

lemma reads_block_object:
  assumes "list_all2 (member_reads k) ws ms" "ws \<noteq> []"
  shows "reads_value (Suc k) (json_block l CHR ''{'' CHR ''}'' ws) (JObj ms)"
proof -
  let ?j = "join_with (CHR '','' # json_line (Suc l)) ws"
  have "parse_value n d (json_block l CHR ''{'' CHR ''}'' ws @ t) = Inr (JObj ms, t)"
    if n: "2 * length (json_block l CHR ''{'' CHR ''}'' ws) < n" and d: "Suc k \<le> d" for n d t
  proof -
    from n assms(2) obtain m where m: "n = Suc m" "2 * length ?j + 2 < m"
      by (cases n) (auto simp: json_block_def json_line_def)
    have "parse_members m (d - 1) (?j @ json_line l @ CHR ''}'' # t) = Inr (ms, t)"
      by (rule reads_block_members [OF assms m(2)]) (use d in simp)
    moreover have "\<exists>u. ?j = dquote # u"
      using assms by (cases ws; cases "tl ws") (auto simp: list_all2_Cons1 member_reads_def json_indent_member_def json_string_def)
    ultimately show ?thesis using assms(2) d by (auto simp: m json_block_def parse_value.simps)
  qed
  then show ?thesis by (simp add: reads_value_def json_block_def)
qed

lemma reads_block_array:
  assumes "list_all2 (reads_value k) ws vs" "ws \<noteq> []"
  shows "reads_value (Suc k) (json_block l CHR ''['' CHR '']'' ws) (JArr vs)"
proof -
  let ?j = "join_with (CHR '','' # json_line (Suc l)) ws"
  have "parse_value n d (json_block l CHR ''['' CHR '']'' ws @ t) = Inr (JArr vs, t)"
    if n: "2 * length (json_block l CHR ''['' CHR '']'' ws) < n" and d: "Suc k \<le> d" for n d t
  proof -
    from n assms(2) obtain m where m: "n = Suc m" "2 * length ?j + 3 < m"
      by (cases n) (auto simp: json_block_def json_line_def)
    have "parse_elements m (d - 1) (?j @ json_line l @ CHR '']'' # t) = Inr (vs, t)"
      by (rule reads_block_elements [OF assms m(2)]) (use d in simp)
    moreover obtain c u where j: "?j = c # u" "\<not> json_ws c" "c \<noteq> CHR '']''"
    proof -
      obtain w ws' v where ws: "ws = w # ws'" and w: "reads_value k w v"
        using assms by (cases ws) (auto simp: list_all2_Cons1)
      have "?j \<noteq> [] \<and> hd ?j = hd w" using w ws by (cases ws') (auto simp: reads_value_def)
      with w that show thesis by (cases ?j) (auto simp: reads_value_def)
    qed
    ultimately show ?thesis using assms(2) d by (simp add: m json_block_def parse_value.simps)
  qed
  then show ?thesis by (simp add: reads_value_def json_block_def)
qed

lemma foldr_max_ge: "x \<in> set xs \<Longrightarrow> x \<le> foldr max xs (0 :: nat)"
  by (induction xs) auto

lemma reads_indent: "json_plain v \<Longrightarrow> reads_value (json_depth v) (json_indent l v) v"
proof (induction l v rule: json_indent.induct)
  case (3 l x)
  then show ?case using reads_int by auto
next
  case (4 l x)
  then show ?case using reads_string [of True x] by (simp add: utf8_repair_valid)
next
  case (5 l vs)
  let ?k = "foldr max (map json_depth vs) 0"
  have "reads_value ?k (json_indent (Suc l) v) v" if "v \<in> set vs" for v
    by (rule reads_value_mono [OF "5.IH"]) (use that 5 in \<open>auto intro: foldr_max_ge\<close>)
  then have "list_all2 (reads_value ?k) (map (json_indent (Suc l)) vs) vs"
    by (simp add: list_all2_map1 list.rel_refl_strong)
  from reads_block_array [OF this] 5 show ?case by simp
next
  case (6 l ms)
  let ?k = "foldr max (map (\<lambda>p. json_depth (snd p)) ms) 0"
  have "member_reads ?k (json_indent_member (fst p) (json_indent (Suc l) (snd p))) p" if "p \<in> set ms" for p
  proof -
    have "reads_value ?k (json_indent (Suc l) (snd p)) (snd p)"
      by (rule reads_value_mono [OF "6.IH"]) (use that 6 in \<open>auto intro!: foldr_max_ge\<close>)
    then show ?thesis using that 6(2) by (auto simp: member_reads_def)
  qed
  then have "list_all2 (member_reads ?k) (map (\<lambda>p. json_indent_member (fst p) (json_indent (Suc l) (snd p))) ms) ms"
    by (simp add: list_all2_map1 list.rel_refl_strong)
  from reads_block_object [OF this] 6 show ?case by simp
qed (simp_all add: reads_null)

end
