(* ===== verification/Dossier.thy ===== *)
theory Dossier
  imports Go_Json_Indent Gate_Stages Content_Store
begin

text \<open>
  The dossier (pkg/dossier): writing the evidence bundle a decision is carried in
  (\<open>emit.go\<close>) and re-checking it from its bytes (\<open>verify.go\<close>), with the exit codes of
  cmd/dossier.

  A dossier directory is a \<open>node\<close> of \<open>Content_Store\<close>.  A list of a decision that is empty
  stands for the nil slice, which \<open>encoding/json\<close> writes as \<open>null\<close>; a second member with the
  name of a list is decoded into the elements of the first, as the library does for a
  slice that grows.
\<close>

section \<open>The decision as JSON\<close>

definition strings_value :: "string list \<Rightarrow> json" where
  "strings_value ss = (if ss = [] then JNull else JArr (map JStr ss))"

definition list_value :: "('a \<Rightarrow> json) \<Rightarrow> 'a list \<Rightarrow> json" where
  "list_value f xs = (if xs = [] then JNull else JArr (map f xs))"

definition omit_empty :: "string \<Rightarrow> json \<Rightarrow> bool \<Rightarrow> (string \<times> json) list" where
  "omit_empty name v is_zero = (if is_zero then [] else [(name, v)])"

definition stage_value :: "stage_result \<Rightarrow> json" where
  "stage_value s = JObj ([(''stage'', JStr (sr_stage s)), (''outcome'', JStr (sr_outcome s))] @
     omit_empty ''reason'' (JStr (sr_reason s)) (sr_reason s = []) @
     [(''evidence'', strings_value (sr_evidence s))])"

definition artifact_value :: "artifact \<Rightarrow> json" where
  "artifact_value a = JObj [(''role'', JStr (art_role a)), (''path'', JStr (art_path a)), (''sha256'', JStr (art_sha256 a))]"

definition usage_value :: "usage \<Rightarrow> json" where
  "usage_value u = JObj [(''purpose'', JStr (us_purpose u)), (''backend'', JStr (us_backend u)),
     (''input_tokens'', JNum (int_dec (us_input_tokens u))), (''output_tokens'', JNum (int_dec (us_output_tokens u)))]"

definition decision_value :: "decision \<Rightarrow> json" where
  "decision_value d = JObj ([(''case_id'', JStr (d_case d)), (''candidate_id'', JStr (d_candidate d)),
       (''verdict'', JStr (d_verdict d))] @
     omit_empty ''reason'' (JStr (d_reason d)) (d_reason d = []) @
     [(''stages'', list_value stage_value (d_stages d)), (''not_proven'', strings_value (d_not_proven d))] @
     omit_empty ''artifacts'' (list_value artifact_value (d_artifacts d)) (d_artifacts d = []) @
     omit_empty ''usage'' (list_value usage_value (d_usage d)) (d_usage d = []))"

definition decision_text :: "decision \<Rightarrow> string" where
  "decision_text d = json_indent 0 (decision_value d) @ [newline]"

section \<open>Reading a decision\<close>

fun store_list :: "(json \<Rightarrow> 'a \<Rightarrow> 'a option) \<Rightarrow> 'a \<Rightarrow> json list \<Rightarrow> 'a list \<Rightarrow> 'a list option" where
  "store_list g zero [] old = Some []"
| "store_list g zero (v # vs) old =
     (case (g v (case old of [] \<Rightarrow> zero | x # _ \<Rightarrow> x), store_list g zero vs (tl old)) of
        (Some y, Some ys) \<Rightarrow> Some (y # ys)
      | _ \<Rightarrow> None)"

definition set_list :: "(json \<Rightarrow> 'b \<Rightarrow> 'b option) \<Rightarrow> 'b \<Rightarrow> ('a \<Rightarrow> 'b list) \<Rightarrow> ('b list \<Rightarrow> 'a \<Rightarrow> 'a) \<Rightarrow> json \<Rightarrow> 'a \<Rightarrow> 'a option" where
  "set_list g zero old upd v x =
     (case v of
        JArr vs \<Rightarrow> map_option (\<lambda>ys. upd ys x) (store_list g zero vs (old x))
      | JNull \<Rightarrow> Some (upd [] x)
      | _ \<Rightarrow> None)"

definition set_struct :: "'b Go_Json.fields \<Rightarrow> json \<Rightarrow> 'b \<Rightarrow> 'b option" where
  "set_struct fs v x = ok_value (store_value True fs x v)"

definition set_strings :: "('a \<Rightarrow> string list) \<Rightarrow> (string list \<Rightarrow> 'a \<Rightarrow> 'a) \<Rightarrow> json \<Rightarrow> 'a \<Rightarrow> 'a option" where
  "set_strings old upd = set_list (set_string (\<lambda>s _. s)) [] old upd"

definition stage_setters :: "stage_result Go_Json.fields" where
  "stage_setters =
     [(''stage'', set_string (\<lambda>s r. r\<lparr>sr_stage := s\<rparr>)), (''outcome'', set_string (\<lambda>s r. r\<lparr>sr_outcome := s\<rparr>)),
      (''reason'', set_string (\<lambda>s r. r\<lparr>sr_reason := s\<rparr>)), (''evidence'', set_strings sr_evidence (\<lambda>ss r. r\<lparr>sr_evidence := ss\<rparr>))]"

definition artifact_setters :: "artifact Go_Json.fields" where
  "artifact_setters =
     [(''role'', set_string (\<lambda>s a. a\<lparr>art_role := s\<rparr>)), (''path'', set_string (\<lambda>s a. a\<lparr>art_path := s\<rparr>)),
      (''sha256'', set_string (\<lambda>s a. a\<lparr>art_sha256 := s\<rparr>))]"

definition usage_setters :: "usage Go_Json.fields" where
  "usage_setters =
     [(''purpose'', set_string (\<lambda>s u. u\<lparr>us_purpose := s\<rparr>)), (''backend'', set_string (\<lambda>s u. u\<lparr>us_backend := s\<rparr>)),
      (''input_tokens'', set_int64 (\<lambda>n u. u\<lparr>us_input_tokens := n\<rparr>)),
      (''output_tokens'', set_int64 (\<lambda>n u. u\<lparr>us_output_tokens := n\<rparr>))]"

definition zero_stage :: stage_result where
  "zero_stage = \<lparr>sr_stage = [], sr_outcome = [], sr_reason = [], sr_evidence = []\<rparr>"
definition zero_artifact :: artifact where "zero_artifact = \<lparr>art_role = [], art_path = [], art_sha256 = []\<rparr>"
definition zero_usage :: usage where
  "zero_usage = \<lparr>us_purpose = [], us_backend = [], us_input_tokens = 0, us_output_tokens = 0\<rparr>"
definition zero_decision :: decision where
  "zero_decision = \<lparr>d_case = [], d_candidate = [], d_verdict = [], d_reason = [], d_stages = [], d_not_proven = [],
     d_artifacts = [], d_usage = []\<rparr>"

definition decision_setters :: "decision Go_Json.fields" where
  "decision_setters =
     [(''case_id'', set_string (\<lambda>s d. d\<lparr>d_case := s\<rparr>)), (''candidate_id'', set_string (\<lambda>s d. d\<lparr>d_candidate := s\<rparr>)),
      (''verdict'', set_string (\<lambda>s d. d\<lparr>d_verdict := s\<rparr>)), (''reason'', set_string (\<lambda>s d. d\<lparr>d_reason := s\<rparr>)),
      (''stages'', set_list (set_struct stage_setters) zero_stage d_stages (\<lambda>x d. d\<lparr>d_stages := x\<rparr>)),
      (''not_proven'', set_strings d_not_proven (\<lambda>x d. d\<lparr>d_not_proven := x\<rparr>)),
      (''artifacts'', set_list (set_struct artifact_setters) zero_artifact d_artifacts (\<lambda>x d. d\<lparr>d_artifacts := x\<rparr>)),
      (''usage'', set_list (set_struct usage_setters) zero_usage d_usage (\<lambda>x d. d\<lparr>d_usage := x\<rparr>))]"

text \<open>\<open>Decode\<close> reads the first value; nothing looks at what follows it.\<close>

definition decode_decision :: "string \<Rightarrow> (json_error, decision) result" where
  "decode_decision b =
     try_bind (parse_value (2 * length b + 1) max_nesting (skip_ws b)) (\<lambda>(v, _).
       store_value True decision_setters zero_decision v)"

section \<open>Writing a dossier\<close>

definition decision_file :: string where "decision_file = ''decision.json''"
definition artifacts_dir :: string where "artifacts_dir = ''artifacts''"

datatype emit_error =
    EmNoDirectory
  | EmFailed string
  | EmArtifact string string

text \<open>What may go wrong with the system's calls; a copy is told by its role.\<close>

record emit_io =
  em_tempdir :: "string option"
  em_mkdir :: "string option"
  em_copy :: "string \<Rightarrow> string option"
  em_write :: "string option"
  em_sync_stage :: "string option"
  em_rename_artifacts :: "string option"
  em_rename_decision :: "string option"
  em_sync_dir :: "string option"

definition try_io :: "string option \<Rightarrow> (emit_error, unit) result" where
  "try_io e = (case e of None \<Rightarrow> Inr () | Some x \<Rightarrow> Inl (EmFailed x))"

text \<open>Creating a file below a directory: over another file, or anew in a directory that is there.\<close>

fun put_file :: "string list \<Rightarrow> string \<Rightarrow> node \<Rightarrow> node option" where
  "put_file [n] c (Dir es) =
     (case map_of es n of
        None \<Rightarrow> Some (Dir (AList.update n (Reg c) es))
      | Some (Reg old) \<Rightarrow> Some (Dir (AList.update n (Reg c) es))
      | _ \<Rightarrow> None)"
| "put_file (n # m # ns) c (Dir es) =
     (case map_of es n of
        None \<Rightarrow> None
      | Some x \<Rightarrow> map_option (\<lambda>y. Dir (AList.update n y es)) (put_file (m # ns) c x))"
| "put_file _ _ _ = None"

definition artifact_rel :: "string \<Rightarrow> string \<Rightarrow> string" where
  "artifact_rel role src = path_join [artifacts_dir, role @ path_ext src]"

text \<open>Copying the sources in the order of their roles; a role without a source is skipped.\<close>

fun emit_artifacts :: "(string \<Rightarrow> string) \<Rightarrow> (string \<Rightarrow> (string, string) result) \<Rightarrow> emit_io \<Rightarrow> (string \<times> string) list \<Rightarrow> node \<Rightarrow>
    (emit_error, artifact list \<times> node) result" where
  "emit_artifacts sha read io [] stage = Inr ([], stage)"
| "emit_artifacts sha read io ((role, src) # rest) stage =
     (if src = [] then emit_artifacts sha read io rest stage
      else
        (case read src of
           Inl e \<Rightarrow> Inl (EmArtifact role e)
         | Inr c \<Rightarrow>
             (case (put_file (path_elems (artifact_rel role src)) c stage, em_copy io role) of
                (None, _) \<Rightarrow> Inl (EmArtifact role ''create'')
              | (Some st, Some e) \<Rightarrow> Inl (EmArtifact role e)
              | (Some st, None) \<Rightarrow>
                  try_bind (emit_artifacts sha read io rest st) (\<lambda>(made, st').
                    Inr (\<lparr>art_role = role, art_path = artifact_rel role src, art_sha256 = hex_encode (sha c)\<rparr> # made, st')))))"

text \<open>
  Renaming into a directory: a directory only to a name that is free (\<open>os.Rename\<close> refuses a
  directory that is there, an empty one too, and the system refuses a file), a file over
  anything but a directory.
\<close>

definition rename_dir :: "string \<Rightarrow> node \<Rightarrow> node \<Rightarrow> (emit_error, node) result" where
  "rename_dir name x dir =
     (case dir of
        Dir es \<Rightarrow>
          (case map_of es name of
             None \<Rightarrow> Inr (Dir (AList.update name x es))
           | Some there \<Rightarrow> Inl (EmFailed ''rename''))
      | _ \<Rightarrow> Inl (EmFailed ''rename''))"

definition rename_file :: "string \<Rightarrow> string \<Rightarrow> node \<Rightarrow> (emit_error, node) result" where
  "rename_file name c dir =
     (case dir of
        Dir es \<Rightarrow>
          (case map_of es name of
             Some (Dir ds) \<Rightarrow> Inl (EmFailed ''rename'')
           | Some ShutDir \<Rightarrow> Inl (EmFailed ''rename'')
           | _ \<Rightarrow> Inr (Dir (AList.update name (Reg c) es)))
      | _ \<Rightarrow> Inl (EmFailed ''rename''))"

definition in_stage :: "string \<Rightarrow> node \<Rightarrow> node" where
  "in_stage name stage = (case stage of Dir es \<Rightarrow> the (map_of es name) | x \<Rightarrow> x)"

text \<open>
  The staged part of \<open>Emit\<close>, which leaves the directory as it was: the decision with its
  artifacts and the directory \<open>artifacts\<close> that was staged.
\<close>

definition emit_stage :: "(string \<Rightarrow> string) \<Rightarrow> (string \<Rightarrow> (string, string) result) \<Rightarrow> emit_io \<Rightarrow> decision \<Rightarrow>
    (string \<rightharpoonup> string) \<Rightarrow> string list \<Rightarrow> (emit_error, decision \<times> node) result" where
  "emit_stage sha read io d sources roles =
     try_bind (try_io (em_tempdir io)) (\<lambda>_.
     try_bind (try_io (em_mkdir io)) (\<lambda>_.
     try_bind (emit_artifacts sha read io (map (\<lambda>r. (r, the (sources r))) (sort roles)) (Dir [(artifacts_dir, Dir [])])) (\<lambda>(made, stage).
     try_bind (try_io (em_write io)) (\<lambda>_.
     try_bind (try_io (em_sync_stage io)) (\<lambda>_.
     Inr (d\<lparr>d_artifacts := made\<rparr>, in_stage artifacts_dir stage))))))"

text \<open>
  \<open>Emit\<close> into a directory (\<open>None\<close> when its name is empty), and what the directory holds
  after it: the artifacts are moved in before the decision.  \<open>roles\<close> are the keys of the
  map \<open>sources\<close>.
\<close>

definition dossier_emit :: "(string \<Rightarrow> string) \<Rightarrow> (string \<Rightarrow> (string, string) result) \<Rightarrow> emit_io \<Rightarrow> bool \<Rightarrow> decision \<Rightarrow>
    (string \<rightharpoonup> string) \<Rightarrow> string list \<Rightarrow> node \<Rightarrow> (emit_error, decision) result \<times> node" where
  "dossier_emit sha read io named d sources roles dir =
     (if \<not> named then (Inl EmNoDirectory, dir)
      else
        (case emit_stage sha read io d sources roles of
           Inl e \<Rightarrow> (Inl e, dir)
         | Inr (d1, arts) \<Rightarrow>
             (case try_bind (try_io (em_rename_artifacts io)) (\<lambda>_. rename_dir artifacts_dir arts dir) of
                Inl e \<Rightarrow> (Inl e, dir)
              | Inr dir1 \<Rightarrow>
                  (case try_bind (try_io (em_rename_decision io)) (\<lambda>_. rename_file decision_file (decision_text d1) dir1) of
                     Inl e \<Rightarrow> (Inl e, dir1)
                   | Inr dir2 \<Rightarrow> (try_bind (try_io (em_sync_dir io)) (\<lambda>_. Inr d1), dir2)))))"

section \<open>Verifying a dossier\<close>

definition dossier_verified :: string where "dossier_verified = ''dossier-verified''"
definition dossier_unsupported :: string where "dossier_unsupported = ''dossier-unsupported-claim''"
definition dossier_not_self_contained :: string where "dossier_not_self_contained = ''dossier-not-self-contained''"
definition dossier_unreadable :: string where "dossier_unreadable = ''dossier-unreadable''"

record dossier_check =
  dk_name :: string
  dk_ok :: bool
  dk_detail :: string

record dossier_report =
  dr_outcome :: string
  dr_dir :: string
  dr_checks :: "dossier_check list"
  dr_problems :: "string list"

text \<open>The texts of errors: of reading the decision, of decoding, of \<open>Validate\<close>, of hashing a file and of measuring;
  and which runes \<open>%q\<close> prints as they are.\<close>

record dossier_texts =
  dt_read :: string
  dt_json :: "json_error \<Rightarrow> string"
  dt_invalid :: "problem list \<Rightarrow> string"
  dt_hash :: "string \<Rightarrow> string"
  dt_content :: "content_error \<Rightarrow> string"
  dt_printable :: "nat \<Rightarrow> bool"

definition rep_add :: "string \<Rightarrow> bool \<Rightarrow> string \<Rightarrow> dossier_report \<Rightarrow> dossier_report" where
  "rep_add name ok txt r = r\<lparr>dr_checks := dr_checks r @ [\<lparr>dk_name = name, dk_ok = ok, dk_detail = txt\<rparr>]\<rparr>"

definition rep_fail :: "string \<Rightarrow> string \<Rightarrow> dossier_report \<Rightarrow> dossier_report" where
  "rep_fail name txt r =
     (let r1 = rep_add name False txt r in r1\<lparr>dr_problems := dr_problems r1 @ [name @ '': '' @ txt]\<rparr>)"

definition rep_done :: "dossier_report \<Rightarrow> dossier_report" where
  "rep_done r =
     (if dr_problems r \<noteq> [] \<and> dr_outcome r = dossier_verified then r\<lparr>dr_outcome := dossier_unsupported\<rparr> else r)"

definition short_hash :: "string \<Rightarrow> string" where
  "short_hash s = (if length s > 16 then take 16 s else s)"

text \<open>Hashing the file at a path below the directory.\<close>

definition hash_file :: "(string \<Rightarrow> string) \<Rightarrow> follow \<Rightarrow> dossier_texts \<Rightarrow> node option \<Rightarrow> string \<Rightarrow> (string, string) result" where
  "hash_file sha fo tx root p =
     (case root of
        None \<Rightarrow> Inl (dt_hash tx p)
      | Some x \<Rightarrow>
          (case open_at fo x (path_elems (clean p)) of
             None \<Rightarrow> Inl (dt_hash tx p)
           | Some c \<Rightarrow> Inr (hex_encode (sha c))))"

definition escapes_dossier :: "string \<Rightarrow> bool" where
  "escapes_dossier p = (is_abs p \<or> contains_sub p ''..'')"

definition check_artifact :: "(string \<Rightarrow> string) \<Rightarrow> follow \<Rightarrow> dossier_texts \<Rightarrow> node option \<Rightarrow> artifact \<Rightarrow> dossier_report \<Rightarrow> dossier_report" where
  "check_artifact sha fo tx root a r =
     (let name = ''artifact '' @ art_role a
      in if escapes_dossier (art_path a) then
           rep_fail name (''path '' @ go_quote (dt_printable tx) (art_path a) @
             '' escapes the dossier, so it names a file this directory does not carry'') r
         else
           (case hash_file sha fo tx root (art_path a) of
              Inl e \<Rightarrow> rep_fail name (art_path a @ '': '' @ e) r
            | Inr digest \<Rightarrow>
                if digest \<noteq> art_sha256 a then
                  rep_fail name (art_path a @ '' hashes to '' @ take 16 digest @ '', decision claims '' @ short_hash (art_sha256 a)) r
                else rep_add name True (art_path a) r))"

definition check_root :: "string \<Rightarrow> string \<Rightarrow> dossier_report \<Rightarrow> dossier_report" where
  "check_root expect root r =
     (if expect = [] then
        rep_add ''content root recomputes'' True (short_hash root @ '' (no expected root supplied, so nothing to compare)'') r
      else if root \<noteq> expect then
        rep_fail ''content root matches the seal''
          (''directory measures to '' @ short_hash root @ '', seal was taken over '' @ short_hash expect) r
      else rep_add ''content root matches the seal'' True (short_hash root) r)"

definition artifact_paths :: "decision \<Rightarrow> string list" where
  "artifact_paths d = map art_path (d_artifacts d)"

definition check_coverage :: "mfile list \<Rightarrow> decision \<Rightarrow> dossier_report \<Rightarrow> dossier_report" where
  "check_coverage files d r =
     (let uncovered = filter (\<lambda>want. want \<notin> mf_path ` set files) (decision_file # artifact_paths d)
      in if uncovered \<noteq> [] then
           rep_fail ''measured root covers the evidence'' (''outside the root: '' @ join_with '', '' (sort uncovered)) r
         else rep_add ''measured root covers the evidence'' True (nat_dec (length files) @ '' files'') r)"

definition check_decision :: "dossier_texts \<Rightarrow> decision \<Rightarrow> dossier_report \<Rightarrow> dossier_report" where
  "check_decision tx d r =
     (case decision_validate d of
        Inl ps \<Rightarrow> rep_fail ''decision is internally consistent'' (dt_invalid tx ps) r
      | Inr _ \<Rightarrow> rep_add ''decision is internally consistent'' True [] r)"

definition unreadable_report :: "string \<Rightarrow> string \<Rightarrow> dossier_report" where
  "unreadable_report dir txt = \<lparr>dr_outcome = dossier_unreadable, dr_dir = dir, dr_checks = [], dr_problems = [txt]\<rparr>"

definition dossier_verify :: "(mfile list \<Rightarrow> mfile list) \<Rightarrow> (string \<Rightarrow> string) \<Rightarrow> follow \<Rightarrow> dossier_texts \<Rightarrow> string \<Rightarrow>
    node option \<Rightarrow> string \<Rightarrow> dossier_report" where
  "dossier_verify srt sha fo tx dir root expect =
     (case (case root of None \<Rightarrow> None | Some x \<Rightarrow> open_at fo x [decision_file]) of
        None \<Rightarrow> unreadable_report dir (''no decision.json: '' @ dt_read tx)
      | Some raw \<Rightarrow>
          (case decode_decision raw of
             Inl e \<Rightarrow> unreadable_report dir (''decision.json does not parse: '' @ dt_json tx e)
           | Inr d \<Rightarrow>
               (let r0 = \<lparr>dr_outcome = dossier_verified, dr_dir = dir, dr_checks = [], dr_problems = []\<rparr>;
                    r1 = check_decision tx d (rep_add ''decision parses'' True [] r0)
                in if d_artifacts d = [] then
                     rep_add ''carries its artifacts'' False
                       ''no artifacts recorded, so nothing can be re-derived; written before pkg/dossier existed''
                       (r1\<lparr>dr_outcome := dossier_not_self_contained\<rparr>)
                   else
                     (let r2 = fold (check_artifact sha fo tx root) (d_artifacts d) r1
                      in case measure_bundle srt sha root of
                           Inl e \<Rightarrow> rep_done (rep_fail ''content root recomputes'' (dt_content tx e) r2)
                         | Inr (files, cr) \<Rightarrow> rep_done (check_coverage files d (check_root expect cr r2))))))"

text \<open>The exit codes of \<open>dossier verify\<close>.\<close>

definition dossier_code :: "string \<Rightarrow> int" where
  "dossier_code oc =
     (if oc = dossier_verified then 0 else if oc = dossier_unsupported then 1
      else if oc = dossier_not_self_contained then 3 else 2)"


section \<open>What a verified dossier carries\<close>

lemma rep_simps [simp]:
  "dr_outcome (rep_add n k t r) = dr_outcome r" "dr_problems (rep_add n k t r) = dr_problems r"
  "dr_outcome (rep_fail n t r) = dr_outcome r" "dr_problems (rep_fail n t r) \<noteq> []"
  by (simp_all add: rep_add_def rep_fail_def Let_def)

text \<open>The artifact is a file of the directory with the recorded hash.\<close>

definition artifact_holds :: "(string \<Rightarrow> string) \<Rightarrow> follow \<Rightarrow> node \<Rightarrow> artifact \<Rightarrow> bool" where
  "artifact_holds sha fo x a =
     (\<not> is_abs (art_path a) \<and> \<not> contains_sub (art_path a) ''..'' \<and>
      (\<exists>c. open_at fo x (path_elems (clean (art_path a))) = Some c \<and> art_sha256 a = hex_encode (sha c)))"

lemma check_artifact_steps:
  "dr_outcome (check_artifact sha fo tx (Some x) a r) = dr_outcome r"
  "dr_problems (check_artifact sha fo tx (Some x) a r) = [] \<longleftrightarrow> dr_problems r = [] \<and> artifact_holds sha fo x a"
  by (auto simp: check_artifact_def artifact_holds_def escapes_dossier_def hash_file_def Let_def split: option.splits)

lemma check_artifacts_steps:
  "dr_outcome (fold (check_artifact sha fo tx (Some x)) as r) = dr_outcome r"
  "dr_problems (fold (check_artifact sha fo tx (Some x)) as r) = [] \<longleftrightarrow>
     dr_problems r = [] \<and> (\<forall>a\<in>set as. artifact_holds sha fo x a)"
  by (induction as arbitrary: r) (auto simp: check_artifact_steps)

lemma check_root_steps [simp]:
  "dr_outcome (check_root expect root r) = dr_outcome r"
  "dr_problems (check_root expect root r) = [] \<longleftrightarrow> dr_problems r = [] \<and> (expect = [] \<or> root = expect)"
  by (simp_all add: check_root_def)

lemma check_coverage_steps [simp]:
  "dr_outcome (check_coverage files d r) = dr_outcome r"
  "dr_problems (check_coverage files d r) = [] \<longleftrightarrow>
     dr_problems r = [] \<and> decision_file \<in> mf_path ` set files \<and> (\<forall>a\<in>set (d_artifacts d). art_path a \<in> mf_path ` set files)"
  by (auto simp: check_coverage_def Let_def filter_empty_conv artifact_paths_def)

lemma check_decision_steps [simp]:
  "dr_outcome (check_decision tx d r) = dr_outcome r"
  "dr_problems (check_decision tx d r) = [] \<longleftrightarrow> dr_problems r = [] \<and> decision_validate d = Inr ()"
  by (auto simp: check_decision_def split: sum.splits)

lemma outcomes_distinct:
  "dossier_unsupported \<noteq> dossier_verified" "dossier_not_self_contained \<noteq> dossier_verified" "dossier_unreadable \<noteq> dossier_verified"
  "dossier_not_self_contained \<noteq> dossier_unsupported" "dossier_unreadable \<noteq> dossier_unsupported"
  "dossier_unreadable \<noteq> dossier_not_self_contained"
  by (simp_all add: dossier_unsupported_def dossier_verified_def dossier_not_self_contained_def dossier_unreadable_def)

lemma rep_done_verified:
  "dr_outcome r = dossier_verified \<Longrightarrow>
     dr_outcome (rep_done r) = (if dr_problems r = [] then dossier_verified else dossier_unsupported) \<and> dr_problems (rep_done r) = dr_problems r"
  by (simp add: rep_done_def)

text \<open>Everything a dossier has to be for \<open>dossier-verified\<close>.\<close>

definition dossier_holds :: "(mfile list \<Rightarrow> mfile list) \<Rightarrow> (string \<Rightarrow> string) \<Rightarrow> follow \<Rightarrow> node \<Rightarrow> string \<Rightarrow> decision \<Rightarrow> bool" where
  "dossier_holds srt sha fo x expect d =
     ((\<exists>raw. open_at fo x [decision_file] = Some raw \<and> decode_decision raw = Inr d) \<and>
      decision_validate d = Inr () \<and> d_artifacts d \<noteq> [] \<and> (\<forall>a\<in>set (d_artifacts d). artifact_holds sha fo x a) \<and>
      (\<exists>files root. measure_bundle srt sha (Some x) = Inr (files, root) \<and> (expect = [] \<or> root = expect) \<and>
         decision_file \<in> mf_path ` set files \<and> (\<forall>a\<in>set (d_artifacts d). art_path a \<in> mf_path ` set files)))"

lemma dossier_verify_result:
  fixes srt sha tx dir expect
  assumes "open_at fo x [decision_file] = Some raw" "decode_decision raw = Inr d"
  defines "r \<equiv> dossier_verify srt sha fo tx dir (Some x) expect"
  shows "dr_outcome r =
      (if d_artifacts d = [] then dossier_not_self_contained
       else if dossier_holds srt sha fo x expect d then dossier_verified else dossier_unsupported)"
    and "dr_problems r = [] \<longleftrightarrow>
      (if d_artifacts d = [] then decision_validate d = Inr () else dossier_holds srt sha fo x expect d)"
proof -
  have h: "dossier_holds srt sha fo x expect d \<longleftrightarrow>
      decision_validate d = Inr () \<and> d_artifacts d \<noteq> [] \<and> (\<forall>a\<in>set (d_artifacts d). artifact_holds sha fo x a) \<and>
      (\<exists>files root. measure_bundle srt sha (Some x) = Inr (files, root) \<and> (expect = [] \<or> root = expect) \<and>
         decision_file \<in> mf_path ` set files \<and> (\<forall>a\<in>set (d_artifacts d). art_path a \<in> mf_path ` set files))"
    using assms(1,2) by (simp add: dossier_holds_def)
  define r1 where "r1 = check_decision tx d (rep_add ''decision parses'' True []
      \<lparr>dr_outcome = dossier_verified, dr_dir = dir, dr_checks = [], dr_problems = []\<rparr>)"
  have r1: "dr_outcome r1 = dossier_verified" "dr_problems r1 = [] \<longleftrightarrow> decision_validate d = Inr ()"
    by (simp_all add: r1_def)
  define r2 where "r2 = fold (check_artifact sha fo tx (Some x)) (d_artifacts d) r1"
  have r2: "dr_outcome r2 = dossier_verified"
      "dr_problems r2 = [] \<longleftrightarrow> decision_validate d = Inr () \<and> (\<forall>a\<in>set (d_artifacts d). artifact_holds sha fo x a)"
    unfolding r2_def check_artifacts_steps r1 by simp_all
  have "dr_outcome r = (if d_artifacts d = [] then dossier_not_self_contained
       else if dossier_holds srt sha fo x expect d then dossier_verified else dossier_unsupported) \<and>
      (dr_problems r = [] \<longleftrightarrow>
      (if d_artifacts d = [] then decision_validate d = Inr () else dossier_holds srt sha fo x expect d))"
  proof (cases "d_artifacts d = []")
    case True
    then have "r = rep_add ''carries its artifacts'' False
        ''no artifacts recorded, so nothing can be re-derived; written before pkg/dossier existed''
        (r1\<lparr>dr_outcome := dossier_not_self_contained\<rparr>)"
      using assms by (simp add: dossier_verify_def r1_def Let_def)
    with True r1 show ?thesis by simp
  next
    case False
    have r: "r = (case measure_bundle srt sha (Some x) of
        Inl e \<Rightarrow> rep_done (rep_fail ''content root recomputes'' (dt_content tx e) r2)
      | Inr (files, cr) \<Rightarrow> rep_done (check_coverage files d (check_root expect cr r2)))"
      unfolding assms(3) dossier_verify_def r2_def r1_def using assms(1,2) False by (simp add: Let_def)
    show ?thesis
    proof (cases "measure_bundle srt sha (Some x)")
      case (Inl e)
      with r r2 False show ?thesis by (simp add: h rep_done_verified)
    next
      case (Inr m)
      obtain files cr where "m = (files, cr)" by (cases m)
      with Inr r r2 False show ?thesis unfolding h by (simp add: rep_done_verified)
    qed
  qed
  then show "dr_outcome r = (if d_artifacts d = [] then dossier_not_self_contained
       else if dossier_holds srt sha fo x expect d then dossier_verified else dossier_unsupported)"
    and "dr_problems r = [] \<longleftrightarrow>
      (if d_artifacts d = [] then decision_validate d = Inr () else dossier_holds srt sha fo x expect d)"
    by blast+
qed

lemma verified_holds:
  "dr_outcome (dossier_verify srt sha fo tx dir root expect) = dossier_verified \<longleftrightarrow>
     (\<exists>x d. root = Some x \<and> dossier_holds srt sha fo x expect d)"
proof -
  have u: "dr_outcome (unreadable_report dir t) \<noteq> dossier_verified" for t
    using outcomes_distinct by (simp add: unreadable_report_def)
  show ?thesis
  proof (cases "\<exists>x raw d. root = Some x \<and> open_at fo x [decision_file] = Some raw \<and> decode_decision raw = Inr d")
    case False
    then have "dr_outcome (dossier_verify srt sha fo tx dir root expect) \<noteq> dossier_verified"
    proof (cases "case root of None \<Rightarrow> None | Some x \<Rightarrow> open_at fo x [decision_file]")
      case None
      then show ?thesis using u by (simp add: dossier_verify_def)
    next
      case (Some raw)
      with False obtain e where "decode_decision raw = Inl e"
        by (cases "decode_decision raw") (auto split: option.splits)
      with Some show ?thesis using u by (simp add: dossier_verify_def)
    qed
    moreover have "\<not> (\<exists>x d. root = Some x \<and> dossier_holds srt sha fo x expect d)"
      using False unfolding dossier_holds_def by blast
    ultimately show ?thesis by blast
  next
    case True
    then obtain x raw d where x: "root = Some x" "open_at fo x [decision_file] = Some raw" "decode_decision raw = Inr d"
      by blast
    have "dossier_holds srt sha fo x expect d' \<Longrightarrow> d' = d" for d'
      using x(2,3) by (simp add: dossier_holds_def)
    moreover have "dossier_holds srt sha fo x expect d \<Longrightarrow> d_artifacts d \<noteq> []" by (simp add: dossier_holds_def)
    moreover have "dr_outcome (dossier_verify srt sha fo tx dir root expect) = dossier_verified \<longleftrightarrow>
        d_artifacts d \<noteq> [] \<and> dossier_holds srt sha fo x expect d"
      unfolding x(1) dossier_verify_result(1) [OF x(2,3)] using outcomes_distinct by simp
    ultimately show ?thesis using x(1) by blast
  qed
qed

text \<open>
  C27. \<open>dossier-verified\<close> exactly for the dossiers that hold: the decision decodes and is
  consistent, it names at least one artifact, every artifact lies inside the directory and
  hashes to what was recorded, the measured content root is the expected one when one is
  given, and the measured files include the decision and every artifact.
\<close>

theorem dossier_verified_iff:
  "dr_outcome (dossier_verify srt sha fo tx dir root expect) = dossier_verified \<longleftrightarrow>
     (\<exists>x d. root = Some x \<and> dossier_holds srt sha fo x expect d)"
  by (rule verified_holds)

text \<open>
  A dossier stripped of its artifacts is never a lie to the tool: whatever its decision
  claims, also one that \<open>Validate\<close> refuses, the outcome is \<open>dossier-not-self-contained\<close>
  with exit code 3 and not 1, and for a consistent decision no problem is listed, although
  the outcome is not \<open>dossier-verified\<close>.
\<close>

theorem stripped_dossier_is_not_self_contained:
  assumes "open_at fo x [decision_file] = Some raw" "decode_decision raw = Inr d" "d_artifacts d = []"
  shows "let r = dossier_verify srt sha fo tx dir (Some x) expect
    in dr_outcome r = dossier_not_self_contained \<and> dossier_code (dr_outcome r) = 3 \<and>
       (dr_problems r = [] \<longleftrightarrow> decision_validate d = Inr ())"
  using dossier_verify_result [OF assms(1,2), of srt sha tx dir expect] assms(3) outcomes_distinct
  by (simp add: dossier_code_def)


section \<open>Reading back what was written\<close>

text \<open>A decision whose texts are UTF-8 and whose counts are 64-bit integers.\<close>

definition stage_writable :: "stage_result \<Rightarrow> bool" where
  "stage_writable s = (utf8_valid (sr_stage s) \<and> utf8_valid (sr_outcome s) \<and> utf8_valid (sr_reason s) \<and>
     (\<forall>x\<in>set (sr_evidence s). utf8_valid x))"

definition artifact_writable :: "artifact \<Rightarrow> bool" where
  "artifact_writable a = (utf8_valid (art_role a) \<and> utf8_valid (art_path a) \<and> utf8_valid (art_sha256 a))"

definition usage_writable :: "usage \<Rightarrow> bool" where
  "usage_writable u = (utf8_valid (us_purpose u) \<and> utf8_valid (us_backend u) \<and>
     int64 (us_input_tokens u) \<and> int64 (us_output_tokens u))"

definition decision_writable :: "decision \<Rightarrow> bool" where
  "decision_writable d = (utf8_valid (d_case d) \<and> utf8_valid (d_candidate d) \<and> utf8_valid (d_verdict d) \<and>
     utf8_valid (d_reason d) \<and> (\<forall>s\<in>set (d_stages d). stage_writable s) \<and> (\<forall>x\<in>set (d_not_proven d). utf8_valid x) \<and>
     (\<forall>a\<in>set (d_artifacts d). artifact_writable a) \<and> (\<forall>u\<in>set (d_usage d). usage_writable u))"

definition ascii_name :: "string \<Rightarrow> bool" where "ascii_name s = list_all (\<lambda>c. code c < 0x80) s"

lemma ascii_name_valid: "ascii_name s \<Longrightarrow> utf8_valid s"
  unfolding ascii_name_def by (rule ascii_valid)

lemma field_names_ascii:
  "ascii_name ''case_id''" "ascii_name ''candidate_id''" "ascii_name ''verdict''" "ascii_name ''reason''" "ascii_name ''stages''"
  "ascii_name ''not_proven''" "ascii_name ''artifacts''" "ascii_name ''usage''" "ascii_name ''stage''" "ascii_name ''outcome''"
  "ascii_name ''evidence''" "ascii_name ''role''" "ascii_name ''path''" "ascii_name ''sha256''" "ascii_name ''purpose''"
  "ascii_name ''backend''" "ascii_name ''input_tokens''" "ascii_name ''output_tokens''"
  by (simp_all add: ascii_name_def code_def)

lemmas field_names_valid = field_names_ascii [THEN ascii_name_valid]

lemma strings_plain: "\<forall>x\<in>set ss. utf8_valid x \<Longrightarrow> json_plain (strings_value ss)"
  by (auto simp: strings_value_def)

lemma list_plain: "\<forall>x\<in>set xs. json_plain (f x) \<Longrightarrow> json_plain (list_value f xs)"
  by (auto simp: list_value_def)

lemma stage_plain: "stage_writable s \<Longrightarrow> json_plain (stage_value s)"
  using field_names_valid strings_plain [of "sr_evidence s"]
  by (simp add: stage_value_def stage_writable_def omit_empty_def del: utf8_valid.simps)

lemma artifact_plain: "artifact_writable a \<Longrightarrow> json_plain (artifact_value a)"
  using field_names_valid by (simp add: artifact_value_def artifact_writable_def del: utf8_valid.simps)

lemma usage_plain: "usage_writable u \<Longrightarrow> json_plain (usage_value u)"
  using field_names_valid by (auto simp add: usage_value_def usage_writable_def simp del: utf8_valid.simps)

lemma decision_plain:
  assumes "decision_writable d"
  shows "json_plain (decision_value d)"
proof -
  have "json_plain (list_value stage_value (d_stages d))" "json_plain (strings_value (d_not_proven d))"
    "json_plain (list_value artifact_value (d_artifacts d))" "json_plain (list_value usage_value (d_usage d))"
    using assms stage_plain artifact_plain usage_plain
    by (auto simp: decision_writable_def intro!: list_plain strings_plain simp del: utf8_valid.simps)
  with assms field_names_valid show ?thesis
    by (simp add: decision_value_def decision_writable_def omit_empty_def del: utf8_valid.simps)
qed

lemma foldr_max_le: "\<forall>x\<in>set xs. x \<le> k \<Longrightarrow> foldr max xs (0 :: nat) \<le> k"
  by (induction xs) auto

lemma decision_depth: "json_depth (decision_value d) \<le> 4"
proof -
  have st: "json_depth (strings_value ss) \<le> 1" for ss
    using foldr_max_le [of "map json_depth (map JStr ss)" 0] by (simp add: strings_value_def)
  have l: "json_depth (list_value f xs) \<le> Suc k" if "\<And>x. json_depth (f x) \<le> k" for f :: "'x \<Rightarrow> json" and xs k
    using foldr_max_le [of "map json_depth (map f xs)" k] that by (simp add: list_value_def)
  have "json_depth (stage_value s) \<le> 2" for s using st [of "sr_evidence s"] by (simp add: stage_value_def omit_empty_def)
  moreover have "json_depth (artifact_value a) \<le> 2" for a by (simp add: artifact_value_def)
  moreover have "json_depth (usage_value u) \<le> 2" for u by (simp add: usage_value_def)
  ultimately have "json_depth (list_value stage_value (d_stages d)) \<le> 3" "json_depth (list_value artifact_value (d_artifacts d)) \<le> 3"
      "json_depth (list_value usage_value (d_usage d)) \<le> 3"
    using l [of stage_value 2] l [of artifact_value 2] l [of usage_value 2] by simp_all
  then show ?thesis using st [of "d_not_proven d"] by (simp add: decision_value_def omit_empty_def)
qed

lemma store_list_map: "\<forall>x\<in>set xs. g (f x) zero = Some x \<Longrightarrow> store_list g zero (map f xs) [] = Some xs"
  by (induction xs) simp_all

lemma set_list_value:
  "\<forall>y\<in>set ys. g (f y) zero = Some y \<Longrightarrow> old x = [] \<Longrightarrow> set_list g zero old upd (list_value f ys) x = Some (upd ys x)"
  by (simp add: set_list_def list_value_def store_list_map)

lemma set_strings_value: "old x = [] \<Longrightarrow> set_strings old upd (strings_value ss) x = Some (upd ss x)"
  using set_list_value [of ss "set_string (\<lambda>s _. s)" JStr "[]" old x upd]
  by (simp add: set_strings_def strings_value_def list_value_def set_string_def)

lemma stage_field_names:
  "find_field stage_setters ''stage'' = Some (set_string (\<lambda>s r. r\<lparr>sr_stage := s\<rparr>))"
  "find_field stage_setters ''outcome'' = Some (set_string (\<lambda>s r. r\<lparr>sr_outcome := s\<rparr>))"
  "find_field stage_setters ''reason'' = Some (set_string (\<lambda>s r. r\<lparr>sr_reason := s\<rparr>))"
  "find_field stage_setters ''evidence'' = Some (set_strings sr_evidence (\<lambda>ss r. r\<lparr>sr_evidence := ss\<rparr>))"
  by (simp_all add: find_field_def stage_setters_def upper_byte_def code_def byte_def less_eq_char_def)

lemma artifact_field_names:
  "find_field artifact_setters ''role'' = Some (set_string (\<lambda>s a. a\<lparr>art_role := s\<rparr>))"
  "find_field artifact_setters ''path'' = Some (set_string (\<lambda>s a. a\<lparr>art_path := s\<rparr>))"
  "find_field artifact_setters ''sha256'' = Some (set_string (\<lambda>s a. a\<lparr>art_sha256 := s\<rparr>))"
  by (simp_all add: find_field_def artifact_setters_def upper_byte_def code_def byte_def less_eq_char_def)

lemma usage_field_names:
  "find_field usage_setters ''purpose'' = Some (set_string (\<lambda>s u. u\<lparr>us_purpose := s\<rparr>))"
  "find_field usage_setters ''backend'' = Some (set_string (\<lambda>s u. u\<lparr>us_backend := s\<rparr>))"
  "find_field usage_setters ''input_tokens'' = Some (set_int64 (\<lambda>n u. u\<lparr>us_input_tokens := n\<rparr>))"
  "find_field usage_setters ''output_tokens'' = Some (set_int64 (\<lambda>n u. u\<lparr>us_output_tokens := n\<rparr>))"
  by (simp_all add: find_field_def usage_setters_def upper_byte_def code_def byte_def less_eq_char_def)

lemma decision_field_names:
  "find_field decision_setters ''case_id'' = Some (set_string (\<lambda>s d. d\<lparr>d_case := s\<rparr>))"
  "find_field decision_setters ''candidate_id'' = Some (set_string (\<lambda>s d. d\<lparr>d_candidate := s\<rparr>))"
  "find_field decision_setters ''verdict'' = Some (set_string (\<lambda>s d. d\<lparr>d_verdict := s\<rparr>))"
  "find_field decision_setters ''reason'' = Some (set_string (\<lambda>s d. d\<lparr>d_reason := s\<rparr>))"
  "find_field decision_setters ''stages'' =
     Some (set_list (set_struct stage_setters) zero_stage d_stages (\<lambda>x d. d\<lparr>d_stages := x\<rparr>))"
  "find_field decision_setters ''not_proven'' = Some (set_strings d_not_proven (\<lambda>x d. d\<lparr>d_not_proven := x\<rparr>))"
  "find_field decision_setters ''artifacts'' =
     Some (set_list (set_struct artifact_setters) zero_artifact d_artifacts (\<lambda>x d. d\<lparr>d_artifacts := x\<rparr>))"
  "find_field decision_setters ''usage'' =
     Some (set_list (set_struct usage_setters) zero_usage d_usage (\<lambda>x d. d\<lparr>d_usage := x\<rparr>))"
  by (simp_all add: find_field_def decision_setters_def upper_byte_def code_def byte_def less_eq_char_def)

lemma store_stage: "set_struct stage_setters (stage_value s) zero_stage = Some s"
  by (cases s) (simp add: set_struct_def stage_value_def store_value_def omit_empty_def stage_field_names set_string_def
      set_strings_value zero_stage_def ok_value_def)

lemma store_artifact: "set_struct artifact_setters (artifact_value a) zero_artifact = Some a"
  by (cases a) (simp add: set_struct_def artifact_value_def store_value_def artifact_field_names set_string_def
      zero_artifact_def ok_value_def)

lemma store_usage: "usage_writable u \<Longrightarrow> set_struct usage_setters (usage_value u) zero_usage = Some u"
  by (cases u) (simp add: set_struct_def usage_value_def store_value_def usage_field_names set_string_def set_int64_def
      parse_int64_dec usage_writable_def zero_usage_def ok_value_def)

lemma store_decision:
  assumes "decision_writable d"
  shows "store_value True decision_setters zero_decision (decision_value d) = Inr d"
proof -
  have u: "\<forall>u\<in>set (d_usage d). set_struct usage_setters (usage_value u) zero_usage = Some u"
    using assms store_usage by (simp add: decision_writable_def)
  show ?thesis
    using u
    by (cases d) (simp add: decision_value_def store_value_def omit_empty_def decision_field_names set_string_def
      set_list_value store_stage store_artifact set_strings_value zero_decision_def)
qed

text \<open>
  A decision that was written is read back as it was: \<open>Decode\<close> over the indented text
  gives the same decision, whatever follows the text.
\<close>

lemma decode_decision_text:
  assumes "decision_writable d"
  shows "decode_decision (decision_text d @ rest) = Inr d"
proof -
  let ?w = "json_indent 0 (decision_value d)"
  have r: "reads_value 4 ?w (decision_value d)"
    by (rule reads_value_mono [OF reads_indent [OF decision_plain [OF assms]] decision_depth])
  let ?b = "decision_text d @ rest"
  have "parse_value (2 * length ?b + 1) max_nesting (?w @ newline # rest) = Inr (decision_value d, newline # rest)"
    by (rule reads_valueD [OF r]) (simp_all add: decision_text_def max_nesting_def stops_def)
  moreover have "skip_ws ?b = ?w @ newline # rest"
    using skip_value [OF r] by (simp add: decision_text_def)
  ultimately show ?thesis by (simp add: decode_decision_def store_decision [OF assms])
qed

section \<open>An emitted dossier verifies\<close>

text \<open>The name a source is copied to, and sources whose names are entries of their own in \<open>artifacts\<close>.\<close>

definition artifact_name :: "string \<Rightarrow> string \<Rightarrow> string" where
  "artifact_name role src = role @ path_ext src"

definition source_names :: "(string \<times> string) list \<Rightarrow> string list" where
  "source_names rs = map (\<lambda>p. artifact_name (fst p) (snd p)) (filter (\<lambda>p. snd p \<noteq> []) rs)"

definition good_sources :: "(string \<times> string) list \<Rightarrow> bool" where
  "good_sources rs = (distinct (source_names rs) \<and> (\<forall>n\<in>set (source_names rs). entry_name n \<and> \<not> contains_sub n ''..''))"

lemma source_names_simps [simp]:
  "source_names [] = []" "source_names ((r, []) # rs) = source_names rs"
  "s \<noteq> [] \<Longrightarrow> source_names ((r, s) # rs) = artifact_name r s # source_names rs"
  by (simp_all add: source_names_def)

lemma good_sources_Cons:
  "s \<noteq> [] \<Longrightarrow> good_sources ((r, s) # rs) \<longleftrightarrow> good_sources rs \<and> entry_name (artifact_name r s) \<and>
     \<not> contains_sub (artifact_name r s) ''..'' \<and> artifact_name r s \<notin> set (source_names rs)"
  unfolding good_sources_def source_names_simps(3) distinct.simps list.set by blast

lemma artifact_rel_name:
  assumes "entry_name (artifact_name role src)"
  shows "artifact_rel role src = rel_path [artifacts_dir, artifact_name role src]"
    and "path_elems (artifact_rel role src) = [artifacts_dir, artifact_name role src]"
    and "clean (artifact_rel role src) = artifact_rel role src" "\<not> is_abs (artifact_rel role src)"
proof -
  let ?n = "artifact_name role src" and ?p = "rel_path [artifacts_dir, artifact_name role src]"
  have pl: "list_all plain_elem [artifacts_dir, ?n]"
    using assms by (simp add: entry_name_def artifacts_dir_def plain_elem_def)
  have s: "split_char slash ?p = [artifacts_dir, ?n]"
    using split_join_elems [OF _ plain_no_slash [OF pl]] by (simp add: rel_path_def)
  have a: "\<not> is_abs ?p" by (simp add: rel_path_def artifacts_dir_def is_abs_def)
  have c: "clean ?p = ?p" by (rule clean_plain [OF _ a]) (simp only: plain_path_def s pl)
  have r: "artifact_rel role src = ?p"
    using c by (simp add: artifact_rel_def artifact_name_def rel_path_def artifacts_dir_def)
  show "artifact_rel role src = ?p" "path_elems (artifact_rel role src) = [artifacts_dir, ?n]"
    "clean (artifact_rel role src) = artifact_rel role src" "\<not> is_abs (artifact_rel role src)"
    unfolding r using c a path_elems_rel [OF pl] by simp_all
qed

definition stage_tree :: "(string \<times> node) list \<Rightarrow> node" where
  "stage_tree es = Dir [(artifacts_dir, Dir es)]"

definition files_only :: "(string \<times> node) list \<Rightarrow> bool" where
  "files_only es = (wf_entries es \<and> (\<forall>(n, x)\<in>set es. \<exists>c. x = Reg c))"

lemma files_only_update: "files_only es \<Longrightarrow> entry_name n \<Longrightarrow> files_only (AList.update n (Reg c) es)"
  using update_entries [of es n "Reg c"] by (auto simp: files_only_def wf_entries_iff)

lemma put_artifact:
  assumes "files_only es" "entry_name (artifact_name role src)"
  shows "put_file (path_elems (artifact_rel role src)) c (stage_tree es) =
    Some (stage_tree (AList.update (artifact_name role src) (Reg c) es))"
proof -
  have "map_of es n = None \<or> (\<exists>old. map_of es n = Some (Reg old))" for n
  proof (cases "map_of es n")
    case (Some x)
    from map_of_SomeD [OF this] assms(1) show ?thesis using Some by (auto simp: files_only_def)
  qed simp
  from this [of "artifact_name role src"] show ?thesis
    unfolding artifact_rel_name(2) [OF assms(2)] by (auto simp: stage_tree_def)
qed

text \<open>An artifact that stands in a directory under its recorded name and hash.\<close>

definition artifact_in :: "(string \<Rightarrow> string) \<Rightarrow> (string \<times> node) list \<Rightarrow> artifact \<Rightarrow> bool" where
  "artifact_in sha es a = (\<exists>n c. art_path a = rel_path [artifacts_dir, n] \<and> entry_name n \<and> \<not> contains_sub n ''..'' \<and>
     map_of es n = Some (Reg c) \<and> art_sha256 a = hex_encode (sha c))"

lemma emit_artifacts_result:
  "emit_artifacts sha read io rs (stage_tree es) = Inr (made, stage) \<Longrightarrow> good_sources rs \<Longrightarrow> files_only es \<Longrightarrow>
   \<exists>es'. stage = stage_tree es' \<and> files_only es' \<and> (\<forall>a\<in>set made. artifact_in sha es' a) \<and>
     (made = [] \<longleftrightarrow> source_names rs = []) \<and> (\<forall>n. n \<notin> set (source_names rs) \<longrightarrow> map_of es' n = map_of es n)"
proof (induction rs arbitrary: es made)
  case Nil
  then show ?case by auto
next
  case (Cons p rs)
  obtain r s where p: "p = (r, s)" by (cases p)
  show ?case
  proof (cases "s = []")
    case True
    then have "good_sources rs" using Cons.prems(2) by (simp add: p good_sources_def)
    with Cons.IH [of es made] Cons.prems(1,3) p True show ?thesis by simp
  next
    case False
    let ?n = "artifact_name r s"
    have n: "entry_name ?n" "\<not> contains_sub ?n ''..''" "?n \<notin> set (source_names rs)" and g: "good_sources rs"
      using Cons.prems(2) unfolding p good_sources_Cons [OF False] by blast+
    obtain c where c: "read s = Inr c" using Cons.prems(1) False p by (auto split: sum.splits)
    let ?es = "AList.update ?n (Reg c) es"
    have f: "files_only ?es" by (rule files_only_update [OF Cons.prems(3) n(1)])
    from Cons.prems(1) obtain made' where made: "emit_artifacts sha read io rs (stage_tree ?es) = Inr (made', stage)"
        "made = \<lparr>art_role = r, art_path = artifact_rel r s, art_sha256 = hex_encode (sha c)\<rparr> # made'"
      using False c put_artifact [OF Cons.prems(3) n(1), of c] by (auto simp: p result_simps split: option.splits)
    from Cons.IH [OF made(1) g f] obtain es' where es': "stage = stage_tree es'" "files_only es'"
        "\<forall>a\<in>set made'. artifact_in sha es' a"
        "\<And>m. m \<notin> set (source_names rs) \<Longrightarrow> map_of es' m = map_of ?es m"
      by blast
    have "map_of es' ?n = Some (Reg c)" using es'(4) [OF n(3)] by (simp add: update_conv')
    then have "\<forall>a\<in>set made. artifact_in sha es' a"
      using es'(3) n made(2) artifact_rel_name(1) [OF n(1)] by (auto simp: artifact_in_def)
    moreover have "map_of es' m = map_of es m" if "m \<notin> set (source_names (p # rs))" for m
      using that False p es'(4) [of m] by (auto simp: update_conv')
    ultimately show ?thesis using es'(1,2) made(2) False p by (intro exI [of _ es']) auto
  qed
qed

definition source_list :: "(string \<rightharpoonup> string) \<Rightarrow> string list \<Rightarrow> (string \<times> string) list" where
  "source_list sources roles = map (\<lambda>r. (r, the (sources r))) (sort roles)"

lemma emit_stage_result:
  assumes "emit_stage sha read io d sources roles = Inr (d1, arts)" "good_sources (source_list sources roles)"
  shows "\<exists>es. arts = Dir es \<and> files_only es \<and> d1 = d\<lparr>d_artifacts := d_artifacts d1\<rparr> \<and>
    (\<forall>a\<in>set (d_artifacts d1). artifact_in sha es a) \<and> (d_artifacts d1 = [] \<longleftrightarrow> source_names (source_list sources roles) = [])"
proof -
  obtain made stage where e: "emit_artifacts sha read io (source_list sources roles) (stage_tree []) = Inr (made, stage)"
      "d1 = d\<lparr>d_artifacts := made\<rparr>" "arts = in_stage artifacts_dir stage"
    using assms(1) by (auto simp: emit_stage_def result_simps stage_tree_def source_list_def)
  have "files_only []" by (simp add: files_only_def)
  from emit_artifacts_result [OF e(1) assms(2) this] obtain es where es: "stage = stage_tree es" "files_only es"
      "\<forall>a\<in>set made. artifact_in sha es a" "made = [] \<longleftrightarrow> source_names (source_list sources roles) = []"
    by blast
  then show ?thesis using e(2,3) by (intro exI [of _ es]) (simp add: in_stage_def stage_tree_def)
qed

text \<open>An artifact that stands in \<open>artifacts\<close> is found, with its hash, and is measured.\<close>

lemma artifact_in_tree:
  assumes "artifact_in sha es a" "map_of ds artifacts_dir = Some (Dir es)"
  shows "artifact_holds sha fo (Dir ds) a"
    and "\<exists>n c. find_at fo (Dir ds) [artifacts_dir, n] = Some (Reg c) \<and> art_path a = mf_path (file_at sha [artifacts_dir, n] c) \<and>
      \<not> is_bundle_metadata (art_path a)"
proof -
  obtain n c where n: "art_path a = rel_path [artifacts_dir, n]" "entry_name n" "\<not> contains_sub n ''..''"
      "map_of es n = Some (Reg c)" "art_sha256 a = hex_encode (sha c)"
    using assms(1) by (auto simp: artifact_in_def)
  have pl: "list_all plain_elem [artifacts_dir, n]"
    using n(2) by (simp add: entry_name_def artifacts_dir_def plain_elem_def)
  have s: "split_char slash (rel_path [artifacts_dir, n]) = [artifacts_dir, n]"
    using split_join_elems [OF _ plain_no_slash [OF pl]] by (simp add: rel_path_def)
  have abs: "\<not> is_abs (rel_path [artifacts_dir, n])" by (simp add: rel_path_def artifacts_dir_def is_abs_def)
  have cl: "clean (rel_path [artifacts_dir, n]) = rel_path [artifacts_dir, n]"
    by (rule clean_plain [OF _ abs]) (simp only: plain_path_def s pl)
  have f: "find_at fo (Dir ds) [artifacts_dir, n] = Some (Reg c)" using assms(2) n(4) by simp
  have dots: "\<not> contains_sub (rel_path [artifacts_dir, n]) ''..''"
    using n(3) by (simp add: rel_path_def artifacts_dir_def)
  have o: "open_at fo (Dir ds) [artifacts_dir, n] = Some c" using f by (simp add: open_at_def)
  then show "artifact_holds sha fo (Dir ds) a"
    unfolding artifact_holds_def n(1) using abs dots n(5) cl path_elems_rel [OF pl] by simp
  have "\<not> is_bundle_metadata (rel_path [artifacts_dir, n])"
    by (simp add: is_bundle_metadata_def rel_path_def artifacts_dir_def)
  with f n(1) show "\<exists>n c. find_at fo (Dir ds) [artifacts_dir, n] = Some (Reg c) \<and>
      art_path a = mf_path (file_at sha [artifacts_dir, n] c) \<and> \<not> is_bundle_metadata (art_path a)"
    by (auto simp: file_at_def)
qed

lemma emit_parts:
  assumes "dossier_emit sha read io named d sources roles dir = (Inr d1, dir2)"
  obtains ds arts where "dir = Dir ds" "emit_stage sha read io d sources roles = Inr (d1, arts)"
    "dir2 = Dir (AList.update decision_file (Reg (decision_text d1)) (AList.update artifacts_dir arts ds))"
    "map_of ds artifacts_dir = None"
  using assms
  by (auto simp: dossier_emit_def rename_dir_def rename_file_def result_simps
      split: if_splits sum.splits prod.splits node.splits option.splits list.splits)

lemma emitted_tree:
  assumes "dossier_emit sha read io named d sources roles dir = (Inr d1, dir2)"
    and "wf_node dir" "walk sha [] dir = Inr all0" "good_sources (source_list sources roles)"
  shows "\<exists>ds es all. dir2 = Dir ds \<and> wf_node dir2 \<and> walk sha [] dir2 = Inr all \<and>
    map_of ds decision_file = Some (Reg (decision_text d1)) \<and> map_of ds artifacts_dir = Some (Dir es) \<and>
    (\<forall>a\<in>set (d_artifacts d1). artifact_in sha es a) \<and> d1 = d\<lparr>d_artifacts := d_artifacts d1\<rparr> \<and>
    (d_artifacts d1 = [] \<longleftrightarrow> source_names (source_list sources roles) = [])"
proof -
  obtain ds0 arts where p: "dir = Dir ds0" "emit_stage sha read io d sources roles = Inr (d1, arts)"
      "dir2 = Dir (AList.update decision_file (Reg (decision_text d1)) (AList.update artifacts_dir arts ds0))"
    by (rule emit_parts [OF assms(1)])
  obtain es where es: "arts = Dir es" "files_only es" "d1 = d\<lparr>d_artifacts := d_artifacts d1\<rparr>"
      "\<forall>a\<in>set (d_artifacts d1). artifact_in sha es a" "d_artifacts d1 = [] \<longleftrightarrow> source_names (source_list sources roles) = []"
    using emit_stage_result [OF p(2) assms(4)] by blast
  let ?ds1 = "AList.update artifacts_dir (Dir es) ds0"
  let ?ds = "AList.update decision_file (Reg (decision_text d1)) ?ds1"
  have names: "entry_name artifacts_dir" "entry_name decision_file" "artifacts_dir \<noteq> decision_file"
    by (simp_all add: entry_name_def plain_elem_def nul_def artifacts_dir_def decision_file_def)
  have wf0: "wf_entries ds0" using assms(2) p(1) by simp
  note u1 = update_entries [OF wf_entries_distinct [OF wf0], of artifacts_dir "Dir es"]
  note u2 = update_entries [OF u1(1), of decision_file "Reg (decision_text d1)"]
  have wf: "wf_entries ?ds"
    using wf0 es(2) names u1 u2 by (auto simp: wf_entries_iff files_only_def)
  have "\<exists>fs. walk sha [artifacts_dir] (Dir es) = Inr fs"
    using walk_entries_ok [of sha "[artifacts_dir]" es] es(2) by (auto simp: files_only_def)
  moreover have "\<forall>(n, x)\<in>set ds0. \<exists>fs. walk sha [n] x = Inr fs"
    using walk_entries_ok [of sha "[]" ds0] assms(3) p(1) by auto
  ultimately have "\<forall>(n, x)\<in>set ?ds. \<exists>fs. walk sha [n] x = Inr fs"
    using u1(2) u2(2) by auto
  then obtain all where "walk_entries sha [] ?ds = Inr all" using walk_entries_ok [of sha "[]" ?ds] by auto
  then have "walk sha [] (Dir ?ds) = Inr all" by simp
  moreover have "map_of ?ds decision_file = Some (Reg (decision_text d1))" "map_of ?ds artifacts_dir = Some (Dir es)"
    using names(3) by (simp_all add: update_conv')
  ultimately show ?thesis
    using p(3) es wf by (intro exI [of _ ?ds] exI [of _ es] exI [of _ all]) simp
qed

lemma validate_artifacts: "decision_validate (d\<lparr>d_artifacts := as\<rparr>) = decision_validate d"
proof -
  have "verdict_problems (d\<lparr>d_artifacts := as\<rparr>) = verdict_problems d"
    by (simp add: verdict_problems_def Let_def)
  then show ?thesis by (simp add: decision_validate_def decision_problems_def)
qed

lemma emitted_holds:
  assumes "sorts_files srt" "wf_node dir" "walk sha [] dir = Inr all0"
    and "dossier_emit sha read io named d sources roles dir = (Inr d1, dir2)" "decision_validate d = Inr ()"
    and "decision_writable d1" "good_sources (source_list sources roles)" "source_names (source_list sources roles) \<noteq> []"
  shows "\<exists>files root. measure_bundle srt sha (Some dir2) = Inr (files, root) \<and> dossier_holds srt sha fo dir2 root d1"
proof -
  obtain ds es all where t: "dir2 = Dir ds" "wf_node dir2" "walk sha [] dir2 = Inr all"
      "map_of ds decision_file = Some (Reg (decision_text d1))" "map_of ds artifacts_dir = Some (Dir es)"
      "\<forall>a\<in>set (d_artifacts d1). artifact_in sha es a" "d1 = d\<lparr>d_artifacts := d_artifacts d1\<rparr>" "d_artifacts d1 \<noteq> []"
    using emitted_tree [OF assms(4,2,3,7)] assms(8) by blast
  let ?files = "filter (\<lambda>f. \<not> is_bundle_metadata (mf_path f)) (srt all)"
  note m = measured_payload [OF assms(1) t(2,3)]
  have in_files: "mf_path (file_at sha ms c) \<in> mf_path ` set ?files"
    if "find_at fo dir2 ms = Some (Reg c)" "\<not> is_bundle_metadata (mf_path (file_at sha ms c))" for ms c
    unfolding m(5) using walked_tree(1) [OF t(3,2), of "file_at sha ms c" fo] that by blast
  have d: "find_at fo dir2 [decision_file] = Some (Reg (decision_text d1))" using t(1,4) by simp
  have dec: "decision_file \<in> mf_path ` set ?files"
    using in_files [OF d] by (simp add: file_at_def rel_path_def decision_file_def is_bundle_metadata_def)
  have arts: "artifact_holds sha fo dir2 a \<and> art_path a \<in> mf_path ` set ?files" if "a \<in> set (d_artifacts d1)" for a
  proof -
    have a: "artifact_in sha es a" using t(6) that by blast
    from artifact_in_tree(2) [OF a t(5), of fo] obtain n c where "find_at fo dir2 [artifacts_dir, n] = Some (Reg c)"
        "art_path a = mf_path (file_at sha [artifacts_dir, n] c)" "\<not> is_bundle_metadata (art_path a)"
      using t(1) by blast
    with in_files [of "[artifacts_dir, n]" c] artifact_in_tree(1) [OF a t(5), of fo] t(1) show ?thesis by simp
  qed
  have o: "open_at fo dir2 [decision_file] = Some (decision_text d1)" using d by (simp add: open_at_def)
  have r: "decode_decision (decision_text d1) = Inr d1" using decode_decision_text [OF assms(6), of "[]"] by simp
  have v: "decision_validate d1 = Inr ()" using assms(5) t(7) validate_artifacts by metis
  show ?thesis
    by (rule exI [of _ ?files], rule exI [of _ "content_root srt sha ?files"])
      (use m(1) o r v t(8) dec arts in \<open>simp add: dossier_holds_def\<close>)
qed

text \<open>
  C28. What \<open>Emit\<close> writes, \<open>Verify\<close> accepts: a consistent decision emitted with at least
  one source into a directory of regular files verifies, under the content root that is
  measured once it is in place.  The texts have to be UTF-8, and the roles with the
  extensions of their sources have to be names of their own without two dots in a row.
\<close>

theorem emitted_dossier_verifies:
  assumes "sorts_files srt" "wf_node dir" "walk sha [] dir = Inr all0"
    and "dossier_emit sha read io named d sources roles dir = (Inr d1, dir2)" "decision_validate d = Inr ()"
    and "decision_writable d1" "good_sources (source_list sources roles)" "source_names (source_list sources roles) \<noteq> []"
  shows "\<exists>files root. measure_bundle srt sha (Some dir2) = Inr (files, root) \<and>
    dr_outcome (dossier_verify srt sha fo tx name (Some dir2) root) = dossier_verified \<and>
    dossier_code (dr_outcome (dossier_verify srt sha fo tx name (Some dir2) root)) = 0"
proof -
  obtain files root where m: "measure_bundle srt sha (Some dir2) = Inr (files, root)"
      and h: "dossier_holds srt sha fo dir2 root d1"
    using emitted_holds [OF assms, of fo] by blast
  then obtain raw where "open_at fo dir2 [decision_file] = Some raw" "decode_decision raw = Inr d1"
    by (auto simp: dossier_holds_def)
  from dossier_verify_result(1) [OF this, of srt sha tx name root] h
  have "dr_outcome (dossier_verify srt sha fo tx name (Some dir2) root) = dossier_verified"
    by (simp add: dossier_holds_def)
  with m show ?thesis by (simp add: dossier_code_def)
qed


text \<open>An artifact for every role that has a source, in the order of the roles.\<close>

lemma emit_artifacts_roles:
  "emit_artifacts sha read io rs stage = Inr (made, stage') \<Longrightarrow> map art_role made = map fst (filter (\<lambda>(role, src). src \<noteq> []) rs)"
  by (induction rs arbitrary: stage made)
    (auto simp: result_simps split: if_splits sum.splits prod.splits option.splits)

lemma emit_stage_roles:
  assumes "emit_stage sha read io d sources roles = Inr (d1, arts)"
  shows "map art_role (d_artifacts d1) = map fst (filter (\<lambda>(role, src). src \<noteq> []) (source_list sources roles))"
proof -
  obtain made stage where e: "emit_artifacts sha read io (source_list sources roles) (Dir [(artifacts_dir, Dir [])]) = Inr (made, stage)"
      "d1 = d\<lparr>d_artifacts := made\<rparr>"
    using assms by (auto simp: emit_stage_def result_simps source_list_def)
  show ?thesis using emit_artifacts_roles [OF e(1)] by (simp add: e(2))
qed

text \<open>How far \<open>Emit\<close> got: nothing moved, the artifacts only, or both.\<close>

lemma emit_reached:
  assumes "dossier_emit sha read io named d sources roles (Dir ds) = (r, dir2)"
  shows "dir2 = Dir ds \<and> (\<exists>e. r = Inl e) \<or>
    (\<exists>d1 arts. emit_stage sha read io d sources roles = Inr (d1, arts) \<and> map_of ds artifacts_dir = None \<and>
       (dir2 = Dir (AList.update artifacts_dir arts ds) \<and> (\<exists>e. r = Inl e) \<or>
        dir2 = Dir (AList.update decision_file (Reg (decision_text d1)) (AList.update artifacts_dir arts ds)) \<and>
          (r = Inr d1 \<or> (\<exists>e. r = Inl e))))"
  using assms
  by (auto simp: dossier_emit_def rename_dir_def rename_file_def try_bind_def
      split: if_splits sum.splits prod.splits node.splits option.splits)

text \<open>
  C33. \<open>Emit\<close> never leaves a decision without its artifacts: after any run, one that failed at
  any of its steps included, what stands at \<open>decision.json\<close> is what stood there before, and
  the run failed; or it is the text of the given decision with one artifact for every role
  that has a source, and \<open>artifacts\<close>, which was not there before, is a directory in which each
  of those artifacts is a file with the hash the decision gives.  Nothing else in the
  directory changes.  The roles with the extensions of their sources have to be names of
  their own without two dots in a row.
\<close>

theorem emit_leaves_no_partial_dossier:
  assumes "dossier_emit sha read io named d sources roles (Dir ds) = (r, dir2)" "good_sources (source_list sources roles)"
  shows "\<exists>es. dir2 = Dir es \<and> (\<forall>n. n \<in> {decision_file, artifacts_dir} \<or> map_of es n = map_of ds n) \<and>
    (map_of es decision_file = map_of ds decision_file \<and> (\<exists>e. r = Inl e) \<or>
     (\<exists>d1 as. map_of es decision_file = Some (Reg (decision_text d1)) \<and> d1 = d\<lparr>d_artifacts := d_artifacts d1\<rparr> \<and>
        map art_role (d_artifacts d1) = map fst (filter (\<lambda>(role, src). src \<noteq> []) (source_list sources roles)) \<and>
        map_of ds artifacts_dir = None \<and> map_of es artifacts_dir = Some (Dir as) \<and>
        (\<forall>a\<in>set (d_artifacts d1). artifact_in sha as a) \<and> (r = Inr d1 \<or> (\<exists>e. r = Inl e))))"
proof -
  have n: "artifacts_dir \<noteq> decision_file" by (simp add: artifacts_dir_def decision_file_def)
  from emit_reached [OF assms(1)] consider (none) e where "dir2 = Dir ds" "r = Inl e"
    | (artifacts) arts e where "dir2 = Dir (AList.update artifacts_dir arts ds)" "r = Inl e"
    | (both) d1 arts where "emit_stage sha read io d sources roles = Inr (d1, arts)" "map_of ds artifacts_dir = None"
        "dir2 = Dir (AList.update decision_file (Reg (decision_text d1)) (AList.update artifacts_dir arts ds))"
        "r = Inr d1 \<or> (\<exists>e. r = Inl e)"
    by blast
  then show ?thesis
  proof cases
    case none
    then show ?thesis by simp
  next
    case artifacts
    then show ?thesis using n by (auto simp: update_conv')
  next
    case both
    obtain as where "arts = Dir as" "d1 = d\<lparr>d_artifacts := d_artifacts d1\<rparr>" "\<forall>a\<in>set (d_artifacts d1). artifact_in sha as a"
      using emit_stage_result [OF both(1) assms(2)] by blast
    moreover let ?es = "AList.update decision_file (Reg (decision_text d1)) (AList.update artifacts_dir arts ds)"
    have "map_of ?es decision_file = Some (Reg (decision_text d1))" "map_of ?es artifacts_dir = Some arts"
        "\<forall>n. n \<in> {decision_file, artifacts_dir} \<or> map_of ?es n = map_of ds n"
      using n by (auto simp: update_conv')
    moreover note both(2-4) emit_stage_roles [OF both(1)]
    ultimately show ?thesis by blast
  qed
qed

text \<open>
  C29. A dossier is written once: after an \<open>Emit\<close> that succeeded, or one that failed after it
  had begun to move its files in, every later \<open>Emit\<close> into the directory fails and changes
  nothing, whatever its decision and its sources, even with no artifact at all; so a recorded
  verdict cannot be replaced by another.
\<close>

theorem emitted_dossier_is_not_overwritten:
  assumes "dossier_emit sha read io named d sources roles dir = (r, dir2)" "(\<exists>d1. r = Inr d1) \<or> dir2 \<noteq> dir"
  shows "\<exists>e. dossier_emit sha read' io' named' d' sources' roles' dir2 = (Inl e, dir2)"
proof -
  have "\<exists>ds arts. dir2 = Dir ds \<and> map_of ds artifacts_dir = Some arts"
    using assms
    by (auto simp: dossier_emit_def rename_dir_def rename_file_def result_simps update_conv' artifacts_dir_def decision_file_def
        split: if_splits sum.splits prod.splits node.splits option.splits)
  then have ren: "\<exists>e. try_bind (try_io (em_rename_artifacts io')) (\<lambda>_. rename_dir artifacts_dir arts dir2) = Inl e" for arts
    by (cases "em_rename_artifacts io'") (auto simp: try_io_def rename_dir_def)
  show ?thesis
  proof (cases "emit_stage sha read' io' d' sources' roles'")
    case (Inr x)
    obtain d2 arts where x: "x = (d2, arts)" by (cases x)
    show ?thesis using Inr x ren [of arts] by (auto simp: dossier_emit_def)
  qed (simp add: dossier_emit_def)
qed

text \<open>
  The seal fixes the evidence: two directories that verify under the same content root
  carry the same decision and, file by file, the same evidence, unless two different texts
  among those that were hashed have the same SHA-256.
\<close>

theorem sealed_dossiers_agree:
  assumes "sorts_files srt" "wf_node x" "wf_node y" "root \<noteq> []"
    and "dr_outcome (dossier_verify srt sha fo tx dir (Some x) root) = dossier_verified"
    and "dr_outcome (dossier_verify srt sha fo' tx dir' (Some y) root) = dossier_verified"
    and "inj_on sha (hashed_texts srt sha x \<union> hashed_texts srt sha y)"
  shows "payload_at x = payload_at y \<and>
    (\<exists>d. dossier_holds srt sha fo x root d \<and> dossier_holds srt sha fo' y root d)"
proof -
  obtain d where d: "dossier_holds srt sha fo x root d" using assms(5) verified_holds by blast
  obtain d' where d': "dossier_holds srt sha fo' y root d'" using assms(6) verified_holds by blast
  obtain files where m: "measure_bundle srt sha (Some x) = Inr (files, root)" using d assms(4) by (auto simp: dossier_holds_def)
  obtain files' where m': "measure_bundle srt sha (Some y) = Inr (files', root)" using d' assms(4) by (auto simp: dossier_holds_def)
  have p: "payload_at x = payload_at y" by (rule same_root_payload [OF assms(1-3) m m' assms(7)])
  have f: "payload_at z decision_file = Some raw"
    if o: "open_at f z [decision_file] = Some raw" and mz: "measure_bundle srt sha (Some z) = Inr (fs, root)" and wz: "wf_node z"
    for f z raw fs
  proof -
    obtain all where w: "walk sha [] z = Inr all" using mz by (auto simp: measure_bundle_def scan_dir_def result_simps)
    from o obtain n where n: "find_at f z [decision_file] = Some n" by (auto simp: open_at_def split: option.splits)
    from walked_tree(2) [OF w wz n] o n have "n = Reg raw" by (cases n) (simp_all add: open_at_def)
    with n w have "find_at (\<lambda>_ _. None) z [decision_file] = Some (Reg raw)"
      by (cases z) (auto split: option.splits)
    moreover have "path_elems decision_file = [decision_file]" "rel_path [decision_file] = decision_file" "\<not> is_bundle_metadata decision_file"
      by (simp_all add: path_elems_def decision_file_def rel_path_def is_bundle_metadata_def)
    ultimately show ?thesis by (simp add: payload_at_iff)
  qed
  obtain raw where raw: "open_at fo x [decision_file] = Some raw" "decode_decision raw = Inr d"
    using d by (auto simp: dossier_holds_def)
  obtain raw' where raw': "open_at fo' y [decision_file] = Some raw'" "decode_decision raw' = Inr d'"
    using d' by (auto simp: dossier_holds_def)
  have "raw = raw'" using f [OF raw(1) m assms(2)] f [OF raw'(1) m' assms(3)] p by simp
  with raw(2) raw'(2) have "d = d'" by simp
  with p d d' show ?thesis by blast
qed

section \<open>An example\<close>

definition toy_decision :: decision where
  "toy_decision = \<lparr>d_case = ''c1'', d_candidate = ''p1'', d_verdict = verdict_accept, d_reason = [],
     d_stages = [\<lparr>sr_stage = ''m0'', sr_outcome = outcome_passed, sr_reason = [], sr_evidence = [''one line'']\<rparr>],
     d_not_proven = [''the rest''], d_artifacts = [], d_usage = []\<rparr>"

definition toy_emit_io :: emit_io where
  "toy_emit_io = \<lparr>em_tempdir = None, em_mkdir = None, em_copy = \<lambda>_. None, em_write = None, em_sync_stage = None,
     em_rename_artifacts = None, em_rename_decision = None, em_sync_dir = None\<rparr>"

definition toy_recorded :: decision where
  "toy_recorded = toy_decision\<lparr>d_artifacts :=
     [\<lparr>art_role = ''pov'', art_path = rel_path [artifacts_dir, ''pov.bin''], art_sha256 = hex_encode ''poc''\<rparr>]\<rparr>"

definition toy_dossier :: node where
  "toy_dossier = Dir [(artifacts_dir, Dir [(''pov.bin'', Reg ''poc'')]), (decision_file, Reg (decision_text toy_recorded))]"

definition toy_emit :: "node \<Rightarrow> (emit_error, decision) result \<times> node" where
  "toy_emit dir = dossier_emit (\<lambda>s. s) (\<lambda>_. Inr ''poc'') toy_emit_io True toy_decision [''pov'' \<mapsto> ''x.bin''] [''pov''] dir"

definition toy_texts :: dossier_texts where
  "toy_texts = \<lparr>dt_read = ''unreadable'', dt_json = \<lambda>_. ''json'', dt_invalid = \<lambda>_. ''invalid'', dt_hash = \<lambda>_. ''hash'',
     dt_content = \<lambda>_. ''content'', dt_printable = \<lambda>_. True\<rparr>"

lemma toy_name: "artifact_name ''pov'' ''x.bin'' = ''pov.bin''" "entry_name (artifact_name ''pov'' ''x.bin'')"
  "\<not> contains_sub (artifact_name ''pov'' ''x.bin'') ''..''"
  by (simp_all add: artifact_name_def path_ext_def entry_name_def plain_elem_def nul_def)

lemma toy_source_list: "source_list [''pov'' \<mapsto> ''x.bin''] [''pov''] = [(''pov'', ''x.bin'')]"
  by (simp add: source_list_def)

lemma toy_sources:
  "good_sources (source_list [''pov'' \<mapsto> ''x.bin''] [''pov''])" "source_names (source_list [''pov'' \<mapsto> ''x.bin''] [''pov'']) \<noteq> []"
  unfolding toy_source_list using toy_name(2,3) by (simp_all add: good_sources_def)

lemma toy_emits: "toy_emit (Dir []) = (Inr toy_recorded, toy_dossier)"
proof -
  have e: "files_only []" by (simp add: files_only_def)
  have "emit_artifacts (\<lambda>s. s) (\<lambda>_. Inr ''poc'') toy_emit_io [(''pov'', ''x.bin'')] (stage_tree []) =
      Inr ([\<lparr>art_role = ''pov'', art_path = rel_path [artifacts_dir, ''pov.bin''], art_sha256 = hex_encode ''poc''\<rparr>],
        stage_tree [(''pov.bin'', Reg ''poc'')])"
    using put_artifact [OF e toy_name(2), of "''poc''"] artifact_rel_name(1) [OF toy_name(2)]
    by (simp add: toy_emit_io_def toy_name(1))
  then have "emit_stage (\<lambda>s. s) (\<lambda>_. Inr ''poc'') toy_emit_io toy_decision [''pov'' \<mapsto> ''x.bin''] [''pov''] =
      Inr (toy_recorded, Dir [(''pov.bin'', Reg ''poc'')])"
    using toy_source_list
    by (simp add: emit_stage_def source_list_def stage_tree_def try_io_def in_stage_def toy_recorded_def)
      (simp add: toy_emit_io_def)
  moreover have "em_rename_artifacts toy_emit_io = None" "em_rename_decision toy_emit_io = None" "em_sync_dir toy_emit_io = None"
    by (simp_all add: toy_emit_io_def)
  moreover have "artifacts_dir \<noteq> decision_file" by (simp add: artifacts_dir_def decision_file_def)
  ultimately show ?thesis
    by (simp add: toy_emit_def dossier_emit_def rename_dir_def rename_file_def try_io_def toy_dossier_def)
qed

lemma toy_empty: "wf_node (Dir [])" "walk sha [] (Dir []) = Inr []"
  by simp_all

lemma toy_decision_facts: "decision_validate toy_decision = Inr ()" "decision_writable toy_decision" "decision_writable toy_recorded"
proof -
  have "\<not> blank ''one line''" "\<not> blank ''the rest''"
    by (simp_all add: not_blank_Cons solid_byte_nat)
  then show "decision_validate toy_decision = Inr ()"
    by (simp add: toy_decision_def decision_validate_def decision_problems_def verdict_problems_def stage_problems_def
        reasons_with_def non_blank_0)
  have a: "utf8_valid s" if "ascii_name s" for s by (rule ascii_name_valid [OF that])
  show w: "decision_writable toy_decision"
    by (simp add: toy_decision_def decision_writable_def stage_writable_def a ascii_name_def code_def del: utf8_valid.simps)
  have "utf8_valid (rel_path [artifacts_dir, ''pov.bin''])" "utf8_valid ''pov''"
    by (simp_all add: a ascii_name_def code_def rel_path_def artifacts_dir_def del: utf8_valid.simps)
  moreover have "utf8_valid (hex_encode x)" for x by (rule solid_valid [OF hex_encode_solid])
  ultimately show "decision_writable toy_recorded"
    using w by (simp add: toy_recorded_def decision_writable_def artifact_writable_def del: utf8_valid.simps)
qed

lemma toy_dossier_wf: "wf_node toy_dossier"
  by (simp add: toy_dossier_def entry_name_def plain_elem_def nul_def artifacts_dir_def decision_file_def)

theorem emitted_dossier_verifies_witness:
  "\<exists>files root. toy_emit (Dir []) = (Inr toy_recorded, toy_dossier) \<and>
    measure_bundle (sort_key mf_path) (\<lambda>s. s) (Some toy_dossier) = Inr (files, root) \<and>
    dr_outcome (dossier_verify (sort_key mf_path) (\<lambda>s. s) (\<lambda>_ _. None) toy_texts ''d'' (Some toy_dossier) root) = dossier_verified"
  using emitted_dossier_verifies [OF sort_key_sorts toy_empty toy_emits [unfolded toy_emit_def] toy_decision_facts(1,3) toy_sources,
      of "\<lambda>_ _. None" toy_texts "''d''"] toy_emits
  by blast

theorem stripped_dossier_is_not_self_contained_witness:
  "dr_outcome (dossier_verify (sort_key mf_path) (\<lambda>s. s) (\<lambda>_ _. None) toy_texts ''d''
       (Some (Dir [(decision_file, Reg (decision_text zero_decision))])) ''root'') =
     dossier_not_self_contained \<and> decision_validate zero_decision \<noteq> Inr ()"
proof -
  let ?x = "Dir [(decision_file, Reg (decision_text zero_decision))]"
  have o: "open_at (\<lambda>_ _. None) ?x [decision_file] = Some (decision_text zero_decision)" by (simp add: open_at_def)
  have "decision_writable zero_decision" by (simp add: zero_decision_def decision_writable_def)
  then have d: "decode_decision (decision_text zero_decision) = Inr zero_decision"
    using decode_decision_text [of zero_decision "[]"] by simp
  have "d_artifacts zero_decision = []" by (simp add: zero_decision_def)
  from stripped_dossier_is_not_self_contained [OF o d this, of "sort_key mf_path" "\<lambda>s. s" toy_texts "''d''" "''root''"]
  show ?thesis by (simp add: Let_def decision_validate_def decision_problems_def zero_decision_def)
qed

text \<open>Into an empty directory, with one source.\<close>

theorem emit_leaves_no_partial_dossier_witness:
  "(\<exists>es as. toy_dossier = Dir es \<and> map_of es decision_file = Some (Reg (decision_text toy_recorded)) \<and>
     map_of es artifacts_dir = Some (Dir as) \<and> (\<forall>a\<in>set (d_artifacts toy_recorded). artifact_in (\<lambda>s. s) as a)) \<and>
   toy_emit (Dir []) = (Inr toy_recorded, toy_dossier)"
proof -
  have n: "\<not> (\<exists>es. toy_dossier = Dir es \<and> map_of es decision_file = None)"
    by (simp add: toy_dossier_def artifacts_dir_def decision_file_def)
  with emit_leaves_no_partial_dossier [OF toy_emits [unfolded toy_emit_def] toy_sources(1)] n toy_emits show ?thesis by auto
qed

theorem emitted_dossier_is_not_overwritten_witness:
  "\<exists>e. toy_emit toy_dossier = (Inl e, toy_dossier)"
  using emitted_dossier_is_not_overwritten [OF toy_emits [unfolded toy_emit_def]] unfolding toy_emit_def by blast

theorem sealed_dossiers_agree_witness:
  "\<exists>root d. dossier_holds (sort_key mf_path) (\<lambda>s. s) (\<lambda>_ _. None) toy_dossier root d \<and> root \<noteq> []"
proof -
  obtain files root where m: "measure_bundle (sort_key mf_path) (\<lambda>s. s) (Some toy_dossier) = Inr (files, root)"
      "dossier_holds (sort_key mf_path) (\<lambda>s. s) (\<lambda>_ _. None) toy_dossier root toy_recorded"
    using emitted_holds [OF sort_key_sorts toy_empty toy_emits [unfolded toy_emit_def] toy_decision_facts(1,3) toy_sources] by blast
  from m(1) have "root = content_root (sort_key mf_path) (\<lambda>s. s) files"
    by (auto simp: measure_bundle_def result_simps Let_def)
  then have r: "root \<noteq> []"
    using length_hex_encode [of "content_text (sort_key mf_path) files"]
    by (auto simp: content_root_def content_text_def content_root_domain_def simp del: length_hex_encode)
  have v: "dr_outcome (dossier_verify (sort_key mf_path) (\<lambda>s. s) (\<lambda>_ _. None) tx name (Some toy_dossier) root) = dossier_verified" for tx name
    using m(2) verified_holds by blast
  have "inj_on (\<lambda>s. s) A" for A :: "string set" by (simp add: inj_on_def)
  from sealed_dossiers_agree [OF sort_key_sorts toy_dossier_wf toy_dossier_wf r v v this] r show ?thesis by blast
qed

end
