(* ===== verification/Challenge.thy ===== *)
theory Challenge
  imports Revert_Stage Os_Exec "HOL-Library.Multiset"
begin

text \<open>
  The challenge driver of M1 and M3 (\<open>pkg/revert/challenge.go\<close>): a checkout that is built
  and run through its own \<open>run.sh\<close>, over the operations of \<open>Os_Exec\<close>; and what a pass of
  M1 means when the stage runs on it.

  \<open>path\<close> is the \<open>PATH\<close> of the process.  \<open>newest\<close> is the order \<open>sort.Slice\<close> puts directories
  in, by modification time, the newest first.
\<close>

section \<open>Driving the checkout\<close>

record challenge =
  ch_root :: string
  ch_shim :: string
  ch_src :: string
  ch_pin :: string
  ch_image :: string
  ch_cflags :: string

definition challenge_env :: "challenge \<Rightarrow> string \<Rightarrow> string list" where
  "challenge_env c path =
     [''PATH='' @ ch_shim c @ '':'' @ path, ''DOCKER_USER_ARGS=-e LOCAL_USER=0:0'', ''DOCKER_IMAGE_NAME='' @ ch_image c] @
     (if ch_cflags c \<noteq> [] then
        [''DOCKER_EXTRA_ARGS=-e CP_HARNESS_EXTRA_CFLAGS='' @ ch_cflags c @ '' -e ASAN_OPTIONS=halt_on_error=0:detect_leaks=0'']
      else [])"

definition challenge_exec :: "'w os_ops \<Rightarrow> challenge \<Rightarrow> string \<Rightarrow> string list \<Rightarrow> 'w \<Rightarrow> (string \<times> string option) \<times> 'w" where
  "challenge_exec ops c path argv = os_exec ops (ch_root c) (challenge_env c path) argv"

definition challenge_src :: "challenge \<Rightarrow> string" where
  "challenge_src c = path_join [ch_root c, ch_src c]"

definition challenge_git :: "'w os_ops \<Rightarrow> challenge \<Rightarrow> string \<Rightarrow> string list \<Rightarrow> (string \<Rightarrow> string \<Rightarrow> string) \<Rightarrow> ('w, string, string) action" where
  "challenge_git ops c path args err =
     exec_ok ops (ch_root c) (challenge_env c path) ([''git'', ''-C'', challenge_src c] @ args) err"

definition challenge_reset :: "'w os_ops \<Rightarrow> challenge \<Rightarrow> string \<Rightarrow> ('w, string, unit) action" where
  "challenge_reset ops c path =
     act_bind (challenge_git ops c path [''reset'', ''--hard'', ch_pin c] (\<lambda>e b. ''git reset: '' @ e @ '': '' @ b)) (\<lambda>_.
     act_bind (challenge_git ops c path [''clean'', ''-fdx''] (\<lambda>e b. ''git clean: '' @ e @ '': '' @ b)) (\<lambda>_.
     act_bind (challenge_git ops c path [''status'', ''--porcelain''] (\<lambda>e b. ''git status: '' @ e @ '': '' @ b)) (\<lambda>b.
       if trim_space b \<noteq> [] then act_fail (''tree is still dirty after reset to '' @ ch_pin c @ '':'' @ [newline] @ b)
       else act_return ())))"

definition challenge_apply :: "'w os_ops \<Rightarrow> challenge \<Rightarrow> string \<Rightarrow> string \<Rightarrow> ('w, string, unit) action" where
  "challenge_apply ops c path patch =
     act_bind (os_abs ops patch) (\<lambda>p.
     act_bind (challenge_git ops c path [''apply'', ''--whitespace=nowarn'', p] (\<lambda>e b. e @ '': '' @ trim_space b)) (\<lambda>_.
       act_return ()))"

text \<open>What \<open>sort.Slice\<close> promises of the order it computes.\<close>

definition newest_first :: "((string \<times> int) list \<Rightarrow> (string \<times> int) list) \<Rightarrow> bool" where
  "newest_first newest = (\<forall>es. mset (newest es) = mset es \<and> sorted_wrt (\<lambda>a b. snd b \<le> snd a) (newest es))"

section \<open>Output directories\<close>

definition output_pattern :: "challenge \<Rightarrow> string \<Rightarrow> string" where
  "output_pattern c kind = path_join [ch_root c, ''out'', ''output'', ''*--'' @ kind]"

text \<open>The directories there are; a failing pattern gives none.\<close>

definition output_set :: "'w os_ops \<Rightarrow> challenge \<Rightarrow> string \<Rightarrow> ('w, string, string list) action" where
  "output_set ops c kind =
     act_try (os_glob ops (output_pattern c kind)) (\<lambda>r. act_return (case r of Inl e \<Rightarrow> [] | Inr ps \<Rightarrow> ps))"

text \<open>The paths not seen before, with their times; one that cannot be looked at is skipped.\<close>

fun new_outputs :: "'w os_ops \<Rightarrow> string list \<Rightarrow> string list \<Rightarrow> ('w, string, (string \<times> int) list) action" where
  "new_outputs ops before [] = act_return []"
| "new_outputs ops before (p # ps) =
     (if p \<in> set before then new_outputs ops before ps
      else act_try (os_mod_time ops p) (\<lambda>r.
        act_bind (new_outputs ops before ps) (\<lambda>es.
          act_return (case r of Inl e \<Rightarrow> es | Inr t \<Rightarrow> (p, t) # es))))"

definition no_new_output :: "challenge \<Rightarrow> string \<Rightarrow> string" where
  "no_new_output c kind = ''no new '' @ kind @ '' output directory under '' @ ch_root c @ ''/out/output''"

definition newest_output :: "((string \<times> int) list \<Rightarrow> (string \<times> int) list) \<Rightarrow> 'w os_ops \<Rightarrow> challenge \<Rightarrow> string \<Rightarrow> string list \<Rightarrow>
    ('w, string, string) action" where
  "newest_output newest ops c kind before =
     act_bind (act_wrap (\<lambda>e. no_new_output c kind @ '': '' @ e) (os_glob ops (output_pattern c kind))) (\<lambda>ps.
     act_bind (new_outputs ops before ps) (\<lambda>es.
       if es = [] then act_fail (no_new_output c kind) else act_return (fst (hd (newest es)))))"

section \<open>Building and running\<close>

definition challenge_build :: "(string \<Rightarrow> string) \<Rightarrow> ((string \<times> int) list \<Rightarrow> (string \<times> int) list) \<Rightarrow> 'w os_ops \<Rightarrow> challenge \<Rightarrow> string \<Rightarrow>
    ('w, string, unit) action" where
  "challenge_build quote newest ops c path =
     act_bind (output_set ops c ''build'') (\<lambda>before.
     act_bind (exec_ok ops (ch_root c) (challenge_env c path) [''./run.sh'', ''build''] (\<lambda>e b. e @ '': '' @ last_bytes b 400)) (\<lambda>_.
     act_bind (newest_output newest ops c ''build'' before) (\<lambda>dir.
     act_bind (act_wrap (\<lambda>e. ''no exitcode in '' @ dir @ '', so whether the build succeeded is unknown: '' @ e)
         (os_read_file ops (path_join [dir, ''exitcode'']))) (\<lambda>status.
       if trim_space status = ''0'' then act_return ()
       else act_try (os_read_file ops (path_join [dir, ''stderr.log''])) (\<lambda>r.
         act_fail (''the build failed with exit '' @ quote (trim_space status) @ '': '' @
           last_bytes (trim_space (case r of Inl e \<Rightarrow> [] | Inr b \<Rightarrow> b)) 400))))))"

definition default_signal :: string where "default_signal = ''stderr.log''"

definition signal_name :: "pov \<Rightarrow> string" where
  "signal_name v = (if pov_signal v = [] then default_signal else pov_signal v)"

text \<open>What a recorded output says of a run.\<close>

definition read_run :: "(string \<Rightarrow> string) \<Rightarrow> (string \<Rightarrow> string \<Rightarrow> bool) \<Rightarrow> pov \<Rightarrow> string \<Rightarrow> string \<Rightarrow> pov_run" where
  "read_run quote equal_fold v dir s =
     (let ran = contains_sub s ''Running: ''; fired = contains_sub s (pov_expected v);
          site = (if fired then match_site equal_fold (parse_declared_site (pov_crash_location v)) s else [])
      in \<lparr>harness_ran = ran, sanitizer_fired = fired, run_site = site,
          run_evidence = [''run_pov output: '' @ base_name dir,
            ''harness reached execution: '' @ bool_text ran @ '' (libfuzzer '' @ [CHR 0x27] @ ''Running:'' @ [CHR 0x27] @ '' line)'',
            quote (pov_expected v) @ '' present in '' @ signal_name v @ '': '' @ bool_text fired] @
            (if fired then [''crash site versus the declared one: '' @ site] else [])\<rparr>)"

definition challenge_run_pov :: "(string \<Rightarrow> string) \<Rightarrow> (string \<Rightarrow> string \<Rightarrow> bool) \<Rightarrow> ((string \<times> int) list \<Rightarrow> (string \<times> int) list) \<Rightarrow>
    'w os_ops \<Rightarrow> challenge \<Rightarrow> string \<Rightarrow> string \<Rightarrow> string \<Rightarrow> pov \<Rightarrow> ('w, string, pov_run) action" where
  "challenge_run_pov quote equal_fold newest ops c path blob harness v =
     act_bind (os_abs ops blob) (\<lambda>b.
     act_bind (output_set ops c ''run_pov'') (\<lambda>before. \<lambda>w.
       case challenge_exec ops c path [''./run.sh'', ''run_pov'', b, harness] w of
         ((out, run_err), w1) \<Rightarrow>
           act_bind (act_wrap (\<lambda>e. case run_err of None \<Rightarrow> e | Some x \<Rightarrow> e @ '': run.sh: '' @ x @ '': '' @ last_bytes out 400)
               (newest_output newest ops c ''run_pov'' before)) (\<lambda>dir.
           act_bind (act_wrap (\<lambda>e. ''no '' @ signal_name v @ '' in '' @ dir @ '': '' @ e)
               (os_read_file ops (path_join [dir, signal_name v]))) (\<lambda>s.
             act_return (read_run quote equal_fold v dir s))) w1))"

definition challenge_target :: "(string \<Rightarrow> string) \<Rightarrow> (string \<Rightarrow> string \<Rightarrow> bool) \<Rightarrow> ((string \<times> int) list \<Rightarrow> (string \<times> int) list) \<Rightarrow>
    'w os_ops \<Rightarrow> challenge \<Rightarrow> string \<Rightarrow> 'w target" where
  "challenge_target quote equal_fold newest ops c path =
     \<lparr>tg_reset = challenge_reset ops c path, tg_apply = challenge_apply ops c path,
      tg_build = challenge_build quote newest ops c path,
      tg_run_pov = challenge_run_pov quote equal_fold newest ops c path\<rparr>"

section \<open>What a target promises to the stages\<close>

text \<open>
  The contract behind the interface \<open>Target\<close>: what may be concluded from a reset, a patch,
  a build and a run that came back without an error, each between the world it started in
  and the world it left.
\<close>

locale pov_target =
  fixes tg :: "'w target"
    and fresh :: "'w \<Rightarrow> 'w \<Rightarrow> bool"
    and patched :: "string \<Rightarrow> 'w \<Rightarrow> 'w \<Rightarrow> bool"
    and built :: "'w \<Rightarrow> 'w \<Rightarrow> bool"
    and watched :: "string \<Rightarrow> string \<Rightarrow> pov \<Rightarrow> pov_run \<Rightarrow> 'w \<Rightarrow> 'w \<Rightarrow> bool"
  assumes reset_fresh: "tg_reset tg w = (Inr (), w') \<Longrightarrow> fresh w w'"
    and apply_patched: "tg_apply tg patch w = (Inr (), w') \<Longrightarrow> patched patch w w'"
    and build_built: "tg_build tg w = (Inr (), w') \<Longrightarrow> built w w'"
    and run_watched: "tg_run_pov tg blob h v w = (Inr r, w') \<Longrightarrow> watched blob h v r w w'"
begin

text \<open>A pass of M1 over such a target.\<close>

lemma m1_pass:
  assumes "revert_run tg blob patch inp w = (Inr r, w')" "sr_outcome r = outcome_passed"
  shows "\<exists>w1 w2 w3 w4 w5 before after.
    fresh w w1 \<and> built w1 w2 \<and> watched blob (case_harness (gi_case inp)) (case_pov (gi_case inp)) before w2 w3 \<and>
    harness_ran before \<and> sanitizer_fired before \<and> run_site before \<noteq> site_differ \<and>
    patched patch w3 w4 \<and> built w4 w5 \<and>
    watched blob (case_harness (gi_case inp)) (case_pov (gi_case inp)) after w5 w' \<and>
    harness_ran after \<and> \<not> sanitizer_fired after"
proof -
  obtain before after where t: "revert_trace tg blob patch inp w before (Inr ()) after w'"
      and o: "harness_ran before" "sanitizer_fired before" "run_site before \<noteq> site_differ" "harness_ran after" "\<not> sanitizer_fired after"
    using revert_credit [OF assms] by blast
  then obtain w1 w2 w3 w4 w5 where "tg_reset tg w = (Inr (), w1)" "tg_build tg w1 = (Inr (), w2)"
      "tg_run_pov tg blob (case_harness (gi_case inp)) (case_pov (gi_case inp)) w2 = (Inr before, w3)"
      "tg_apply tg patch w3 = (Inr (), w4)" "tg_build tg w4 = (Inr (), w5)"
      "tg_run_pov tg blob (case_harness (gi_case inp)) (case_pov (gi_case inp)) w5 = (Inr after, w')"
    by (auto simp: revert_trace_def Let_def)
  from apply_patched [OF this(4)] reset_fresh [OF this(1)] build_built [OF this(2)] run_watched [OF this(3)]
    build_built [OF this(5)] run_watched [OF this(6)] o
  show ?thesis by blast
qed

end

section \<open>What the driver promises\<close>

text \<open>A \<open>git\<close> command over the sources ended without an error.\<close>

definition git_ran :: "'w os_ops \<Rightarrow> challenge \<Rightarrow> string \<Rightarrow> string list \<Rightarrow> 'w \<Rightarrow> string \<Rightarrow> 'w \<Rightarrow> bool" where
  "git_ran ops c path args w out w' \<longleftrightarrow>
     challenge_exec ops c path ([''git'', ''-C'', challenge_src c] @ args) w = ((out, None), w')"

text \<open>
  The sources were put back: reset to the pinned commit, then cleaned of everything
  untracked, and then \<open>git status\<close> reported nothing, one command right after the other.
\<close>

definition checkout_reset :: "'w os_ops \<Rightarrow> challenge \<Rightarrow> string \<Rightarrow> 'w \<Rightarrow> 'w \<Rightarrow> bool" where
  "checkout_reset ops c path w w' =
     (\<exists>out1 u1 out2 u2 dirty. git_ran ops c path [''reset'', ''--hard'', ch_pin c] w out1 u1 \<and>
        git_ran ops c path [''clean'', ''-fdx''] u1 out2 u2 \<and>
        git_ran ops c path [''status'', ''--porcelain''] u2 dirty w' \<and> trim_space dirty = [])"

definition checkout_patched :: "'w os_ops \<Rightarrow> challenge \<Rightarrow> string \<Rightarrow> string \<Rightarrow> 'w \<Rightarrow> 'w \<Rightarrow> bool" where
  "checkout_patched ops c path patch w w' =
     (\<exists>p w0 out. os_abs ops patch w = (Inr p, w0) \<and> git_ran ops c path [''apply'', ''--whitespace=nowarn'', p] w0 out w')"

text \<open>A command was run and a file read from a directory of outputs that was not there before it.\<close>

definition recorded_output :: "((string \<times> int) list \<Rightarrow> (string \<times> int) list) \<Rightarrow> 'w os_ops \<Rightarrow> challenge \<Rightarrow> string \<Rightarrow> string \<Rightarrow>
    string list \<Rightarrow> string \<Rightarrow> 'w \<Rightarrow> string \<Rightarrow> string \<Rightarrow> 'w \<Rightarrow> bool" where
  "recorded_output newest ops c path kind argv file w dir text w' =
     (\<exists>before w1 out err w2 ps w3 es w4.
        output_set ops c kind w = (Inr before, w1) \<and> challenge_exec ops c path argv w1 = ((out, err), w2) \<and>
        os_glob ops (output_pattern c kind) w2 = (Inr ps, w3) \<and> new_outputs ops before ps w3 = (Inr es, w4) \<and>
        es \<noteq> [] \<and> dir = fst (hd (newest es)) \<and> os_read_file ops (path_join [dir, file]) w4 = (Inr text, w') \<and>
        (newest_first newest \<longrightarrow> dir \<in> set ps \<and> dir \<notin> set before \<and> (\<forall>e\<in>set es. snd e \<le> snd (hd (newest es)))))"

definition challenge_built :: "((string \<times> int) list \<Rightarrow> (string \<times> int) list) \<Rightarrow> 'w os_ops \<Rightarrow> challenge \<Rightarrow> string \<Rightarrow> 'w \<Rightarrow> 'w \<Rightarrow> bool" where
  "challenge_built newest ops c path w w' =
     (\<exists>dir status. recorded_output newest ops c path ''build'' [''./run.sh'', ''build''] ''exitcode'' w dir status w' \<and>
        trim_space status = ''0'')"

definition challenge_report :: "((string \<times> int) list \<Rightarrow> (string \<times> int) list) \<Rightarrow> 'w os_ops \<Rightarrow> challenge \<Rightarrow> string \<Rightarrow>
    string \<Rightarrow> string \<Rightarrow> pov \<Rightarrow> 'w \<Rightarrow> string \<Rightarrow> string \<Rightarrow> 'w \<Rightarrow> bool" where
  "challenge_report newest ops c path blob harness v w dir s w' =
     (\<exists>b w0. os_abs ops blob w = (Inr b, w0) \<and>
        recorded_output newest ops c path ''run_pov'' [''./run.sh'', ''run_pov'', b, harness] (signal_name v) w0 dir s w')"

lemma new_outputs_new: "new_outputs ops before ps w = (Inr es, w') \<Longrightarrow> fst ` set es \<subseteq> set ps - set before"
proof (induction ps arbitrary: w es)
  case (Cons p ps)
  show ?case
  proof (cases "p \<in> set before")
    case False
    obtain r w1 where m: "os_mod_time ops p w = (r, w1)" by (cases "os_mod_time ops p w")
    obtain es' where es': "new_outputs ops before ps w1 = (Inr es', w')" "es = (case r of Inl e \<Rightarrow> es' | Inr t \<Rightarrow> (p, t) # es')"
      using Cons.prems False m by (auto simp: result_simps act_try_def)
    from Cons.IH [OF es'(1)] es'(2) False show ?thesis by (cases r) auto
  qed (use Cons in auto)
qed (simp add: result_simps)

lemma newest_head:
  assumes "newest_first newest" "es \<noteq> []"
  shows "hd (newest es) \<in> set es" "\<forall>e\<in>set es. snd e \<le> snd (hd (newest es))"
proof -
  have m: "mset (newest es) = mset es" and o: "sorted_wrt (\<lambda>a b. snd b \<le> snd a) (newest es)"
    using assms(1) by (simp_all add: newest_first_def)
  then have s: "set (newest es) = set es" by (metis set_mset_mset)
  then obtain e rest where n: "newest es = e # rest" using assms(2) by (cases "newest es") auto
  show "hd (newest es) \<in> set es" using s n by auto
  show "\<forall>e\<in>set es. snd e \<le> snd (hd (newest es))" unfolding s [symmetric] using o n by simp
qed

lemma newest_output_recorded:
  assumes "output_set ops c kind w = (Inr before, w1)" "challenge_exec ops c path argv w1 = ((out, err), w2)"
    and "newest_output newest ops c kind before w2 = (Inr dir, w4)" "os_read_file ops (path_join [dir, file]) w4 = (Inr text, w')"
  shows "recorded_output newest ops c path kind argv file w dir text w'"
proof -
  obtain ps w3 es where e: "os_glob ops (output_pattern c kind) w2 = (Inr ps, w3)" "new_outputs ops before ps w3 = (Inr es, w4)"
      "es \<noteq> []" "dir = fst (hd (newest es))"
    using assms(3) by (auto simp: newest_output_def result_simps split: if_splits)
  have "dir \<in> set ps \<and> dir \<notin> set before \<and> (\<forall>e\<in>set es. snd e \<le> snd (hd (newest es)))" if "newest_first newest"
    using newest_head [OF that e(3)] new_outputs_new [OF e(2)] e(4) by auto
  with assms(1,2,4) e show ?thesis unfolding recorded_output_def by blast
qed

lemma challenge_git_ran [result_simps]:
  "challenge_git ops c path args err w = (Inr out, w') \<longleftrightarrow> git_ran ops c path args w out w'"
  by (simp add: challenge_git_def git_ran_def challenge_exec_def exec_ok_Inr)

lemma challenge_reset_fresh:
  assumes "challenge_reset ops c path w = (Inr (), w')"
  shows "checkout_reset ops c path w w'"
  using assms unfolding challenge_reset_def checkout_reset_def act_bind_Inr challenge_git_ran
  by (fastforce simp: result_simps split: if_splits)

lemma challenge_apply_patched:
  assumes "challenge_apply ops c path patch w = (Inr (), w')"
  shows "checkout_patched ops c path patch w w'"
  using assms unfolding challenge_apply_def checkout_patched_def act_bind_Inr challenge_git_ran
  by (auto simp: result_simps)

lemma challenge_build_built:
  assumes "challenge_build quote newest ops c path w = (Inr (), w')"
  shows "challenge_built newest ops c path w w'"
proof -
  obtain before w1 out w2 dir w3 status where b: "output_set ops c ''build'' w = (Inr before, w1)"
      "challenge_exec ops c path [''./run.sh'', ''build''] w1 = ((out, None), w2)"
      "newest_output newest ops c ''build'' before w2 = (Inr dir, w3)"
      "os_read_file ops (path_join [dir, ''exitcode'']) w3 = (Inr status, w')" "trim_space status = ''0''"
    using assms by (auto simp: challenge_build_def challenge_exec_def result_simps split: if_splits)
  from newest_output_recorded [OF b(1-4)] b(5) show ?thesis unfolding challenge_built_def by blast
qed

lemma challenge_run_report:
  assumes "challenge_run_pov quote equal_fold newest ops c path blob harness v w = (Inr r, w')"
  shows "\<exists>dir s. challenge_report newest ops c path blob harness v w dir s w' \<and> r = read_run quote equal_fold v dir s"
proof -
  obtain b w0 before w1 where b: "os_abs ops blob w = (Inr b, w0)" "output_set ops c ''run_pov'' w0 = (Inr before, w1)"
      and r: "(case challenge_exec ops c path [''./run.sh'', ''run_pov'', b, harness] w1 of
         ((out, run_err), w1) \<Rightarrow>
           act_bind (act_wrap (\<lambda>e. case run_err of None \<Rightarrow> e | Some x \<Rightarrow> e @ '': run.sh: '' @ x @ '': '' @ last_bytes out 400)
               (newest_output newest ops c ''run_pov'' before)) (\<lambda>dir.
           act_bind (act_wrap (\<lambda>e. ''no '' @ signal_name v @ '' in '' @ dir @ '': '' @ e)
               (os_read_file ops (path_join [dir, signal_name v]))) (\<lambda>s.
             act_return (read_run quote equal_fold v dir s))) w1) = (Inr r, w')"
    using assms unfolding challenge_run_pov_def act_bind_Inr by blast
  obtain out err w2 where x: "challenge_exec ops c path [''./run.sh'', ''run_pov'', b, harness] w1 = ((out, err), w2)"
    by (metis prod.collapse)
  then obtain dir w3 s where "newest_output newest ops c ''run_pov'' before w2 = (Inr dir, w3)"
      "os_read_file ops (path_join [dir, signal_name v]) w3 = (Inr s, w')" "r = read_run quote equal_fold v dir s"
    using r by (auto simp: result_simps)
  with newest_output_recorded [OF b(2) x this(1,2)] b(1) show ?thesis unfolding challenge_report_def by blast
qed

interpretation challenge: pov_target "challenge_target quote equal_fold newest ops c path" "checkout_reset ops c path"
    "checkout_patched ops c path" "challenge_built newest ops c path"
    "\<lambda>blob h v r w w'. \<exists>dir s. challenge_report newest ops c path blob h v w dir s w' \<and> r = read_run quote equal_fold v dir s"
  for quote equal_fold newest ops c path
  by unfold_locales
    (simp_all add: challenge_target_def challenge_reset_fresh challenge_apply_patched challenge_build_built challenge_run_report)

lemma read_run_simps [simp]:
  "harness_ran (read_run q ef v dir s) = contains_sub s ''Running: ''"
  "sanitizer_fired (read_run q ef v dir s) = contains_sub s (pov_expected v)"
  by (simp_all add: read_run_def Let_def)

text \<open>
  M1 on a real checkout: a pass means that the sources were reset to the pinned commit and
  cleaned, and \<open>git status\<close> reported a clean tree; that both builds wrote exit code 0 into an output directory that was not there
  before; that the unpatched run wrote a report, into a new directory, in which the harness
  started and the expected sanitizer text stands; that the patch applied in between; and that
  the report of the patched run, again a new one, shows the harness started and does not
  have the text.
\<close>

theorem challenge_pass_is_observed:
  assumes "revert_run (challenge_target quote equal_fold newest ops c path) blob patch inp w = (Inr r, w')"
    and "sr_outcome r = outcome_passed"
  shows "\<exists>w1 w2 w3 w4 w5 dir s dir' s'. let v = case_pov (gi_case inp); h = case_harness (gi_case inp) in
    checkout_reset ops c path w w1 \<and> challenge_built newest ops c path w1 w2 \<and>
    challenge_report newest ops c path blob h v w2 dir s w3 \<and>
    contains_sub s ''Running: '' \<and> contains_sub s (pov_expected v) \<and>
    checkout_patched ops c path patch w3 w4 \<and> challenge_built newest ops c path w4 w5 \<and>
    challenge_report newest ops c path blob h v w5 dir' s' w' \<and>
    contains_sub s' ''Running: '' \<and> \<not> contains_sub s' (pov_expected v)"
proof -
  from challenge.m1_pass [OF assms] obtain w1 w2 w3 w4 w5 dir s dir' s' where
    "checkout_reset ops c path w w1" "challenge_built newest ops c path w1 w2"
    "challenge_report newest ops c path blob (case_harness (gi_case inp)) (case_pov (gi_case inp)) w2 dir s w3"
    "contains_sub s ''Running: ''" "contains_sub s (pov_expected (case_pov (gi_case inp)))"
    "checkout_patched ops c path patch w3 w4" "challenge_built newest ops c path w4 w5"
    "challenge_report newest ops c path blob (case_harness (gi_case inp)) (case_pov (gi_case inp)) w5 dir' s' w'"
    "contains_sub s' ''Running: ''" "\<not> contains_sub s' (pov_expected (case_pov (gi_case inp)))"
    by auto
  then show ?thesis unfolding Let_def by blast
qed

section \<open>An example\<close>

text \<open>
  A checkout whose world counts the commands and knows whether the patch is applied: each
  command leaves a directory named by its number.
\<close>

definition toy_report :: "bool \<Rightarrow> string" where
  "toy_report patched = ''Running: pov'' @ [newline] @ (if patched then ''done'' else ''AddressSanitizer'') @ [newline]"

definition toy_ops :: "(nat \<times> bool) os_ops" where
  "toy_ops = \<lparr>os_stat_size = (\<lambda>p w. (Inr 0, w)), os_mkdir_all = (\<lambda>p w. (Inr (), w)),
     os_read_file = (\<lambda>p w. (Inr (if has_suffix p ''exitcode'' then ''0'' else toy_report (snd w)), w)),
     os_glob = (\<lambda>p w. (Inr (map nat_dec [0..<fst w]), w)), os_mod_time = (\<lambda>p w. (Inr (int (dec_val p)), w)),
     os_abs = (\<lambda>p w. (Inr p, w)),
     os_exec = (\<lambda>dir env argv w. (([], None), (Suc (fst w), snd w \<or> ''apply'' \<in> set argv)))\<rparr>"

definition toy_challenge :: challenge where
  "toy_challenge = \<lparr>ch_root = ''/cp'', ch_shim = ''/shim'', ch_src = ''src'', ch_pin = ''c1'', ch_image = ''img'', ch_cflags = []\<rparr>"

definition by_time :: "(string \<times> int) list \<Rightarrow> (string \<times> int) list" where
  "by_time es = rev (sort_key snd es)"

definition toy_target :: "challenge \<Rightarrow> string \<Rightarrow> (nat \<times> bool) target" where
  "toy_target c path = challenge_target (\<lambda>s. s) (=) by_time toy_ops c path"

text \<open>A challenge whose commands other than \<open>git apply\<close> do not have the word in them.\<close>

definition plain_challenge :: "challenge \<Rightarrow> bool" where
  "plain_challenge c = (challenge_src c \<noteq> ''apply'' \<and> ch_pin c \<noteq> ''apply'')"

lemma new_outputs_old: "set ps \<subseteq> set before \<Longrightarrow> new_outputs ops before ps w = (Inr [], w)"
  by (induction ps) (auto simp: act_return_def)

lemma new_outputs_snoc:
  assumes "set ps \<subseteq> set before" "p \<notin> set before"
  shows "new_outputs toy_ops before (ps @ [p]) w = (Inr [(p, int (dec_val p))], w)"
  using assms by (induction ps) (auto simp: act_return_def act_try_def act_bind_def toy_ops_def)

lemma toy_newest:
  "newest_output by_time toy_ops c kind (map nat_dec [0..<n]) (Suc n, b) = (Inr (nat_dec n), (Suc n, b))"
proof -
  have "os_glob toy_ops (output_pattern c kind) (Suc n, b) = (Inr (map nat_dec [0..<n] @ [nat_dec n]), (Suc n, b))"
    by (simp add: toy_ops_def)
  moreover have "nat_dec n \<notin> set (map nat_dec [0..<n])" by (auto simp: nat_dec_inj)
  then have "new_outputs toy_ops (map nat_dec [0..<n]) (map nat_dec [0..<n] @ [nat_dec n]) (Suc n, b) =
      (Inr [(nat_dec n, int (dec_val (nat_dec n)))], (Suc n, b))"
    by (intro new_outputs_snoc) simp_all
  ultimately show ?thesis by (simp add: newest_output_def act_bind_def act_wrap_def act_return_def by_time_def)
qed

lemma toy_join:
  assumes "plain_elem f"
  shows "path_join [nat_dec n, f] = nat_dec n @ CHR ''/'' # f"
proof -
  have d: "c \<in> set (nat_dec n) \<Longrightarrow> is_digit c" for c using nat_dec_digits [of n] by (simp add: list_all_iff)
  have "CHR ''/'' \<notin> set (nat_dec n)" "CHR ''.'' \<notin> set (nat_dec n)"
    using d [of "CHR ''/''"] d [of "CHR ''.''"] by (auto simp: is_digit_nat)
  then have pl: "list_all plain_elem [nat_dec n, f]" using assms by (auto simp: plain_elem_def)
  have s: "split_char slash (join_with ''/'' [nat_dec n, f]) = [nat_dec n, f]"
    by (rule split_join_elems [OF _ plain_no_slash [OF pl]]) simp
  have a: "\<not> is_abs (join_with ''/'' [nat_dec n, f])"
    using \<open>CHR ''/'' \<notin> set (nat_dec n)\<close> by (cases "nat_dec n") (auto simp: is_abs_def)
  have "clean (join_with ''/'' [nat_dec n, f]) = join_with ''/'' [nat_dec n, f]"
    by (rule clean_plain [OF _ a]) (simp only: plain_path_def s pl)
  then show ?thesis by simp
qed

lemma toy_reads:
  "os_read_file toy_ops (path_join [nat_dec n, ''exitcode'']) w = (Inr ''0'', w)"
  "os_read_file toy_ops (path_join [nat_dec n, default_signal]) w = (Inr (toy_report (snd w)), w)"
proof -
  have p: "plain_elem ''exitcode''" "plain_elem default_signal" by (simp_all add: plain_elem_def default_signal_def)
  have "has_suffix (nat_dec n @ CHR ''/'' # ''exitcode'') ''exitcode''" by (simp add: has_suffix_iff)
  then show "os_read_file toy_ops (path_join [nat_dec n, ''exitcode'']) w = (Inr ''0'', w)"
    unfolding toy_join [OF p(1)] by (simp add: toy_ops_def)
  have g: "last (nat_dec n @ CHR ''/'' # default_signal) = CHR ''g''" by (simp add: default_signal_def)
  have e: "last (t @ ''exitcode'') = CHR ''e''" for t by simp
  have "nat_dec n @ CHR ''/'' # default_signal \<noteq> t @ ''exitcode''" for t
  proof
    assume "nat_dec n @ CHR ''/'' # default_signal = t @ ''exitcode''"
    from arg_cong [where f = last, OF this] show False unfolding g e by simp
  qed
  then have "\<not> has_suffix (nat_dec n @ CHR ''/'' # default_signal) ''exitcode''"
    by (simp add: has_suffix_iff)
  then show "os_read_file toy_ops (path_join [nat_dec n, default_signal]) w = (Inr (toy_report (snd w)), w)"
    unfolding toy_join [OF p(2)] by (simp add: toy_ops_def)
qed

lemma toy_outputs: "output_set toy_ops c kind (n, b) = (Inr (map nat_dec [0..<n]), (n, b))"
  by (simp add: output_set_def act_try_def act_return_def toy_ops_def)

lemma toy_builds: "challenge_build (\<lambda>s. s) by_time toy_ops c path (n, b) = (Inr (), (Suc n, b))"
  unfolding challenge_build_def act_bind_Inr act_wrap_Inr
proof (intro exI conjI)
  show "output_set toy_ops c ''build'' (n, b) = (Inr (map nat_dec [0..<n]), (n, b))" by (rule toy_outputs)
  show "exec_ok toy_ops (ch_root c) (challenge_env c path) [''./run.sh'', ''build'']
      (\<lambda>e b. e @ '': '' @ last_bytes b 400) (n, b) = (Inr [], (Suc n, b))"
    by (simp add: exec_ok_def toy_ops_def)
  show "newest_output by_time toy_ops c ''build'' (map nat_dec [0..<n]) (Suc n, b) = (Inr (nat_dec n), (Suc n, b))"
    by (rule toy_newest)
  show "os_read_file toy_ops (path_join [nat_dec n, ''exitcode'']) (Suc n, b) = (Inr ''0'', (Suc n, b))"
    by (rule toy_reads)
  have "trim_space ''0'' = ''0''" by (intro trim_space_solid) (simp_all add: solid_byte_nat)
  then show "(if trim_space ''0'' = ''0'' then act_return ()
       else act_try (os_read_file toy_ops (path_join [nat_dec n, ''stderr.log''])) (\<lambda>r.
         act_fail (''the build failed with exit '' @ trim_space ''0'' @ '': '' @
           last_bytes (trim_space (case r of Inl e \<Rightarrow> [] | Inr b \<Rightarrow> b)) 400))) (Suc n, b) = (Inr (), (Suc n, b))"
    by (simp only: if_True simp_thms act_return_Inr)
qed

lemma toy_runs:
  assumes "blob \<noteq> ''apply''" "h \<noteq> ''apply''"
  shows "challenge_run_pov (\<lambda>s. s) (=) by_time toy_ops c path blob h sample_pov (n, b) =
     (Inr (read_run (\<lambda>s. s) (=) sample_pov (nat_dec n) (toy_report b)), (Suc n, b))"
proof -
  have x: "challenge_exec toy_ops c path [''./run.sh'', ''run_pov'', blob, h] (n, b) =
      (([], None), (Suc n, b))"
    using assms by (auto simp: challenge_exec_def toy_ops_def)
  have a: "os_abs toy_ops blob (n, b) = (Inr blob, (n, b))" by (simp add: toy_ops_def)
  have s: "signal_name sample_pov = default_signal" by (simp add: signal_name_def sample_pov_def)
  have r: "os_read_file toy_ops (path_join [nat_dec n, default_signal]) (Suc n, b) = (Inr (toy_report b), (Suc n, b))"
    by (simp only: toy_reads snd_conv)
  show ?thesis
    unfolding challenge_run_pov_def act_bind_Inr s
    by (intro exI conjI, rule a, rule toy_outputs)
      (simp only: x prod.case act_bind_Inr act_wrap_Inr toy_newest r act_return_Inr, blast intro: toy_newest r)
qed

lemma toy_git:
  assumes "plain_challenge c" "''apply'' \<notin> set args"
  shows "challenge_git toy_ops c path args err (n, b) = (Inr [], (Suc n, b))"
  using assms by (auto simp: plain_challenge_def challenge_git_def exec_ok_def toy_ops_def)

lemma toy_resets: "plain_challenge c \<Longrightarrow> challenge_reset toy_ops c path (n, b) = (Inr (), (n + 3, b))"
proof -
  assume c: "plain_challenge c"
  then have "ch_pin c \<noteq> ''apply''" by (simp add: plain_challenge_def)
  then show ?thesis by (simp add: challenge_reset_def act_bind_def act_return_def toy_git [OF c])
qed

lemma toy_applies: "challenge_apply toy_ops c path patch (n, b) = (Inr (), (Suc n, True))"
  by (simp add: challenge_apply_def challenge_git_def exec_ok_def toy_ops_def act_bind_def act_return_def)

lemma toy_texts:
  "contains_sub (toy_report False) ''Running: ''" "contains_sub (toy_report True) ''Running: ''"
  "contains_sub (toy_report False) (pov_expected sample_pov)" "\<not> contains_sub (toy_report True) (pov_expected sample_pov)"
  "match_site (=) (parse_declared_site (pov_crash_location sample_pov)) (toy_report False) = ''undetermined''"
  by code_simp+

definition toy_run :: "string \<Rightarrow> bool \<Rightarrow> pov_run" where
  "toy_run d b = read_run (\<lambda>s. s) (=) sample_pov d (toy_report b)"

lemma toy_sites:
  "harness_ran (toy_run d b)" "sanitizer_fired (toy_run d b) \<longleftrightarrow> \<not> b"
  "run_site (toy_run d False) = ''undetermined''"
proof -
  show "harness_ran (toy_run d b)" "sanitizer_fired (toy_run d b) \<longleftrightarrow> \<not> b"
    by (cases b; simp only: toy_run_def read_run_simps toy_texts simp_thms)+
  show "run_site (toy_run d False) = ''undetermined''"
    by (simp only: toy_run_def read_run_def Let_def pov_run.simps toy_texts if_True)
qed

lemma toy_steps:
  "plain_challenge c \<Longrightarrow> tg_reset (toy_target c path) (n, b) = (Inr (), (n + 3, b))"
  "tg_build (toy_target c path) (n, b) = (Inr (), (Suc n, b))"
  "tg_apply (toy_target c path) patch (n, b) = (Inr (), (Suc n, True))"
  "tg_run_pov (toy_target c path) ''pov.png'' (case_harness sample_case) sample_pov (n, b) =
     (Inr (toy_run (nat_dec n) b), (Suc n, b))"
proof -
  have "case_harness sample_case \<noteq> ''apply''" by (simp add: sample_case_def)
  then show "tg_run_pov (toy_target c path) ''pov.png'' (case_harness sample_case) sample_pov (n, b) =
     (Inr (toy_run (nat_dec n) b), (Suc n, b))"
    by (simp add: toy_target_def challenge_target_def toy_runs toy_run_def)
qed (simp_all add: toy_target_def challenge_target_def toy_resets toy_builds toy_applies)

definition toy_outcome :: stage_result where
  "toy_outcome = \<lparr>sr_stage = revert_name, sr_outcome = outcome_passed, sr_reason = [],
     sr_evidence = unpatched_note (toy_run (nat_dec 4) False) # run_evidence (toy_run (nat_dec 4) False) @
       [''patched tree: '' @ verdict_of (toy_run (nat_dec 7) True)] @ run_evidence (toy_run (nat_dec 7) True) @
       [''the pov fires without the patch and stops with it, so the patch is what stopped it'']\<rparr>"

lemma plain_challenge_passes:
  assumes "plain_challenge c" "case_pov (gi_case inp) = sample_pov" "case_harness (gi_case inp) = case_harness sample_case"
  shows "revert_run (toy_target c path) ''pov.png'' ''fix.diff'' inp (0, False) = (Inr toy_outcome, (8, True))"
  by (simp add: revert_run_def revert_judge_def revert_patched_def revert_after_def Let_def act_bind_def act_wrap_def act_try_def
      stage_out_def act_return_def toy_steps assms toy_sites numeral_eq_Suc toy_outcome_def)

lemma toy_input: "case_pov (gi_case sample_input) = sample_pov" "case_harness (gi_case sample_input) = case_harness sample_case"
  by (simp_all add: sample_input_def sample_case_def)

lemma toy_plain: "plain_challenge toy_challenge"
proof -
  have "challenge_src toy_challenge \<noteq> ''apply''" by code_simp
  then show ?thesis by (simp add: plain_challenge_def toy_challenge_def)
qed

theorem challenge_pass_is_observed_witness:
  "\<exists>w1 w2 w3 w4 w5 dir s dir' s'.
    checkout_reset toy_ops toy_challenge ''/bin'' (0, False) w1 \<and> challenge_built by_time toy_ops toy_challenge ''/bin'' w1 w2 \<and>
    challenge_report by_time toy_ops toy_challenge ''/bin'' ''pov.png'' (case_harness sample_case) sample_pov w2 dir s w3 \<and>
    contains_sub s ''Running: '' \<and> contains_sub s (pov_expected sample_pov) \<and>
    checkout_patched toy_ops toy_challenge ''/bin'' ''fix.diff'' w3 w4 \<and>
    challenge_built by_time toy_ops toy_challenge ''/bin'' w4 w5 \<and>
    challenge_report by_time toy_ops toy_challenge ''/bin'' ''pov.png'' (case_harness sample_case) sample_pov w5 dir' s' (8, True) \<and>
    contains_sub s' ''Running: '' \<and> \<not> contains_sub s' (pov_expected sample_pov)"
proof -
  have "sr_outcome toy_outcome = outcome_passed" by (simp add: toy_outcome_def)
  from challenge_pass_is_observed [OF plain_challenge_passes [OF toy_plain toy_input, unfolded toy_target_def] this] show ?thesis
    unfolding Let_def toy_input .
qed

end
