(* ===== verification/Egress_Hooks.thy ===== *)
theory Egress_Hooks
  imports Arazu_Base "HOL-Library.Word"
begin

text \<open>
  The kernel half of the containment (\<open>bpf/egress_deny.bpf.c\<close>): two LSM hooks that refuse
  connects and sends of the sockets of one network namespace, save those to 127.0.0.0/8, and
  count what they did in an array of 64-bit counters.  Numbers keep the widths of the
  program; a fault of \<open>bpf_probe_read_kernel\<close> is \<open>None\<close>.
\<close>

unbundle bit_operations_syntax

section \<open>What the hooks read of the kernel\<close>

definition af_inet :: "16 word" where "af_inet = 2"
definition af_inet6 :: "16 word" where "af_inet6 = 10"
definition af_packet :: "16 word" where "af_packet = 17"
definition eperm :: int where "eperm = 1"

text \<open>A socket, with the number of its namespace when it has one, and the address of its peer.\<close>

record ksock =
  sk_family :: "16 word"
  sk_net :: "32 word option"
  sk_daddr :: "32 word"

record sock_addr =
  sa_family :: "16 word option"
  sin_addr :: "32 word option"

text \<open>The call a hook is asked about, with what the LSM before it decided.\<close>

datatype hook_call =
    Connect "ksock option" "sock_addr option" int
  | Sendmsg "ksock option" "sock_addr option" int

section \<open>The counters\<close>

definition ctr_connect_denied :: nat where "ctr_connect_denied = 0"
definition ctr_sendmsg_denied :: nat where "ctr_sendmsg_denied = 1"
definition ctr_connect_seen :: nat where "ctr_connect_seen = 2"
definition ctr_sendmsg_seen :: nat where "ctr_sendmsg_seen = 3"
definition ctr_loopback_allowed :: nat where "ctr_loopback_allowed = 4"

lemmas ctr_defs = ctr_connect_denied_def ctr_sendmsg_denied_def ctr_connect_seen_def ctr_sendmsg_seen_def
  ctr_loopback_allowed_def

type_synonym egress_map = "64 word list"

definition egress_counters :: egress_map where
  "egress_counters = replicate 5 0"

definition bump :: "nat \<Rightarrow> egress_map \<Rightarrow> egress_map" where
  "bump i cs = (if i < length cs then cs[i := cs ! i + 1] else cs)"

section \<open>The hooks\<close>

definition in_contained_netns :: "32 word \<Rightarrow> ksock option \<Rightarrow> bool" where
  "in_contained_netns netns sock =
     (if netns = 0 then False
      else
        (case sock of
           None \<Rightarrow> False
         | Some sk \<Rightarrow>
             if sk_family sk \<noteq> af_inet \<and> sk_family sk \<noteq> af_inet6 \<and> sk_family sk \<noteq> af_packet then False
             else (case sk_net sk of None \<Rightarrow> False | Some ino \<Rightarrow> ino = netns)))"

definition dst_is_loopback_v4 :: "sock_addr option \<Rightarrow> bool" where
  "dst_is_loopback_v4 address =
     (case address of
        None \<Rightarrow> False
      | Some a \<Rightarrow>
          (case sa_family a of
             None \<Rightarrow> False
           | Some fam \<Rightarrow>
               if fam \<noteq> af_inet then False
               else (case sin_addr a of None \<Rightarrow> False | Some daddr \<Rightarrow> daddr AND 0xff = 127)))"

definition peer_is_loopback_v4 :: "ksock option \<Rightarrow> bool" where
  "peer_is_loopback_v4 sock =
     (case sock of
        None \<Rightarrow> False
      | Some sk \<Rightarrow> if sk_family sk \<noteq> af_inet then False else sk_daddr sk AND 0xff = 127)"

definition arazu_connect :: "32 word \<Rightarrow> ksock option \<Rightarrow> sock_addr option \<Rightarrow> int \<Rightarrow> egress_map \<Rightarrow> int \<times> egress_map" where
  "arazu_connect netns sock address ret cs =
     (if ret \<noteq> 0 then (ret, cs)
      else
        let cs = bump ctr_connect_seen cs
        in if in_contained_netns netns sock then
             (if dst_is_loopback_v4 address then (0, bump ctr_loopback_allowed cs)
              else (- eperm, bump ctr_connect_denied cs))
           else (0, cs))"

definition arazu_sendmsg :: "32 word \<Rightarrow> ksock option \<Rightarrow> sock_addr option \<Rightarrow> int \<Rightarrow> egress_map \<Rightarrow> int \<times> egress_map" where
  "arazu_sendmsg netns sock msg_name ret cs =
     (if ret \<noteq> 0 then (ret, cs)
      else
        let cs = bump ctr_sendmsg_seen cs
        in if in_contained_netns netns sock then
             (if (if msg_name \<noteq> None then dst_is_loopback_v4 msg_name else peer_is_loopback_v4 sock)
              then (0, bump ctr_loopback_allowed cs)
              else (- eperm, bump ctr_sendmsg_denied cs))
           else (0, cs))"

fun hook :: "32 word \<Rightarrow> hook_call \<Rightarrow> egress_map \<Rightarrow> int \<times> egress_map" where
  "hook netns (Connect sock address ret) cs = arazu_connect netns sock address ret cs"
| "hook netns (Sendmsg sock name ret) cs = arazu_sendmsg netns sock name ret cs"

text \<open>The calls of a run, in order: the verdict of each and the counters they leave.\<close>

fun hooks :: "32 word \<Rightarrow> hook_call list \<Rightarrow> egress_map \<Rightarrow> int list \<times> egress_map" where
  "hooks netns [] cs = ([], cs)"
| "hooks netns (c # calls) cs =
     (case hook netns c cs of (v, cs') \<Rightarrow> case hooks netns calls cs' of (vs, cs'') \<Rightarrow> (v # vs, cs''))"

section \<open>The policy\<close>

text \<open>
  What the program decides, without its control flow: a call of a socket of the namespace,
  of a family that leaves the box, goes through exactly when its destination reads as
  127.0.0.0/8: the address it names, whatever the family of the socket, or else the peer of
  an IPv4 socket.
\<close>

fun call_socket :: "hook_call \<Rightarrow> ksock option" where
  "call_socket (Connect sock address ret) = sock"
| "call_socket (Sendmsg sock name ret) = sock"

fun call_ret :: "hook_call \<Rightarrow> int" where
  "call_ret (Connect sock address ret) = ret"
| "call_ret (Sendmsg sock name ret) = ret"

definition contained_call :: "32 word \<Rightarrow> hook_call \<Rightarrow> bool" where
  "contained_call netns c \<longleftrightarrow> netns \<noteq> 0 \<and>
     (\<exists>sk. call_socket c = Some sk \<and> sk_family sk \<in> {af_inet, af_inet6, af_packet} \<and> sk_net sk = Some netns)"

text \<open>The first octet of an address in network byte order, on a little-endian machine.\<close>

definition first_octet :: "32 word \<Rightarrow> nat" where
  "first_octet a = unat a mod 256"

fun to_loopback :: "hook_call \<Rightarrow> bool" where
  "to_loopback (Connect sock address ret) \<longleftrightarrow>
     (\<exists>a d. address = Some a \<and> sa_family a = Some af_inet \<and> sin_addr a = Some d \<and> first_octet d = 127)"
| "to_loopback (Sendmsg sock (Some a) ret) \<longleftrightarrow>
     (\<exists>d. sa_family a = Some af_inet \<and> sin_addr a = Some d \<and> first_octet d = 127)"
| "to_loopback (Sendmsg sock None ret) \<longleftrightarrow>
     (\<exists>sk. sock = Some sk \<and> sk_family sk = af_inet \<and> first_octet (sk_daddr sk) = 127)"

definition egress_policy :: "32 word \<Rightarrow> hook_call \<Rightarrow> int" where
  "egress_policy netns c =
     (if call_ret c \<noteq> 0 then call_ret c
      else if contained_call netns c \<and> \<not> to_loopback c then - eperm else 0)"

text \<open>
  What the comments of the program promise: of the sockets of the namespace only those of
  IPv4 get out, and only to 127.0.0.0/8; IPv6 and packet sockets are refused by their family,
  with no look at the destination.
\<close>

definition documented_policy :: "32 word \<Rightarrow> hook_call \<Rightarrow> int" where
  "documented_policy netns c =
     (if call_ret c \<noteq> 0 then call_ret c
      else if contained_call netns c \<and> (map_option sk_family (call_socket c) \<noteq> Some af_inet \<or> \<not> to_loopback c) then - eperm
      else 0)"

text \<open>
  A call of an IPv6 or packet socket of the namespace that names an address with the family
  of IPv4 and a first octet of 127.
\<close>

definition disguised_call :: "32 word \<Rightarrow> hook_call \<Rightarrow> bool" where
  "disguised_call netns c \<longleftrightarrow> call_ret c = 0 \<and> contained_call netns c \<and>
     map_option sk_family (call_socket c) \<in> {Some af_inet6, Some af_packet} \<and> to_loopback c"

lemma policy_documented: "egress_policy netns c = (if disguised_call netns c then 0 else documented_policy netns c)"
  by (auto simp: egress_policy_def documented_policy_def disguised_call_def contained_call_def af_inet_def af_inet6_def af_packet_def)

lemma low_octet: "(d :: 32 word) AND 0xff = 127 \<longleftrightarrow> first_octet d = 127"
proof -
  have "d AND 0xff = take_bit 8 d" by (simp add: take_bit_eq_mask mask_eq_exp_minus_1)
  then have u: "unat (d AND 0xff) = first_octet d"
    by (simp add: first_octet_def take_bit_eq_mod unat_mod)
  have "d AND 0xff = 127 \<longleftrightarrow> unat (d AND 0xff) = unat (127 :: 32 word)" by (simp only: word_unat_eq_iff)
  then show ?thesis unfolding u by simp
qed

lemma in_contained_iff: "in_contained_netns netns (call_socket c) \<longleftrightarrow> contained_call netns c"
  by (auto simp: in_contained_netns_def contained_call_def split: option.splits if_splits)

lemma dst_loopback_iff:
  "dst_is_loopback_v4 address \<longleftrightarrow>
     (\<exists>a d. address = Some a \<and> sa_family a = Some af_inet \<and> sin_addr a = Some d \<and> first_octet d = 127)"
  by (auto simp: dst_is_loopback_v4_def low_octet split: option.splits)

lemma peer_loopback_iff:
  "peer_is_loopback_v4 sock \<longleftrightarrow> (\<exists>sk. sock = Some sk \<and> sk_family sk = af_inet \<and> first_octet (sk_daddr sk) = 127)"
  by (auto simp: peer_is_loopback_v4_def low_octet split: option.splits)

text \<open>Which counters a call moves.\<close>

fun is_connect :: "hook_call \<Rightarrow> bool" where
  "is_connect (Connect sock address ret) = True"
| "is_connect (Sendmsg sock name ret) = False"

definition seen_by :: "hook_call \<Rightarrow> nat" where
  "seen_by c = (if is_connect c then ctr_connect_seen else ctr_sendmsg_seen)"

definition denied_by :: "hook_call \<Rightarrow> nat" where
  "denied_by c = (if is_connect c then ctr_connect_denied else ctr_sendmsg_denied)"

definition moved :: "32 word \<Rightarrow> hook_call \<Rightarrow> nat list" where
  "moved netns c =
     (if call_ret c \<noteq> 0 then []
      else seen_by c # (if contained_call netns c
                        then [if to_loopback c then ctr_loopback_allowed else denied_by c] else []))"

lemma loopback_iff:
  "to_loopback (Connect sock address ret) \<longleftrightarrow> dst_is_loopback_v4 address"
  "to_loopback (Sendmsg sock name ret) \<longleftrightarrow> (if name \<noteq> None then dst_is_loopback_v4 name else peer_is_loopback_v4 sock)"
  by (simp_all add: dst_loopback_iff) (cases name; simp add: dst_loopback_iff peer_loopback_iff)

lemma hook_eq: "hook netns c cs = (egress_policy netns c, fold bump (moved netns c) cs)"
  using in_contained_iff [of netns c]
  by (cases c) (simp_all add: arazu_connect_def arazu_sendmsg_def egress_policy_def moved_def seen_by_def denied_by_def Let_def
      loopback_iff del: to_loopback.simps)

lemma hooks_eq:
  "hooks netns calls cs = (map (egress_policy netns) calls, fold bump (concat (map (moved netns) calls)) cs)"
  by (induction calls arbitrary: cs) (simp_all add: hook_eq)

lemma fold_bump_length [simp]: "length (fold bump is cs) = length cs"
  by (induction "is" arbitrary: cs) (simp_all add: bump_def)

lemma fold_bump_nth: "i < length cs \<Longrightarrow> fold bump is cs ! i = cs ! i + of_nat (count_list is i)"
  by (induction "is" arbitrary: cs) (auto simp: bump_def nth_list_update)

text \<open>How often a call of a run moves a counter.\<close>

definition times_moved :: "32 word \<Rightarrow> nat \<Rightarrow> hook_call list \<Rightarrow> nat" where
  "times_moved netns i calls = count_list (concat (map (moved netns) calls)) i"

lemma hooks_counter:
  assumes "i < 5"
  shows "unat (snd (hooks netns calls egress_counters) ! i) = times_moved netns i calls mod 2 ^ 64"
  using assms by (simp add: hooks_eq fold_bump_nth egress_counters_def times_moved_def unat_of_nat)

lemma count_moved_le: "count_list (moved netns c) i \<le> 1"
  by (auto simp: moved_def seen_by_def denied_by_def ctr_defs split: if_splits)

lemma times_moved_le: "times_moved netns i calls \<le> length calls"
proof (induction calls)
  case (Cons c calls)
  then show ?case using count_moved_le [of netns c i] by (simp add: times_moved_def)
qed (simp add: times_moved_def)

lemma times_moved_Cons: "times_moved netns i (c # calls) = count_list (moved netns c) i + times_moved netns i calls"
  by (simp add: times_moved_def)

lemma count_moved:
  "count_list (moved netns c) (if b then ctr_connect_denied else ctr_sendmsg_denied) =
     (if is_connect c = b \<and> call_ret c = 0 \<and> egress_policy netns c = - eperm then 1 else 0)"
  by (auto simp: moved_def seen_by_def denied_by_def ctr_defs egress_policy_def eperm_def)

lemma times_denied:
  "times_moved netns (if b then ctr_connect_denied else ctr_sendmsg_denied) calls =
     length (filter (\<lambda>c. is_connect c = b \<and> call_ret c = 0 \<and> egress_policy netns c = - eperm) calls)"
  by (induction calls) (simp_all add: times_moved_Cons count_moved, simp add: times_moved_def)

lemma nonzero_counter_denied:
  assumes "snd (hooks netns calls egress_counters) ! (if b then ctr_connect_denied else ctr_sendmsg_denied) \<noteq> 0"
  shows "\<exists>c\<in>set calls. call_ret c = 0 \<and> egress_policy netns c = - eperm"
proof -
  have "times_moved netns (if b then ctr_connect_denied else ctr_sendmsg_denied) calls \<noteq> 0"
    using assms hooks_counter [of "if b then ctr_connect_denied else ctr_sendmsg_denied" netns calls]
    by (auto simp: ctr_defs simp flip: unat_eq_zero split: if_splits)
  then show ?thesis unfolding times_denied by (auto simp: filter_empty_conv)
qed

text \<open>
  C10. Over any sequence of calls and any counters, the verdicts of the hooks are exactly
  these: a denial made before stands as it is, a call of a contained socket passes when the
  destination it names, or else the peer of its IPv4 socket, reads as 127.0.0.0/8, and every
  other call passes.  This is not the policy of the program's comments, which refuse IPv6 and
  packet sockets by their family: the two differ on precisely the calls of such a socket that
  name an address with the family of IPv4 and a first octet of 127, which pass.
\<close>

theorem hooks_decide_by_policy:
  "fst (hooks netns calls cs) = map (egress_policy netns) calls \<and>
   fst (hooks netns calls cs) = map (\<lambda>c. if disguised_call netns c then 0 else documented_policy netns c) calls \<and>
   (disguised_call netns c \<longleftrightarrow> documented_policy netns c = - eperm \<and> fst (hook netns c cs) = 0)"
proof -
  have "documented_policy netns c = - eperm" if "disguised_call netns c"
    using that by (auto simp: documented_policy_def disguised_call_def af_inet_def af_inet6_def af_packet_def)
  moreover have "fst (hook netns c cs) = (if disguised_call netns c then 0 else documented_policy netns c)"
    by (simp add: hook_eq policy_documented)
  moreover have "- eperm \<noteq> 0" by (simp add: eperm_def)
  ultimately show ?thesis by (auto simp: hooks_eq policy_documented)
qed

text \<open>
  C11. The two denial counters count exactly the denials of their hook, modulo the 64 bits
  of a counter; so over fewer than 2^64 calls, both read zero exactly when nothing was denied.
\<close>

theorem denial_counters_count_denials:
  fixes netns :: "32 word" and calls :: "hook_call list"
  assumes "length calls < 2 ^ 64"
  defines "cs \<equiv> snd (hooks netns calls egress_counters)"
    and "denied \<equiv> filter (\<lambda>c. call_ret c = 0 \<and> egress_policy netns c = - eperm) calls"
  shows "unat (cs ! ctr_connect_denied) = length (filter is_connect denied) \<and>
    unat (cs ! ctr_sendmsg_denied) = length (filter (\<lambda>c. \<not> is_connect c) denied) \<and>
    (cs ! ctr_connect_denied = 0 \<and> cs ! ctr_sendmsg_denied = 0 \<longleftrightarrow> denied = [])"
proof -
  have n: "unat (cs ! i) = times_moved netns i calls" if "i < 5" for i
    using hooks_counter [OF that, of netns calls] times_moved_le [of netns i calls] assms(1) by (simp add: cs_def)
  have c: "unat (cs ! ctr_connect_denied) = length (filter is_connect denied)"
    using n [of ctr_connect_denied] times_denied [of netns True calls]
    by (simp add: ctr_defs denied_def conj_commute conj_left_commute)
  have m: "unat (cs ! ctr_sendmsg_denied) = length (filter (\<lambda>c. \<not> is_connect c) denied)"
    using n [of ctr_sendmsg_denied] times_denied [of netns False calls]
    by (simp add: ctr_defs denied_def conj_commute conj_left_commute)
  have "cs ! ctr_connect_denied = 0 \<and> cs ! ctr_sendmsg_denied = 0 \<longleftrightarrow>
      filter is_connect denied = [] \<and> filter (\<lambda>c. \<not> is_connect c) denied = []"
    using c m by (metis length_0_conv unat_eq_zero)
  also have "\<dots> \<longleftrightarrow> denied = []" by (auto simp: filter_empty_conv)
  finally show ?thesis using c m by simp
qed

definition sample_sock :: "16 word \<Rightarrow> ksock" where
  "sample_sock family = \<lparr>sk_family = family, sk_net = Some 4026531999, sk_daddr = 0\<rparr>"

definition sample_addr :: "32 word \<Rightarrow> sock_addr" where
  "sample_addr d = \<lparr>sa_family = Some af_inet, sin_addr = Some d\<rparr>"

text \<open>1.1.1.1 and 127.0.0.1, first octet lowest.\<close>

definition sample_calls :: "hook_call list" where
  "sample_calls =
     [Connect (Some (sample_sock af_inet)) (Some (sample_addr 0x01010101)) 0,
      Connect (Some (sample_sock af_inet)) (Some (sample_addr 0x0100007F)) 0,
      Sendmsg (Some (sample_sock af_inet6)) None 0]"

theorem denial_counters_count_denials_witness:
  "let cs = snd (hooks 4026531999 sample_calls egress_counters);
       denied = filter (\<lambda>c. call_ret c = 0 \<and> egress_policy 4026531999 c = - eperm) sample_calls
   in unat (cs ! ctr_connect_denied) = length (filter is_connect denied) \<and>
    unat (cs ! ctr_sendmsg_denied) = length (filter (\<lambda>c. \<not> is_connect c) denied) \<and>
    (cs ! ctr_connect_denied = 0 \<and> cs ! ctr_sendmsg_denied = 0 \<longleftrightarrow> denied = []) \<and> length denied = 2"
proof -
  have "length sample_calls < 2 ^ 64" by (simp add: sample_calls_def)
  from denial_counters_count_denials [OF this, of 4026531999] have "?thesis \<or> length (filter (\<lambda>c. call_ret c = 0 \<and> egress_policy 4026531999 c = - eperm) sample_calls) \<noteq> 2"
    by (auto simp: Let_def)
  moreover have "length (filter (\<lambda>c. call_ret c = 0 \<and> egress_policy 4026531999 c = - eperm) sample_calls) = 2"
    by (simp add: sample_calls_def egress_policy_def contained_call_def sample_sock_def sample_addr_def first_octet_def eperm_def
        af_inet_def af_inet6_def af_packet_def)
  ultimately show ?thesis by blast
qed

text \<open>
  The family of a named destination is read from the address the caller passes, not
  from the socket: a contained socket of any of the three families, packet sockets and IPv6
  included, is let through when the address claims to be IPv4 and its fifth byte is 127.
\<close>

theorem address_family_decides:
  assumes "sa_family a = Some af_inet" "sin_addr a = Some d" "d AND 0xff = 127"
  shows "fst (arazu_sendmsg netns sock (Some a) 0 cs) = 0 \<and> fst (arazu_connect netns sock (Some a) 0 cs) = 0"
  using assms by (simp add: arazu_sendmsg_def arazu_connect_def dst_is_loopback_v4_def Let_def)

theorem address_family_decides_witness:
  "fst (arazu_sendmsg 4026531999 (Some (sample_sock af_packet)) (Some (sample_addr 0x7F)) 0 egress_counters) = 0 \<and>
   fst (arazu_sendmsg 4026531999 (Some (sample_sock af_packet)) None 0 egress_counters) = - 1"
proof -
  have "sa_family (sample_addr 0x7F) = Some af_inet" "sin_addr (sample_addr 0x7F) = Some 0x7F" "(0x7F :: 32 word) AND 0xff = 127"
    by (simp_all add: sample_addr_def)
  then have "fst (arazu_sendmsg 4026531999 (Some (sample_sock af_packet)) (Some (sample_addr 0x7F)) 0 egress_counters) = 0"
    using address_family_decides by blast
  moreover have "fst (arazu_sendmsg 4026531999 (Some (sample_sock af_packet)) None 0 egress_counters) = - 1"
    by (simp add: arazu_sendmsg_def in_contained_netns_def peer_is_loopback_v4_def sample_sock_def Let_def af_packet_def
        af_inet_def af_inet6_def eperm_def)
  ultimately show ?thesis by blast
qed

end
