(* ===== verification/Egress.thy ===== *)
theory Egress
  imports Egress_Hooks Os_Exec
begin

text \<open>
  The userspace half of the containment (\<open>pkg/egress\<close>): the network namespace made with
  \<open>ip\<close>, and the attachment of the two hooks to it.  The library \<open>cilium/ebpf\<close> and the
  operations of the kernel are records of operations on a world; a collection, a link and a
  specification are values of the library's own types.
\<close>

section \<open>Attaching the hooks (\<open>bpf.go\<close>)\<close>

record egress_totals =
  et_connect_denied :: "64 word"
  et_sendmsg_denied :: "64 word"
  et_connect_seen :: "64 word"
  et_sendmsg_seen :: "64 word"
  et_loopback_allowed :: "64 word"

definition zero_totals :: egress_totals where
  "zero_totals = \<lparr>et_connect_denied = 0, et_sendmsg_denied = 0, et_connect_seen = 0, et_sendmsg_seen = 0,
     et_loopback_allowed = 0\<rparr>"

text \<open>A new collection fails with the verifier's message or with another one.\<close>

datatype load_failure = VerifierError string | OtherError string

record ('w, 's, 'c, 'l) ebpf_ops =
  eb_read_file :: "string \<Rightarrow> ('w, string, string) action"
  eb_remove_memlock :: "('w, string, unit) action"
  eb_load_spec :: "string \<Rightarrow> ('w, string, 's) action"
  eb_has_variable :: "'s \<Rightarrow> string \<Rightarrow> bool"
  eb_set_variable :: "'s \<Rightarrow> string \<Rightarrow> 32 word \<Rightarrow> ('w, string, 's) action"
  eb_new_collection :: "'s \<Rightarrow> ('w, load_failure, 'c) action"
  eb_has_program :: "'c \<Rightarrow> string \<Rightarrow> bool"
  eb_attach_lsm :: "'c \<Rightarrow> string \<Rightarrow> ('w, string, 'l) action"
  eb_close_link :: "'l \<Rightarrow> 'w \<Rightarrow> 'w"
  eb_close_collection :: "'c \<Rightarrow> 'w \<Rightarrow> 'w"
  eb_has_map :: "'c \<Rightarrow> string \<Rightarrow> bool"
  eb_lookup :: "'c \<Rightarrow> string \<Rightarrow> 32 word \<Rightarrow> ('w, string, 64 word) action"

record ('c, 'l) deny =
  dn_coll :: "'c option"
  dn_links :: "'l list"

definition lsm_list_has_bpf :: "string \<Rightarrow> bool" where
  "lsm_list_has_bpf lst = list_ex (\<lambda>name. trim_space name = ''bpf'') (split_char CHR '','' (trim_space lst))"

definition lsm_file :: string where "lsm_file = ''/sys/kernel/security/lsm''"

definition require_bpf_lsm :: "('w, 's, 'c, 'l) ebpf_ops \<Rightarrow> ('w, string, unit) action" where
  "require_bpf_lsm ops =
     act_bind (act_wrap (\<lambda>e. ''cannot read the active LSM list: '' @ e) (eb_read_file ops lsm_file)) (\<lambda>b.
       if lsm_list_has_bpf b then act_return ()
       else act_fail (''the bpf LSM is not active (list: '' @ trim_space b @ ''); add bpf to the kernel lsm= cmdline''))"

text \<open>\<open>Close\<close>: the links in their order, then the collection; both are forgotten.\<close>

definition deny_close :: "('w, 's, 'c, 'l) ebpf_ops \<Rightarrow> ('c, 'l) deny option \<Rightarrow> 'w \<Rightarrow> ('c, 'l) deny option \<times> 'w" where
  "deny_close ops d w =
     (case d of
        None \<Rightarrow> (None, w)
      | Some d \<Rightarrow>
          let w1 = fold (eb_close_link ops) (dn_links d) w
          in (Some \<lparr>dn_coll = None, dn_links = []\<rparr>,
              case dn_coll d of None \<Rightarrow> w1 | Some c \<Rightarrow> eb_close_collection ops c w1))"

definition contained_netns_ino :: string where "contained_netns_ino = ''contained_netns_ino''"

definition load_message :: "load_failure \<Rightarrow> string" where
  "load_message f = (case f of VerifierError e \<Rightarrow> ''verifier rejected the program: '' @ e | OtherError e \<Rightarrow> e)"

text \<open>Up to the collection: nothing is attached yet.\<close>

definition attach_prepare :: "('w, 's, 'c, 'l) ebpf_ops \<Rightarrow> string \<Rightarrow> 32 word \<Rightarrow> ('w, string, 'c) action" where
  "attach_prepare ops obj inode =
     act_bind (require_bpf_lsm ops) (\<lambda>_.
       if inode = 0 then act_fail ''refusing to attach with a zero namespace inode, which would deny nothing''
       else
         act_bind (act_wrap (\<lambda>e. ''remove memlock: '' @ e) (eb_remove_memlock ops)) (\<lambda>_.
         act_bind (act_wrap (\<lambda>e. ''load '' @ obj @ '': '' @ e) (eb_load_spec ops obj)) (\<lambda>spec.
           if \<not> eb_has_variable ops spec contained_netns_ino then act_fail ''object has no contained_netns_ino variable''
           else
             act_bind (act_wrap (\<lambda>e. ''set contained_netns_ino: '' @ e)
                 (eb_set_variable ops spec contained_netns_ino inode)) (\<lambda>spec'.
               act_wrap load_message (eb_new_collection ops spec')))))"

fun attach_hooks :: "('w, 's, 'c, 'l) ebpf_ops \<Rightarrow> 'c \<Rightarrow> 'l list \<Rightarrow> string list \<Rightarrow> ('w, string, ('c, 'l) deny) action" where
  "attach_hooks ops coll links [] = act_return \<lparr>dn_coll = Some coll, dn_links = links\<rparr>"
| "attach_hooks ops coll links (name # names) = (\<lambda>w.
     if \<not> eb_has_program ops coll name then
       (Inl (''object has no program '' @ name), snd (deny_close ops (Some \<lparr>dn_coll = Some coll, dn_links = links\<rparr>) w))
     else
       (case eb_attach_lsm ops coll name w of
          (Inl e, w1) \<Rightarrow>
            (Inl (''attach '' @ name @ '': '' @ e), snd (deny_close ops (Some \<lparr>dn_coll = Some coll, dn_links = links\<rparr>) w1))
        | (Inr l, w1) \<Rightarrow> attach_hooks ops coll (links @ [l]) names w1))"

definition hook_programs :: "string list" where
  "hook_programs = [''arazu_connect'', ''arazu_sendmsg'']"

definition attach_deny :: "('w, 's, 'c, 'l) ebpf_ops \<Rightarrow> string \<Rightarrow> 32 word \<Rightarrow> ('w, string, ('c, 'l) deny) action" where
  "attach_deny ops obj inode =
     act_bind (attach_prepare ops obj inode) (\<lambda>coll. attach_hooks ops coll [] hook_programs)"

definition counters_map :: string where "counters_map = ''egress_counters''"

text \<open>The counters read so far, with the error that stopped the reading.\<close>

fun read_totals :: "('w, 's, 'c, 'l) ebpf_ops \<Rightarrow> 'c \<Rightarrow> (nat \<times> (64 word \<Rightarrow> egress_totals \<Rightarrow> egress_totals)) list \<Rightarrow>
    egress_totals \<Rightarrow> 'w \<Rightarrow> (egress_totals \<times> string option) \<times> 'w" where
  "read_totals ops coll [] t w = ((t, None), w)"
| "read_totals ops coll ((i, put) # fs) t w =
     (case eb_lookup ops coll counters_map (of_nat i) w of
        (Inl e, w') \<Rightarrow> ((t, Some (''read counter '' @ nat_dec i @ '': '' @ e)), w')
      | (Inr n, w') \<Rightarrow> read_totals ops coll fs (put n t) w')"

definition counter_targets :: "(nat \<times> (64 word \<Rightarrow> egress_totals \<Rightarrow> egress_totals)) list" where
  "counter_targets =
     [(ctr_connect_denied, \<lambda>n t. t\<lparr>et_connect_denied := n\<rparr>), (ctr_sendmsg_denied, \<lambda>n t. t\<lparr>et_sendmsg_denied := n\<rparr>),
      (ctr_connect_seen, \<lambda>n t. t\<lparr>et_connect_seen := n\<rparr>), (ctr_sendmsg_seen, \<lambda>n t. t\<lparr>et_sendmsg_seen := n\<rparr>),
      (ctr_loopback_allowed, \<lambda>n t. t\<lparr>et_loopback_allowed := n\<rparr>)]"

definition deny_counters :: "('w, 's, 'c, 'l) ebpf_ops \<Rightarrow> ('c, 'l) deny option \<Rightarrow> 'w \<Rightarrow> (egress_totals \<times> string option) \<times> 'w" where
  "deny_counters ops d w =
     (case d of
        None \<Rightarrow> ((zero_totals, None), w)
      | Some d \<Rightarrow>
          (case dn_coll d of
             None \<Rightarrow> ((zero_totals, None), w)
           | Some c \<Rightarrow>
               if \<not> eb_has_map ops c counters_map then ((zero_totals, Some ''object has no egress_counters map''), w)
               else read_totals ops c counter_targets zero_totals w))"

section \<open>The namespace (\<open>netns.go\<close>)\<close>

text \<open>A command that ran and did not exit with 0, or that could not be run or waited for.\<close>

datatype exec_failure = ExitError string | NotRun string

record 'w netns_ops =
  ns_stat :: "string \<Rightarrow> ('w, string, unit) action"
  ns_inode :: "string \<Rightarrow> ('w, string, 64 word) action"
  ns_run :: "string list \<Rightarrow> 'w \<Rightarrow> (string \<times> exec_failure option) \<times> 'w"
  ns_output :: "string list \<Rightarrow> 'w \<Rightarrow> (string \<times> string \<times> int \<times> exec_failure option) \<times> 'w"

record netns =
  nn_name :: string
  nn_inode :: "32 word"
  nn_keep :: bool

fun failure_text :: "exec_failure \<Rightarrow> string" where
  "failure_text (ExitError e) = e"
| "failure_text (NotRun e) = e"

definition netns_run :: "'w netns_ops \<Rightarrow> string list \<Rightarrow> ('w, string, unit) action" where
  "netns_run ops argv = (\<lambda>w.
     case ns_run ops argv w of
       ((se, None), w') \<Rightarrow> (Inr (), w')
     | ((se, Some e), w') \<Rightarrow> (Inl (''['' @ join_with '' '' argv @ '']: '' @ failure_text e @ '': '' @ se), w'))"

text \<open>The inode number is cut to the 32 bits of a namespace number.\<close>

definition netns_inode_of_path :: "'w netns_ops \<Rightarrow> string \<Rightarrow> ('w, string, 32 word) action" where
  "netns_inode_of_path ops path =
     act_bind (act_wrap (\<lambda>e. ''stat '' @ path @ '': '' @ e) (ns_inode ops path)) (\<lambda>i. act_return (ucast i))"

definition netns_path :: "string \<Rightarrow> string" where
  "netns_path name = path_join [''/var/run/netns'', name]"

definition netns_del :: "'w netns_ops \<Rightarrow> string \<Rightarrow> ('w, string, unit) action" where
  "netns_del ops name = netns_run ops [''ip'', ''netns'', ''del'', name]"

text \<open>Run an operation; when it fails, delete the namespace and fail with its error.\<close>

definition or_del :: "'w netns_ops \<Rightarrow> string \<Rightarrow> ('w, string, 'a) action \<Rightarrow> ('w, string, 'a) action" where
  "or_del ops name m =
     act_try m (\<lambda>r. case r of
       Inl e \<Rightarrow> act_try (netns_del ops name) (\<lambda>_. act_fail e)
     | Inr x \<Rightarrow> act_return x)"

definition create_netns :: "'w netns_ops \<Rightarrow> string \<Rightarrow> ('w, string, netns) action" where
  "create_netns ops name =
     act_bind (netns_run ops [''ip'', ''netns'', ''add'', name]) (\<lambda>_.
     act_bind (or_del ops name
         (netns_run ops [''ip'', ''netns'', ''exec'', name, ''ip'', ''link'', ''set'', ''lo'', ''up''])) (\<lambda>_.
     act_bind (or_del ops name (netns_inode_of_path ops (netns_path name))) (\<lambda>ino.
       act_return \<lparr>nn_name = name, nn_inode = ino, nn_keep = False\<rparr>)))"

definition open_or_create :: "'w netns_ops \<Rightarrow> string \<Rightarrow> ('w, string, netns) action" where
  "open_or_create ops name =
     act_try (ns_stat ops (netns_path name)) (\<lambda>r. case r of
       Inr u \<Rightarrow>
         act_bind (netns_inode_of_path ops (netns_path name)) (\<lambda>ino.
           act_return \<lparr>nn_name = name, nn_inode = ino, nn_keep = True\<rparr>)
     | Inl e \<Rightarrow> act_bind (create_netns ops name) (\<lambda>ns. act_return (ns\<lparr>nn_keep := True\<rparr>)))"

text \<open>A command inside the namespace: an exit status other than 0 is not an error.\<close>

definition netns_exec :: "'w netns_ops \<Rightarrow> netns \<Rightarrow> string list \<Rightarrow> 'w \<Rightarrow> (string \<times> string \<times> int \<times> string option) \<times> 'w" where
  "netns_exec ops ns argv w =
     (case ns_output ops ([''ip'', ''netns'', ''exec'', nn_name ns] @ argv) w of
        ((out, errb, ec, f), w') \<Rightarrow>
          ((out, errb, ec, case f of Some (NotRun e) \<Rightarrow> Some e | _ \<Rightarrow> None), w'))"

definition netns_close :: "'w netns_ops \<Rightarrow> netns option \<Rightarrow> 'w \<Rightarrow> (netns option \<times> string option) \<times> 'w" where
  "netns_close ops ns w =
     (case ns of
        None \<Rightarrow> ((None, None), w)
      | Some n \<Rightarrow>
          if nn_name n = [] then ((ns, None), w)
          else if nn_keep n then ((Some (n\<lparr>nn_name := []\<rparr>), None), w)
          else
            (case netns_del ops (nn_name n) w of
               (r, w') \<Rightarrow> ((Some (n\<lparr>nn_name := []\<rparr>), case r of Inl e \<Rightarrow> Some e | Inr u \<Rightarrow> None), w')))"

definition cleanup_stale :: "'w netns_ops \<Rightarrow> string \<Rightarrow> 'w \<Rightarrow> 'w" where
  "cleanup_stale ops name w =
     (case ns_stat ops (netns_path name) w of
        (Inl e, w1) \<Rightarrow> w1
      | (Inr u, w1) \<Rightarrow> snd (netns_del ops name w1))"

section \<open>Both hooks or none\<close>

text \<open>The links of some programs, attached one after the other.\<close>

fun attached :: "('w, 's, 'c, 'l) ebpf_ops \<Rightarrow> 'c \<Rightarrow> string list \<Rightarrow> 'l list \<Rightarrow> 'w \<Rightarrow> 'w \<Rightarrow> bool" where
  "attached ops coll [] ls w w' \<longleftrightarrow> ls = [] \<and> w' = w"
| "attached ops coll (n # ns) ls w w' \<longleftrightarrow>
     (\<exists>l ls' w1. ls = l # ls' \<and> eb_has_program ops coll n \<and> eb_attach_lsm ops coll n w = (Inr l, w1) \<and> attached ops coll ns ls' w1 w')"

definition closed_after :: "('w, 's, 'c, 'l) ebpf_ops \<Rightarrow> 'c \<Rightarrow> 'l list \<Rightarrow> 'w \<Rightarrow> 'w" where
  "closed_after ops coll ls w = eb_close_collection ops coll (fold (eb_close_link ops) ls w)"

lemma deny_close_open: "snd (deny_close ops (Some \<lparr>dn_coll = Some coll, dn_links = ls\<rparr>) w) = closed_after ops coll ls w"
  by (simp add: deny_close_def closed_after_def Let_def)

lemma attached_length: "attached ops coll names ls w w' \<Longrightarrow> length ls = length names"
  by (induction names arbitrary: ls w) auto

text \<open>A failing attachment: the hooks attached before it are closed again.\<close>

definition attach_undone :: "('w, 's, 'c, 'l) ebpf_ops \<Rightarrow> 'c \<Rightarrow> 'l list \<Rightarrow> string list \<Rightarrow> 'w \<Rightarrow> 'w \<Rightarrow> bool" where
  "attach_undone ops coll links names w w' \<longleftrightarrow>
     (\<exists>before n after ls w1. names = before @ n # after \<and> attached ops coll before ls w w1 \<and>
        (\<not> eb_has_program ops coll n \<and> w' = closed_after ops coll (links @ ls) w1 \<or>
         (\<exists>e w2. eb_attach_lsm ops coll n w1 = (Inl e, w2) \<and> w' = closed_after ops coll (links @ ls) w2)))"

lemma attach_undone_Cons:
  assumes "eb_has_program ops coll n" "eb_attach_lsm ops coll n w = (Inr l, w1)"
    and "attach_undone ops coll (links @ [l]) names w1 w'"
  shows "attach_undone ops coll links (n # names) w w'"
proof -
  obtain before m after ls w2 where "names = before @ m # after" "attached ops coll before ls w1 w2"
      and r: "\<not> eb_has_program ops coll m \<and> w' = closed_after ops coll ((links @ [l]) @ ls) w2 \<or>
         (\<exists>e w3. eb_attach_lsm ops coll m w2 = (Inl e, w3) \<and> w' = closed_after ops coll ((links @ [l]) @ ls) w3)"
    using assms(3) unfolding attach_undone_def by blast
  then have "n # names = (n # before) @ m # after" "attached ops coll (n # before) (l # ls) w w2"
    using assms(1,2) by auto
  moreover from r have "\<not> eb_has_program ops coll m \<and> w' = closed_after ops coll (links @ l # ls) w2 \<or>
      (\<exists>e w3. eb_attach_lsm ops coll m w2 = (Inl e, w3) \<and> w' = closed_after ops coll (links @ l # ls) w3)" by simp
  ultimately show ?thesis unfolding attach_undone_def
    by (intro exI [of _ "n # before"] exI [of _ m] exI [of _ after] exI [of _ "l # ls"] exI [of _ w2] conjI)
qed

lemma attach_hooks_result:
  "case attach_hooks ops coll links names w of
     (Inr d, w') \<Rightarrow> \<exists>ls. attached ops coll names ls w w' \<and> d = \<lparr>dn_coll = Some coll, dn_links = links @ ls\<rparr>
   | (Inl e, w') \<Rightarrow> attach_undone ops coll links names w w'"
proof (induction names arbitrary: links w)
  case Nil
  then show ?case by (simp add: act_return_def)
next
  case (Cons n names)
  show ?case
  proof (cases "eb_has_program ops coll n")
    case False
    then have "attach_undone ops coll links (n # names) w (closed_after ops coll links w)"
      unfolding attach_undone_def by (intro exI [of _ "[]"] exI [of _ n] exI [of _ names] exI [of _ w]) simp
    with False show ?thesis by (simp add: deny_close_open)
  next
    case True
    obtain r w1 where r: "eb_attach_lsm ops coll n w = (r, w1)" by (cases "eb_attach_lsm ops coll n w")
    show ?thesis
    proof (cases r)
      case (Inl e)
      then have "attach_undone ops coll links (n # names) w (closed_after ops coll links w1)"
        unfolding attach_undone_def using r
        by (intro exI [of _ "[]"] exI [of _ n] exI [of _ names] exI [of _ w]) simp
      with True r Inl show ?thesis by (simp add: deny_close_open)
    next
      case (Inr l)
      have a: "eb_attach_lsm ops coll n w = (Inr l, w1)" using r Inr by simp
      have "attach_hooks ops coll links (n # names) w = attach_hooks ops coll (links @ [l]) names w1"
        using True a by simp
      moreover obtain r' w' where r': "attach_hooks ops coll (links @ [l]) names w1 = (r', w')"
        by (cases "attach_hooks ops coll (links @ [l]) names w1")
      ultimately show ?thesis using Cons.IH [of "links @ [l]" w1] True a attach_undone_Cons [OF True a, of links names w']
        by (cases r') auto
    qed
  qed
qed

text \<open>
  C12. \<open>AttachDeny\<close> attaches both hooks or leaves none: when it returns, the connect and the
  send hook are attached, in this order, from a collection prepared for this namespace; when
  it fails, either nothing was ever attached, or every link attached before the failure was
  closed again and the collection with them.
\<close>

theorem attach_is_all_or_nothing:
  "case attach_deny ops obj inode w of
     (Inr d, w') \<Rightarrow> \<exists>coll w1 ls. attach_prepare ops obj inode w = (Inr coll, w1) \<and> attached ops coll hook_programs ls w1 w' \<and>
       d = \<lparr>dn_coll = Some coll, dn_links = ls\<rparr> \<and> length ls = 2
   | (Inl e, w') \<Rightarrow> attach_prepare ops obj inode w = (Inl e, w') \<or>
       (\<exists>coll w1. attach_prepare ops obj inode w = (Inr coll, w1) \<and> attach_undone ops coll [] hook_programs w1 w')"
proof -
  obtain r w1 where p: "attach_prepare ops obj inode w = (r, w1)" by (cases "attach_prepare ops obj inode w")
  show ?thesis
  proof (cases r)
    case (Inl e)
    with p show ?thesis by (simp add: attach_deny_def act_bind_def)
  next
    case (Inr coll)
    then have "attach_deny ops obj inode w = attach_hooks ops coll [] hook_programs w1"
      using p by (simp add: attach_deny_def act_bind_def)
    with p Inr attach_hooks_result [of ops coll "[]" hook_programs w1] show ?thesis
      by (auto split: prod.splits sum.splits dest: attached_length simp: hook_programs_def)
  qed
qed

text \<open>What the preparation ensures.\<close>

definition scoped_collection :: "('w, 's, 'c, 'l) ebpf_ops \<Rightarrow> string \<Rightarrow> 32 word \<Rightarrow> 'c \<Rightarrow> bool" where
  "scoped_collection ops obj inode coll \<longleftrightarrow> inode \<noteq> 0 \<and>
     (\<exists>lsm w1 w2 spec w3 w4 spec' w5 w6. eb_read_file ops lsm_file w1 = (Inr lsm, w2) \<and> lsm_list_has_bpf lsm \<and>
        eb_load_spec ops obj w3 = (Inr spec, w4) \<and> eb_has_variable ops spec contained_netns_ino \<and>
        eb_set_variable ops spec contained_netns_ino inode w4 = (Inr spec', w5) \<and>
        eb_new_collection ops spec' w5 = (Inr coll, w6))"

lemma attach_prepare_scoped: "attach_prepare ops obj inode w = (Inr coll, w') \<Longrightarrow> scoped_collection ops obj inode coll"
  unfolding attach_prepare_def require_bpf_lsm_def scoped_collection_def
  by (auto simp: result_simps split: if_splits) metis

lemma attach_deny_loads:
  assumes "attach_deny ops obj inode w = (Inr d, w')"
  shows "\<exists>coll spec u u'. eb_new_collection ops spec u = (Inr coll, u') \<and> attached ops coll hook_programs (dn_links d) u' w' \<and>
    dn_coll d = Some coll"
proof -
  obtain coll u' where p: "attach_prepare ops obj inode w = (Inr coll, u')" and h: "attach_hooks ops coll [] hook_programs u' = (Inr d, w')"
    using assms by (auto simp: attach_deny_def result_simps)
  from p obtain spec u where "eb_new_collection ops spec u = (Inr coll, u')"
    unfolding attach_prepare_def by (auto simp: result_simps split: if_splits)
  moreover obtain ls where "attached ops coll hook_programs ls u' w'" "d = \<lparr>dn_coll = Some coll, dn_links = ls\<rparr>"
    using attach_hooks_result [of ops coll "[]" hook_programs u'] h by auto
  ultimately show ?thesis by auto
qed

lemma attach_deny_Inr:
  assumes "attach_deny ops obj inode w = (Inr d, w')"
  shows "\<exists>coll ls w1. scoped_collection ops obj inode coll \<and> attached ops coll hook_programs ls w1 w' \<and>
    d = \<lparr>dn_coll = Some coll, dn_links = ls\<rparr>"
  using assms attach_hooks_result [of ops _ "[]" hook_programs]
  by (auto simp: attach_deny_def result_simps dest: attach_prepare_scoped) (fastforce dest: attach_prepare_scoped split: prod.splits)

section \<open>What the runner relies on\<close>

text \<open>
  The contract of the layer: an attachment that returns has hooked a namespace with a number
  other than 0.
\<close>

locale egress_layer =
  fixes attach :: "string \<Rightarrow> 32 word \<Rightarrow> ('w, string, 'd) action"
    and hooked :: "string \<Rightarrow> 32 word \<Rightarrow> 'd \<Rightarrow> 'w \<Rightarrow> bool"
  assumes attach_hooked: "attach obj ino w = (Inr d, w') \<Longrightarrow> ino \<noteq> 0 \<and> hooked obj ino d w'"
begin

lemma never_unscoped: "fst (attach obj 0 w) \<noteq> Inr d"
  using attach_hooked [of obj 0 w d "snd (attach obj 0 w)"] by (metis prod.collapse)

end

definition hooks_attached :: "('w, 's, 'c, 'l) ebpf_ops \<Rightarrow> string \<Rightarrow> 32 word \<Rightarrow> ('c, 'l) deny \<Rightarrow> 'w \<Rightarrow> bool" where
  "hooks_attached ops obj ino d w \<longleftrightarrow>
     (\<exists>coll ls w1. scoped_collection ops obj ino coll \<and> attached ops coll hook_programs ls w1 w \<and> d = \<lparr>dn_coll = Some coll, dn_links = ls\<rparr>)"

interpretation deny_layer: egress_layer "attach_deny ops" "hooks_attached ops" for ops
proof
  fix obj ino w d w'
  assume "attach_deny ops obj ino w = (Inr d, w')"
  from attach_deny_Inr [OF this] show "ino \<noteq> 0 \<and> hooks_attached ops obj ino d w'"
    unfolding hooks_attached_def by (metis scoped_collection_def)
qed

lemma counters_read:
  assumes "\<And>i w. i < 5 \<Longrightarrow> eb_lookup ops coll counters_map (of_nat i) w = (Inr (kcount w ! i), w)"
    and "eb_has_map ops coll counters_map" "dn_coll d = Some coll"
  shows "deny_counters ops (Some d) w =
    ((\<lparr>et_connect_denied = kcount w ! ctr_connect_denied, et_sendmsg_denied = kcount w ! ctr_sendmsg_denied,
       et_connect_seen = kcount w ! ctr_connect_seen, et_sendmsg_seen = kcount w ! ctr_sendmsg_seen,
       et_loopback_allowed = kcount w ! ctr_loopback_allowed\<rparr>, None), w)"
  using assms(1) [of 0 w] assms(1) [of 1 w] assms(1) [of 2 w] assms(1) [of 3 w] assms(1) [of 4 w] assms(2,3)
  by (simp add: deny_counters_def counter_targets_def ctr_defs zero_totals_def)

section \<open>The life of a namespace\<close>

lemma or_del_Inr: "or_del ops name m w = (Inr x, w') \<longleftrightarrow> m w = (Inr x, w')"
  by (auto simp: or_del_def act_try_def act_fail_def act_return_def split: prod.splits sum.splits)

lemma or_del_Inl:
  "or_del ops name m w = (Inl e, w') \<longleftrightarrow> (\<exists>w1. m w = (Inl e, w1) \<and> w' = snd (netns_del ops name w1))"
  by (auto simp: or_del_def act_try_def act_fail_def act_return_def split: prod.splits sum.splits)

lemma act_bind_Inl:
  "act_bind m f w = (Inl e, w'') \<longleftrightarrow> m w = (Inl e, w'') \<or> (\<exists>x w'. m w = (Inr x, w') \<and> f x w' = (Inl e, w''))"
  by (auto simp: act_bind_def split: prod.splits sum.splits)

text \<open>
  \<open>CreateNetns\<close> leaves no namespace behind: when it fails, either \<open>ip netns add\<close> failed,
  or the last thing that happened is \<open>ip netns del\<close> of the same name.
\<close>

theorem failed_create_deletes_the_namespace:
  assumes "create_netns ops name w = (Inl e, w')"
  shows "netns_run ops [''ip'', ''netns'', ''add'', name] w = (Inl e, w') \<or> (\<exists>w1. w' = snd (netns_del ops name w1))"
  using assms by (auto simp: create_netns_def act_bind_Inl or_del_Inl act_return_def)

lemma create_netns_Inr:
  assumes "create_netns ops name w = (Inr ns, w')"
  shows "nn_name ns = name" "\<not> nn_keep ns"
    "\<exists>w1 i. ns_inode ops (netns_path name) w1 = (Inr i, w') \<and> nn_inode ns = ucast i"
  using assms by (auto simp: create_netns_def or_del_Inr netns_inode_of_path_def result_simps) blast

text \<open>A shared namespace survives its handle; a second close does nothing.\<close>

lemma shared_namespace_is_kept:
  assumes "open_or_create ops name w = (Inr ns, w')"
  shows "netns_close ops (Some ns) w'' = ((Some (ns\<lparr>nn_name := []\<rparr>), None), w'')"
proof -
  obtain r w1 where "ns_stat ops (netns_path name) w = (r, w1)" by (cases "ns_stat ops (netns_path name) w")
  then have "nn_keep ns"
    using assms by (cases r) (auto simp: open_or_create_def result_simps)
  then show ?thesis by (simp add: netns_close_def)
qed

lemma closed_twice:
  assumes "netns_close ops ns w = ((ns', e), w')"
  shows "netns_close ops ns' w'' = ((ns', None), w'')"
  using assms by (auto simp: netns_close_def split: option.splits if_splits prod.splits)

section \<open>Examples\<close>

text \<open>A kernel whose world is the array of counters, and which has the two programs.\<close>

definition sample_ebpf :: "(egress_map, unit, unit, string) ebpf_ops" where
  "sample_ebpf = \<lparr>eb_read_file = (\<lambda>p w. (Inr ''lockdown,bpf'', w)), eb_remove_memlock = (\<lambda>w. (Inr (), w)),
     eb_load_spec = (\<lambda>p w. (Inr (), w)), eb_has_variable = (\<lambda>s n. True), eb_set_variable = (\<lambda>s n i w. (Inr (), w)),
     eb_new_collection = (\<lambda>s w. (Inr (), w)), eb_has_program = (\<lambda>c n. True), eb_attach_lsm = (\<lambda>c n w. (Inr n, w)),
     eb_close_link = (\<lambda>l w. w), eb_close_collection = (\<lambda>c w. w), eb_has_map = (\<lambda>c n. True),
     eb_lookup = (\<lambda>c n i w. (Inr (w ! unat i), w))\<rparr>"

definition sample_deny :: "(unit, string) deny" where
  "sample_deny = \<lparr>dn_coll = Some (), dn_links = hook_programs\<rparr>"

lemma sample_counter_lookup: "i < 5 \<Longrightarrow> eb_lookup sample_ebpf () counters_map (of_nat i) w = (Inr (w ! i), w)"
  by (simp add: sample_ebpf_def unat_of_nat)

text \<open>An \<open>ip\<close> that adds the namespace and cannot bring its loopback up.\<close>

definition broken_ip :: "string set netns_ops" where
  "broken_ip = \<lparr>ns_stat = (\<lambda>p w. (Inr (), w)), ns_inode = (\<lambda>p w. (Inr 1, w)),
     ns_run = (\<lambda>argv w.
       if argv ! 2 = ''add'' then (([], None), insert (argv ! 3) w)
       else if argv ! 2 = ''del'' then (([], None), w - {argv ! 3})
       else ((''no'', Some (ExitError ''exit status 1'')), w)),
     ns_output = (\<lambda>argv w. (([], [], 0, None), w))\<rparr>"

theorem failed_create_deletes_the_namespace_witness:
  "create_netns broken_ip ''run'' {} = (Inl ''[ip netns exec run ip link set lo up]: exit status 1: no'', {}) \<and>
   (\<exists>w1. {} = snd (netns_del broken_ip ''run'' w1))"
proof -
  have c: "create_netns broken_ip ''run'' {} = (Inl ''[ip netns exec run ip link set lo up]: exit status 1: no'', {})"
    by (simp add: create_netns_def broken_ip_def netns_run_def netns_del_def or_del_def act_bind_def act_try_def act_fail_def)
  have "netns_run broken_ip [''ip'', ''netns'', ''add'', ''run''] {} = (Inr (), {''run''})"
    by (simp add: netns_run_def broken_ip_def)
  with failed_create_deletes_the_namespace [OF c] c show ?thesis by simp
qed

end
