(* ===== verification/Contained_Run.thy ===== *)
theory Contained_Run
  imports Egress Audit_Log Content_Store Go_Json_Indent
begin

text \<open>
  The contained run (\<open>cmd/contained-run\<close>): the bundle is measured, a namespace made, the
  hooks attached to it, the workload and the egress probe run inside, and the run asserts
  the contract of its own mode.  The operating system, the namespace and the hooks are
  operations on a world; the log is the model of \<open>Audit_Log\<close>.
\<close>

section \<open>Results\<close>

definition mode_control :: string where "mode_control = ''control''"
definition mode_netns_only :: string where "mode_netns_only = ''netns-only''"
definition mode_contained :: string where "mode_contained = ''contained''"

definition class_reach :: string where "class_reach = ''REACH''"
definition class_local :: string where "class_local = ''LOCAL''"
definition class_permitted :: string where "class_permitted = ''PERMITTED''"

lemma class_names [simp]:
  "class_local \<noteq> class_reach" "class_reach \<noteq> class_local" "class_permitted \<noteq> class_reach"
  "class_reach \<noteq> class_permitted" "class_permitted \<noteq> class_local" "class_local \<noteq> class_permitted"
  by (simp_all add: class_reach_def class_local_def class_permitted_def)

lemma mode_names [simp]:
  "mode_netns_only \<noteq> mode_control" "mode_control \<noteq> mode_netns_only" "mode_contained \<noteq> mode_control"
  "mode_control \<noteq> mode_contained" "mode_contained \<noteq> mode_netns_only" "mode_netns_only \<noteq> mode_contained"
  by (simp_all add: mode_control_def mode_netns_only_def mode_contained_def)

record probe =
  pb_name :: string
  pb_class :: string
  pb_reached :: bool
  pb_errno :: string
  pb_detail :: string

definition zero_probe :: probe where
  "zero_probe = \<lparr>pb_name = [], pb_class = [], pb_reached = False, pb_errno = [], pb_detail = []\<rparr>"

record run_result =
  rr_ok :: bool
  rr_mode :: string
  rr_netns_inode :: "32 word"
  rr_bpf_attached :: bool
  rr_content_root :: string
  rr_artifact :: string
  rr_probes :: "probe list"
  rr_bpf_denials :: egress_totals
  rr_reason :: string

definition new_result :: "string \<Rightarrow> run_result" where
  "new_result mode = \<lparr>rr_ok = False, rr_mode = mode, rr_netns_inode = 0, rr_bpf_attached = False, rr_content_root = [],
     rr_artifact = [], rr_probes = [], rr_bpf_denials = zero_totals, rr_reason = []\<rparr>"

definition count_denied :: "run_result \<Rightarrow> nat" where
  "count_denied r = fold (\<lambda>p n. if pb_class p = class_reach \<and> \<not> pb_reached p then n + 1 else n) (rr_probes r) 0"

section \<open>The contract of a mode\<close>

text \<open>The names the loop over the probes sorts out.\<close>

record probe_tally =
  pt_reached :: "string list"
  pt_denied :: "string list"
  pt_local_reached :: "string list"
  pt_local_denied :: "string list"
  pt_permitted_denied :: "string list"

definition zero_tally :: probe_tally where
  "zero_tally = \<lparr>pt_reached = [], pt_denied = [], pt_local_reached = [], pt_local_denied = [], pt_permitted_denied = []\<rparr>"

definition with_errno :: "probe \<Rightarrow> string" where
  "with_errno p = pb_name p @ ''('' @ pb_errno p @ '')''"

definition tally_probe :: "probe \<Rightarrow> probe_tally \<Rightarrow> probe_tally" where
  "tally_probe p t =
     (if pb_class p = class_reach then
        (if pb_reached p then t\<lparr>pt_reached := pt_reached t @ [pb_name p]\<rparr>
         else t\<lparr>pt_denied := pt_denied t @ [pb_name p]\<rparr>)
      else if pb_class p = class_local then
        (if pb_reached p then t\<lparr>pt_local_reached := pt_local_reached t @ [pb_name p]\<rparr>
         else t\<lparr>pt_local_denied := pt_local_denied t @ [with_errno p]\<rparr>)
      else if pb_class p = class_permitted then
        (if \<not> pb_reached p then t\<lparr>pt_permitted_denied := pt_permitted_denied t @ [with_errno p]\<rparr> else t)
      else t)"

definition tally_probes :: "probe list \<Rightarrow> probe_tally" where
  "tally_probes ps = fold tally_probe ps zero_tally"

definition reach_problem :: "string \<Rightarrow> probe_tally \<Rightarrow> string option" where
  "reach_problem mode t =
     (if mode = mode_control then
        (if pt_reached t = [] then
           Some (''control run reached nothing, so the probe is not exercising real egress '' @
             ''and no containment result derived from it means anything'')
         else None)
      else if mode = mode_netns_only \<or> mode = mode_contained then
        (if pt_reached t \<noteq> [] then Some (''containment leaked: '' @ join_with '', '' (pt_reached t) @ '' reached off the box'')
         else if pt_denied t = [] then Some ''no reach probes ran, so nothing was proven''
         else None)
      else None)"

definition layer_problem :: "run_result \<Rightarrow> probe_tally \<Rightarrow> string option" where
  "layer_problem r t =
     (if rr_mode r = mode_netns_only then
        (if pt_local_reached t = [] \<and> pt_local_denied t \<noteq> [] then
           Some (''netns-only refused a local send ('' @ join_with '', '' (pt_local_denied t) @
             ''), which the namespace alone cannot do; something else is enforcing and the layers can no longer be told apart'')
         else None)
      else if rr_mode r = mode_contained then
        (if pt_permitted_denied t \<noteq> [] then
           Some (''a deliberately permitted destination was refused: '' @ join_with '', '' (pt_permitted_denied t) @
             ''; the model would be unreachable from inside the boundary'')
         else if pt_local_reached t \<noteq> [] then
           Some (''the bpf hook let a local raw send through: '' @ join_with '', '' (pt_local_reached t))
         else if et_connect_denied (rr_bpf_denials r) = 0 \<and> et_sendmsg_denied (rr_bpf_denials r) = 0 then
           Some (''the bpf hooks denied nothing, so the namespace did all the work '' @
             ''and the defence-in-depth layer is unevidenced'')
         else None)
      else None)"

definition check_expectations :: "run_result \<Rightarrow> string option" where
  "check_expectations r =
     (let t = tally_probes (rr_probes r)
      in case reach_problem (rr_mode r) t of
           Some e \<Rightarrow> Some e
         | None \<Rightarrow> layer_problem r t)"

definition probes_of :: "string \<Rightarrow> bool \<Rightarrow> probe list \<Rightarrow> probe list" where
  "probes_of cls reached ps = filter (\<lambda>p. pb_class p = cls \<and> pb_reached p = reached) ps"

lemma tally_probes_lists:
  "pt_reached (tally_probes ps) = map pb_name (probes_of class_reach True ps)"
  "pt_denied (tally_probes ps) = map pb_name (probes_of class_reach False ps)"
  "pt_local_reached (tally_probes ps) = map pb_name (probes_of class_local True ps)"
  "pt_local_denied (tally_probes ps) = map with_errno (probes_of class_local False ps)"
  "pt_permitted_denied (tally_probes ps) = map with_errno (probes_of class_permitted False ps)"
proof -
  have "pt_reached (fold tally_probe ps t) = pt_reached t @ map pb_name (probes_of class_reach True ps) \<and>
    pt_denied (fold tally_probe ps t) = pt_denied t @ map pb_name (probes_of class_reach False ps) \<and>
    pt_local_reached (fold tally_probe ps t) = pt_local_reached t @ map pb_name (probes_of class_local True ps) \<and>
    pt_local_denied (fold tally_probe ps t) = pt_local_denied t @ map with_errno (probes_of class_local False ps) \<and>
    pt_permitted_denied (fold tally_probe ps t) = pt_permitted_denied t @ map with_errno (probes_of class_permitted False ps)" for t
    by (induction ps arbitrary: t) (auto simp: tally_probe_def probes_of_def)
  from this [of zero_tally] show
    "pt_reached (tally_probes ps) = map pb_name (probes_of class_reach True ps)"
    "pt_denied (tally_probes ps) = map pb_name (probes_of class_reach False ps)"
    "pt_local_reached (tally_probes ps) = map pb_name (probes_of class_local True ps)"
    "pt_local_denied (tally_probes ps) = map with_errno (probes_of class_local False ps)"
    "pt_permitted_denied (tally_probes ps) = map with_errno (probes_of class_permitted False ps)"
    by (simp_all add: tally_probes_def zero_tally_def)
qed

lemma probes_of_Nil: "probes_of cls b ps = [] \<longleftrightarrow> (\<forall>p\<in>set ps. pb_class p = cls \<longrightarrow> pb_reached p = (\<not> b))"
  by (auto simp: probes_of_def filter_empty_conv)

lemma probes_of_ex: "probes_of cls b ps \<noteq> [] \<longleftrightarrow> (\<exists>p\<in>set ps. pb_class p = cls \<and> pb_reached p = b)"
  by (auto simp: probes_of_def filter_empty_conv)

text \<open>
  C9. What a run must have shown to keep the contract of its mode: off-box probes reached
  without containment; under containment none of them reached and one tried; in the
  contained mode also every permitted destination reached, no local raw send let through and
  a denial in the kernel's own account.  A mode of another name promises nothing.
\<close>

theorem expectations_met_iff:
  "check_expectations r = None \<longleftrightarrow>
     (let ran = \<lambda>cls reached. \<exists>p\<in>set (rr_probes r). pb_class p = cls \<and> pb_reached p = reached
      in if rr_mode r = mode_control then ran class_reach True
         else if rr_mode r = mode_netns_only then
           \<not> ran class_reach True \<and> ran class_reach False \<and> \<not> (ran class_local False \<and> \<not> ran class_local True)
         else if rr_mode r = mode_contained then
           \<not> ran class_reach True \<and> ran class_reach False \<and> \<not> ran class_permitted False \<and> \<not> ran class_local True \<and>
           \<not> (et_connect_denied (rr_bpf_denials r) = 0 \<and> et_sendmsg_denied (rr_bpf_denials r) = 0)
         else True)"
  unfolding Let_def probes_of_ex [symmetric]
  by (simp add: check_expectations_def reach_problem_def layer_problem_def tally_probes_lists Let_def)

section \<open>Running\<close>

text \<open>
  What a run needs of its surroundings, in the order it uses it: the libraries, the file
  trees, the log as \<open>Open\<close> finds it, the clock and the outcome of each write to the log,
  the operations on files, the host's shell, the namespace and the hooks.
\<close>

record ('w, 'd) run_ops =
  ro_sha :: "string \<Rightarrow> string"
  ro_sort :: "mfile list \<Rightarrow> mfile list"
  ro_printable :: "nat \<Rightarrow> bool"
  ro_show_content :: "content_error \<Rightarrow> string"
  ro_show_log :: "log_error \<Rightarrow> string"
  ro_show_json :: "json_error \<Rightarrow> string"
  ro_tree :: "string \<Rightarrow> 'w \<Rightarrow> node option"
  ro_follow :: "string \<Rightarrow> 'w \<Rightarrow> follow"
  ro_open_log :: "'w \<Rightarrow> string option"
  ro_now :: "'w \<Rightarrow> string \<times> 'w"
  ro_write_log :: "'w \<Rightarrow> write_outcome \<times> 'w"
  ro_executable :: "('w, string, string) action"
  ro_abs :: "string \<Rightarrow> ('w, string, string) action"
  ro_mkdir_all :: "string \<Rightarrow> ('w, string, unit) action"
  ro_write_file :: "string \<Rightarrow> string \<Rightarrow> ('w, string, unit) action"
  ro_host :: "string list \<Rightarrow> string list \<Rightarrow> 'w \<Rightarrow> (string \<times> exec_failure option) \<times> 'w"
  ro_net :: "'w netns_ops"
  ro_attach :: "string \<Rightarrow> 32 word \<Rightarrow> ('w, string, 'd) action"
  ro_totals :: "'d option \<Rightarrow> 'w \<Rightarrow> (egress_totals \<times> string option) \<times> 'w"
  ro_detach :: "'d \<Rightarrow> 'w \<Rightarrow> 'w"

record 'w run_state =
  rs_sys :: 'w
  rs_file :: open_read
  rs_log :: audit_log

definition on_sys :: "('w \<Rightarrow> 'a \<times> 'w) \<Rightarrow> 'w run_state \<Rightarrow> 'a \<times> 'w run_state" where
  "on_sys m s = (case m (rs_sys s) of (x, w) \<Rightarrow> (x, s\<lparr>rs_sys := w\<rparr>))"

definition on_world :: "('w \<Rightarrow> 'w) \<Rightarrow> 'w run_state \<Rightarrow> 'w run_state" where
  "on_world f s = s\<lparr>rs_sys := f (rs_sys s)\<rparr>"

text \<open>An event is appended and the error of the append is not looked at.\<close>

definition log_event :: "('w, 'd) run_ops \<Rightarrow> string \<Rightarrow> string \<Rightarrow> 'w run_state \<Rightarrow> 'w run_state" where
  "log_event ops event detail s =
     (case ro_now ops (rs_sys s) of
        (ts, w1) \<Rightarrow>
          (case ro_write_log ops w1 of
             (wr, w2) \<Rightarrow>
               (case log_append (ro_sha ops) wr ts event detail
                   (rs_log s, case rs_file s of Readable f \<Rightarrow> f | _ \<Rightarrow> []) of
                  (r, (l, f)) \<Rightarrow> s\<lparr>rs_sys := w2, rs_log := l, rs_file := Readable f\<rparr>)))"

definition ev_run_start :: string where "ev_run_start = ''RUN_START''"
definition ev_run_end :: string where "ev_run_end = ''RUN_END''"
definition ev_egress_request :: string where "ev_egress_request = ''EGRESS_REQUEST''"
definition ev_egress_deny :: string where "ev_egress_deny = ''EGRESS_DENY''"

text \<open>The workload: every file of the payload is hashed into one digest.\<close>

fun read_payload :: "follow \<Rightarrow> node \<Rightarrow> mfile list \<Rightarrow> string \<Rightarrow> (string, string) result" where
  "read_payload fo root [] acc = Inr acc"
| "read_payload fo root (f # fs) acc =
     (case open_at fo root (path_elems (mf_path f)) of
        None \<Rightarrow> Inl (''open '' @ mf_path f)
      | Some c \<Rightarrow> read_payload fo root fs (acc @ c))"

definition artifact_text :: "nat \<Rightarrow> string \<Rightarrow> string" where
  "artifact_text n digest =
     ''arazu-spike-artifact'' @ [newline] @ ''files='' @ nat_dec n @ [newline] @ ''digest='' @ digest @ [newline]"

definition workload :: "('w, 'd) run_ops \<Rightarrow> string \<Rightarrow> string \<Rightarrow> ('w, string, unit) action" where
  "workload ops bundle out = (\<lambda>w.
     case measure_bundle (ro_sort ops) (ro_sha ops) (ro_tree ops bundle w) of
       Inl e \<Rightarrow> (Inl (ro_show_content ops e), w)
     | Inr (files, root) \<Rightarrow>
         (case read_payload (ro_follow ops bundle w) (the (ro_tree ops bundle w)) files [] of
            Inl e \<Rightarrow> (Inl e, w)
          | Inr bytes \<Rightarrow>
              act_bind (ro_mkdir_all ops (path_dir out)) (\<lambda>_.
                ro_write_file ops out (artifact_text (length files) (hex_encode (ro_sha ops bytes)))) w))"

definition run_workload :: "('w, 'd) run_ops \<Rightarrow> netns option \<Rightarrow> string \<Rightarrow> string \<Rightarrow> ('w, string, unit) action" where
  "run_workload ops ns bundle out =
     act_bind (ro_executable ops) (\<lambda>self.
       case ns of
         None \<Rightarrow> workload ops bundle out
       | Some n \<Rightarrow> (\<lambda>w.
           case netns_exec (ro_net ops) n [self, ''-workload-only'', ''-bundle'', bundle, ''-out'', out] w of
             ((so, se, ec, Some e), w') \<Rightarrow> (Inl e, w')
           | ((so, se, ec, None), w') \<Rightarrow>
               if ec \<noteq> 0 then (Inl (''workload exited '' @ int_dec ec @ '': '' @ se), w') else (Inr (), w')))"

definition set_bool :: "(bool \<Rightarrow> 'a \<Rightarrow> 'a) \<Rightarrow> json \<Rightarrow> 'a \<Rightarrow> 'a option" where
  "set_bool upd v x = (case v of JBool b \<Rightarrow> Some (upd b x) | JNull \<Rightarrow> Some x | _ \<Rightarrow> None)"

definition probe_setters :: "probe Go_Json.fields" where
  "probe_setters =
     [(''name'', set_string (\<lambda>s p. p\<lparr>pb_name := s\<rparr>)), (''class'', set_string (\<lambda>s p. p\<lparr>pb_class := s\<rparr>)),
      (''reached'', set_bool (\<lambda>b p. p\<lparr>pb_reached := b\<rparr>)), (''errno'', set_string (\<lambda>s p. p\<lparr>pb_errno := s\<rparr>)),
      (''detail'', set_string (\<lambda>s p. p\<lparr>pb_detail := s\<rparr>))]"

definition parse_probe :: "string \<Rightarrow> (json_error, probe) result" where
  "parse_probe line = unmarshal_struct probe_setters zero_probe line"

fun parse_probes :: "(json_error \<Rightarrow> string) \<Rightarrow> (nat \<Rightarrow> bool) \<Rightarrow> string list \<Rightarrow> (string, probe list) result" where
  "parse_probes sh pr [] = Inr []"
| "parse_probes sh pr (l # ls) =
     (let line = trim_space l
      in if line = [] \<or> \<not> has_prefix line ''{'' then parse_probes sh pr ls
         else
           (case parse_probe line of
              Inl e \<Rightarrow> Inl (''unparseable probe line '' @ go_quote pr line @ '': '' @ sh e)
            | Inr p \<Rightarrow> try_bind (parse_probes sh pr ls) (\<lambda>ps. Inr (p # ps))))"

definition run_host :: "('w, 'd) run_ops \<Rightarrow> string \<Rightarrow> ('w, string, string) action" where
  "run_host ops script = (\<lambda>w.
     case ro_host ops [''ARAZU_PROBE_SKIP_CONFIG=1''] [''/usr/bin/env'', ''bash'', script] w of
       ((so, Some (NotRun e)), w') \<Rightarrow> (Inl e, w')
     | ((so, _), w') \<Rightarrow> (Inr so, w'))"

definition run_probe :: "('w, 'd) run_ops \<Rightarrow> netns option \<Rightarrow> string \<Rightarrow> ('w, string, probe list) action" where
  "run_probe ops ns script =
     act_bind (ro_abs ops script) (\<lambda>abs.
     act_bind
       (case ns of
          None \<Rightarrow> run_host ops abs
        | Some n \<Rightarrow> (\<lambda>w.
            case netns_exec (ro_net ops) n [''/usr/bin/env'', ''bash'', abs] w of
              ((so, se, ec, Some e), w') \<Rightarrow> (Inl e, w')
            | ((so, se, ec, None), w') \<Rightarrow> (Inr so, w')))
       (\<lambda>stdout.
         case parse_probes (ro_show_json ops) (ro_printable ops) (split_char newline stdout) of
           Inl e \<Rightarrow> act_fail e
         | Inr ps \<Rightarrow>
             if ps = [] then act_fail (''probe produced no results: '' @ go_quote (ro_printable ops) stdout)
             else act_return ps))"

text \<open>The end of a run that failed: the reason goes into the result and the log.\<close>

definition end_run :: "('w, 'd) run_ops \<Rightarrow> run_result \<Rightarrow> string \<Rightarrow> string \<Rightarrow> string \<Rightarrow> 'w run_state \<Rightarrow>
    (run_result \<times> string option) \<times> 'w run_state" where
  "end_run ops r tag reason err s =
     ((r\<lparr>rr_reason := reason\<rparr>, Some err),
      log_event ops ev_run_end (''mode='' @ rr_mode r @ '' result='' @ tag @ '' reason='' @ reason) s)"

definition log_probe :: "('w, 'd) run_ops \<Rightarrow> probe \<Rightarrow> 'w run_state \<Rightarrow> 'w run_state" where
  "log_probe ops p s =
     (let s1 = log_event ops ev_egress_request (''probe='' @ pb_name p @ '' class='' @ pb_class p) s
      in if \<not> pb_reached p then
           log_event ops ev_egress_deny (''probe='' @ pb_name p @ '' errno='' @ pb_errno p @ '' detail='' @ pb_detail p) s1
         else s1)"

text \<open>The sum of the two counters wraps at 64 bits.\<close>

definition denials_text :: "egress_totals \<Rightarrow> string" where
  "denials_text t = nat_dec (unat (et_connect_denied t + et_sendmsg_denied t))"

definition run_conclude :: "('w, 'd) run_ops \<Rightarrow> 'd option \<Rightarrow> run_result \<Rightarrow> 'w run_state \<Rightarrow>
    (run_result \<times> string option) \<times> 'w run_state" where
  "run_conclude ops deny r s =
     (case (if deny \<noteq> None then on_sys (ro_totals ops deny) s else ((rr_bpf_denials r, None), s)) of
        ((t, Some e), s1) \<Rightarrow>
          ((r\<lparr>rr_bpf_denials := t, rr_reason := ''cannot read the denial counters: '' @ e\<rparr>, Some e), s1)
      | ((t, None), s1) \<Rightarrow>
          (let r1 = r\<lparr>rr_bpf_denials := t\<rparr>
           in case check_expectations r1 of
                Some e \<Rightarrow> end_run ops r1 ''expectations-unmet'' e e s1
              | None \<Rightarrow>
                  ((r1\<lparr>rr_ok := True\<rparr>, None),
                   log_event ops ev_run_end
                     (''mode='' @ rr_mode r1 @ '' result=ok reach_denied='' @ nat_dec (count_denied r1) @
                      '' bpf_denials='' @ denials_text t) s1)))"

definition run_inside :: "('w, 'd) run_ops \<Rightarrow> string \<Rightarrow> string \<Rightarrow> string \<Rightarrow> netns option \<Rightarrow> 'd option \<Rightarrow> run_result \<Rightarrow>
    'w run_state \<Rightarrow> (run_result \<times> string option) \<times> 'w run_state" where
  "run_inside ops bundle out script ns deny r s =
     (case on_sys (run_workload ops ns bundle out) s of
        (Inl e, s1) \<Rightarrow> end_run ops r ''workload-failed'' (''workload failed: '' @ e) e s1
      | (Inr u, s1) \<Rightarrow>
          (let r1 = r\<lparr>rr_artifact := out\<rparr>
           in case on_sys (run_probe ops ns script) s1 of
                (Inl e, s2) \<Rightarrow> end_run ops r1 ''probe-failed'' (''probe failed to run: '' @ e) e s2
              | (Inr ps, s2) \<Rightarrow> run_conclude ops deny (r1\<lparr>rr_probes := ps\<rparr>) (fold (log_probe ops) ps s2)))"

definition run_attached :: "('w, 'd) run_ops \<Rightarrow> string \<Rightarrow> string \<Rightarrow> string \<Rightarrow> string \<Rightarrow> netns \<Rightarrow> run_result \<Rightarrow>
    'w run_state \<Rightarrow> (run_result \<times> string option) \<times> 'w run_state" where
  "run_attached ops bundle out obj script ns r s =
     (if rr_mode r = mode_contained then
        (case on_sys (ro_attach ops obj (nn_inode ns)) s of
           (Inl e, s1) \<Rightarrow>
             end_run ops r ''attach-failed'' (''cannot attach egress denial: '' @ e) (''refusing to run uncontained: '' @ e) s1
         | (Inr d, s1) \<Rightarrow>
             (case run_inside ops bundle out script (Some ns) (Some d) (r\<lparr>rr_bpf_attached := True\<rparr>) s1 of
                (res, s2) \<Rightarrow> (res, on_world (ro_detach ops d) s2)))
      else run_inside ops bundle out script (Some ns) None r s)"

definition run_isolated :: "('w, 'd) run_ops \<Rightarrow> string \<Rightarrow> string \<Rightarrow> string \<Rightarrow> string \<Rightarrow> string \<Rightarrow> run_result \<Rightarrow>
    'w run_state \<Rightarrow> (run_result \<times> string option) \<times> 'w run_state" where
  "run_isolated ops bundle out obj script ns_name r s =
     (if rr_mode r = mode_netns_only \<or> rr_mode r = mode_contained then
        (case on_sys (create_netns (ro_net ops) ns_name) (on_world (cleanup_stale (ro_net ops) ns_name) s) of
           (Inl e, s1) \<Rightarrow> end_run ops r ''setup-failed'' (''cannot create the namespace: '' @ e) e s1
         | (Inr ns, s1) \<Rightarrow>
             (case run_attached ops bundle out obj script ns (r\<lparr>rr_netns_inode := nn_inode ns\<rparr>) s1 of
                (res, s2) \<Rightarrow> (res, on_world (\<lambda>w. snd (netns_close (ro_net ops) (Some ns) w)) s2)))
      else run_inside ops bundle out script None None r s)"

definition execute :: "('w, 'd) run_ops \<Rightarrow> string \<Rightarrow> string \<Rightarrow> string \<Rightarrow> string \<Rightarrow> string \<Rightarrow> string \<Rightarrow>
    'w run_state \<Rightarrow> (run_result \<times> string option) \<times> 'w run_state" where
  "execute ops mode bundle out obj script ns_name s =
     (let r = new_result mode
      in case measure_bundle (ro_sort ops) (ro_sha ops) (ro_tree ops bundle (rs_sys s)) of
           Inl e \<Rightarrow>
             ((r\<lparr>rr_reason := ''cannot measure the bundle: '' @ ro_show_content ops e\<rparr>, Some (ro_show_content ops e)), s)
         | Inr (files, root) \<Rightarrow>
             (let r1 = r\<lparr>rr_content_root := root\<rparr>
              in case log_open (ro_sha ops) (rs_file s) (ro_open_log ops (rs_sys s)) of
                   Inl e \<Rightarrow>
                     ((r1\<lparr>rr_reason := ''audit-log-unavailable: '' @ ro_show_log ops e\<rparr>, Some (ro_show_log ops e)), s)
                 | Inr l \<Rightarrow>
                     run_isolated ops bundle out obj script ns_name r1
                       (log_event ops ev_run_start
                         (''mode='' @ mode @ '' bundle='' @ bundle @ '' content_root='' @ root) (s\<lparr>rs_log := l\<rparr>))))"

record run_flags =
  rf_mode :: string
  rf_bundle :: string
  rf_out :: string
  rf_log :: string
  rf_obj :: string
  rf_probe :: string
  rf_ns :: string
  rf_workload_only :: bool

text \<open>What is printed, if anything, and the exit code.\<close>

definition contained_main :: "('w, 'd) run_ops \<Rightarrow> run_flags \<Rightarrow> 'w run_state \<Rightarrow> (run_result option \<times> int) \<times> 'w run_state" where
  "contained_main ops fl s =
     (if rf_workload_only fl then
        (case on_sys (workload ops (rf_bundle fl) (rf_out fl)) s of
           (Inl e, s') \<Rightarrow> ((None, 1), s')
         | (Inr u, s') \<Rightarrow> ((None, 0), s'))
      else if rf_bundle fl = [] \<or> rf_out fl = [] \<or> rf_log fl = [] then
        ((Some ((new_result (rf_mode fl))\<lparr>rr_reason := ''need -bundle, -out and -log''\<rparr>), 2), s)
      else
        (case execute ops (rf_mode fl) (rf_bundle fl) (rf_out fl) (rf_obj fl) (rf_probe fl) (rf_ns fl) s of
           ((r, None), s') \<Rightarrow> ((Some r, 0), s')
         | ((r, Some e), s') \<Rightarrow> ((Some r, 1), s')))"

section \<open>Printing\<close>

definition counter_value :: "64 word \<Rightarrow> json" where
  "counter_value n = JNum (nat_dec (unat n))"

definition totals_value :: "egress_totals \<Rightarrow> json" where
  "totals_value t =
     JObj [(''connect_denied'', counter_value (et_connect_denied t)), (''sendmsg_denied'', counter_value (et_sendmsg_denied t)),
       (''connect_seen'', counter_value (et_connect_seen t)), (''sendmsg_seen'', counter_value (et_sendmsg_seen t)),
       (''loopback_allowed'', counter_value (et_loopback_allowed t))]"

definition probe_value :: "probe \<Rightarrow> json" where
  "probe_value p =
     JObj [(''name'', JStr (pb_name p)), (''class'', JStr (pb_class p)), (''reached'', JBool (pb_reached p)),
       (''errno'', JStr (pb_errno p)), (''detail'', JStr (pb_detail p))]"

text \<open>The verdict comes first; an empty artifact or reason is left out; no probes are \<open>null\<close>.\<close>

definition result_value :: "run_result \<Rightarrow> json" where
  "result_value r =
     JObj ([(''ok'', JBool (rr_ok r)), (''mode'', JStr (rr_mode r)), (''netns_inode'', JNum (nat_dec (unat (rr_netns_inode r)))),
        (''bpf_attached'', JBool (rr_bpf_attached r)), (''content_root'', JStr (rr_content_root r))] @
       (if rr_artifact r = [] then [] else [(''artifact'', JStr (rr_artifact r))]) @
       [(''probes'', if rr_probes r = [] then JNull else JArr (map probe_value (rr_probes r))),
        (''bpf_denials'', totals_value (rr_bpf_denials r))] @
       (if rr_reason r = [] then [] else [(''reason'', JStr (rr_reason r))]))"

definition result_text :: "run_result \<Rightarrow> string" where
  "result_text r = json_indent 0 (result_value r) @ [newline]"

section \<open>What a successful run has shown\<close>

lemma on_sys_eq: "on_sys m s = (x, s') \<longleftrightarrow> (\<exists>w. m (rs_sys s) = (x, w) \<and> s' = s\<lparr>rs_sys := w\<rparr>)"
  by (auto simp: on_sys_def split: prod.splits)

lemma end_run_None: "end_run ops r tag reason err s \<noteq> ((r', None), s')"
  by (simp add: end_run_def)

lemma run_conclude_None:
  assumes "run_conclude ops deny r s = ((r', None), s')"
  shows "\<exists>t w'. (deny \<noteq> None \<longrightarrow> ro_totals ops deny (rs_sys s) = ((t, None), w')) \<and>
    r' = r\<lparr>rr_bpf_denials := t, rr_ok := True\<rparr> \<and> check_expectations (r\<lparr>rr_bpf_denials := t\<rparr>) = None"
proof (cases deny)
  case None
  with assms have "r' = r\<lparr>rr_ok := True\<rparr>" "check_expectations r = None"
    by (auto simp: run_conclude_def end_run_None Let_def split: option.splits)
  with None show ?thesis by (intro exI [of _ "rr_bpf_denials r"]) simp
next
  case (Some d)
  obtain t e w' where t: "ro_totals ops deny (rs_sys s) = ((t, e), w')" by (metis prod.collapse)
  with assms Some have "e = None" "r' = r\<lparr>rr_bpf_denials := t, rr_ok := True\<rparr>" "check_expectations (r\<lparr>rr_bpf_denials := t\<rparr>) = None"
    by (auto simp: run_conclude_def on_sys_def end_run_None Let_def split: option.splits)
  with t show ?thesis by blast
qed

definition probes_logged :: "('w, 'd) run_ops \<Rightarrow> probe list \<Rightarrow> 'w \<Rightarrow> 'w \<Rightarrow> bool" where
  "probes_logged ops ps w w' \<longleftrightarrow> (\<exists>s. rs_sys s = w \<and> w' = rs_sys (fold (log_probe ops) ps s))"

lemma check_expectations_ok: "check_expectations (r\<lparr>rr_ok := b\<rparr>) = check_expectations r"
  by (simp add: check_expectations_def layer_problem_def Let_def split: option.split)

lemma run_inside_None:
  assumes "run_inside ops bundle out script ns deny r s = ((r', None), s')"
  shows "\<exists>w1 ps w2 t w3 w4. run_workload ops ns bundle out (rs_sys s) = (Inr (), w1) \<and>
    run_probe ops ns script w1 = (Inr ps, w2) \<and> probes_logged ops ps w2 w3 \<and> (deny \<noteq> None \<longrightarrow> ro_totals ops deny w3 = ((t, None), w4)) \<and>
    r' = r\<lparr>rr_artifact := out, rr_probes := ps, rr_bpf_denials := t, rr_ok := True\<rparr> \<and> check_expectations r' = None"
proof -
  obtain w1 where w: "run_workload ops ns bundle out (rs_sys s) = (Inr (), w1)"
    using assms by (auto simp: run_inside_def on_sys_def end_run_None split: prod.splits sum.splits)
  then obtain ps w2 where p: "run_probe ops ns script w1 = (Inr ps, w2)"
    using assms by (auto simp: run_inside_def on_sys_def end_run_None Let_def split: prod.splits sum.splits)
  let ?s3 = "fold (log_probe ops) ps (s\<lparr>rs_sys := w2\<rparr>)" and ?r = "r\<lparr>rr_artifact := out, rr_probes := ps\<rparr>"
  define w3 where "w3 = rs_sys ?s3"
  from w p assms have c: "run_conclude ops deny ?r ?s3 = ((r', None), s')"
    by (simp add: run_inside_def on_sys_def Let_def)
  obtain t w4 where t: "deny \<noteq> None \<longrightarrow> ro_totals ops deny w3 = ((t, None), w4)"
      "r' = ?r\<lparr>rr_bpf_denials := t, rr_ok := True\<rparr>" "check_expectations (?r\<lparr>rr_bpf_denials := t\<rparr>) = None"
    using run_conclude_None [OF c] unfolding w3_def by blast
  have l: "probes_logged ops ps w2 w3"
    unfolding probes_logged_def w3_def by (intro exI [of _ "s\<lparr>rs_sys := w2\<rparr>"]) simp
  have "check_expectations r' = None"
    using t(3) check_expectations_ok [where b = True and r = "r\<lparr>rr_artifact := out, rr_probes := ps, rr_bpf_denials := t\<rparr>"] by (simp add: t(2))
  with w p l t show ?thesis by blast
qed

text \<open>
  A run of the contained mode: what happened, one after the other, from the state the run
  was started in to the reading of the counters.
\<close>

definition run_began :: "('w, 'd) run_ops \<Rightarrow> string \<Rightarrow> string \<Rightarrow> string \<Rightarrow> 'w run_state \<Rightarrow> 'w \<Rightarrow> bool" where
  "run_began ops bundle ns_name root s w0 \<longleftrightarrow>
     (\<exists>l. w0 = cleanup_stale (ro_net ops) ns_name (rs_sys
        (log_event ops ev_run_start (''mode='' @ mode_contained @ '' bundle='' @ bundle @ '' content_root='' @ root) (s\<lparr>rs_log := l\<rparr>))))"

definition contained_trace :: "('w, 'd) run_ops \<Rightarrow> string \<Rightarrow> string \<Rightarrow> string \<Rightarrow> string \<Rightarrow> string \<Rightarrow> 'w run_state \<Rightarrow> run_result \<Rightarrow>
    netns \<Rightarrow> 'd \<Rightarrow> 'w \<Rightarrow> 'w \<Rightarrow> 'w \<Rightarrow> bool" where
  "contained_trace ops bundle out obj script ns_name s r ns d w1 w2 w5 \<longleftrightarrow>
     (\<exists>w0 w3 w4 w6. run_began ops bundle ns_name (rr_content_root r) s w0 \<and>
        create_netns (ro_net ops) ns_name w0 = (Inr ns, w1) \<and> nn_inode ns = rr_netns_inode r \<and>
        ro_attach ops obj (nn_inode ns) w1 = (Inr d, w2) \<and> run_workload ops (Some ns) bundle out w2 = (Inr (), w3) \<and>
        run_probe ops (Some ns) script w3 = (Inr (rr_probes r), w4) \<and> probes_logged ops (rr_probes r) w4 w5 \<and>
        ro_totals ops (Some d) w5 = ((rr_bpf_denials r, None), w6))"

lemma execute_contained:
  assumes "execute ops mode_contained bundle out obj script ns_name s = ((r, None), s')"
  shows "rr_ok r \<and> rr_mode r = mode_contained \<and> rr_bpf_attached r \<and> check_expectations r = None \<and>
    (\<exists>ns d w1 w2 w5. contained_trace ops bundle out obj script ns_name s r ns d w1 w2 w5)"
proof -
  obtain files root l where root: "measure_bundle (ro_sort ops) (ro_sha ops) (ro_tree ops bundle (rs_sys s)) = Inr (files, root)"
      and l: "log_open (ro_sha ops) (rs_file s) (ro_open_log ops (rs_sys s)) = Inr l"
    using assms by (auto simp: execute_def Let_def split: sum.splits prod.splits)
  define s1 where "s1 = log_event ops ev_run_start
    (''mode='' @ mode_contained @ '' bundle='' @ bundle @ '' content_root='' @ root) (s\<lparr>rs_log := l\<rparr>)"
  define r1 where "r1 = (new_result mode_contained)\<lparr>rr_content_root := root\<rparr>"
  have i: "run_isolated ops bundle out obj script ns_name r1 s1 = ((r, None), s')"
    using assms root l unfolding execute_def Let_def s1_def r1_def by simp
  have m: "rr_mode r1 = mode_contained" "rr_content_root r1 = root" by (simp_all add: r1_def new_result_def)
  define w0 where "w0 = cleanup_stale (ro_net ops) ns_name (rs_sys s1)"
  have b: "run_began ops bundle ns_name root s w0" unfolding run_began_def w0_def s1_def by blast
  obtain ns w1 s2 where c: "create_netns (ro_net ops) ns_name w0 = (Inr ns, w1)"
      and a: "run_attached ops bundle out obj script ns (r1\<lparr>rr_netns_inode := nn_inode ns\<rparr>) (s1\<lparr>rs_sys := w1\<rparr>) = ((r, None), s2)"
    using i m by (auto simp: run_isolated_def on_sys_def on_world_def end_run_None w0_def split: prod.splits sum.splits)
  obtain d w2 s3 where d: "ro_attach ops obj (nn_inode ns) w1 = (Inr d, w2)"
      and n: "run_inside ops bundle out script (Some ns) (Some d) (r1\<lparr>rr_netns_inode := nn_inode ns, rr_bpf_attached := True\<rparr>)
        (s1\<lparr>rs_sys := w2\<rparr>) = ((r, None), s3)"
    using a m by (auto simp: run_attached_def on_sys_def end_run_None split: prod.splits sum.splits)
  from run_inside_None [OF n] obtain w3 ps w4 t w5 w6 where t: "run_workload ops (Some ns) bundle out w2 = (Inr (), w3)"
      "run_probe ops (Some ns) script w3 = (Inr ps, w4)" "probes_logged ops ps w4 w5" "ro_totals ops (Some d) w5 = ((t, None), w6)"
      "r = r1\<lparr>rr_netns_inode := nn_inode ns, rr_bpf_attached := True, rr_artifact := out, rr_probes := ps, rr_bpf_denials := t, rr_ok := True\<rparr>"
      "check_expectations r = None"
    by auto
  then have "contained_trace ops bundle out obj script ns_name s r ns d w1 w2 w5"
    using b c d m(2) unfolding contained_trace_def by (intro exI [of _ w0] exI [of _ w3] exI [of _ w4] exI [of _ w6]) simp
  then have "\<exists>ns d w1 w2 w5. contained_trace ops bundle out obj script ns_name s r ns d w1 w2 w5" by blast
  moreover have "rr_ok r \<and> rr_mode r = mode_contained \<and> rr_bpf_attached r" using t(5) m(1) by simp
  ultimately show ?thesis using t(6) by blast
qed

text \<open>
  A successful run in the contained mode: the namespace was made, both hooks attached to
  its number before anything ran in it, and then the workload and the probe ran inside; no
  off-box probe got out though at least one tried, no local raw send was let through, every
  permitted destination was reached, and the kernel's account shows a denial.
\<close>

theorem contained_success_means_contained:
  assumes "execute ops mode_contained bundle out obj script ns_name s = ((r, None), s')"
  shows "rr_ok r \<and> rr_bpf_attached r \<and>
    (\<forall>p\<in>set (rr_probes r). (pb_class p \<in> {class_reach, class_local} \<longrightarrow> \<not> pb_reached p) \<and>
       (pb_class p = class_permitted \<longrightarrow> pb_reached p)) \<and>
    (\<exists>p\<in>set (rr_probes r). pb_class p = class_reach) \<and>
    (et_connect_denied (rr_bpf_denials r) \<noteq> 0 \<or> et_sendmsg_denied (rr_bpf_denials r) \<noteq> 0) \<and>
    (\<exists>ns d w1 w2 w5. contained_trace ops bundle out obj script ns_name s r ns d w1 w2 w5)"
proof -
  note e = execute_contained [OF assms]
  have "reach_problem mode_contained (tally_probes (rr_probes r)) = None" "layer_problem r (tally_probes (rr_probes r)) = None"
    using e by (auto simp: check_expectations_def Let_def split: option.splits)
  then show ?thesis using e
    by (auto simp: reach_problem_def layer_problem_def tally_probes_lists probes_of_Nil probes_of_ex split: if_splits)
qed

text \<open>The runner over any layer that keeps the contract of \<open>Egress\<close>.\<close>

context egress_layer
begin

lemma contained_run_is_hooked:
  assumes "execute ops mode_contained bundle out obj script ns_name s = ((r, None), s')" "ro_attach ops = attach"
  shows "\<exists>ns d w1 w2 w5. contained_trace ops bundle out obj script ns_name s r ns d w1 w2 w5 \<and> rr_netns_inode r \<noteq> 0 \<and>
    attach obj (rr_netns_inode r) w1 = (Inr d, w2) \<and> hooked obj (rr_netns_inode r) d w2"
proof -
  obtain ns d w1 w2 w5 where t: "contained_trace ops bundle out obj script ns_name s r ns d w1 w2 w5"
    using execute_contained [OF assms(1)] by blast
  then have "attach obj (rr_netns_inode r) w1 = (Inr d, w2)"
    using assms(2) unfolding contained_trace_def by auto
  with attach_hooked [OF this] t show ?thesis by blast
qed

end


text \<open>
  C40. The mode is not checked: a mode of another name than the three makes no namespace,
  attaches nothing and runs the workload on the host, and the run is reported a success
  whatever the probe reached.
\<close>

theorem unknown_mode_succeeds_uncontained:
  fixes ops :: "('w, 'd) run_ops" and mode dir root :: string and l :: audit_log and s :: "'w run_state"
  defines "s0 \<equiv> log_event ops ev_run_start (''mode='' @ mode @ '' bundle='' @ dir @ '' content_root='' @ root) (s\<lparr>rs_log := l\<rparr>)"
  assumes "mode \<notin> {mode_control, mode_netns_only, mode_contained}"
    and "measure_bundle (ro_sort ops) (ro_sha ops) (ro_tree ops dir (rs_sys s)) = Inr (files, root)"
    and "log_open (ro_sha ops) (rs_file s) (ro_open_log ops (rs_sys s)) = Inr l"
    and "run_workload ops None dir out (rs_sys s0) = (Inr (), w1)" "run_probe ops None script w1 = (Inr ps, w2)"
  shows "\<exists>r s'. execute ops mode dir out obj script ns_name s = ((r, None), s') \<and> rr_ok r \<and> rr_probes r = ps \<and>
    \<not> rr_bpf_attached r \<and> rr_netns_inode r = 0"
proof -
  let ?r = "(new_result mode)\<lparr>rr_content_root := root\<rparr>"
  have "execute ops mode dir out obj script ns_name s = run_inside ops dir out script None None ?r s0"
    using assms(2-4) by (simp add: execute_def run_isolated_def s0_def new_result_def)
  also have "\<dots> = run_conclude ops None (?r\<lparr>rr_artifact := out, rr_probes := ps\<rparr>) (fold (log_probe ops) ps (s0\<lparr>rs_sys := w2\<rparr>))"
    using assms(5,6) by (simp add: run_inside_def on_sys_def Let_def)
  finally have e: "execute ops mode dir out obj script ns_name s =
      run_conclude ops None (?r\<lparr>rr_artifact := out, rr_probes := ps\<rparr>) (fold (log_probe ops) ps (s0\<lparr>rs_sys := w2\<rparr>))" .
  have "check_expectations (?r\<lparr>rr_artifact := out, rr_probes := ps\<rparr>) = None"
    using assms(2) by (simp add: check_expectations_def reach_problem_def layer_problem_def Let_def new_result_def)
  then have "check_expectations (?r\<lparr>rr_artifact := out, rr_probes := ps, rr_bpf_denials := zero_totals\<rparr>) = None"
    by (simp add: new_result_def)
  then show ?thesis unfolding e by (simp add: run_conclude_def new_result_def Let_def)
qed

text \<open>The verdict carried in the result is the one of the exit code.\<close>

definition verdict_agrees :: "(run_result \<times> string option) \<times> 'w run_state \<Rightarrow> bool" where
  "verdict_agrees x \<longleftrightarrow> (rr_ok (fst (fst x)) \<longleftrightarrow> snd (fst x) = None)"

lemma agrees_end: "\<not> rr_ok r \<Longrightarrow> verdict_agrees (end_run ops r tag reason err s)"
  by (simp add: verdict_agrees_def end_run_def)

lemma agrees_case_pair [simp]: "verdict_agrees (case x of (a, b) \<Rightarrow> (a, f b)) \<longleftrightarrow> verdict_agrees x"
  by (cases x) (simp add: verdict_agrees_def)

lemma agrees_conclude:
  assumes "\<not> rr_ok r"
  shows "verdict_agrees (run_conclude ops deny r s)"
proof -
  obtain t e s1 where t: "(if deny \<noteq> None then on_sys (ro_totals ops deny) s else ((rr_bpf_denials r, None), s)) = ((t, e), s1)"
    by (metis prod.collapse)
  show ?thesis unfolding run_conclude_def t using assms
    by (cases e; cases "check_expectations (r\<lparr>rr_bpf_denials := t\<rparr>)") (simp_all add: Let_def agrees_end, simp_all add: verdict_agrees_def)
qed

lemma agrees_inside: "\<not> rr_ok r \<Longrightarrow> verdict_agrees (run_inside ops bundle out script ns deny r s)"
  by (auto simp: run_inside_def Let_def agrees_end agrees_conclude split: prod.splits sum.splits)

lemma agrees_attached: "\<not> rr_ok r \<Longrightarrow> verdict_agrees (run_attached ops bundle out obj script ns r s)"
proof (cases "rr_mode r = mode_contained")
  case True
  obtain x s1 where "on_sys (ro_attach ops obj (nn_inode ns)) s = (x, s1)" by (metis prod.collapse)
  then show "\<not> rr_ok r \<Longrightarrow> ?thesis" using True by (cases x) (simp_all add: run_attached_def agrees_end agrees_inside)
qed (simp add: run_attached_def agrees_inside)

lemma agrees_isolated: "\<not> rr_ok r \<Longrightarrow> verdict_agrees (run_isolated ops bundle out obj script ns_name r s)"
proof (cases "rr_mode r = mode_netns_only \<or> rr_mode r = mode_contained")
  case True
  obtain x s1 where "on_sys (create_netns (ro_net ops) ns_name) (on_world (cleanup_stale (ro_net ops) ns_name) s) = (x, s1)"
    by (metis prod.collapse)
  then show "\<not> rr_ok r \<Longrightarrow> ?thesis" using True by (cases x) (simp_all add: run_isolated_def agrees_end agrees_attached)
qed (simp add: run_isolated_def agrees_inside)

lemma agrees_execute: "verdict_agrees (execute ops mode bundle out obj script ns_name s)"
proof -
  have n: "\<not> rr_ok (new_result m)" for m by (simp add: new_result_def)
  show ?thesis
    by (auto simp: execute_def Let_def agrees_isolated n split: sum.splits prod.splits) (simp_all add: verdict_agrees_def n)
qed

text \<open>
  Whatever the mode and whatever goes wrong, the result that is printed says \<open>ok\<close>
  exactly when the process exits with 0; a missing flag exits with 2.
\<close>

theorem printed_verdict_is_the_exit_code:
  assumes "contained_main ops fl s = ((Some r, ec), s')"
  shows "(rr_ok r \<longleftrightarrow> ec = 0) \<and> ec \<in> {0, 1, 2} \<and>
    (ec = 2 \<longleftrightarrow> rf_bundle fl = [] \<or> rf_out fl = [] \<or> rf_log fl = [])"
proof -
  note v = agrees_execute [of ops "rf_mode fl" "rf_bundle fl" "rf_out fl" "rf_obj fl" "rf_probe fl" "rf_ns fl" s]
  have w: "\<not> rf_workload_only fl"
    using assms by (auto simp: contained_main_def split: prod.splits sum.splits)
  show ?thesis
  proof (cases "rf_bundle fl = [] \<or> rf_out fl = [] \<or> rf_log fl = []")
    case True
    with assms w show ?thesis by (auto simp: contained_main_def new_result_def)
  next
    case False
    with assms w v show ?thesis
      by (auto simp: contained_main_def verdict_agrees_def split: prod.splits option.splits)
  qed
qed

text \<open>Runs whose log cannot be written.\<close>

definition mute :: "('w, 'd) run_ops \<Rightarrow> bool" where
  "mute ops \<longleftrightarrow> (\<forall>w. \<exists>err. fst (ro_write_log ops w) = Torn 0 err)"

definition log_text :: "'w run_state \<Rightarrow> string" where
  "log_text s = (case rs_file s of Readable f \<Rightarrow> f | _ \<Rightarrow> [])"

lemma mute_event: "mute ops \<Longrightarrow> rs_file (log_event ops ev d s) = Readable (log_text s)"
proof -
  assume m: "mute ops"
  obtain ts w1 where "ro_now ops (rs_sys s) = (ts, w1)" by (metis prod.collapse)
  moreover obtain err w2 where "ro_write_log ops w1 = (Torn 0 err, w2)" using m unfolding mute_def by (metis prod.collapse)
  ultimately show ?thesis by (simp add: log_event_def log_append_def log_text_def Let_def)
qed

lemma mute_readable: "mute ops \<Longrightarrow> rs_file s = Readable f \<Longrightarrow> rs_file (log_event ops ev d s) = Readable f"
  by (simp add: mute_event log_text_def)

lemma on_sys_file: "on_sys m s = (x, s') \<Longrightarrow> rs_file s' = rs_file s"
  by (auto simp: on_sys_eq)

lemma on_world_file [simp]: "rs_file (on_world f s) = rs_file s"
  by (simp add: on_world_def)

lemma mute_end: "mute ops \<Longrightarrow> rs_file s = Readable f \<Longrightarrow> rs_file (snd (end_run ops r tag reason err s)) = Readable f"
  by (simp add: end_run_def mute_readable)

lemma mute_probes: "mute ops \<Longrightarrow> rs_file s = Readable f \<Longrightarrow> rs_file (fold (log_probe ops) ps s) = Readable f"
  by (induction ps arbitrary: s) (simp_all add: log_probe_def Let_def mute_readable)

lemma mute_conclude:
  assumes "mute ops" "rs_file s = Readable f"
  shows "rs_file (snd (run_conclude ops deny r s)) = Readable f"
proof -
  obtain t e s1 where t: "(if deny \<noteq> None then on_sys (ro_totals ops deny) s else ((rr_bpf_denials r, None), s)) = ((t, e), s1)"
    by (metis prod.collapse)
  then have "rs_file s1 = Readable f" using assms(2) on_sys_file by (metis prod.inject)
  with t assms(1) show ?thesis unfolding run_conclude_def t
    by (auto simp: Let_def mute_end mute_readable split: option.splits)
qed

lemma mute_inside:
  assumes "mute ops" "rs_file s = Readable f"
  shows "rs_file (snd (run_inside ops bundle out script ns deny r s)) = Readable f"
  using assms
  by (auto simp: run_inside_def Let_def mute_end mute_conclude mute_probes dest!: on_sys_file split: prod.splits sum.splits)

lemma snd_case_pair: "snd (case p of (a, b) \<Rightarrow> (a, f b)) = f (snd p)"
  by (cases p) simp

lemma mute_attached:
  assumes "mute ops" "rs_file s = Readable f"
  shows "rs_file (snd (run_attached ops bundle out obj script ns r s)) = Readable f"
proof (cases "rr_mode r = mode_contained")
  case True
  obtain x s1 where x: "on_sys (ro_attach ops obj (nn_inode ns)) s = (x, s1)" by (metis prod.collapse)
  then have "rs_file s1 = Readable f" using assms(2) on_sys_file by metis
  with x True assms(1) show ?thesis by (cases x) (simp_all add: run_attached_def mute_end mute_inside snd_case_pair)
qed (simp add: run_attached_def mute_inside [OF assms])

lemma mute_isolated:
  assumes "mute ops" "rs_file s = Readable f"
  shows "rs_file (snd (run_isolated ops bundle out obj script ns_name r s)) = Readable f"
proof (cases "rr_mode r = mode_netns_only \<or> rr_mode r = mode_contained")
  case True
  obtain x s1 where x: "on_sys (create_netns (ro_net ops) ns_name) (on_world (cleanup_stale (ro_net ops) ns_name) s) = (x, s1)"
    by (metis prod.collapse)
  then have "rs_file s1 = Readable f" using assms(2) on_sys_file by (metis on_world_file)
  with x True assms(1) show ?thesis by (cases x) (simp_all add: run_isolated_def mute_end mute_attached snd_case_pair)
qed (simp add: run_isolated_def mute_inside [OF assms])

text \<open>
  The log is written without looking: when every write to it fails before its first
  byte, a run can still succeed, and the log holds nothing of it.
\<close>

theorem unrecorded_run_can_succeed:
  assumes "\<forall>w. \<exists>err. fst (ro_write_log ops w) = Torn 0 err"
    and "execute ops mode bundle out obj script ns_name s = ((r, None), s')"
  shows "rs_file s' = Readable (case rs_file s of Readable f \<Rightarrow> f | _ \<Rightarrow> [])"
proof -
  have m: "mute ops" using assms(1) by (simp add: mute_def)
  obtain r1 root l where "snd (run_isolated ops bundle out obj script ns_name r1
      (log_event ops ev_run_start (''mode='' @ mode @ '' bundle='' @ bundle @ '' content_root='' @ root) (s\<lparr>rs_log := l\<rparr>))) = s'"
    using assms(2) by (auto simp: execute_def Let_def split: sum.splits prod.splits) (metis snd_conv)
  with mute_isolated [OF m mute_event [OF m]] show ?thesis by (auto simp: log_text_def)
qed

section \<open>An example\<close>

text \<open>
  A box whose world is the list of the calls the hooks were asked about: the probe, run in
  the namespace, makes the calls of \<open>sample_calls\<close> and prints two lines.
\<close>

definition sample_netns :: "32 word" where "sample_netns = 4026531999"

definition probe_line :: "string \<Rightarrow> string \<Rightarrow> bool \<Rightarrow> string" where
  "probe_line name cls reached =
     ''{'' @ [dquote] @ ''name'' @ [dquote] @ '':'' @ [dquote] @ name @ [dquote] @ '','' @
     [dquote] @ ''class'' @ [dquote] @ '':'' @ [dquote] @ cls @ [dquote] @ '','' @
     [dquote] @ ''reached'' @ [dquote] @ '':'' @ bool_text reached @ ''}''"

definition sample_output :: string where
  "sample_output = probe_line ''tcp'' ''REACH'' False @ [newline] @ probe_line ''model'' ''PERMITTED'' True @ [newline]"

definition sample_probes :: "probe list" where
  "sample_probes = [zero_probe\<lparr>pb_name := ''tcp'', pb_class := class_reach\<rparr>,
     zero_probe\<lparr>pb_name := ''model'', pb_class := class_permitted, pb_reached := True\<rparr>]"

lemma sample_output_parses: "parse_probes sh pr (split_char newline sample_output) = Inr sample_probes"
proof -
  have "split_char newline sample_output = [probe_line ''tcp'' ''REACH'' False, probe_line ''model'' ''PERMITTED'' True, []]"
    by code_simp
  moreover have "trim_space (probe_line ''tcp'' ''REACH'' False) = probe_line ''tcp'' ''REACH'' False"
    "trim_space (probe_line ''model'' ''PERMITTED'' True) = probe_line ''model'' ''PERMITTED'' True" by code_simp+
  moreover have "parse_probe (probe_line ''tcp'' ''REACH'' False) = Inr (sample_probes ! 0)"
    "parse_probe (probe_line ''model'' ''PERMITTED'' True) = Inr (sample_probes ! 1)" by code_simp+
  moreover have "has_prefix (probe_line a b c) ''{''" "probe_line a b c \<noteq> []" for a b c by (simp_all add: probe_line_def)
  ultimately show ?thesis by (simp add: Let_def try_bind_def sample_probes_def)
qed

text \<open>A kernel whose world is the list of calls asked of the programs loaded last.\<close>

definition sample_kernel :: "(hook_call list, unit, unit, string) ebpf_ops" where
  "sample_kernel = \<lparr>eb_read_file = (\<lambda>p w. (Inr ''lockdown,bpf'', w)), eb_remove_memlock = (\<lambda>w. (Inr (), w)),
     eb_load_spec = (\<lambda>p w. (Inr (), w)), eb_has_variable = (\<lambda>s n. True), eb_set_variable = (\<lambda>s n i w. (Inr (), w)),
     eb_new_collection = (\<lambda>s w. (Inr (), [])), eb_has_program = (\<lambda>c n. True), eb_attach_lsm = (\<lambda>c n w. (Inr n, w)),
     eb_close_link = (\<lambda>l w. w), eb_close_collection = (\<lambda>c w. w), eb_has_map = (\<lambda>c n. True),
     eb_lookup = (\<lambda>c n i w. (Inr (snd (hooks sample_netns w egress_counters) ! unat i), w))\<rparr>"

definition sample_net :: "hook_call list netns_ops" where
  "sample_net = \<lparr>ns_stat = (\<lambda>p w. (Inl ''none'', w)), ns_inode = (\<lambda>p w. (Inr 4026531999, w)),
     ns_run = (\<lambda>argv w. (([], None), w)),
     ns_output = (\<lambda>argv w. if last argv = ''p.sh'' then ((sample_output, [], 0, None), w @ sample_calls) else (([], [], 0, None), w))\<rparr>"

definition sample_box :: "write_outcome \<Rightarrow> (hook_call list, (unit, string) deny) run_ops" where
  "sample_box wr = \<lparr>ro_sha = (\<lambda>s. replicate 32 CHR ''x''), ro_sort = (\<lambda>fs. fs), ro_printable = (\<lambda>n. True), ro_show_content = (\<lambda>e. []),
     ro_show_log = (\<lambda>e. []), ro_show_json = (\<lambda>e. []), ro_tree = (\<lambda>p w. Some (Dir [])), ro_follow = (\<lambda>p w. \<lambda>t ns. None),
     ro_open_log = (\<lambda>w. None), ro_now = (\<lambda>w. (''now'', w)), ro_write_log = (\<lambda>w. (wr, w)),
     ro_executable = (\<lambda>w. (Inr ''/run'', w)), ro_abs = (\<lambda>p w. (Inr p, w)), ro_mkdir_all = (\<lambda>p w. (Inr (), w)),
     ro_write_file = (\<lambda>p b w. (Inr (), w)), ro_host = (\<lambda>env argv w. ((sample_output, None), w)), ro_net = sample_net,
     ro_attach = attach_deny sample_kernel, ro_totals = deny_counters sample_kernel,
     ro_detach = (\<lambda>d w. snd (deny_close sample_kernel (Some d) w))\<rparr>"

lemma sample_box_event [simp]: "rs_sys (log_event (sample_box wr) ev d s) = rs_sys s"
  by (simp add: log_event_def sample_box_def split: prod.splits)

lemma sample_box_probes [simp]: "rs_sys (fold (log_probe (sample_box wr)) ps s) = rs_sys s"
  by (induction ps arbitrary: s) (simp_all add: log_probe_def Let_def)

lemma sample_box_ops [simp]:
  "ro_net (sample_box wr) = sample_net" "ro_attach (sample_box wr) = attach_deny sample_kernel"
  "ro_totals (sample_box wr) = deny_counters sample_kernel" "rs_sys (on_world f s) = f (rs_sys s)"
  by (simp_all add: sample_box_def on_world_def)

lemma sample_create: "create_netns sample_net ''run'' w = (Inr \<lparr>nn_name = ''run'', nn_inode = sample_netns, nn_keep = False\<rparr>, w)"
  by (simp add: create_netns_def act_bind_def netns_run_def or_del_def act_try_def act_return_def netns_inode_of_path_def
      act_wrap_def sample_net_def sample_netns_def del: path_join.simps)

lemma sample_stale: "cleanup_stale sample_net ''run'' w = w"
  by (simp add: cleanup_stale_def sample_net_def)

lemma sample_attach: "attach_deny sample_kernel obj sample_netns w = (Inr \<lparr>dn_coll = Some (), dn_links = hook_programs\<rparr>, [])"
proof -
  have "lsm_list_has_bpf ''lockdown,bpf''" by code_simp
  then show ?thesis
    by (simp add: attach_deny_def attach_prepare_def require_bpf_lsm_def sample_kernel_def act_bind_def act_wrap_def act_return_def
        hook_programs_def sample_netns_def)
qed

lemma sample_measure: "\<exists>root. measure_bundle (ro_sort (sample_box wr)) (ro_sha (sample_box wr)) (ro_tree (sample_box wr) b w) = Inr ([], root)"
  by (simp add: measure_bundle_def scan_dir_def sample_box_def try_bind_def Let_def)

lemma sample_workload:
  "run_workload (sample_box wr) (Some ns) ''b'' ''o/a'' w = (Inr (), w)"
  "run_workload (sample_box wr) None ''b'' ''o/a'' w = (Inr (), w)"
proof -
  have x: "ro_executable (sample_box wr) w = (Inr ''/run'', w)" for w by (simp add: sample_box_def)
  show "run_workload (sample_box wr) (Some ns) ''b'' ''o/a'' w = (Inr (), w)"
    by (simp add: run_workload_def act_bind_def x netns_exec_def sample_net_def)
  obtain root where m: "measure_bundle (ro_sort (sample_box wr)) (ro_sha (sample_box wr)) (ro_tree (sample_box wr) ''b'' w) = Inr ([], root)"
    using sample_measure by blast
  show "run_workload (sample_box wr) None ''b'' ''o/a'' w = (Inr (), w)"
    by (simp add: run_workload_def act_bind_def x workload_def m) (simp add: sample_box_def)
qed

lemma sample_probe_run:
  "run_probe (sample_box wr) (Some ns) ''p.sh'' w = (Inr sample_probes, w @ sample_calls)"
  "run_probe (sample_box wr) None ''p.sh'' w = (Inr sample_probes, w)"
proof -
  have x: "ro_abs (sample_box wr) p w = (Inr p, w)" for p w by (simp add: sample_box_def)
  have h: "ro_host (sample_box wr) env argv w = ((sample_output, None), w)" for env argv by (simp add: sample_box_def)
  have p: "parse_probes (ro_show_json (sample_box wr)) (ro_printable (sample_box wr)) (split_char newline sample_output) = Inr sample_probes"
    by (rule sample_output_parses)
  note p = this [unfolded newline_def]
  have n: "sample_probes \<noteq> []" by (simp add: sample_probes_def)
  show "run_probe (sample_box wr) (Some ns) ''p.sh'' w = (Inr sample_probes, w @ sample_calls)"
    by (simp add: run_probe_def act_bind_def x netns_exec_def sample_net_def p n act_return_def)
  show "run_probe (sample_box wr) None ''p.sh'' w = (Inr sample_probes, w)"
    by (simp add: run_probe_def act_bind_def x run_host_def h p n act_return_def)
qed

definition sample_state :: "hook_call list run_state" where
  "sample_state = \<lparr>rs_sys = [], rs_file = Missing, rs_log = fresh_log\<rparr>"

lemma sample_lookup:
  "i < 5 \<Longrightarrow> eb_lookup sample_kernel coll counters_map (of_nat i) w =
     (Inr (snd (hooks sample_netns w egress_counters) ! i), w)"
  by (simp add: sample_kernel_def unat_of_nat)

lemma sample_totals:
  "\<exists>t. deny_counters sample_kernel (Some \<lparr>dn_coll = Some (), dn_links = hook_programs\<rparr>) sample_calls = ((t, None), sample_calls) \<and>
     et_connect_denied t \<noteq> 0"
proof -
  have "eb_has_map sample_kernel () counters_map" by (simp add: sample_kernel_def)
  from counters_read [of sample_kernel "()" "\<lambda>w. snd (hooks sample_netns w egress_counters)", OF sample_lookup this]
  have "deny_counters sample_kernel (Some \<lparr>dn_coll = Some (), dn_links = hook_programs\<rparr>) sample_calls =
      ((\<lparr>et_connect_denied = snd (hooks sample_netns sample_calls egress_counters) ! ctr_connect_denied,
        et_sendmsg_denied = snd (hooks sample_netns sample_calls egress_counters) ! ctr_sendmsg_denied,
        et_connect_seen = snd (hooks sample_netns sample_calls egress_counters) ! ctr_connect_seen,
        et_sendmsg_seen = snd (hooks sample_netns sample_calls egress_counters) ! ctr_sendmsg_seen,
        et_loopback_allowed = snd (hooks sample_netns sample_calls egress_counters) ! ctr_loopback_allowed\<rparr>, None), sample_calls)"
    by simp
  moreover have "snd (hooks sample_netns sample_calls egress_counters) ! ctr_connect_denied \<noteq> 0" by code_simp
  ultimately show ?thesis by simp
qed

lemma sample_run:
  "\<exists>r s'. execute (sample_box wr) mode_contained ''b'' ''o/a'' ''obj'' ''p.sh'' ''run'' sample_state = ((r, None), s') \<and>
     rr_netns_inode r = sample_netns"
proof -
  let ?ops = "sample_box wr" and ?ns = "\<lparr>nn_name = ''run'', nn_inode = sample_netns, nn_keep = False\<rparr>"
  let ?d = "\<lparr>dn_coll = Some (), dn_links = hook_programs\<rparr> :: (unit, string) deny"
  obtain root where m: "measure_bundle (ro_sort ?ops) (ro_sha ?ops) (ro_tree ?ops ''b'' (rs_sys sample_state)) = Inr ([], root)"
    using sample_measure by blast
  have l: "log_open (ro_sha ?ops) (rs_file sample_state) (ro_open_log ?ops (rs_sys sample_state)) = Inr fresh_log"
    by (simp add: log_open_def sample_state_def sample_box_def try_bind_def)
  obtain t where t: "deny_counters sample_kernel (Some ?d) sample_calls = ((t, None), sample_calls)" "et_connect_denied t \<noteq> 0"
    using sample_totals by blast
  have c: "\<exists>r' s'. run_conclude ?ops (Some ?d) r s = ((r', None), s') \<and> rr_netns_inode r' = rr_netns_inode r"
    if "rr_mode r = mode_contained" "rr_probes r = sample_probes" "rs_sys s = sample_calls" for r s
  proof -
    have "check_expectations (r\<lparr>rr_bpf_denials := t\<rparr>) = None"
      unfolding check_expectations_def Let_def tally_probes_def that run_result.simps
      by (simp add: that t(2) sample_probes_def tally_probe_def zero_tally_def zero_probe_def reach_problem_def layer_problem_def)
    then show ?thesis by (simp add: run_conclude_def on_sys_def that t(1) Let_def)
  qed
  have i: "\<exists>r' s'. run_inside ?ops ''b'' ''o/a'' ''p.sh'' (Some ?ns) (Some ?d) r s = ((r', None), s') \<and> rr_netns_inode r' = rr_netns_inode r"
    if "rr_mode r = mode_contained" "rs_sys s = []" for r s
    using that c [of "r\<lparr>rr_artifact := ''o/a'', rr_probes := sample_probes\<rparr>"]
    by (simp add: run_inside_def on_sys_def sample_workload sample_probe_run Let_def)
  have a: "\<exists>r' s'. run_attached ?ops ''b'' ''o/a'' ''obj'' ''p.sh'' ?ns r s = ((r', None), s') \<and> rr_netns_inode r' = rr_netns_inode r"
    if h: "rr_mode r = mode_contained" "rs_sys s = []" for r s
  proof -
    obtain r' s' where "run_inside ?ops ''b'' ''o/a'' ''p.sh'' (Some ?ns) (Some ?d) (r\<lparr>rr_bpf_attached := True\<rparr>)
          (s\<lparr>rs_sys := []\<rparr>) = ((r', None), s')"
        "rr_netns_inode r' = rr_netns_inode r"
      using i [of "r\<lparr>rr_bpf_attached := True\<rparr>" "s\<lparr>rs_sys := []\<rparr>"] h by auto
    with h show ?thesis by (simp add: run_attached_def on_sys_def sample_attach)
  qed
  have "\<exists>r' s'. run_isolated ?ops ''b'' ''o/a'' ''obj'' ''p.sh'' ''run'' r s = ((r', None), s') \<and> rr_netns_inode r' = sample_netns"
    if h: "rr_mode r = mode_contained" "rs_sys s = []" for r s
  proof -
    obtain r' s' where "run_attached ?ops ''b'' ''o/a'' ''obj'' ''p.sh'' ?ns (r\<lparr>rr_netns_inode := sample_netns\<rparr>)
          (s\<lparr>rs_sys := []\<rparr>) = ((r', None), s')"
        "rr_netns_inode r' = sample_netns"
      using a [of "r\<lparr>rr_netns_inode := sample_netns\<rparr>" "s\<lparr>rs_sys := []\<rparr>"] h by auto
    with h show ?thesis by (simp add: run_isolated_def on_sys_def on_world_def sample_stale sample_create)
  qed
  then show ?thesis using m l by (simp add: execute_def Let_def new_result_def sample_state_def)
qed

theorem contained_success_means_contained_witness:
  "\<exists>r s' ns d w1 w2 w5. execute (sample_box Written) mode_contained ''b'' ''o/a'' ''obj'' ''p.sh'' ''run'' sample_state = ((r, None), s') \<and>
     rr_ok r \<and> rr_netns_inode r = 4026531999 \<and>
     contained_trace (sample_box Written) ''b'' ''o/a'' ''obj'' ''p.sh'' ''run'' sample_state r ns d w1 w2 w5"
proof -
  obtain r s' where r: "execute (sample_box Written) mode_contained ''b'' ''o/a'' ''obj'' ''p.sh'' ''run'' sample_state = ((r, None), s')"
      "rr_netns_inode r = sample_netns"
    using sample_run by blast
  from contained_success_means_contained [OF r(1)] r show ?thesis unfolding sample_netns_def by blast
qed


theorem unrecorded_run_can_succeed_witness:
  "\<exists>r s'. execute (sample_box (Torn 0 ''disk full'')) mode_contained ''b'' ''o/a'' ''obj'' ''p.sh'' ''run'' sample_state = ((r, None), s') \<and>
     rs_file s' = Readable []"
proof -
  obtain r s' where r: "execute (sample_box (Torn 0 ''disk full'')) mode_contained ''b'' ''o/a'' ''obj'' ''p.sh'' ''run'' sample_state =
      ((r, None), s')"
    using sample_run by blast
  have "\<forall>w. \<exists>err. fst (ro_write_log (sample_box (Torn 0 ''disk full'')) w) = Torn 0 err" by (simp add: sample_box_def)
  from unrecorded_run_can_succeed [OF this r] r show ?thesis by (simp add: sample_state_def)
qed

theorem unknown_mode_succeeds_uncontained_witness:
  "\<exists>r s'. execute (sample_box Written) ''containd'' ''b'' ''o/a'' ''obj'' ''p.sh'' ''run'' sample_state = ((r, None), s') \<and>
     rr_ok r \<and> \<not> rr_bpf_attached r"
proof -
  obtain root where m: "measure_bundle (ro_sort (sample_box Written)) (ro_sha (sample_box Written))
      (ro_tree (sample_box Written) ''b'' (rs_sys sample_state)) = Inr ([], root)"
    using sample_measure by blast
  have u: "''containd'' \<notin> {mode_control, mode_netns_only, mode_contained}"
    by (simp add: mode_control_def mode_netns_only_def mode_contained_def)
  have l: "log_open (ro_sha (sample_box Written)) (rs_file sample_state) (ro_open_log (sample_box Written) (rs_sys sample_state)) = Inr fresh_log"
    by (simp add: log_open_def sample_state_def sample_box_def try_bind_def)
  from unknown_mode_succeeds_uncontained [OF u m l sample_workload(2) sample_probe_run(2)] show ?thesis by blast
qed

definition sample_flags :: run_flags where
  "sample_flags = \<lparr>rf_mode = mode_contained, rf_bundle = ''b'', rf_out = ''o/a'', rf_log = ''log'', rf_obj = ''obj'', rf_probe = ''p.sh'',
     rf_ns = ''run'', rf_workload_only = False\<rparr>"

theorem printed_verdict_is_the_exit_code_witness:
  "\<exists>r s'. contained_main (sample_box Written) sample_flags sample_state = ((Some r, 0), s') \<and> rr_ok r"
proof -
  obtain r s' where "execute (sample_box Written) mode_contained ''b'' ''o/a'' ''obj'' ''p.sh'' ''run'' sample_state = ((r, None), s')"
    using sample_run by blast
  then have m: "contained_main (sample_box Written) sample_flags sample_state = ((Some r, 0), s')"
    by (simp add: contained_main_def sample_flags_def)
  from printed_verdict_is_the_exit_code [OF this] m show ?thesis by blast
qed

end
