(* ===== verification/Host_Capabilities.thy ===== *)
theory Host_Capabilities
  imports Egress Go_Encoding
begin

text \<open>
  The capability matrix of a host (\<open>pkg/hostcap\<close>, printed by \<open>cmd/arazu-env\<close>): what is
  probed, which rows are required, and the verdict.  The host is a record of what each probe
  of the operating system finds.
\<close>

unbundle bit_operations_syntax

section \<open>The report\<close>

record host_check =
  hk_name :: string
  hk_ok :: bool
  hk_required :: bool
  hk_detail :: string
  hk_remedy :: string

record host_report =
  hr_checks :: "host_check list"
  hr_egress_backend :: string
  hr_tpm_device :: string
  hr_ok :: bool

definition empty_report :: host_report where
  "empty_report = \<lparr>hr_checks = [], hr_egress_backend = [], hr_tpm_device = [], hr_ok = False\<rparr>"

fun required_ok :: "host_check list \<Rightarrow> bool" where
  "required_ok [] = True"
| "required_ok (c # cs) = (if hk_required c \<and> \<not> hk_ok c then False else required_ok cs)"

definition finalise :: "host_report \<Rightarrow> host_report" where
  "finalise r = r\<lparr>hr_ok := required_ok (hr_checks r)\<rparr>"

definition add_check :: "string \<Rightarrow> bool \<Rightarrow> bool \<Rightarrow> string \<Rightarrow> string \<Rightarrow> host_report \<Rightarrow> host_report" where
  "add_check name required ok detail remedy r =
     r\<lparr>hr_checks := hr_checks r @
       [\<lparr>hk_name = name, hk_ok = ok, hk_required = required, hk_detail = detail, hk_remedy = (if \<not> ok then remedy else [])\<rparr>]\<rparr>"

lemma required_ok_iff: "required_ok cs \<longleftrightarrow> (\<forall>c\<in>set cs. hk_required c \<longrightarrow> hk_ok c)"
  by (induction cs) auto

lemma required_ok_append [simp]: "required_ok (cs @ ds) \<longleftrightarrow> required_ok cs \<and> required_ok ds"
  by (auto simp: required_ok_iff)

section \<open>Probing\<close>

text \<open>
  The host: the files read with the errors of reading them, the effective user, the device
  number of a path, the commands on the path, the devices that open for reading and writing,
  and what \<open>tpm2_pcrread\<close> on a device prints and whether it succeeds.
\<close>

record host =
  ho_lsm :: "(string, string) result"
  ho_status :: "(string, string) result"
  ho_euid :: int
  ho_device :: "string \<Rightarrow> 64 word option"
  ho_tool :: "string \<Rightarrow> bool"
  ho_btf :: "string option"
  ho_opens :: "string \<Rightarrow> bool"
  ho_pcrread :: "string \<Rightarrow> string \<times> bool"

definition missing_tools :: "host \<Rightarrow> string list \<Rightarrow> string list" where
  "missing_tools h names = filter (\<lambda>n. \<not> ho_tool h n) names"

definition have_all :: "host \<Rightarrow> string list \<Rightarrow> string \<times> bool" where
  "have_all h names =
     (let missing = missing_tools h names
      in if missing \<noteq> [] then (''missing: '' @ join_with '', '' missing, False) else (''all present'', True))"

definition last_line :: "string \<Rightarrow> string" where
  "last_line s = last (split_char newline (trim_space s))"

definition is_mountpoint :: "host \<Rightarrow> string \<Rightarrow> bool" where
  "is_mountpoint h path =
     (case ho_device h path of
        None \<Rightarrow> False
      | Some d \<Rightarrow> (case ho_device h (path @ ''/..'') of None \<Rightarrow> False | Some p \<Rightarrow> d \<noteq> p))"

text \<open>The first TPM device that opens.\<close>

definition tpm_devices :: "string list" where "tpm_devices = [''/dev/tpmrm0'', ''/dev/tpm0'']"

definition tpm_device :: "host \<Rightarrow> string" where
  "tpm_device h = (case filter (ho_opens h) tpm_devices of [] \<Rightarrow> [] | d # ds \<Rightarrow> d)"

definition has_tpm :: "host \<Rightarrow> bool" where
  "has_tpm h = list_ex (ho_opens h) tpm_devices"

text \<open>\<open>strconv.ParseUint\<close> in base 16 and 64 bits.\<close>

fun hex_digits_from :: "nat \<Rightarrow> string \<Rightarrow> nat option" where
  "hex_digits_from n [] = Some n"
| "hex_digits_from n (c # s) = (case hex_val c of None \<Rightarrow> None | Some d \<Rightarrow> hex_digits_from (16 * n + d) s)"

definition parse_hex64 :: "string \<Rightarrow> 64 word option" where
  "parse_hex64 s =
     (if s = [] then None
      else (case hex_digits_from 0 s of None \<Rightarrow> None | Some n \<Rightarrow> if n < 2 ^ 64 then Some (of_nat n) else None))"

definition cap_sys_admin :: nat where "cap_sys_admin = 21"

fun cap_line :: "int \<Rightarrow> string list \<Rightarrow> bool" where
  "cap_line euid [] = (euid = 0)"
| "cap_line euid (l # ls) =
     (if \<not> has_prefix l ''CapEff:'' then cap_line euid ls
      else
        (case parse_hex64 (trim_space (drop (length ''CapEff:'') l)) of
           None \<Rightarrow> (euid = 0)
         | Some v \<Rightarrow> v AND push_bit cap_sys_admin 1 \<noteq> 0))"

definition has_sys_admin :: "host \<Rightarrow> bool" where
  "has_sys_admin h =
     (case ho_status h of
        Inl e \<Rightarrow> (ho_euid h = 0)
      | Inr b \<Rightarrow> cap_line (ho_euid h) (split_char newline b))"

definition privilege :: "bool \<Rightarrow> int \<Rightarrow> bool \<times> string" where
  "privilege admin euid = (admin, ''euid='' @ int_dec euid @ '' cap_sys_admin='' @ bool_text admin)"

text \<open>The rows, in the order of the probe.\<close>

definition probe_lsm :: "host \<Rightarrow> host_report \<Rightarrow> host_report" where
  "probe_lsm h r =
     (case ho_lsm h of
        Inl e \<Rightarrow>
          add_check ''kernel-bpf-lsm'' True False (''cannot read /sys/kernel/security/lsm: '' @ e)
            ''mount securityfs, or the kernel lacks LSM support'' r
      | Inr lsm \<Rightarrow>
          if lsm_list_has_bpf lsm then
            (add_check ''kernel-bpf-lsm'' True True (''active LSMs: '' @ trim_space lsm) [] r)\<lparr>hr_egress_backend := ''bpf-lsm''\<rparr>
          else
            add_check ''kernel-bpf-lsm'' True False (''bpf absent from active LSMs: '' @ trim_space lsm)
              ''add bpf to the kernel lsm= cmdline and reboot; this spike implements only the bpf-lsm backend''
              (r\<lparr>hr_egress_backend := ''cgroup-connect''\<rparr>))"

definition probe_tools :: "host \<Rightarrow> bool \<Rightarrow> string \<Rightarrow> string list \<Rightarrow> string \<Rightarrow> host_report \<Rightarrow> host_report" where
  "probe_tools h required name tools remedy r =
     (case have_all h tools of (d, ok) \<Rightarrow> add_check name required ok d remedy r)"

definition probe_btf :: "host \<Rightarrow> host_report \<Rightarrow> host_report" where
  "probe_btf h r =
     (case ho_btf h of
        None \<Rightarrow> add_check ''btf'' True True ''/sys/kernel/btf/vmlinux readable'' [] r
      | Some e \<Rightarrow> add_check ''btf'' True False e ''kernel needs CONFIG_DEBUG_INFO_BTF=y'' r)"

definition tpm_tools :: "string list" where
  "tpm_tools = [''tpm2_pcrread'', ''tpm2_pcrextend'', ''tpm2_pcrreset'', ''tpm2_createprimary'', ''tpm2_create'', ''tpm2_load'',
     ''tpm2_unseal'', ''tpm2_startauthsession'', ''tpm2_policypcr'', ''tpm2_flushcontext'']"

definition probe_tpm :: "host \<Rightarrow> host_report \<Rightarrow> host_report" where
  "probe_tpm h r =
     (let dev = tpm_device h;
          r1 = add_check ''tpm-device'' True (dev \<noteq> []) (''device: '' @ dev)
                 ''no usable TPM; add the user to group tss or run as root'' (r\<lparr>hr_tpm_device := dev\<rparr>);
          r2 = probe_tools h True ''tpm2-tools'' tpm_tools ''install tpm2-tools'' r1
      in if dev \<noteq> [] \<and> snd (have_all h tpm_tools) then
           (case ho_pcrread h dev of
              (out, ok) \<Rightarrow>
                add_check ''tpm-pcr23-readable'' True ok (trim_space (last_line out))
                  (''the TPM did not answer a PCR read; check permissions on '' @ dev) r2)
         else
           add_check ''tpm-pcr23-readable'' True False ''skipped: no TPM device or tpm2-tools''
             ''resolve the tpm-device and tpm2-tools checks first'' r2)"

definition em_dash :: string where "em_dash = [CHR 0xE2, CHR 0x80, CHR 0x94]"

definition optional_rows :: "(string \<times> string list \<times> string) list" where
  "optional_rows =
     [(''grade:podman'', [''podman''], ''install podman '' @ em_dash @ '' needed to build and run challenge targets''),
      (''grade:prove'', [''prove''], ''install perl TAP::Harness '' @ em_dash @ '' the nginx suite the grader diffs against baseline''),
      (''grade:yq'', [''yq''], ''install yq '' @ em_dash @ '' grade-patch.sh reads project.yaml with it''),
      (''grade:jq'', [''jq''], ''install jq '' @ em_dash @ '' the grader builds its JSON verdict with it''),
      (''model:jq-xxd'', [''jq'', ''xxd''], ''install jq and xxd '' @ em_dash @ '' used by corpus/local-model-yield.sh''),
      (''model:ollama'', [''ollama''], ''install ollama and pull a model '' @ em_dash @ '' only for the local-model tier''),
      (''crs:cluster'', [''minikube'', ''kubectl'', ''helm''], ''install minikube, kubectl and helm '' @ em_dash @ '' only to run the Buttercup CRS'')]"

definition probe_optional :: "host \<Rightarrow> host_report \<Rightarrow> host_report" where
  "probe_optional h r = fold (\<lambda>(name, tools, remedy). probe_tools h False name tools remedy) optional_rows r"

definition probe_root :: "host \<Rightarrow> host_report \<Rightarrow> host_report" where
  "probe_root h r =
     (case privilege (has_sys_admin h) (ho_euid h) of
        (ok, d) \<Rightarrow> add_check ''root'' True ok d ''run under sudo: netns creation and LSM attach need CAP_SYS_ADMIN'' r)"

definition probe_host :: "host \<Rightarrow> host_report" where
  "probe_host h =
     (let r = probe_lsm h empty_report;
          r = add_check ''bpffs'' True (is_mountpoint h ''/sys/fs/bpf'') ''/sys/fs/bpf'' ''mount -t bpf bpf /sys/fs/bpf'' r;
          r = probe_tools h True ''netns-tools'' [''ip'', ''unshare''] ''install iproute2 and util-linux'' r;
          r = probe_tools h True ''clang'' [''clang''] ''install clang'' r;
          r = probe_tools h True ''bpftool'' [''bpftool''] ''install bpftool'' r;
          r = probe_btf h r;
          r = probe_tpm h r;
          r = probe_tools h True ''python3'' [''python3''] ''install python3 (used by the egress probe)'' r;
          r = probe_tools h True ''git'' [''git''] ''install git (needed to stage the corpus)'' r;
          r = probe_optional h r
      in finalise (probe_root h r))"

definition env_exit :: "host_report \<Rightarrow> int" where
  "env_exit r = (if hr_ok r then 0 else 1)"

section \<open>The verdict\<close>

lemma finalise_ok: "hr_ok (finalise r) \<longleftrightarrow> required_ok (hr_checks r)"
  by (simp add: finalise_def)

lemma have_all_iff: "snd (have_all h names) \<longleftrightarrow> (\<forall>n\<in>set names. ho_tool h n)"
  by (auto simp: have_all_def missing_tools_def Let_def filter_empty_conv)

lemma required_add [simp]:
  "required_ok (hr_checks (add_check name req ok detail remedy r)) \<longleftrightarrow> required_ok (hr_checks r) \<and> (req \<longrightarrow> ok)"
  by (simp add: add_check_def)

lemma required_tools [simp]:
  "required_ok (hr_checks (probe_tools h req name tools remedy r)) \<longleftrightarrow>
     required_ok (hr_checks r) \<and> (req \<longrightarrow> (\<forall>n\<in>set tools. ho_tool h n))"
proof -
  obtain d ok where "have_all h tools = (d, ok)" by (metis prod.collapse)
  then show ?thesis using have_all_iff [of h tools] by (simp add: probe_tools_def)
qed

lemma required_optional [simp]: "required_ok (hr_checks (probe_optional h r)) \<longleftrightarrow> required_ok (hr_checks r)"
proof -
  have "required_ok (hr_checks (fold (\<lambda>(name, tools, remedy). probe_tools h False name tools remedy) rows r)) \<longleftrightarrow>
      required_ok (hr_checks r)" for rows
    by (induction rows arbitrary: r) (simp_all only: fold_simps split_beta required_tools o_apply simp_thms)
  from this [of optional_rows] show ?thesis unfolding probe_optional_def .
qed

lemma required_lsm: "required_ok (hr_checks (probe_lsm h r)) \<longleftrightarrow>
    required_ok (hr_checks r) \<and> (\<exists>lsm. ho_lsm h = Inr lsm \<and> lsm_list_has_bpf lsm)"
  by (auto simp: probe_lsm_def split: sum.splits)

lemma required_btf: "required_ok (hr_checks (probe_btf h r)) \<longleftrightarrow> required_ok (hr_checks r) \<and> ho_btf h = None"
  by (auto simp: probe_btf_def split: option.splits)

lemma tpm_device_found: "tpm_device h \<noteq> [] \<longleftrightarrow> has_tpm h"
  by (auto simp: tpm_device_def has_tpm_def tpm_devices_def)

lemma required_tpm: "required_ok (hr_checks (probe_tpm h r)) \<longleftrightarrow>
    required_ok (hr_checks r) \<and> has_tpm h \<and> (\<forall>n\<in>set tpm_tools. ho_tool h n) \<and> snd (ho_pcrread h (tpm_device h))"
proof -
  have u: "hr_checks (r\<lparr>hr_tpm_device := d\<rparr>) = hr_checks r" for d by simp
  obtain out ok where p: "ho_pcrread h (tpm_device h) = (out, ok)" by (metis prod.collapse)
  show ?thesis
    using tpm_device_found [of h] have_all_iff [of h tpm_tools]
    by (simp only: probe_tpm_def Let_def p prod.case required_add required_tools u snd_conv split: if_split) blast
qed

lemma required_root: "required_ok (hr_checks (probe_root h r)) \<longleftrightarrow> required_ok (hr_checks r) \<and> has_sys_admin h"
  by (simp add: probe_root_def privilege_def)

text \<open>
  The matrix is green exactly when the host can build and attach the envelope: the bpf
  LSM is in the active list, bpffs is mounted, the tools and the kernel's type information
  are there, a TPM opens and answers a PCR read, and the process has CAP_SYS_ADMIN.  No
  optional row matters.
\<close>

theorem host_is_green_iff:
  "hr_ok (probe_host h) \<longleftrightarrow>
     (\<exists>lsm. ho_lsm h = Inr lsm \<and> lsm_list_has_bpf lsm) \<and> is_mountpoint h ''/sys/fs/bpf'' \<and>
     (\<forall>n\<in>{''ip'', ''unshare'', ''clang'', ''bpftool'', ''python3'', ''git''} \<union> set tpm_tools. ho_tool h n) \<and>
     ho_btf h = None \<and> (\<exists>d\<in>set tpm_devices. ho_opens h d) \<and> snd (ho_pcrread h (tpm_device h)) \<and> has_sys_admin h"
proof -
  have e: "required_ok (hr_checks empty_report)" by (simp add: empty_report_def)
  have t: "has_tpm h \<longleftrightarrow> (\<exists>d\<in>set tpm_devices. ho_opens h d)" by (simp add: has_tpm_def list_ex_iff)
  have "hr_ok (probe_host h) \<longleftrightarrow> required_ok (hr_checks empty_report) \<and> (\<exists>lsm. ho_lsm h = Inr lsm \<and> lsm_list_has_bpf lsm) \<and>
      is_mountpoint h ''/sys/fs/bpf'' \<and> (\<forall>n\<in>set [''ip'', ''unshare'']. ho_tool h n) \<and> (\<forall>n\<in>set [''clang'']. ho_tool h n) \<and>
      (\<forall>n\<in>set [''bpftool'']. ho_tool h n) \<and> ho_btf h = None \<and>
      (has_tpm h \<and> (\<forall>n\<in>set tpm_tools. ho_tool h n) \<and> snd (ho_pcrread h (tpm_device h))) \<and>
      (\<forall>n\<in>set [''python3'']. ho_tool h n) \<and> (\<forall>n\<in>set [''git'']. ho_tool h n) \<and> has_sys_admin h"
    unfolding probe_host_def Let_def finalise_ok
    by (simp only: host_report.simps required_add required_tools required_optional required_lsm required_btf required_tpm
        required_root simp_thms conj_assoc)
  then show ?thesis unfolding t by (simp only: e list.set ball_simps ball_Un simp_thms conj_ac)
qed

section \<open>The privilege\<close>

text \<open>A status file of lines without the capability, the capability line and the rest.\<close>

lemma cap_line_skip: "\<forall>l\<in>set ls. \<not> has_prefix l ''CapEff:'' \<Longrightarrow> cap_line euid (ls @ ls') = cap_line euid ls'"
  by (induction ls) auto

text \<open>
  Where the status file gives an effective set of capabilities, the answer is bit 21
  of it and nothing else: not the user, root without the capability included.
\<close>

theorem privilege_is_bit_21:
  assumes "ho_status h = Inr b" "split_char newline b = ls @ (''CapEff:'' @ x) # ls'"
    and "\<forall>l\<in>set ls. \<not> has_prefix l ''CapEff:''" "parse_hex64 (trim_space x) = Some v"
  shows "has_sys_admin h \<longleftrightarrow> odd (unat v div 2 ^ 21)"
proof -
  have "has_sys_admin h \<longleftrightarrow> v AND push_bit 21 1 \<noteq> 0"
    using assms by (simp add: has_sys_admin_def cap_line_skip cap_sys_admin_def has_prefix_iff)
  also have "\<dots> \<longleftrightarrow> bit v 21" by (simp only: push_bit_of_1 and_exp_eq_0_iff_not_bit not_not)
  also have "\<dots> \<longleftrightarrow> odd (unat v div 2 ^ 21)" using bit_iff_odd [of "unat v" 21] by (simp add: bit_unsigned_iff)
  finally show ?thesis .
qed

definition sample_host :: "int \<Rightarrow> string \<Rightarrow> host" where
  "sample_host euid caps = \<lparr>ho_lsm = Inr ''lockdown,bpf'', ho_status = Inr (''Name: x'' @ [newline] @ ''CapEff: '' @ caps),
     ho_euid = euid, ho_device = (\<lambda>p. None), ho_tool = (\<lambda>n. True), ho_btf = None, ho_opens = (\<lambda>d. True),
     ho_pcrread = (\<lambda>d. ([], True))\<rparr>"

theorem privilege_is_bit_21_witness:
  "\<not> has_sys_admin (sample_host 0 ''00000000a80425fb'') \<and> has_sys_admin (sample_host 1000 ''0000000000200000'')"
proof -
  have a: "split_char newline (''Name: x'' @ [newline] @ ''CapEff: '' @ ''00000000a80425fb'') =
      [''Name: x''] @ (''CapEff:'' @ '' 00000000a80425fb'') # []"
    and b: "split_char newline (''Name: x'' @ [newline] @ ''CapEff: '' @ ''0000000000200000'') =
      [''Name: x''] @ (''CapEff:'' @ '' 0000000000200000'') # []" by code_simp+
  have "trim_space '' 00000000a80425fb'' = ''00000000a80425fb''" "trim_space '' 0000000000200000'' = ''0000000000200000''"
    by code_simp+
  moreover have "hex_digits_from 0 ''00000000a80425fb'' = Some 0xa80425fb" "hex_digits_from 0 ''0000000000200000'' = Some 0x200000"
    by (simp_all add: hex_val_def is_digit_nat less_eq_char_def)
  ultimately have p: "parse_hex64 (trim_space '' 00000000a80425fb'') = Some 0xa80425fb"
    "parse_hex64 (trim_space '' 0000000000200000'') = Some 0x200000"
    by (simp_all add: parse_hex64_def)
  have n: "\<forall>l\<in>set [''Name: x'']. \<not> has_prefix l ''CapEff:''" by code_simp
  have st: "ho_status (sample_host euid caps) = Inr (''Name: x'' @ [newline] @ ''CapEff: '' @ caps)" for euid caps
    by (simp add: sample_host_def)
  from privilege_is_bit_21 [OF st a n p(1)] privilege_is_bit_21 [OF st b n p(2)] show ?thesis by simp
qed

end
