(* ===== verification/Tpm_Seal.thy ===== *)
theory Tpm_Seal
  imports Os_Exec Go_Encoding
begin

text \<open>
  Sealing to a measurement (\<open>pkg/tpmseal\<close>): under a lock, PCR 23 is reset, extended with the
  content root and read back; a secret is sealed under a policy over that state and released
  only in it.  The TPM is reached by running the tpm2 tools, which are operations on a world;
  SHA-256 and the lower case of Unicode are parameters.
\<close>

section \<open>The tools and the lock\<close>

datatype tpm_error =
    PolicyMismatch string
  | TpmError string

definition policy_mismatch :: string where "policy_mismatch = ''measured-state-mismatch''"

fun tpm_error_text :: "tpm_error \<Rightarrow> string" where
  "tpm_error_text (PolicyMismatch s) = policy_mismatch @ '': '' @ s"
| "tpm_error_text (TpmError s) = s"

record 'w tpm_ops =
  tp_sha :: "string \<Rightarrow> string"
  tp_lower :: "string \<Rightarrow> string"
  tp_printable :: "nat \<Rightarrow> bool"
  tp_tmp :: string
  tp_create :: "string \<Rightarrow> ('w, string, unit) action"
  tp_flock :: "string \<Rightarrow> ('w, string, unit) action"
  tp_unlock :: "string \<Rightarrow> 'w \<Rightarrow> 'w"
  tp_opens :: "string \<Rightarrow> 'w \<Rightarrow> bool"
  tp_run :: "string list \<Rightarrow> string list \<Rightarrow> 'w \<Rightarrow> (string \<times> string \<times> string option) \<times> 'w"
  tp_mkdir_all :: "string \<Rightarrow> ('w, string, unit) action"
  tp_write_file :: "string \<Rightarrow> string \<Rightarrow> ('w, string, unit) action"
  tp_read_file :: "string \<Rightarrow> ('w, string, string) action"
  tp_remove :: "string \<Rightarrow> 'w \<Rightarrow> 'w"

definition lock_name :: string where "lock_name = ''.arazu-pcr23.lock''"

fun lock_path_in :: "'w tpm_ops \<Rightarrow> string list \<Rightarrow> 'w \<Rightarrow> string \<times> 'w" where
  "lock_path_in ops [] w = ([], w)"
| "lock_path_in ops (d # ds) w =
     (case tp_create ops (path_join [d, lock_name]) w of
        (Inl e, w') \<Rightarrow> lock_path_in ops ds w'
      | (Inr u, w') \<Rightarrow> (path_join [d, lock_name], w'))"

definition lock_path :: "'w tpm_ops \<Rightarrow> 'w \<Rightarrow> string \<times> 'w" where
  "lock_path ops w = lock_path_in ops [''/run'', tp_tmp ops] w"

definition with_pcr_lock :: "'w tpm_ops \<Rightarrow> ('w, tpm_error, 'a) action \<Rightarrow> ('w, tpm_error, 'a) action" where
  "with_pcr_lock ops body = (\<lambda>w.
     case lock_path ops w of
       (p, w1) \<Rightarrow>
         if p = [] then (Inl (TpmError ''cannot create a pcr lock file; refusing to race another run''), w1)
         else
           act_bind (act_wrap TpmError (tp_create ops p)) (\<lambda>_.
           act_bind (act_wrap (\<lambda>e. TpmError (''cannot lock the pcr: '' @ e)) (tp_flock ops p)) (\<lambda>_.
             act_defer (\<lambda>w. (Inr () :: (string, unit) result, tp_unlock ops p w)) body)) w1)"

definition seal_device :: "'w tpm_ops \<Rightarrow> 'w \<Rightarrow> string" where
  "seal_device ops w = (case filter (\<lambda>d. tp_opens ops d w) [''/dev/tpmrm0'', ''/dev/tpm0''] of [] \<Rightarrow> [] | d # ds \<Rightarrow> d)"

definition tpm2 :: "'w tpm_ops \<Rightarrow> string list \<Rightarrow> ('w, string, string) action" where
  "tpm2 ops args = (\<lambda>w.
     let dev = seal_device ops w
     in if dev = [] then (Inl ''no usable TPM device'', w)
        else
          (case tp_run ops [''TPM2TOOLS_TCTI=device:'' @ dev] args w of
             ((out, errb, None), w') \<Rightarrow> (Inr out, w')
           | ((out, errb, Some e), w') \<Rightarrow> (Inl (hd args @ '': '' @ e @ '': '' @ trim_space errb), w')))"

section \<open>Measuring\<close>

definition pcr_index :: string where "pcr_index = ''23''"
definition pcr_list :: string where "pcr_list = ''sha256:23''"

definition expected_pcr23 :: "(string \<Rightarrow> string) \<Rightarrow> string \<Rightarrow> string" where
  "expected_pcr23 sha root =
     (case hex_decode root of
        None \<Rightarrow> []
      | Some digest \<Rightarrow> hex_encode (sha (replicate 32 (CHR 0x00) @ digest)))"

text \<open>What follows the first \<open>0x\<close> of a line.\<close>

fun after_0x :: "string \<Rightarrow> string option" where
  "after_0x (a # b # s) = (if a = CHR ''0'' \<and> b = CHR ''x'' then Some s else after_0x (b # s))"
| "after_0x _ = None"

fun pcr_in_lines :: "(string \<Rightarrow> string) \<Rightarrow> string list \<Rightarrow> string option" where
  "pcr_in_lines lower [] = None"
| "pcr_in_lines lower (l # ls) =
     (case after_0x l of
        None \<Rightarrow> pcr_in_lines lower ls
      | Some v \<Rightarrow> if contains_sub l pcr_index then Some (lower (trim_space v)) else pcr_in_lines lower ls)"

definition read_pcr :: "'w tpm_ops \<Rightarrow> ('w, string, string) action" where
  "read_pcr ops =
     act_bind (tpm2 ops [''tpm2_pcrread'', pcr_list]) (\<lambda>out.
       case pcr_in_lines (tp_lower ops) (split_char newline out) of
         Some v \<Rightarrow> act_return v
       | None \<Rightarrow> act_fail (''cannot parse pcr 23 from: '' @ out))"

definition reset_pcr :: "'w tpm_ops \<Rightarrow> ('w, string, unit) action" where
  "reset_pcr ops = act_bind (tpm2 ops [''tpm2_pcrreset'', pcr_index]) (\<lambda>_. act_return ())"

definition extend_pcr :: "'w tpm_ops \<Rightarrow> string \<Rightarrow> ('w, string, unit) action" where
  "extend_pcr ops root =
     (if hex_decode root = None \<or> length root \<noteq> 64 then
        act_fail (''content root '' @ go_quote (tp_printable ops) root @ '' is not a sha256 hex digest'')
      else
        act_bind (reset_pcr ops) (\<lambda>_.
        act_bind (tpm2 ops [''tpm2_pcrextend'', ''23:sha256='' @ root]) (\<lambda>_.
        act_bind (read_pcr ops) (\<lambda>got.
          if got \<noteq> expected_pcr23 (tp_sha ops) root then
            act_fail (''pcr 23 is '' @ got @ '' after extending '' @ root @ '', expected '' @ expected_pcr23 (tp_sha ops) root)
          else act_return ()))))"

definition tpm_flush :: "'w tpm_ops \<Rightarrow> string \<Rightarrow> ('w, string, unit) action" where
  "tpm_flush ops ctx =
     (if ctx = [] then act_return () else act_ignore (tpm2 ops [''tpm2_flushcontext'', ctx]))"

section \<open>Sealing\<close>

definition seal_file :: "string \<Rightarrow> string \<Rightarrow> string" where
  "seal_file dir name = path_join [dir, name]"

definition create_primary :: "'w tpm_ops \<Rightarrow> string \<Rightarrow> ('w, string, string) action" where
  "create_primary ops dir =
     tpm2 ops [''tpm2_createprimary'', ''-C'', ''o'', ''-g'', ''sha256'', ''-G'', ''ecc'', ''-c'', seal_file dir ''primary.ctx'']"

text \<open>The trial session is flushed whether or not the policy could be computed.\<close>

definition trial_policy :: "'w tpm_ops \<Rightarrow> string \<Rightarrow> ('w, string, unit) action" where
  "trial_policy ops dir =
     (let trial = seal_file dir ''trial.ctx''
      in act_bind (tpm2 ops [''tpm2_startauthsession'', ''-S'', trial]) (\<lambda>_.
         act_try (tpm2 ops [''tpm2_policypcr'', ''-S'', trial, ''-l'', pcr_list, ''-L'', seal_file dir ''policy.digest'']) (\<lambda>r.
         act_bind (tpm_flush ops trial) (\<lambda>_.
           case r of Inl e \<Rightarrow> act_fail e | Inr out \<Rightarrow> act_return ()))))"

definition provision_locked :: "'w tpm_ops \<Rightarrow> string \<Rightarrow> string \<Rightarrow> string \<Rightarrow> ('w, string, unit) action" where
  "provision_locked ops dir root secret =
     (if secret = [] then act_fail ''refusing to seal an empty secret''
      else
        act_bind (tp_mkdir_all ops dir) (\<lambda>_.
        act_bind (extend_pcr ops root) (\<lambda>_.
        act_bind (trial_policy ops dir) (\<lambda>_.
        act_bind (create_primary ops dir) (\<lambda>_.
        act_bind (tp_write_file ops (seal_file dir ''secret.in'') secret) (\<lambda>_.
        act_defer (\<lambda>w. (Inr () :: (string, unit) result, tp_remove ops (seal_file dir ''secret.in'') w))
          (act_bind (tpm2 ops [''tpm2_create'', ''-C'', seal_file dir ''primary.ctx'', ''-u'', seal_file dir ''seal.pub'',
               ''-r'', seal_file dir ''seal.priv'', ''-L'', seal_file dir ''policy.digest'', ''-i'', seal_file dir ''secret.in'']) (\<lambda>_.
             tp_write_file ops (seal_file dir ''sealed-root'') (root @ [newline])))))))))"

definition provision :: "'w tpm_ops \<Rightarrow> string \<Rightarrow> string \<Rightarrow> string \<Rightarrow> ('w, tpm_error, unit) action" where
  "provision ops dir root secret = with_pcr_lock ops (act_wrap TpmError (provision_locked ops dir root secret))"

section \<open>Unsealing\<close>

definition sealed_root_note :: "'w tpm_ops \<Rightarrow> string \<Rightarrow> 'w \<Rightarrow> string \<times> 'w" where
  "sealed_root_note ops dir w =
     (case tp_read_file ops (seal_file dir ''sealed-root'') w of
        (Inl e, w') \<Rightarrow> (''the current pcr state does not satisfy the sealing policy'', w')
      | (Inr b, w') \<Rightarrow>
          (''the current pcr state does not satisfy the policy sealed against content root '' @ trim_space b, w'))"

definition rc_policy_fail :: string where "rc_policy_fail = ''0x99d''"

definition is_policy_failure :: "'w tpm_ops \<Rightarrow> string \<Rightarrow> bool" where
  "is_policy_failure ops e =
     (contains_sub (tp_lower ops e) rc_policy_fail \<or> contains_sub (tp_lower ops e) ''policy check failed'')"

definition tpm_unseal :: "'w tpm_ops \<Rightarrow> string \<Rightarrow> ('w, string, string) action" where
  "tpm_unseal ops dir = tpm2 ops [''tpm2_unseal'', ''-c'', seal_file dir ''seal.ctx'', ''-p'', ''session:'' @ seal_file dir ''policy.ctx'']"

definition release :: "'w tpm_ops \<Rightarrow> string \<Rightarrow> ('w, tpm_error, string) action" where
  "release ops dir = (\<lambda>w.
     case tpm_unseal ops dir w of
       (Inl e, w1) \<Rightarrow>
         if is_policy_failure ops e then
           (case sealed_root_note ops dir w1 of (note, w2) \<Rightarrow> (Inl (PolicyMismatch note), w2))
         else (Inl (TpmError e), w1)
     | (Inr out, w1) \<Rightarrow>
         if out = [] then (Inl (PolicyMismatch ''unseal produced no material''), w1) else (Inr out, w1))"

definition unseal_current_state :: "'w tpm_ops \<Rightarrow> string \<Rightarrow> ('w, tpm_error, string) action" where
  "unseal_current_state ops dir =
     act_bind (act_wrap TpmError (create_primary ops dir)) (\<lambda>_.
     act_bind (act_wrap TpmError (tpm2 ops [''tpm2_load'', ''-C'', seal_file dir ''primary.ctx'', ''-u'', seal_file dir ''seal.pub'',
        ''-r'', seal_file dir ''seal.priv'', ''-c'', seal_file dir ''seal.ctx''])) (\<lambda>_.
     act_bind (act_wrap TpmError (tpm2 ops [''tpm2_startauthsession'', ''--policy-session'', ''-S'', seal_file dir ''policy.ctx''])) (\<lambda>_.
     act_defer (tpm_flush ops (seal_file dir ''policy.ctx''))
       (act_bind (act_wrap TpmError (tpm2 ops [''tpm2_policypcr'', ''-S'', seal_file dir ''policy.ctx'', ''-l'', pcr_list])) (\<lambda>_.
          release ops dir)))))"

definition unseal :: "'w tpm_ops \<Rightarrow> string \<Rightarrow> string \<Rightarrow> ('w, tpm_error, string) action" where
  "unseal ops dir root =
     with_pcr_lock ops
       (act_bind (act_wrap TpmError (extend_pcr ops root)) (\<lambda>_. unseal_current_state ops dir))"

definition reset_tpm :: "'w tpm_ops \<Rightarrow> ('w, tpm_error, unit) action" where
  "reset_tpm ops = with_pcr_lock ops (act_wrap TpmError (reset_pcr ops))"

section \<open>Released only in the sealed state\<close>

lemma with_pcr_lock_Inr:
  assumes "with_pcr_lock ops body w = (Inr x, w')"
  shows "\<exists>p w1 w2 w3 w4. lock_path ops w = (p, w1) \<and> p \<noteq> [] \<and> tp_create ops p w1 = (Inr (), w2) \<and>
    tp_flock ops p w2 = (Inr (), w3) \<and> body w3 = (Inr x, w4) \<and> w' = tp_unlock ops p w4"
proof -
  obtain p w1 where p: "lock_path ops w = (p, w1)" by (metis prod.collapse)
  with assms show ?thesis
    by (auto simp: with_pcr_lock_def act_bind_Inr act_wrap_Inr act_defer_Inr split: if_splits)
qed

lemma release_Inr: "release ops dir w = (Inr s, w') \<Longrightarrow> tpm_unseal ops dir w = (Inr s, w') \<and> s \<noteq> []"
  by (auto simp: release_def split: prod.splits sum.splits if_splits)

text \<open>
  The measurement, command by command: the register reset, extended with the content root,
  and read back as the value computed without the TPM.
\<close>

definition measured_trace :: "'w tpm_ops \<Rightarrow> string \<Rightarrow> 'w \<Rightarrow> 'w \<Rightarrow> bool" where
  "measured_trace ops root w w' \<longleftrightarrow>
     (\<exists>o1 u1 o2 u2 out. tpm2 ops [''tpm2_pcrreset'', pcr_index] w = (Inr o1, u1) \<and>
        tpm2 ops [''tpm2_pcrextend'', ''23:sha256='' @ root] u1 = (Inr o2, u2) \<and>
        tpm2 ops [''tpm2_pcrread'', pcr_list] u2 = (Inr out, w') \<and>
        pcr_in_lines (tp_lower ops) (split_char newline out) = Some (expected_pcr23 (tp_sha ops) root))"

lemma extend_pcr_measured:
  assumes "extend_pcr ops root w = (Inr u, w')"
  shows "measured_trace ops root w w' \<and> length root = 64 \<and> hex_decode root \<noteq> None"
proof -
  have "length root = 64 \<and> hex_decode root \<noteq> None"
    using assms by (auto simp: extend_pcr_def act_fail_def split: if_splits)
  with assms show ?thesis
    unfolding measured_trace_def extend_pcr_def reset_pcr_def read_pcr_def
    by (auto simp: result_simps split: if_splits option.splits)
qed

text \<open>What an unsealing that released something did, in order, under the lock.\<close>

definition unseal_trace :: "'w tpm_ops \<Rightarrow> string \<Rightarrow> string \<Rightarrow> string \<Rightarrow> 'w \<Rightarrow> 'w \<Rightarrow> bool" where
  "unseal_trace ops dir root s w w' \<longleftrightarrow>
     (\<exists>w1 o1 w2 o2 w3 o3 w4 o4 w5 w6. measured_trace ops root w w1 \<and> create_primary ops dir w1 = (Inr o1, w2) \<and>
        tpm2 ops [''tpm2_load'', ''-C'', seal_file dir ''primary.ctx'', ''-u'', seal_file dir ''seal.pub'',
          ''-r'', seal_file dir ''seal.priv'', ''-c'', seal_file dir ''seal.ctx''] w2 = (Inr o2, w3) \<and>
        tpm2 ops [''tpm2_startauthsession'', ''--policy-session'', ''-S'', seal_file dir ''policy.ctx''] w3 = (Inr o3, w4) \<and>
        tpm2 ops [''tpm2_policypcr'', ''-S'', seal_file dir ''policy.ctx'', ''-l'', pcr_list] w4 = (Inr o4, w5) \<and>
        tpm_unseal ops dir w5 = (Inr s, w6) \<and> w' = snd (tpm_flush ops (seal_file dir ''policy.ctx'') w6))"

lemma unseal_Inr:
  assumes "unseal ops dir root w = (Inr s, w')"
  shows "s \<noteq> [] \<and> length root = 64 \<and> hex_decode root \<noteq> None \<and>
    (\<exists>p w1 w2 w3 w4. lock_path ops w = (p, w1) \<and> tp_create ops p w1 = (Inr (), w2) \<and>
    tp_flock ops p w2 = (Inr (), w3) \<and> unseal_trace ops dir root s w3 w4 \<and> w' = tp_unlock ops p w4)"
proof -
  from with_pcr_lock_Inr [OF assms [unfolded unseal_def]] obtain p w1 w2 w3 w4 where
    l: "lock_path ops w = (p, w1)" "tp_create ops p w1 = (Inr (), w2)" "tp_flock ops p w2 = (Inr (), w3)" "w' = tp_unlock ops p w4"
    and b: "act_bind (act_wrap TpmError (extend_pcr ops root)) (\<lambda>_. unseal_current_state ops dir) w3 = (Inr s, w4)"
    by blast
  obtain u w5 where e: "extend_pcr ops root w3 = (Inr u, w5)" and c: "unseal_current_state ops dir w5 = (Inr s, w4)"
    using b unfolding act_bind_Inr act_wrap_Inr by blast
  have "unseal_trace ops dir root s w3 w4 \<and> s \<noteq> []"
    using c extend_pcr_measured [OF e] unfolding unseal_trace_def unseal_current_state_def act_bind_Inr act_wrap_Inr act_defer_Inr
    by (blast dest: release_Inr)
  with l extend_pcr_measured [OF e] show ?thesis by blast
qed

text \<open>
  C13. A secret comes out only under the lock and only after the whole sequence, command by
  command, each in the world the one before left: register 23 was reset, extended with the
  content root, read back, and the line read is the value computed without the TPM; then the
  primary key was made, the object loaded, a policy session opened and bound to the register,
  and the object unsealed in that session, which was flushed.  The content root is 64
  hexadecimal digits, and an empty answer is not a secret.
\<close>

theorem unsealed_after_the_measurement:
  assumes "unseal ops dir root w = (Inr s, w')"
  shows "s \<noteq> [] \<and> length root = 64 \<and> hex_decode root \<noteq> None \<and>
    (\<exists>p u1 u2 u3 w1 w2 w3 w4 w5 w6 w7 w8 o1 o2 out o4 o5 o6 o7.
      lock_path ops w = (p, u1) \<and> tp_create ops p u1 = (Inr (), u2) \<and> tp_flock ops p u2 = (Inr (), u3) \<and>
      tpm2 ops [''tpm2_pcrreset'', ''23''] u3 = (Inr o1, w1) \<and>
      tpm2 ops [''tpm2_pcrextend'', ''23:sha256='' @ root] w1 = (Inr o2, w2) \<and>
      tpm2 ops [''tpm2_pcrread'', ''sha256:23''] w2 = (Inr out, w3) \<and>
      pcr_in_lines (tp_lower ops) (split_char newline out) = Some (expected_pcr23 (tp_sha ops) root) \<and>
      create_primary ops dir w3 = (Inr o4, w4) \<and>
      tpm2 ops [''tpm2_load'', ''-C'', seal_file dir ''primary.ctx'', ''-u'', seal_file dir ''seal.pub'',
        ''-r'', seal_file dir ''seal.priv'', ''-c'', seal_file dir ''seal.ctx''] w4 = (Inr o5, w5) \<and>
      tpm2 ops [''tpm2_startauthsession'', ''--policy-session'', ''-S'', seal_file dir ''policy.ctx''] w5 = (Inr o6, w6) \<and>
      tpm2 ops [''tpm2_policypcr'', ''-S'', seal_file dir ''policy.ctx'', ''-l'', ''sha256:23''] w6 = (Inr o7, w7) \<and>
      tpm2 ops [''tpm2_unseal'', ''-c'', seal_file dir ''seal.ctx'', ''-p'', ''session:'' @ seal_file dir ''policy.ctx''] w7 = (Inr s, w8) \<and>
      w' = tp_unlock ops p (snd (tpm_flush ops (seal_file dir ''policy.ctx'') w8)))"
  using unseal_Inr [OF assms] unfolding unseal_trace_def measured_trace_def tpm_unseal_def pcr_index_def pcr_list_def
  by (elim exE conjE) (intro conjI exI; assumption?, simp?)

text \<open>
  What is relied on of the chip: \<open>pcr\<close> is the value of the register in a world.  Reading,
  loading and opening a session leave it alone, a read prints it, and the sealed object comes
  out only in the state it was sealed for.
\<close>

definition pcr_keeping :: "'w tpm_ops \<Rightarrow> ('w \<Rightarrow> string) \<Rightarrow> bool" where
  "pcr_keeping ops pcr \<longleftrightarrow>
     (\<forall>args w. hd args \<in> {''tpm2_pcrread'', ''tpm2_createprimary'', ''tpm2_load'', ''tpm2_startauthsession'', ''tpm2_policypcr''} \<longrightarrow>
        pcr (snd (tpm2 ops args w)) = pcr w)"

definition pcr_reporting :: "'w tpm_ops \<Rightarrow> ('w \<Rightarrow> string) \<Rightarrow> bool" where
  "pcr_reporting ops pcr \<longleftrightarrow>
     (\<forall>w out w'. tpm2 ops [''tpm2_pcrread'', pcr_list] w = (Inr out, w') \<longrightarrow>
        pcr_in_lines (tp_lower ops) (split_char newline out) \<in> {None, Some (pcr w)})"

definition sealed_for :: "'w tpm_ops \<Rightarrow> ('w \<Rightarrow> string) \<Rightarrow> string \<Rightarrow> string \<Rightarrow> bool" where
  "sealed_for ops pcr dir bound \<longleftrightarrow>
     (\<forall>w out w'. tpm_unseal ops dir w = (Inr out, w') \<longrightarrow> out = [] \<or> pcr w = bound)"

lemma extended_pcr:
  assumes "pcr_keeping ops pcr" "pcr_reporting ops pcr" "measured_trace ops root w w'"
  shows "pcr w' = expected_pcr23 (tp_sha ops) root"
proof -
  obtain w1 out where r: "tpm2 ops [''tpm2_pcrread'', pcr_list] w1 = (Inr out, w')"
      "pcr_in_lines (tp_lower ops) (split_char newline out) = Some (expected_pcr23 (tp_sha ops) root)"
    using assms(3) unfolding measured_trace_def by blast
  have "pcr w' = pcr w1" using assms(1) r(1) unfolding pcr_keeping_def
    by (metis insertI1 list.sel(1) snd_conv)
  moreover have "Some (expected_pcr23 (tp_sha ops) root) \<in> {None, Some (pcr w1)}"
    using assms(2) r unfolding pcr_reporting_def by metis
  ultimately show ?thesis by simp
qed

lemma unseal_trace_pcr:
  assumes "pcr_keeping ops pcr" "pcr_reporting ops pcr" "sealed_for ops pcr dir bound" "unseal_trace ops dir root s w w'" "s \<noteq> []"
  shows "expected_pcr23 (tp_sha ops) root = bound"
proof -
  have k: "pcr w' = pcr w" if "tpm2 ops args w = (r, w')"
    "hd args \<in> {''tpm2_pcrread'', ''tpm2_createprimary'', ''tpm2_load'', ''tpm2_startauthsession'', ''tpm2_policypcr''}" for args w r w'
    using assms(1) that unfolding pcr_keeping_def by (metis snd_conv)
  obtain w1 o1 w2 o2 w3 o3 w4 o4 w5 w6 where e: "measured_trace ops root w w1"
    and c: "create_primary ops dir w1 = (Inr o1, w2)"
    and l: "tpm2 ops [''tpm2_load'', ''-C'', seal_file dir ''primary.ctx'', ''-u'', seal_file dir ''seal.pub'',
          ''-r'', seal_file dir ''seal.priv'', ''-c'', seal_file dir ''seal.ctx''] w2 = (Inr o2, w3)"
    and a: "tpm2 ops [''tpm2_startauthsession'', ''--policy-session'', ''-S'', seal_file dir ''policy.ctx''] w3 = (Inr o3, w4)"
    and p: "tpm2 ops [''tpm2_policypcr'', ''-S'', seal_file dir ''policy.ctx'', ''-l'', pcr_list] w4 = (Inr o4, w5)"
    and u: "tpm_unseal ops dir w5 = (Inr s, w6)"
    using assms(4) unfolding unseal_trace_def by blast
  have "pcr w5 = pcr w1"
    using k [OF c [unfolded create_primary_def]] k [OF l] k [OF a] k [OF p] by simp
  moreover have "pcr w5 = bound" using assms(3,5) u unfolding sealed_for_def by blast
  ultimately show ?thesis using extended_pcr [OF assms(1,2) e] by simp
qed

text \<open>
  C14. The secret is bound to the content: where the chip releases the object only in the
  state it was sealed for, a secret sealed for one content root comes out for another only if
  the two digests, each after the 32 zeros of a reset register, have the same SHA-256.
\<close>

theorem secret_is_bound_to_the_content:
  assumes "pcr_keeping ops pcr" "pcr_reporting ops pcr" "sealed_for ops pcr dir (expected_pcr23 (tp_sha ops) root0)"
    and "hex_decode root0 = Some d0" "unseal ops dir root w = (Inr s, w')"
  shows "\<exists>d. hex_decode root = Some d \<and>
    tp_sha ops (replicate 32 (CHR 0x00) @ d) = tp_sha ops (replicate 32 (CHR 0x00) @ d0)"
proof -
  from unseal_Inr [OF assms(5)] obtain w3 w4 d where t: "unseal_trace ops dir root s w3 w4" "s \<noteq> []" and d: "hex_decode root = Some d"
    by blast
  from unseal_trace_pcr [OF assms(1-3) t] d assms(4) show ?thesis by (simp add: expected_pcr23_def hex_encode_inj)
qed

text \<open>
  The expected register of an accepted content root is a value of the register: 64
  hexadecimal digits, where SHA-256 gives 32 bytes.
\<close>

theorem expected_register_is_64_digits:
  assumes "hex_decode root \<noteq> None" "\<And>s. length (sha s) = 32"
  shows "length (expected_pcr23 sha root) = 64 \<and> (\<exists>v. hex_decode (expected_pcr23 sha root) = Some v \<and> length v = 32)"
proof -
  obtain d where "hex_decode root = Some d" using assms(1) by blast
  then show ?thesis using assms(2) by (simp add: expected_pcr23_def hex_decode_encode)
qed

section \<open>No secret left behind\<close>

text \<open>
  \<open>absent\<close> says that the secret is not on disk: every operation keeps it so, save the write of
  the input file, and removing that file restores it.
\<close>

definition secret_free :: "'w tpm_ops \<Rightarrow> string \<Rightarrow> ('w \<Rightarrow> bool) \<Rightarrow> bool" where
  "secret_free ops dir absent \<longleftrightarrow>
     (\<forall>args w. absent w \<longrightarrow> absent (snd (tpm2 ops args w))) \<and> (\<forall>d w. absent w \<longrightarrow> absent (snd (tp_mkdir_all ops d w))) \<and>
     (\<forall>w. absent (tp_remove ops (seal_file dir ''secret.in'') w))"

lemma act_bind_world:
  assumes "P (snd (m w))" "\<And>x w'. m w = (Inr x, w') \<Longrightarrow> P (snd (f x w'))"
  shows "P (snd (act_bind m f w))"
  using assms by (auto simp: act_bind_def split: prod.splits sum.splits)

lemma secret_free_pcr:
  assumes "secret_free ops dir absent" "absent w"
  shows "absent (snd (extend_pcr ops root w))" "absent (snd (trial_policy ops dir w))"
proof -
  have t: "absent (snd (tpm2 ops args w))" if "absent w" for args w using assms(1) that by (simp add: secret_free_def)
  then have t': "absent w'" if "tpm2 ops args w = (r, w')" "absent w" for args w r w' using that by (metis snd_conv)
  show "absent (snd (extend_pcr ops root w))"
    unfolding extend_pcr_def reset_pcr_def read_pcr_def
    using assms(2) by (auto simp: act_bind_def act_return_def act_fail_def dest: t' split: prod.splits sum.splits option.splits)
  show "absent (snd (trial_policy ops dir w))"
    unfolding trial_policy_def tpm_flush_def act_ignore_def Let_def
    using assms(2) by (auto simp: act_bind_def act_try_def act_return_def act_fail_def dest: t' split: prod.splits sum.splits)
qed

text \<open>
  However provisioning ends, the secret is not left on disk, with one exception: when
  writing the input file itself fails, what was written of it stays, since its removal is
  only deferred after the write.
\<close>

theorem provisioning_removes_the_secret:
  assumes "secret_free ops dir absent" "absent w"
  shows "absent (snd (provision_locked ops dir root secret w)) \<or>
    (\<exists>w1 e. tp_write_file ops (seal_file dir ''secret.in'') secret w1 = (Inl e, snd (provision_locked ops dir root secret w)))"
proof (cases "secret = []")
  case True
  with assms(2) show ?thesis by (simp add: provision_locked_def act_fail_def)
next
  case False
  let ?f = "seal_file dir ''secret.in''"
  let ?P = "\<lambda>w'. absent w' \<or> (\<exists>w1 e. tp_write_file ops ?f secret w1 = (Inl e, w'))"
  have step: "?P (snd (act_bind m f w))" if "absent w" "absent (snd (m w))" "\<And>x w'. absent w' \<Longrightarrow> ?P (snd (f x w'))" for m f w
    using act_bind_world [where P = ?P and m = m and f = f and w = w] that by (metis snd_conv)
  have d: "absent (snd (act_defer (\<lambda>w. (Inr () :: (string, unit) result, tp_remove ops ?f w)) body w))" for body w
    using assms(1) by (auto simp: act_defer_def secret_free_def split: prod.splits)
  have wr: "?P (snd (act_bind (tp_write_file ops ?f secret) (\<lambda>_. act_defer (\<lambda>w. (Inr () :: (string, unit) result, tp_remove ops ?f w)) body) w))" for body w
    using d by (auto simp: act_bind_def split: prod.splits sum.splits)
  note s = secret_free_pcr [OF assms(1)]
  have m: "absent (snd (tp_mkdir_all ops dir w))" if "absent w" for w using assms(1) that by (simp add: secret_free_def)
  have c: "absent (snd (create_primary ops dir w))" if "absent w" for w using assms(1) that by (simp add: secret_free_def create_primary_def)
  show ?thesis
    unfolding provision_locked_def using False assms(2)
    by (simp only: if_False) (intro step m s c wr)
qed

section \<open>An example\<close>

text \<open>
  A chip that knows two states of the register, reset or extended with one content root, and
  releases a secret sealed in the latter; the other half of its world is whether the secret
  is on disk.
\<close>

definition sample_root :: string where "sample_root = replicate 64 CHR ''a''"

definition sample_register :: "bool \<times> bool \<Rightarrow> string" where
  "sample_register w = (if fst w then sample_root else replicate 64 CHR ''0'')"

definition sample_print :: "bool \<Rightarrow> string" where
  "sample_print b = ''    23: 0x'' @ sample_register (b, False)"

definition sample_chip :: "(bool \<times> bool) tpm_ops" where
  "sample_chip = \<lparr>tp_sha = drop 32, tp_lower = (\<lambda>s. s), tp_printable = (\<lambda>n. True), tp_tmp = ''/tmp'', tp_create = (\<lambda>p w. (Inr (), w)),
     tp_flock = (\<lambda>p w. (Inr (), w)), tp_unlock = (\<lambda>p w. w), tp_opens = (\<lambda>d w. True),
     tp_run = (\<lambda>env args w.
       if hd args = ''tpm2_pcrreset'' then (([], [], None), (False, snd w))
       else if hd args = ''tpm2_pcrextend'' then (([], [], None), (last args = ''23:sha256='' @ sample_root, snd w))
       else if hd args = ''tpm2_pcrread'' then ((sample_print (fst w), [], None), w)
       else if hd args = ''tpm2_unseal'' then (if fst w then ((''secret'', [], None), w) else (([], ''0x99d'', Some ''exit status 1''), w))
       else (([], [], None), w)),
     tp_mkdir_all = (\<lambda>d w. (Inr (), w)), tp_write_file = (\<lambda>p b w. (Inr (), (fst w, snd w \<or> b = ''key''))), tp_read_file = (\<lambda>p w. (Inr ''body'', w)),
     tp_remove = (\<lambda>p w. (fst w, False))\<rparr>"

lemma sample_tpm2:
  "tpm2 sample_chip args w =
     (if hd args = ''tpm2_pcrreset'' then (Inr [], (False, snd w))
      else if hd args = ''tpm2_pcrextend'' then (Inr [], (last args = ''23:sha256='' @ sample_root, snd w))
      else if hd args = ''tpm2_pcrread'' then (Inr (sample_print (fst w)), w)
      else if hd args = ''tpm2_unseal'' then (if fst w then (Inr ''secret'', w) else (Inl (''tpm2_unseal: exit status 1: '' @ trim_space ''0x99d''), w))
      else (Inr [], w))"
  by (simp add: tpm2_def seal_device_def sample_chip_def)

lemma sample_read: "pcr_in_lines (tp_lower sample_chip) (split_char newline (sample_print (fst w))) = Some (sample_register w)"
proof -
  have "pcr_in_lines (tp_lower sample_chip) (split_char newline (sample_print True)) = Some (sample_register (True, False))"
    "pcr_in_lines (tp_lower sample_chip) (split_char newline (sample_print False)) = Some (sample_register (False, False))"
    by code_simp+
  then show ?thesis by (cases "fst w") (simp_all add: sample_register_def)
qed

lemma sample_decodes: "hex_decode sample_root = Some (replicate 32 (CHR 0xAA))" "length sample_root = 64"
  by code_simp+

lemma sample_expected: "expected_pcr23 (tp_sha sample_chip) sample_root = sample_root"
proof -
  have "hex_char 10 = CHR ''a''" by code_simp
  then have "hex_encode (replicate 32 (CHR 0xAA)) = concat (replicate 32 ''aa'')"
    by (simp add: hex_encode_def)
  also have "\<dots> = sample_root" by (simp add: sample_root_def numeral_eq_Suc)
  finally show ?thesis by (simp add: expected_pcr23_def sample_decodes sample_chip_def)
qed

lemma sample_laws: "pcr_keeping sample_chip sample_register" "pcr_reporting sample_chip sample_register"
  "sealed_for sample_chip sample_register dir (expected_pcr23 (tp_sha sample_chip) sample_root)"
proof -
  show "pcr_keeping sample_chip sample_register" by (auto simp: pcr_keeping_def sample_tpm2)
  show "pcr_reporting sample_chip sample_register" using sample_read by (auto simp: pcr_reporting_def sample_tpm2)
  show "sealed_for sample_chip sample_register dir (expected_pcr23 (tp_sha sample_chip) sample_root)"
    unfolding sample_expected by (auto simp: sealed_for_def tpm_unseal_def sample_tpm2 sample_register_def split: if_splits)
qed

lemma sample_unseal: "unseal sample_chip ''d'' sample_root (False, False) = (Inr ''secret'', (True, False))"
proof -
  have "pcr_in_lines (tp_lower sample_chip) (split_char newline (sample_print True)) = Some sample_root"
    using sample_read [of "(True, False)"] by (simp add: sample_register_def)
  then have "read_pcr sample_chip (True, b) = (Inr sample_root, (True, b))" for b
    by (simp only: read_pcr_def act_bind_def sample_tpm2) (simp add: act_return_def)
  then have e: "extend_pcr sample_chip sample_root w = (Inr (), (True, snd w))" for w
    by (simp add: extend_pcr_def reset_pcr_def act_bind_def act_return_def sample_tpm2 sample_expected sample_decodes)
  have u: "unseal_current_state sample_chip ''d'' (True, b) = (Inr ''secret'', (True, b))" for b
    by (simp add: unseal_current_state_def create_primary_def tpm_unseal_def release_def tpm_flush_def act_ignore_def act_defer_def
        act_bind_def act_wrap_def act_try_def act_return_def sample_tpm2)
  have "lock_path sample_chip w = (path_join [''/run'', lock_name], w)" for w by (simp add: lock_path_def sample_chip_def)
  moreover have "path_join [''/run'', lock_name] \<noteq> []" by code_simp
  moreover have "tp_create sample_chip p w = (Inr (), w)" "tp_flock sample_chip p w = (Inr (), w)" "tp_unlock sample_chip p w = w" for p w
    by (simp_all add: sample_chip_def)
  ultimately show ?thesis
    by (simp add: unseal_def with_pcr_lock_def act_bind_def act_wrap_def act_defer_def e u del: path_join.simps)
qed

theorem unsealed_after_the_measurement_witness:
  "unseal sample_chip ''d'' sample_root (False, False) = (Inr ''secret'', (True, False)) \<and>
   (\<exists>w0 o1 w1 o2 w2 out w3. tpm2 sample_chip [''tpm2_pcrreset'', ''23''] w0 = (Inr o1, w1) \<and>
      tpm2 sample_chip [''tpm2_pcrextend'', ''23:sha256='' @ sample_root] w1 = (Inr o2, w2) \<and>
      tpm2 sample_chip [''tpm2_pcrread'', ''sha256:23''] w2 = (Inr out, w3) \<and>
      pcr_in_lines (\<lambda>s. s) (split_char newline out) = Some sample_root)"
proof -
  have "tp_lower sample_chip = (\<lambda>s. s)" by (simp add: sample_chip_def)
  from unsealed_after_the_measurement [OF sample_unseal, unfolded sample_expected this] sample_unseal show ?thesis by blast
qed

theorem secret_is_bound_to_the_content_witness:
  "\<exists>d. hex_decode sample_root = Some d \<and> drop 32 (replicate 32 (CHR 0x00) @ d) = replicate 32 (CHR 0xAA)"
  using secret_is_bound_to_the_content [OF sample_laws sample_decodes(1) sample_unseal] by (simp add: sample_chip_def)

theorem expected_register_is_64_digits_witness:
  "length (expected_pcr23 (\<lambda>s. replicate 32 CHR ''x'') sample_root) = 64"
proof -
  have "hex_decode sample_root \<noteq> None" by (simp add: sample_decodes)
  from expected_register_is_64_digits [OF this, of "\<lambda>s. replicate 32 CHR ''x''"] show ?thesis by simp
qed

theorem provisioning_removes_the_secret_witness:
  "\<not> snd (snd (provision_locked sample_chip ''d'' sample_root ''key'' (False, False)))"
proof -
  have "secret_free sample_chip ''d'' (\<lambda>w. \<not> snd w)"
    by (auto simp: secret_free_def sample_tpm2) (simp_all add: sample_chip_def)
  from provisioning_removes_the_secret [OF this, of "(False, False)" sample_root "''key''"] show ?thesis
    by (simp add: sample_chip_def)
qed

end
