(* ===== verification/Seal_Tool.thy ===== *)
theory Seal_Tool
  imports Tpm_Seal Audit_Log Go_Base64 Go_Json_Indent
begin

text \<open>
  The seal tool (\<open>cmd/seal-tool\<close>): provision a signing seed, report whether it unseals, sign an
  artifact with it.  The state is the world of the TPM and the log; Ed25519 is a pair of
  functions of the seed.
\<close>

section \<open>Decisions\<close>

record seal_decision =
  sd_decision :: string
  sd_action :: string
  sd_reason :: string
  sd_content_root :: string
  sd_expected_pcr :: string
  sd_tpm_device :: string
  sd_signature :: string
  sd_public_key :: string
  sd_resettable :: bool

record 'w seal_ops =
  so_tpm :: "'w tpm_ops"
  so_random :: "('w, string, string) action"
  so_public :: "string \<Rightarrow> string"
  so_sign :: "string \<Rightarrow> string \<Rightarrow> string"
  so_open_log :: "'w \<Rightarrow> string option"
  so_now :: "'w \<Rightarrow> string \<times> 'w"
  so_write_log :: "'w \<Rightarrow> write_outcome \<times> 'w"

text \<open>The decision printed with the exit code, and the state the run leaves.\<close>

type_synonym 'w seal_run = "(seal_decision \<times> int) \<times> 'w \<times> open_read"

text \<open>\<open>appendLog\<close>: a log that cannot be opened or written is a message, not an error.\<close>

definition seal_log :: "'w seal_ops \<Rightarrow> string \<Rightarrow> string \<Rightarrow> string \<Rightarrow> 'w \<times> open_read \<Rightarrow> 'w \<times> open_read" where
  "seal_log ops path event detail = (\<lambda>(w, file).
     if path = [] then (w, file)
     else
       (case log_open (tp_sha (so_tpm ops)) file (so_open_log ops w) of
          Inl e \<Rightarrow> (w, file)
        | Inr l \<Rightarrow>
            (case so_now ops w of
               (ts, w1) \<Rightarrow>
                 (case so_write_log ops w1 of
                    (wr, w2) \<Rightarrow>
                      (case log_append (tp_sha (so_tpm ops)) wr ts event detail
                          (l, case file of Readable f \<Rightarrow> f | _ \<Rightarrow> []) of
                         (r, (l', f)) \<Rightarrow> (w2, Readable f))))))"

definition ev_seal :: string where "ev_seal = ''SEAL''"
definition ev_sign :: string where "ev_sign = ''SIGN''"
definition ev_sign_refused :: string where "ev_sign_refused = ''SIGN_REFUSED''"

text \<open>
  The first 32 bytes of a released secret.  A shorter one is read up to the capacity of the
  buffer it came in, whose other bytes are zero.
\<close>

definition seed_of :: "string \<Rightarrow> string" where
  "seed_of secret = take 32 (secret @ replicate 32 (CHR 0x00))"

definition seal_error :: "seal_decision \<Rightarrow> string \<Rightarrow> 'w \<times> open_read \<Rightarrow> 'w seal_run" where
  "seal_error d reason s = ((d\<lparr>sd_decision := ''ERROR'', sd_reason := reason\<rparr>, 2), s)"

definition refusal_reason :: "tpm_error \<Rightarrow> string" where
  "refusal_reason e = (case e of PolicyMismatch note \<Rightarrow> policy_mismatch | TpmError t \<Rightarrow> t)"

section \<open>The actions\<close>

definition provision_seed :: "'w seal_ops \<Rightarrow> string \<Rightarrow> ('w, string, string) action" where
  "provision_seed ops secret_file =
     (if secret_file \<noteq> [] then
        act_bind (tp_read_file (so_tpm ops) secret_file) (\<lambda>b. act_return (tp_sha (so_tpm ops) b))
      else so_random ops)"

definition do_provision :: "'w seal_ops \<Rightarrow> seal_decision \<Rightarrow> string \<Rightarrow> string \<Rightarrow> string \<Rightarrow> string \<Rightarrow> 'w \<times> open_read \<Rightarrow> 'w seal_run" where
  "do_provision ops d dir root secret_file log_path = (\<lambda>(w, file).
     case provision_seed ops secret_file w of
       (Inl e, w1) \<Rightarrow> seal_error d e (w1, file)
     | (Inr seed, w1) \<Rightarrow>
         (case provision (so_tpm ops) dir root seed w1 of
            (Inl e, w2) \<Rightarrow>
              ((d\<lparr>sd_decision := ''REFUSED'', sd_reason := tpm_error_text e\<rparr>, 1),
               seal_log ops log_path ev_sign_refused (''provision failed: '' @ tpm_error_text e) (w2, file))
          | (Inr u, w2) \<Rightarrow>
              (let d1 = d\<lparr>sd_public_key := b64_encode (so_public ops seed)\<rparr>
               in case tp_write_file (so_tpm ops) (path_join [dir, ''signing.pub'']) (sd_public_key d1 @ [newline]) w2 of
                    (Inl e, w3) \<Rightarrow> seal_error d1 e (w3, file)
                  | (Inr u, w3) \<Rightarrow>
                      ((d1\<lparr>sd_decision := ''SEALED''\<rparr>, 0),
                       seal_log ops log_path ev_seal
                         (''content_root='' @ root @ '' expected_pcr23='' @ sd_expected_pcr d @ '' device='' @ sd_tpm_device d @
                          '' pcr_resettable=true'') (w3, file)))))"

definition do_unseal :: "'w seal_ops \<Rightarrow> seal_decision \<Rightarrow> string \<Rightarrow> string \<Rightarrow> string \<Rightarrow> 'w \<times> open_read \<Rightarrow> 'w seal_run" where
  "do_unseal ops d dir root log_path = (\<lambda>(w, file).
     case unseal (so_tpm ops) dir root w of
       (Inl e, w1) \<Rightarrow>
         ((d\<lparr>sd_decision := ''REFUSED'', sd_reason := refusal_reason e\<rparr>, 1),
          seal_log ops log_path ev_sign_refused (''unseal refused: '' @ tpm_error_text e) (w1, file))
     | (Inr secret, w1) \<Rightarrow>
         ((d\<lparr>sd_decision := ''UNSEALED'', sd_public_key := b64_encode (so_public ops (seed_of secret))\<rparr>, 0), (w1, file)))"

definition do_sign :: "'w seal_ops \<Rightarrow> seal_decision \<Rightarrow> string \<Rightarrow> string \<Rightarrow> string \<Rightarrow> string \<Rightarrow> string \<Rightarrow> 'w \<times> open_read \<Rightarrow> 'w seal_run" where
  "do_sign ops d dir root artifact sig_path log_path = (\<lambda>(w, file).
     if artifact = [] \<or> sig_path = [] then seal_error d ''need -artifact and -sig'' (w, file)
     else
       (case tp_read_file (so_tpm ops) artifact w of
          (Inl e, w1) \<Rightarrow> seal_error d e (w1, file)
        | (Inr body, w1) \<Rightarrow>
            (case unseal (so_tpm ops) dir root w1 of
               (Inl e, w2) \<Rightarrow>
                 (case seal_log ops log_path ev_sign_refused
                     (''artifact='' @ artifact @ '' reason='' @ refusal_reason e @ '' content_root='' @ root) (w2, file) of
                    (w3, file') \<Rightarrow>
                      ((d\<lparr>sd_decision := ''REFUSED'', sd_reason := refusal_reason e\<rparr>, 1),
                       (tp_remove (so_tpm ops) sig_path w3, file')))
             | (Inr secret, w2) \<Rightarrow>
                 (let sig = so_sign ops (seed_of secret) body;
                      d1 = d\<lparr>sd_signature := b64_encode sig, sd_public_key := b64_encode (so_public ops (seed_of secret))\<rparr>
                  in case tp_write_file (so_tpm ops) sig_path
                       (''ed25519 '' @ sd_public_key d1 @ '' '' @ sd_signature d1 @ [newline]) w2 of
                       (Inl e, w3) \<Rightarrow> seal_error d1 e (w3, file)
                     | (Inr u, w3) \<Rightarrow>
                         ((d1\<lparr>sd_decision := ''SIGNED''\<rparr>, 0),
                          seal_log ops log_path ev_sign
                            (''artifact='' @ artifact @ '' digest='' @ hex_encode (tp_sha (so_tpm ops) body) @
                             '' content_root='' @ root) (w3, file))))))"

section \<open>The command\<close>

record seal_flags =
  sf_dir :: string
  sf_root :: string
  sf_log :: string
  sf_secret_file :: string
  sf_artifact :: string
  sf_sig :: string

definition blank_decision :: seal_decision where
  "blank_decision = \<lparr>sd_decision = [], sd_action = [], sd_reason = [], sd_content_root = [], sd_expected_pcr = [], sd_tpm_device = [],
     sd_signature = [], sd_public_key = [], sd_resettable = False\<rparr>"

definition seal_main :: "'w seal_ops \<Rightarrow> string option \<Rightarrow> seal_flags \<Rightarrow> 'w \<times> open_read \<Rightarrow> 'w seal_run" where
  "seal_main ops action fl s =
     (case action of
        None \<Rightarrow> seal_error (blank_decision\<lparr>sd_action := ''none''\<rparr>) ''usage: seal-tool provision|unseal|sign [flags]'' s
      | Some act \<Rightarrow>
          if sf_dir fl = [] \<or> sf_root fl = [] then
            seal_error (blank_decision\<lparr>sd_action := act\<rparr>) ''need -dir and -content-root'' s
          else
            (let d = blank_decision\<lparr>sd_action := act, sd_content_root := sf_root fl,
                   sd_expected_pcr := expected_pcr23 (tp_sha (so_tpm ops)) (sf_root fl),
                   sd_tpm_device := seal_device (so_tpm ops) (fst s), sd_resettable := True\<rparr>
             in if sd_tpm_device d = [] then seal_error d ''no usable TPM device'' s
                else if act = ''provision'' then do_provision ops d (sf_dir fl) (sf_root fl) (sf_secret_file fl) (sf_log fl) s
                else if act = ''unseal'' then do_unseal ops d (sf_dir fl) (sf_root fl) (sf_log fl) s
                else if act = ''sign'' then do_sign ops d (sf_dir fl) (sf_root fl) (sf_artifact fl) (sf_sig fl) (sf_log fl) s
                else seal_error d (''unknown action '' @ act) s))"

definition omit_blank :: "string \<Rightarrow> string \<Rightarrow> (string \<times> json) list" where
  "omit_blank k v = (if v = [] then [] else [(k, JStr v)])"

definition seal_value :: "seal_decision \<Rightarrow> json" where
  "seal_value d =
     JObj ([(''decision'', JStr (sd_decision d)), (''action'', JStr (sd_action d))] @ omit_blank ''reason'' (sd_reason d) @
       omit_blank ''content_root'' (sd_content_root d) @ omit_blank ''expected_pcr23'' (sd_expected_pcr d) @
       omit_blank ''tpm_device'' (sd_tpm_device d) @ omit_blank ''signature'' (sd_signature d) @
       omit_blank ''public_key'' (sd_public_key d) @ [(''pcr_resettable'', JBool (sd_resettable d))])"

definition seal_text :: "seal_decision \<Rightarrow> string" where
  "seal_text d = json_indent 0 (seal_value d) @ [newline]"

section \<open>Signing\<close>

lemma seal_error_code: "seal_error d reason s = ((d', ec), s') \<Longrightarrow> ec = 2"
  by (simp add: seal_error_def)

lemma seal_error_fst: "fst (seal_error d reason s) = (d\<lparr>sd_decision := ''ERROR'', sd_reason := reason\<rparr>, 2)"
  by (simp add: seal_error_def)

text \<open>What a successful signature is, from the world the command started in.\<close>

definition signed_artifact :: "'w seal_ops \<Rightarrow> seal_flags \<Rightarrow> 'w \<Rightarrow> seal_decision \<Rightarrow> bool" where
  "signed_artifact ops fl w d \<longleftrightarrow>
     (\<exists>body w1 secret w2 w3. tp_read_file (so_tpm ops) (sf_artifact fl) w = (Inr body, w1) \<and>
        unseal (so_tpm ops) (sf_dir fl) (sf_root fl) w1 = (Inr secret, w2) \<and>
        sd_signature d = b64_encode (so_sign ops (seed_of secret) body) \<and>
        tp_write_file (so_tpm ops) (sf_sig fl) (''ed25519 '' @ b64_encode (so_public ops (seed_of secret)) @ '' '' @
          sd_signature d @ [newline]) w2 = (Inr (), w3))"

text \<open>The command has what it needs, and the TPM refuses the seed, with an error.\<close>

definition sign_asked :: "'w seal_ops \<Rightarrow> seal_flags \<Rightarrow> 'w \<Rightarrow> bool" where
  "sign_asked ops fl w \<longleftrightarrow> sf_dir fl \<noteq> [] \<and> sf_root fl \<noteq> [] \<and> seal_device (so_tpm ops) w \<noteq> [] \<and>
     sf_artifact fl \<noteq> [] \<and> sf_sig fl \<noteq> []"

definition seed_refused :: "'w seal_ops \<Rightarrow> seal_flags \<Rightarrow> 'w \<Rightarrow> tpm_error \<Rightarrow> 'w \<Rightarrow> bool" where
  "seed_refused ops fl w e w2 \<longleftrightarrow>
     (\<exists>body w1. tp_read_file (so_tpm ops) (sf_artifact fl) w = (Inr body, w1) \<and>
        unseal (so_tpm ops) (sf_dir fl) (sf_root fl) w1 = (Inl e, w2))"

text \<open>What is left when it is refused: a line in the log, and then no signature file.\<close>

definition signature_removed :: "'w seal_ops \<Rightarrow> seal_flags \<Rightarrow> tpm_error \<Rightarrow> 'w \<times> open_read \<Rightarrow> 'w \<times> open_read \<Rightarrow> bool" where
  "signature_removed ops fl e s s' \<longleftrightarrow>
     (\<exists>w3. seal_log ops (sf_log fl) ev_sign_refused
         (''artifact='' @ sf_artifact fl @ '' reason='' @ refusal_reason e @ '' content_root='' @ sf_root fl) s = (w3, snd s') \<and>
        fst s' = tp_remove (so_tpm ops) (sf_sig fl) w3)"

lemma do_sign_cases:
  assumes "do_sign ops d (sf_dir fl) (sf_root fl) (sf_artifact fl) (sf_sig fl) (sf_log fl) (w, file) = ((d', ec), s')"
    and "sd_signature d = []" "sf_artifact fl \<noteq> []" "sf_sig fl \<noteq> []"
  obtains (signed) "ec = 0" "sd_decision d' = ''SIGNED''" "signed_artifact ops fl w d'" "\<And>e w2. \<not> seed_refused ops fl w e w2"
  | (refused) e w2 where "ec = 1" "sd_decision d' = ''REFUSED''" "sd_reason d' = refusal_reason e" "sd_signature d' = []"
      "seed_refused ops fl w e w2" "signature_removed ops fl e (w2, file) s'"
  | (failed) "ec = 2" "sd_decision d' = ''ERROR''" "\<And>e w2. \<not> seed_refused ops fl w e w2"
proof (cases "tp_read_file (so_tpm ops) (sf_artifact fl) w")
  case r: (Pair r w1)
  show ?thesis
  proof (cases r)
    case (Inl e)
    with assms r show ?thesis by (intro failed) (auto simp: do_sign_def seal_error_def seed_refused_def)
  next
    case body: (Inr body)
    obtain u w2 where u: "unseal (so_tpm ops) (sf_dir fl) (sf_root fl) w1 = (u, w2)" by (metis prod.collapse)
    show ?thesis
    proof (cases u)
      case (Inl e)
      with assms r body u have "ec = 1" "d' = d\<lparr>sd_decision := ''REFUSED'', sd_reason := refusal_reason e\<rparr>"
          "signature_removed ops fl e (w2, file) s'"
        by (auto simp: do_sign_def signature_removed_def split: prod.splits)
      moreover have "seed_refused ops fl w e w2" using r body u Inl unfolding seed_refused_def by blast
      ultimately show ?thesis using assms(2) by (intro refused) simp_all
    next
      case (Inr secret)
      let ?d = "d\<lparr>sd_signature := b64_encode (so_sign ops (seed_of secret) body),
          sd_public_key := b64_encode (so_public ops (seed_of secret))\<rparr>"
      have n: "\<not> seed_refused ops fl w e w2" for e w2 using r body u Inr by (auto simp: seed_refused_def)
      obtain x w3 where x: "tp_write_file (so_tpm ops) (sf_sig fl)
          (''ed25519 '' @ sd_public_key ?d @ '' '' @ sd_signature ?d @ [newline]) w2 = (x, w3)" by (metis prod.collapse)
      show ?thesis
      proof (cases x)
        case (Inl e)
        with assms r body u Inr x n show ?thesis by (intro failed) (auto simp: do_sign_def Let_def seal_error_def)
      next
        case wrote: (Inr y)
        have "d' = ?d\<lparr>sd_decision := ''SIGNED''\<rparr>" "ec = 0"
          using assms r body u Inr x wrote by (auto simp: do_sign_def Let_def)
        moreover have "signed_artifact ops fl w (?d\<lparr>sd_decision := ''SIGNED''\<rparr>)"
          using r body u Inr x wrote unfolding signed_artifact_def by fastforce
        ultimately show ?thesis using n by (intro signed) simp_all
      qed
    qed
  qed
qed

text \<open>
  C15. Signing exits with 0 only when the artifact was read, the TPM released a seed under
  the content root that was given, and the signature of the artifact by that seed was
  written.  It exits with 1 exactly when the command had what it needs, the artifact was
  read and the TPM refused the seed; then the decision is a refusal with the reason of that
  error, no signature is reported, the refusal is logged and the last thing done is to remove
  the signature file.  Every other end is an error with exit code 2.
\<close>

theorem signed_only_with_the_released_seed:
  assumes "seal_main ops (Some ''sign'') fl (w, file) = ((d, ec), s')"
  shows "(ec = 0 \<longrightarrow> sd_decision d = ''SIGNED'' \<and> signed_artifact ops fl w d) \<and>
    (ec = 1 \<longleftrightarrow> sign_asked ops fl w \<and> (\<exists>e w2. seed_refused ops fl w e w2)) \<and>
    (ec = 1 \<longrightarrow> (\<exists>e w2. seed_refused ops fl w e w2 \<and> sd_decision d = ''REFUSED'' \<and> sd_reason d = refusal_reason e \<and>
       sd_signature d = [] \<and> signature_removed ops fl e (w2, file) s')) \<and>
    (ec \<noteq> 0 \<and> ec \<noteq> 1 \<longrightarrow> ec = 2 \<and> sd_decision d = ''ERROR'')"
proof (cases "sign_asked ops fl w")
  case False
  then have "ec = 2 \<and> sd_decision d = ''ERROR''"
    using assms by (auto simp: seal_main_def sign_asked_def do_sign_def seal_error_def Let_def split: if_splits)
  with False show ?thesis by simp
next
  case True
  define d0 where "d0 = blank_decision\<lparr>sd_action := ''sign'', sd_content_root := sf_root fl,
    sd_expected_pcr := expected_pcr23 (tp_sha (so_tpm ops)) (sf_root fl), sd_tpm_device := seal_device (so_tpm ops) w, sd_resettable := True\<rparr>"
  have "do_sign ops d0 (sf_dir fl) (sf_root fl) (sf_artifact fl) (sf_sig fl) (sf_log fl) (w, file) = ((d, ec), s')"
    using assms True by (auto simp: seal_main_def sign_asked_def Let_def d0_def)
  moreover have "sd_signature d0 = []" by (simp add: d0_def blank_decision_def)
  ultimately show ?thesis using True
    by (elim do_sign_cases) (auto simp: sign_asked_def)
qed

text \<open>The same operations with another log.\<close>

definition relogged :: "'w seal_ops \<Rightarrow> ('w \<Rightarrow> string option) \<Rightarrow> ('w \<Rightarrow> write_outcome \<times> 'w) \<Rightarrow> 'w seal_ops" where
  "relogged ops opens writes = ops\<lparr>so_open_log := opens, so_write_log := writes\<rparr>"

lemma relogged_ops [simp]:
  "so_tpm (relogged ops o' w') = so_tpm ops" "so_random (relogged ops o' w') = so_random ops"
  "so_public (relogged ops o' w') = so_public ops" "so_sign (relogged ops o' w') = so_sign ops"
  by (simp_all add: relogged_def)

lemma do_provision_log:
  "fst (do_provision (relogged ops o' w') d dir root sf lp' (w, file')) = fst (do_provision ops d dir root sf lp (w, file))"
proof -
  have "provision_seed (relogged ops o' w') sf = provision_seed ops sf" by (simp add: provision_seed_def)
  then show ?thesis by (simp add: do_provision_def Let_def seal_error_fst split: prod.split sum.split)
qed

lemma do_unseal_log: "fst (do_unseal (relogged ops o' w') d dir root lp' (w, file')) = fst (do_unseal ops d dir root lp (w, file))"
  by (simp add: do_unseal_def split: prod.split sum.split)

lemma do_sign_log:
  "fst (do_sign (relogged ops o' w') d dir root art sig lp' (w, file')) = fst (do_sign ops d dir root art sig lp (w, file))"
  by (simp add: do_sign_def Let_def seal_error_fst split: prod.split sum.split)

text \<open>
  The log has no say: what a run prints and its exit code do not depend on the log, nor
  on whether it could be opened or written; a secret is sealed, or an artifact signed, with
  exit code 0 and no record of it.
\<close>

theorem verdict_ignores_the_log:
  "fst (seal_main (relogged ops opens writes) action (fl\<lparr>sf_log := lp\<rparr>) (w, file')) = fst (seal_main ops action fl (w, file))"
  by (cases action)
    (simp_all add: seal_main_def seal_error_fst Let_def do_provision_log do_unseal_log do_sign_log)

definition sample_sealer :: "(bool \<times> bool) seal_ops" where
  "sample_sealer = \<lparr>so_tpm = sample_chip, so_random = (\<lambda>w. (Inr ''key'', w)), so_public = (\<lambda>s. ''pub'' @ s),
     so_sign = (\<lambda>s m. s @ m), so_open_log = (\<lambda>w. None), so_now = (\<lambda>w. (''now'', w)), so_write_log = (\<lambda>w. (Written, w))\<rparr>"

definition sample_seal_flags :: seal_flags where
  "sample_seal_flags = \<lparr>sf_dir = ''d'', sf_root = sample_root, sf_log = [], sf_secret_file = [], sf_artifact = ''a'', sf_sig = ''a.sig''\<rparr>"

lemma sample_refuses: "\<exists>e. unseal sample_chip ''d'' ''x'' w = (Inl e, w)"
proof -
  have "hex_decode ''x'' = None" by code_simp
  then obtain e where "extend_pcr sample_chip ''x'' w = (Inl e, w)" for w by (simp add: extend_pcr_def act_fail_def)
  moreover have "lock_path sample_chip w = (path_join [''/run'', lock_name], w)" for w by (simp add: lock_path_def sample_chip_def)
  moreover have "path_join [''/run'', lock_name] \<noteq> []" by code_simp
  moreover have "tp_create sample_chip p w = (Inr (), w)" "tp_flock sample_chip p w = (Inr (), w)" "tp_unlock sample_chip p w = w" for p w
    by (simp_all add: sample_chip_def)
  ultimately show ?thesis
    by (simp add: unseal_def with_pcr_lock_def act_bind_def act_wrap_def act_defer_def del: path_join.simps)
qed

theorem signed_only_with_the_released_seed_witness:
  "(\<exists>d s'. seal_main sample_sealer (Some ''sign'') sample_seal_flags ((False, False), Missing) = ((d, 0), s') \<and>
     sd_decision d = ''SIGNED'' \<and> signed_artifact sample_sealer sample_seal_flags (False, False) d) \<and>
   (\<exists>d s'. seal_main sample_sealer (Some ''sign'') (sample_seal_flags\<lparr>sf_root := ''x''\<rparr>) ((False, False), Missing) = ((d, 1), s') \<and>
     sd_decision d = ''REFUSED'' \<and> sd_signature d = [])"
proof
  have w: "tp_read_file sample_chip p w = (Inr ''body'', w)" "tp_write_file sample_chip p t w = (Inr (), (fst w, snd w \<or> t = ''key''))" for p t w
    by (simp_all add: sample_chip_def)
  have d: "seal_device sample_chip x \<noteq> []" for x by (simp add: seal_device_def sample_chip_def)
  have n: "sample_root \<noteq> []" by (simp add: sample_root_def)
  have "\<exists>d s'. seal_main sample_sealer (Some ''sign'') sample_seal_flags ((False, False), Missing) = ((d, 0), s')"
    by (simp add: seal_main_def sample_seal_flags_def n sample_sealer_def d do_sign_def w sample_unseal seal_log_def Let_def) blast
  then obtain d s' where r: "seal_main sample_sealer (Some ''sign'') sample_seal_flags ((False, False), Missing) = ((d, 0), s')" by blast
  with signed_only_with_the_released_seed [OF r]
  show "\<exists>d s'. seal_main sample_sealer (Some ''sign'') sample_seal_flags ((False, False), Missing) = ((d, 0), s') \<and>
     sd_decision d = ''SIGNED'' \<and> signed_artifact sample_sealer sample_seal_flags (False, False) d"
    by blast
  let ?fl = "sample_seal_flags\<lparr>sf_root := ''x''\<rparr>"
  obtain dec ec s2 where m: "seal_main sample_sealer (Some ''sign'') ?fl ((False, False), Missing) = ((dec, ec), s2)"
    by (metis prod.collapse)
  obtain e where "unseal sample_chip ''d'' ''x'' (False, False) = (Inl e, (False, False))" using sample_refuses by blast
  then have "seed_refused sample_sealer ?fl (False, False) e (False, False)"
    by (simp add: seed_refused_def sample_sealer_def sample_seal_flags_def w)
  moreover have "sign_asked sample_sealer ?fl (False, False)"
    by (simp add: sign_asked_def sample_seal_flags_def sample_sealer_def d)
  ultimately have "ec = 1" using signed_only_with_the_released_seed [OF m] by blast
  with signed_only_with_the_released_seed [OF m] m
  show "\<exists>d s'. seal_main sample_sealer (Some ''sign'') ?fl ((False, False), Missing) = ((d, 1), s') \<and>
     sd_decision d = ''REFUSED'' \<and> sd_signature d = []"
    by blast
qed

end
