(* ===== verification/Crs_Output.thy ===== *)
theory Crs_Output
  imports Go_Path Go_Regex Go_Json
begin

text \<open>
  The output of a CRS read back as a corpus case (\<open>pkg/crsout\<close>): its patches, reproducers and
  bundles are found, paired and checked, and a case is written.  Files are operations on a
  world; a directory that does not exist is told from one that cannot be read.
\<close>

section \<open>Results\<close>

definition crs_captured :: string where "crs_captured = ''captured''"
definition crs_no_run :: string where "crs_no_run = ''crs-no-run''"
definition crs_no_patch :: string where "crs_no_patch = ''crs-no-patch''"
definition crs_no_pov :: string where "crs_no_pov = ''crs-no-pov''"
definition crs_unpairable :: string where "crs_unpairable = ''crs-unpairable''"
definition crs_malformed :: string where "crs_malformed = ''crs-malformed-artifact''"
definition crs_no_sanitizer :: string where "crs_no_sanitizer = ''crs-no-sanitizer-report''"

record crs_result =
  cr_outcome :: string
  cr_task :: string
  cr_case_path :: string
  cr_patch :: string
  cr_pov :: string
  cr_detail :: string
  cr_evidence :: "string list"

record crs_bundle =
  cb_bundle :: string
  cb_task :: string
  cb_pov :: string
  cb_patch :: string

record crs_source =
  cs_repo :: string
  cs_base_commit :: string
  cs_head_commit :: string
  cs_project :: string
  cs_harness :: string
  cs_sanitizer :: string
  cs_expected :: string
  cs_crash_location :: string

datatype dir_error = NotExist | DirError string

record 'w crs_ops =
  cf_is_dir :: "string \<Rightarrow> 'w \<Rightarrow> bool"
  cf_read_dir :: "string \<Rightarrow> 'w \<Rightarrow> (dir_error, (string \<times> bool) list) result"
  cf_read_file :: "string \<Rightarrow> 'w \<Rightarrow> (string, string) result"
  cf_mkdir_all :: "string \<Rightarrow> ('w, string, unit) action"
  cf_write_file :: "string \<Rightarrow> string \<Rightarrow> ('w, string, unit) action"
  cf_printable :: "nat \<Rightarrow> bool"

section \<open>Finding the artifacts\<close>

definition artifacts :: "'w crs_ops \<Rightarrow> 'w \<Rightarrow> string \<Rightarrow> string \<Rightarrow> string \<Rightarrow> (string, string list) result" where
  "artifacts ops w task kind ext =
     (case cf_read_dir ops (path_join [task, kind]) w of
        Inl NotExist \<Rightarrow> Inr []
      | Inl (DirError e) \<Rightarrow> Inl e
      | Inr ents \<Rightarrow>
          Inr (sort (map (\<lambda>(n, d). trim_suffix n ext) (filter (\<lambda>(n, d). \<not> d \<and> has_suffix n ext) ents))))"

definition bundle_setters :: "crs_bundle Go_Json.fields" where
  "bundle_setters =
     [(''bundle_id'', set_string (\<lambda>s b. b\<lparr>cb_bundle := s\<rparr>)), (''task_id'', set_string (\<lambda>s b. b\<lparr>cb_task := s\<rparr>)),
      (''pov_id'', set_string (\<lambda>s b. b\<lparr>cb_pov := s\<rparr>)), (''patch_id'', set_string (\<lambda>s b. b\<lparr>cb_patch := s\<rparr>))]"

definition zero_bundle :: crs_bundle where
  "zero_bundle = \<lparr>cb_bundle = [], cb_task = [], cb_pov = [], cb_patch = []\<rparr>"

definition parse_bundle :: "string \<Rightarrow> (json_error, crs_bundle) result" where
  "parse_bundle b = unmarshal_struct bundle_setters zero_bundle b"

text \<open>The first bundle that can be read and names a patch and a reproducer; others are skipped.\<close>

fun find_bundle :: "'w crs_ops \<Rightarrow> 'w \<Rightarrow> string \<Rightarrow> string list \<Rightarrow> (string \<times> string) option" where
  "find_bundle ops w task [] = None"
| "find_bundle ops w task (i # is) =
     (case cf_read_file ops (path_join [task, ''bundles'', i @ ''.json'']) w of
        Inl e \<Rightarrow> find_bundle ops w task is
      | Inr b \<Rightarrow>
          (case parse_bundle b of
             Inl e \<Rightarrow> find_bundle ops w task is
           | Inr bu \<Rightarrow>
               if cb_patch bu \<noteq> [] \<and> cb_pov bu \<noteq> [] then Some (cb_patch bu, cb_pov bu)
               else find_bundle ops w task is))"

definition paired_by_bundle :: string where
  "paired_by_bundle = ''paired by the CRS'' @ [CHR 0x27] @ ''s own bundle''"

definition paired_alone :: string where
  "paired_alone = ''paired as the only patch and the only pov; the run carried no bundle''"

definition pair_artifacts :: "'w crs_ops \<Rightarrow> 'w \<Rightarrow> string \<Rightarrow> string list \<Rightarrow> string list \<Rightarrow> (string, string \<times> string \<times> string) result" where
  "pair_artifacts ops w task patches povs =
     try_bind (artifacts ops w task ''bundles'' ''.json'') (\<lambda>bundles.
       case find_bundle ops w task bundles of
         Some (patch, pov) \<Rightarrow> Inr (patch, pov, paired_by_bundle)
       | None \<Rightarrow>
           if length patches = 1 \<and> length povs = 1 then Inr (hd patches, hd povs, paired_alone)
           else Inl (''no bundle ties a patch to a pov, and there are '' @ nat_dec (length patches) @ '' patches and '' @
             nat_dec (length povs) @ '' povs, so which claims to fix which is unknown''))"

definition hunk_header :: rx where
  "hunk_header =
     (let digits = rx_plus True (RCls re_digit); ranges = RSeq digits (rx_opt (RSeq (rx_lit '','') digits))
      in rx_seq [rx_lit ''@@ -'', ranges, rx_lit '' +'', ranges, rx_lit '' @@''])"

definition looks_like_diff :: "string \<Rightarrow> bool" where
  "looks_like_diff b = rx_line_start hunk_header b"

section \<open>Writing the case\<close>

definition case_text :: "(nat \<Rightarrow> bool) \<Rightarrow> string \<Rightarrow> crs_source \<Rightarrow> string \<Rightarrow> string \<Rightarrow> string" where
  "case_text pr task src patch_path pov_path =
     join_with [newline]
      [''# Captured from a CRS run by pkg/crsout. Not hand-authored.'',
       ''#'',
       ''# kind: captured means this is a question, not an oracle. It carries no'',
       ''# reference_patch, because a novel target has no known-good fix, and no'',
       ''# expected_gate_reason, because whether the candidate is a fix is what the gate'',
       ''# is being asked. Presuming either would grade the capture instead of the patch.'',
       ''kind: captured'',
       ''id: crs-'' @ task,
       ''language: c'',
       ''root: repo'',
       ''target: '' @ cs_project src,
       ''harness: '' @ cs_harness src,
       [],
       ''source:'',
       ''  cp_repo: '' @ cs_repo src,
       ''  cp_commit: '' @ cs_head_commit src,
       ''  src_repo: '' @ cs_repo src,
       ''  src_ref: '' @ cs_head_commit src,
       ''  src_commit: '' @ cs_head_commit src,
       ''  base_commit: '' @ cs_base_commit src,
       ''  fuzz_tooling_project: '' @ cs_project src,
       [],
       ''pov:'',
       ''  input: '' @ pov_path,
       ''  sanitizer: '' @ cs_sanitizer src,
       ''  expected_sanitizer: '' @ go_quote pr (cs_expected src),
       ''  crash_location: '' @ go_quote pr (cs_crash_location src),
       ''  signal: stderr'',
       [],
       ''candidates:'',
       ''  - id: crs-'' @ task @ ''-candidate'',
       ''    patch: '' @ patch_path,
       ''    label: unclassified'',
       []]"

definition write_case :: "'w crs_ops \<Rightarrow> string \<Rightarrow> string \<Rightarrow> crs_source \<Rightarrow> string \<Rightarrow> string \<Rightarrow> ('w, string, string) action" where
  "write_case ops out_dir task src patch pov =
     (let dir = path_join [out_dir, task];
          patch_path = path_join [dir, ''candidate.patch''];
          pov_path = path_join [dir, ''pov.bin''];
          case_path = path_join [dir, ''case.yaml'']
      in act_bind (cf_mkdir_all ops dir) (\<lambda>_.
         act_bind (cf_write_file ops patch_path patch) (\<lambda>_.
         act_bind (cf_write_file ops pov_path pov) (\<lambda>_.
         act_bind (cf_write_file ops case_path (case_text (cf_printable ops) task src patch_path pov_path)) (\<lambda>_.
           act_return case_path)))))"

section \<open>Capturing\<close>

text \<open>An end without a case.\<close>

definition declined :: "crs_result \<Rightarrow> string \<Rightarrow> string \<Rightarrow> ('w, string, crs_result) action" where
  "declined res outcome detail = act_return (res\<lparr>cr_outcome := outcome, cr_detail := detail\<rparr>)"

definition capture_pair :: "'w crs_ops \<Rightarrow> string \<Rightarrow> string \<Rightarrow> string \<Rightarrow> crs_source \<Rightarrow> crs_result \<Rightarrow> ('w, string, crs_result) action" where
  "capture_pair ops task_dir out_dir task src res = (\<lambda>w.
     let patch_path = path_join [task_dir, ''patches'', cr_patch res @ ''.patch''];
         pov_path = path_join [task_dir, ''povs'', cr_pov res @ ''.bin'']
     in case cf_read_file ops patch_path w of
          Inl e \<Rightarrow> (Inl e, w)
        | Inr b \<Rightarrow>
            if \<not> looks_like_diff b then
              declined res crs_malformed (patch_path @ '' has no unified-diff hunk header with ranges'') w
            else
              (case cf_read_file ops pov_path w of
                 Inl e \<Rightarrow> (Inl e, w)
               | Inr pb \<Rightarrow>
                   if pb = [] then declined res crs_malformed (pov_path @ '' is empty, so it reproduces nothing'') w
                   else
                     act_bind (write_case ops out_dir task src b pb) (\<lambda>case_path.
                       act_return (res\<lparr>cr_outcome := crs_captured, cr_case_path := case_path,
                         cr_evidence := cr_evidence res @ [''case written to '' @ case_path]\<rparr>)) w))"

definition new_capture :: "string \<Rightarrow> crs_result" where
  "new_capture task = \<lparr>cr_outcome = [], cr_task = task, cr_case_path = [], cr_patch = [], cr_pov = [], cr_detail = [], cr_evidence = []\<rparr>"

definition capture_found :: "'w crs_ops \<Rightarrow> string \<Rightarrow> string \<Rightarrow> string \<Rightarrow> crs_source \<Rightarrow> crs_result \<Rightarrow> string list \<Rightarrow> string list \<Rightarrow>
    ('w, string, crs_result) action" where
  "capture_found ops task_dir out_dir task src res patches povs = (\<lambda>w.
     if patches = [] then declined res crs_no_patch ''the run produced no patch, so there is nothing to grade'' w
     else if povs = [] then
       declined res crs_no_pov ''a patch exists with no reproducer, so no stage that runs a PoV can attribute it'' w
     else if trim_space (cs_expected src) = [] then
       declined res crs_no_sanitizer ''no sanitizer report for this run, so every candidate would grade clean'' w
     else
       (case pair_artifacts ops w task_dir patches povs of
          Inl e \<Rightarrow> declined res crs_unpairable e w
        | Inr (patch, pov, how) \<Rightarrow>
            capture_pair ops task_dir out_dir task src
              (res\<lparr>cr_patch := patch, cr_pov := pov, cr_evidence := cr_evidence res @ [how]\<rparr>) w))"

definition capture_run :: "'w crs_ops \<Rightarrow> string \<Rightarrow> string \<Rightarrow> crs_source \<Rightarrow> string \<Rightarrow> ('w, string, crs_result) action" where
  "capture_run ops run_dir task src out_dir = (\<lambda>w.
     let res = new_capture task; task_dir = path_join [run_dir, task]
     in if \<not> cf_is_dir ops task_dir w then
          (let detail = ''no task directory at '' @ task_dir
           in declined (res\<lparr>cr_evidence := [detail]\<rparr>) crs_no_run detail w)
        else
          (case artifacts ops w task_dir ''patches'' ''.patch'' of
             Inl e \<Rightarrow> (Inl e, w)
           | Inr patches \<Rightarrow>
               (case artifacts ops w task_dir ''povs'' ''.bin'' of
                  Inl e \<Rightarrow> (Inl e, w)
                | Inr povs \<Rightarrow>
                    capture_found ops task_dir out_dir task src
                      (res\<lparr>cr_evidence := [nat_dec (length patches) @ '' patch(es), '' @ nat_dec (length povs) @
                        '' pov(s) under '' @ task_dir]\<rparr>) patches povs w)))"

section \<open>What a captured case stands on\<close>

lemma declined_outcome: "declined res outcome detail w = (Inr r, w') \<Longrightarrow> cr_outcome r = outcome"
  by (auto simp: declined_def act_return_def)

lemma outcome_names [simp]:
  "crs_no_run \<noteq> crs_captured" "crs_no_patch \<noteq> crs_captured" "crs_no_pov \<noteq> crs_captured" "crs_unpairable \<noteq> crs_captured"
  "crs_malformed \<noteq> crs_captured" "crs_no_sanitizer \<noteq> crs_captured"
  by (simp_all add: crs_no_run_def crs_no_patch_def crs_no_pov_def crs_unpairable_def crs_malformed_def crs_no_sanitizer_def
      crs_captured_def)

text \<open>The files a capture copied, and the case it wrote last.\<close>

definition copied_case :: "'w crs_ops \<Rightarrow> string \<Rightarrow> string \<Rightarrow> crs_source \<Rightarrow> string \<Rightarrow> string \<Rightarrow> string \<Rightarrow> 'w \<Rightarrow> 'w \<Rightarrow> bool" where
  "copied_case ops out_dir task src patch pov case_path w w' \<longleftrightarrow>
     (\<exists>w1 w2 w3. cf_mkdir_all ops (path_join [out_dir, task]) w = (Inr (), w1) \<and>
        cf_write_file ops (path_join [path_join [out_dir, task], ''candidate.patch'']) patch w1 = (Inr (), w2) \<and>
        cf_write_file ops (path_join [path_join [out_dir, task], ''pov.bin'']) pov w2 = (Inr (), w3) \<and>
        cf_write_file ops case_path (case_text (cf_printable ops) task src (path_join [path_join [out_dir, task], ''candidate.patch''])
          (path_join [path_join [out_dir, task], ''pov.bin''])) w3 = (Inr (), w'))"

lemma write_case_Inr:
  "write_case ops out_dir task src patch pov w = (Inr cp, w') \<longleftrightarrow>
     cp = path_join [path_join [out_dir, task], ''case.yaml''] \<and> copied_case ops out_dir task src patch pov cp w w'"
  unfolding write_case_def copied_case_def Let_def act_bind_Inr act_return_Inr by auto

lemma capture_pair_captured:
  assumes "capture_pair ops td out_dir task src res w = (Inr r, w')" "cr_outcome r = crs_captured"
  shows "\<exists>patch pov. cf_read_file ops (path_join [td, ''patches'', cr_patch res @ ''.patch'']) w = Inr patch \<and> looks_like_diff patch \<and>
    cf_read_file ops (path_join [td, ''povs'', cr_pov res @ ''.bin'']) w = Inr pov \<and> pov \<noteq> [] \<and>
    copied_case ops out_dir task src patch pov (cr_case_path r) w w' \<and> cr_patch r = cr_patch res \<and> cr_pov r = cr_pov res"
  using assms
  by (auto simp: capture_pair_def Let_def act_bind_Inr act_return_Inr write_case_Inr simp del: path_join.simps
      dest: declined_outcome split: sum.splits if_splits)

text \<open>How the pair came about: by the CRS, or because there was no choice.\<close>

definition paired_for :: "'w crs_ops \<Rightarrow> 'w \<Rightarrow> string \<Rightarrow> string \<Rightarrow> string \<Rightarrow> bool" where
  "paired_for ops w td patch pov \<longleftrightarrow>
     (\<exists>i b bu. cf_read_file ops (path_join [td, ''bundles'', i @ ''.json'']) w = Inr b \<and> parse_bundle b = Inr bu \<and>
        cb_patch bu = patch \<and> cb_pov bu = pov \<and> patch \<noteq> [] \<and> pov \<noteq> []) \<or>
     artifacts ops w td ''patches'' ''.patch'' = Inr [patch] \<and> artifacts ops w td ''povs'' ''.bin'' = Inr [pov]"

lemma find_bundle_Some:
  "find_bundle ops w td ids = Some (patch, pov) \<Longrightarrow>
     \<exists>i b bu. cf_read_file ops (path_join [td, ''bundles'', i @ ''.json'']) w = Inr b \<and> parse_bundle b = Inr bu \<and>
        cb_patch bu = patch \<and> cb_pov bu = pov \<and> patch \<noteq> [] \<and> pov \<noteq> []"
  by (induction ids) (auto simp del: path_join.simps split: sum.splits if_splits)

lemma pair_artifacts_Inr:
  assumes "pair_artifacts ops w td patches povs = Inr (patch, pov, how)"
    and "artifacts ops w td ''patches'' ''.patch'' = Inr patches" "artifacts ops w td ''povs'' ''.bin'' = Inr povs"
  shows "paired_for ops w td patch pov"
proof -
  obtain ids where "(case find_bundle ops w td ids of
         Some (patch, pov) \<Rightarrow> Inr (patch, pov, paired_by_bundle)
       | None \<Rightarrow>
           if length patches = 1 \<and> length povs = 1 then Inr (hd patches, hd povs, paired_alone)
           else Inl (''no bundle ties a patch to a pov, and there are '' @ nat_dec (length patches) @ '' patches and '' @
             nat_dec (length povs) @ '' povs, so which claims to fix which is unknown'')) = Inr (patch, pov, how)"
    using assms(1) unfolding pair_artifacts_def try_bind_Inr by blast
  then consider "find_bundle ops w td ids = Some (patch, pov)" | "patches = [patch]" "povs = [pov]"
    by (auto split: option.splits if_splits simp: length_Suc_conv)
  then show ?thesis
  proof cases
    case 1
    from find_bundle_Some [OF this] show ?thesis unfolding paired_for_def by (rule disjI1)
  next
    case 2
    then show ?thesis using assms(2,3) by (simp add: paired_for_def)
  qed
qed

text \<open>
  C31. A captured case stands on real evidence: the patch has a hunk header with ranges, the
  reproducer is not empty, both are copied byte for byte before the case that names them is
  written, there is a sanitizer report to compare with, and the two were tied by a bundle of
  the CRS or were the only ones there.
\<close>

theorem captured_case_is_gradable:
  assumes "capture_run ops run_dir task src out_dir w = (Inr r, w')" "cr_outcome r = crs_captured"
  shows "trim_space (cs_expected src) \<noteq> [] \<and> paired_for ops w (path_join [run_dir, task]) (cr_patch r) (cr_pov r) \<and>
    (\<exists>patch pov. cf_read_file ops (path_join [path_join [run_dir, task], ''patches'', cr_patch r @ ''.patch'']) w = Inr patch \<and>
       cf_read_file ops (path_join [path_join [run_dir, task], ''povs'', cr_pov r @ ''.bin'']) w = Inr pov \<and>
       looks_like_diff patch \<and> pov \<noteq> [] \<and> copied_case ops out_dir task src patch pov (cr_case_path r) w w')"
proof -
  let ?td = "path_join [run_dir, task]"
  obtain res patches povs where f: "capture_found ops ?td out_dir task src res patches povs w = (Inr r, w')"
      and a: "artifacts ops w ?td ''patches'' ''.patch'' = Inr patches" "artifacts ops w ?td ''povs'' ''.bin'' = Inr povs"
    using assms by (auto simp: capture_run_def Let_def simp del: path_join.simps dest: declined_outcome split: if_splits sum.splits)
  obtain patch pov how where p: "pair_artifacts ops w ?td patches povs = Inr (patch, pov, how)"
      and c: "capture_pair ops ?td out_dir task src (res\<lparr>cr_patch := patch, cr_pov := pov, cr_evidence := cr_evidence res @ [how]\<rparr>) w = (Inr r, w')"
      and s: "trim_space (cs_expected src) \<noteq> []"
    using f assms(2) by (auto simp: capture_found_def simp del: path_join.simps dest: declined_outcome split: if_splits sum.splits)
  from pair_artifacts_Inr [OF p a] capture_pair_captured [OF c assms(2)] s show ?thesis by (auto simp del: path_join.simps)
qed

text \<open>
  A bundle that does not parse is passed over, not reported: where no bundle can be
  used, a single patch and a single reproducer are paired as if the run carried none.
\<close>

theorem broken_bundles_are_passed_over:
  assumes "artifacts ops w td ''bundles'' ''.json'' = Inr ids"
    and "\<And>i. i \<in> set ids \<Longrightarrow> \<exists>b e. cf_read_file ops (path_join [td, ''bundles'', i @ ''.json'']) w = Inr b \<and> parse_bundle b = Inl e"
  shows "pair_artifacts ops w td [patch] [pov] = Inr (patch, pov, paired_alone)"
proof -
  have "find_bundle ops w td ids = None" using assms(2)
  proof (induction ids)
    case (Cons i ids)
    from Cons.prems [of i] obtain b e where "cf_read_file ops (path_join [td, ''bundles'', i @ ''.json'']) w = Inr b" "parse_bundle b = Inl e"
      by auto
    moreover have "find_bundle ops w td ids = None" using Cons by simp
    ultimately show ?case by (simp del: path_join.simps)
  qed simp
  then show ?thesis using assms(1) by (simp add: pair_artifacts_def try_bind_def)
qed

section \<open>An example\<close>

definition sample_crs :: "string list crs_ops" where
  "sample_crs = \<lparr>cf_is_dir = (\<lambda>p w. True),
     cf_read_dir = (\<lambda>p w.
       if has_suffix p ''patches'' then Inr [(''p1.patch'', False)]
       else if has_suffix p ''povs'' then Inr [(''v1.bin'', False)]
       else Inr [(''b1.json'', False)]),
     cf_read_file = (\<lambda>p w.
       if has_suffix p ''.patch'' then Inr (''@@ -1,2 +3 @@'' @ [newline])
       else if has_suffix p ''.bin'' then Inr ''crash'' else Inr ''{''),
     cf_mkdir_all = (\<lambda>d w. (Inr (), w)), cf_write_file = (\<lambda>p b w. (Inr (), w @ [p])), cf_printable = (\<lambda>n. True)\<rparr>"

definition sample_crs_source :: crs_source where
  "sample_crs_source = \<lparr>cs_repo = ''r'', cs_base_commit = ''c0'', cs_head_commit = ''c1'', cs_project = ''libpng'', cs_harness = ''h'',
     cs_sanitizer = ''address'', cs_expected = ''AddressSanitizer'', cs_crash_location = []\<rparr>"

lemma sample_artifacts:
  "artifacts sample_crs w ''run/t'' ''patches'' ''.patch'' = Inr [''p1'']"
  "artifacts sample_crs w ''run/t'' ''povs'' ''.bin'' = Inr [''v1'']"
  "artifacts sample_crs w ''run/t'' ''bundles'' ''.json'' = Inr [''b1'']"
proof -
  have p: "path_join [''run/t'', ''patches''] = ''run/t/patches''" "path_join [''run/t'', ''povs''] = ''run/t/povs''"
    "path_join [''run/t'', ''bundles''] = ''run/t/bundles''" by code_simp+
  have h: "has_suffix ''run/t/patches'' ''patches''" "\<not> has_suffix ''run/t/povs'' ''patches''" "has_suffix ''run/t/povs'' ''povs''"
    "\<not> has_suffix ''run/t/bundles'' ''patches''" "\<not> has_suffix ''run/t/bundles'' ''povs''"
    "has_suffix ''p1.patch'' ''.patch''" "has_suffix ''v1.bin'' ''.bin''" "has_suffix ''b1.json'' ''.json''" by code_simp+
  have t: "trim_suffix ''p1.patch'' ''.patch'' = ''p1''" "trim_suffix ''v1.bin'' ''.bin'' = ''v1''" "trim_suffix ''b1.json'' ''.json'' = ''b1''"
    by code_simp+
  show "artifacts sample_crs w ''run/t'' ''patches'' ''.patch'' = Inr [''p1'']"
    "artifacts sample_crs w ''run/t'' ''povs'' ''.bin'' = Inr [''v1'']"
    "artifacts sample_crs w ''run/t'' ''bundles'' ''.json'' = Inr [''b1'']"
    by (simp_all only: artifacts_def p) (simp_all add: sample_crs_def h t)
qed

theorem broken_bundles_are_passed_over_witness:
  "pair_artifacts sample_crs [] ''run/t'' [''p1''] [''v1''] = Inr (''p1'', ''v1'', paired_alone)"
proof (rule broken_bundles_are_passed_over [OF sample_artifacts(3)])
  fix i
  assume "i \<in> set [''b1'']"
  then have i: "i = ''b1''" by simp
  have "path_join [''run/t'', ''bundles'', ''b1'' @ ''.json''] = ''run/t/bundles/b1.json''" by code_simp
  moreover have "\<not> has_suffix ''run/t/bundles/b1.json'' ''.patch''" "\<not> has_suffix ''run/t/bundles/b1.json'' ''.bin''" by code_simp+
  moreover have "\<exists>e. parse_bundle ''{'' = Inl e"
  proof -
    have "parse_bundle ''{'' = Inl JSyntax" by code_simp
    then show ?thesis by blast
  qed
  ultimately show "\<exists>b e. cf_read_file sample_crs (path_join [''run/t'', ''bundles'', i @ ''.json'']) [] = Inr b \<and> parse_bundle b = Inl e"
    unfolding i by (simp add: sample_crs_def)
qed

lemma sample_captures:
  assumes "trim_space (cs_expected src) \<noteq> []"
  shows "\<exists>r. capture_run sample_crs ''run'' ''t'' src ''out'' [] =
    (Inr r, [''out/t/candidate.patch'', ''out/t/pov.bin'', ''out/t/case.yaml'']) \<and> cr_outcome r = crs_captured \<and> cr_patch r = ''p1''"
proof -
  have j: "path_join [''run'', ''t''] = ''run/t''" "path_join [''run/t'', ''patches'', ''p1.patch''] = ''run/t/patches/p1.patch''"
    "path_join [''run/t'', ''povs'', ''v1.bin''] = ''run/t/povs/v1.bin''" "path_join [''out'', ''t''] = ''out/t''"
    "path_join [''out/t'', ''candidate.patch''] = ''out/t/candidate.patch''" "path_join [''out/t'', ''pov.bin''] = ''out/t/pov.bin''"
    "path_join [''out/t'', ''case.yaml''] = ''out/t/case.yaml''" by code_simp+
  have h: "has_suffix ''run/t/patches/p1.patch'' ''.patch''" "\<not> has_suffix ''run/t/povs/v1.bin'' ''.patch''"
    "has_suffix ''run/t/povs/v1.bin'' ''.bin''" "looks_like_diff (''@@ -1,2 +3 @@'' @ [newline])" by code_simp+
  have f: "cf_read_file sample_crs ''run/t/patches/p1.patch'' w = Inr (''@@ -1,2 +3 @@'' @ [newline])"
    "cf_read_file sample_crs ''run/t/povs/v1.bin'' w = Inr ''crash''" "cf_is_dir sample_crs p w"
    "cf_write_file sample_crs p t w = (Inr (), w @ [p])" "cf_mkdir_all sample_crs p w = (Inr (), w)" for w p t
    by (simp_all add: sample_crs_def h)
  have a: "pair_artifacts sample_crs [] ''run/t'' [''p1''] [''v1''] = Inr (''p1'', ''v1'', paired_alone)"
  proof -
    have "find_bundle sample_crs [] ''run/t'' [''b1''] = None" by code_simp
    then show ?thesis by (simp add: pair_artifacts_def try_bind_def sample_artifacts)
  qed
  have cp: "\<exists>r. capture_pair sample_crs ''run/t'' ''out'' ''t'' src res [] =
      (Inr r, [''out/t/candidate.patch'', ''out/t/pov.bin'', ''out/t/case.yaml'']) \<and> cr_outcome r = crs_captured \<and> cr_patch r = ''p1''"
    if p: "cr_patch res = ''p1''" "cr_pov res = ''v1''" for res
  proof -
    have w: "write_case sample_crs ''out'' ''t'' src b pb [] =
        (Inr ''out/t/case.yaml'', [''out/t/candidate.patch'', ''out/t/pov.bin'', ''out/t/case.yaml''])" for b pb
      by (simp add: write_case_def Let_def j f act_bind_def act_return_def del: path_join.simps)
    show ?thesis
      using h(4) by (simp add: capture_pair_def Let_def p j f act_bind_def act_return_def w del: path_join.simps)
  qed
  show "\<exists>r. capture_run sample_crs ''run'' ''t'' src ''out'' [] =
      (Inr r, [''out/t/candidate.patch'', ''out/t/pov.bin'', ''out/t/case.yaml'']) \<and> cr_outcome r = crs_captured \<and> cr_patch r = ''p1''"
    using cp assms by (simp add: capture_run_def Let_def j f sample_artifacts capture_found_def a del: path_join.simps)
qed

theorem captured_case_is_gradable_witness:
  "\<exists>r. capture_run sample_crs ''run'' ''t'' sample_crs_source ''out'' [] = (Inr r, [''out/t/candidate.patch'', ''out/t/pov.bin'', ''out/t/case.yaml'']) \<and>
     cr_patch r = ''p1'' \<and> paired_for sample_crs [] ''run/t'' (cr_patch r) (cr_pov r)"
proof -
  have j: "path_join [''run'', ''t''] = ''run/t''" by code_simp
  have "trim_space (cs_expected sample_crs_source) \<noteq> []" by code_simp
  from sample_captures [OF this] obtain r where r: "capture_run sample_crs ''run'' ''t'' sample_crs_source ''out'' [] =
      (Inr r, [''out/t/candidate.patch'', ''out/t/pov.bin'', ''out/t/case.yaml''])" "cr_outcome r = crs_captured" "cr_patch r = ''p1''"
    by blast
  from captured_case_is_gradable [OF r(1,2)] r(1,3) show ?thesis unfolding j by blast
qed

end
