(* ===== verification/Gate_Cmd.thy ===== *)
theory Gate_Cmd
  imports Challenge Class_Replay Oss_Fuzz Dossier Audit_Log
begin

text \<open>
  The command \<open>cmd/gate\<close>: a stage is chosen, its target resolved from the case and the
  checkout (\<open>target.go\<close>), the gate run over that one stage (\<open>main.go\<close>, \<open>sweep.go\<close>), and the
  verdict written into the dossier, logged and turned into an exit code (\<open>persist.go\<close>).

  The record \<open>gate_ops\<close> holds what the command asks of the machine; the state of a run is
  the world those operations act on, the tree at the path of \<open>-bundle\<close> and the file at the
  path of \<open>-log\<close>.  The exits in the middle of the code are the constructors of \<open>gate_print\<close>,
  what is printed, beside the exit code.
\<close>

section \<open>Resolving a target\<close>

record 'w gate_ops =
  go_os :: "'w os_ops"
  go_read :: "string \<Rightarrow> 'w \<Rightarrow> (string, string) result"
  go_open :: "string \<Rightarrow> 'w \<Rightarrow> file_read"
  go_is_dir :: "string \<Rightarrow> 'w \<Rightarrow> bool"
  go_stat :: "string \<Rightarrow> 'w \<Rightarrow> string option"
  go_runnable :: "string \<Rightarrow> 'w \<Rightarrow> bool"
  go_output :: "string list \<Rightarrow> string list \<Rightarrow> ('w, string, string) action"
  go_temp_dir :: "('w, string, string) action"
  go_path :: string
  go_yaml :: "string \<Rightarrow> string + case_file"
  go_quoted :: "string \<Rightarrow> string"
  go_fold :: "string \<Rightarrow> string \<Rightarrow> bool"
  go_newest :: "(string \<times> int) list \<Rightarrow> (string \<times> int) list"
  go_sha :: "string \<Rightarrow> string"
  go_emit_io :: "'w \<Rightarrow> emit_io"
  go_open_log :: "'w \<Rightarrow> string option"
  go_now :: "'w \<Rightarrow> string \<times> 'w"
  go_write_log :: "'w \<Rightarrow> write_outcome \<times> 'w"

datatype shape = ShapeUnknown | ShapeChallengeProject | ShapeOSSFuzz

text \<open>\<open>strings.Trim\<close> with the two quotation marks.\<close>

definition quote_mark :: "char \<Rightarrow> bool" where
  "quote_mark c = (c = CHR 0x22 \<or> c = CHR 0x27)"

definition trim_quotes :: "string \<Rightarrow> string" where
  "trim_quotes s = rev (dropWhile quote_mark (rev (dropWhile quote_mark s)))"

text \<open>The first key below \<open>cp_sources:\<close>; the flag says whether that line was met.\<close>

fun first_cp_source :: "bool \<Rightarrow> string list \<Rightarrow> string" where
  "first_cp_source within [] = []"
| "first_cp_source within (ln # lns) =
     (if has_prefix (trim_space ln) ''cp_sources:'' then first_cp_source True lns
      else if \<not> within then first_cp_source within lns
      else
        (let t = trim_blanks ln
         in if t = [] \<or> has_prefix (trim_space t) ''#'' then first_cp_source within lns
            else if \<not> has_prefix t '' '' \<and> \<not> has_prefix t [CHR 0x09] then []
            else
              (case cut_char CHR '':'' (trim_space t) of
                 Some (k, _) \<Rightarrow> trim_quotes (trim_space k)
               | None \<Rightarrow> first_cp_source within lns)))"

fun scalar_in :: "string \<Rightarrow> string list \<Rightarrow> string" where
  "scalar_in key [] = []"
| "scalar_in key (ln # lns) =
     (if has_prefix (trim_space ln) (key @ '':'')
      then trim_quotes (trim_space (trim_prefix (trim_space ln) (key @ '':'')))
      else scalar_in key lns)"

definition scalar :: "string \<Rightarrow> string \<Rightarrow> string" where
  "scalar y key = scalar_in key (split_char newline y)"

definition classify_fuzz :: "case_file \<Rightarrow> shape \<times> string \<times> string" where
  "classify_fuzz c =
     (let p = fuzz_tooling_project (case_source c)
      in if p \<noteq> [] then (ShapeOSSFuzz, ''.'', ''gcr.io/oss-fuzz/'' @ p) else (ShapeUnknown, [], []))"

definition classify :: "'w gate_ops \<Rightarrow> string \<Rightarrow> case_file \<Rightarrow> 'w \<Rightarrow> shape \<times> string \<times> string" where
  "classify ops root c w =
     (case go_read ops (path_join [root, ''project.yaml'']) w of
        Inl e \<Rightarrow> classify_fuzz c
      | Inr y \<Rightarrow>
          (let name = first_cp_source False (split_char newline y); img = scalar y ''docker_image''
           in if name \<noteq> [] \<and> img \<noteq> [] then (ShapeChallengeProject, path_join [''src'', name], img)
              else classify_fuzz c))"

definition local_image :: "string \<Rightarrow> string \<Rightarrow> bool" where
  "local_image base ln = (has_prefix ln (base @ '':'') \<and> \<not> has_suffix ln '':<none>'')"

definition local_tag :: "'w gate_ops \<Rightarrow> string \<Rightarrow> string \<Rightarrow> ('w, string, string) action" where
  "local_tag ops base shim = (\<lambda>w.
     if base = [] then (Inl ''target-shape-unrecognised: no image could be determined'', w)
     else
       (let docker = path_join [shim, ''docker'']
        in case go_stat ops docker w of
             Some e \<Rightarrow> (Inl (''no docker shim at '' @ docker @ '': '' @ e), w)
           | None \<Rightarrow>
               act_bind (act_wrap (\<lambda>e. ''listing local images with '' @ docker @ '': '' @ e)
                   (go_output ops [''PATH='' @ shim @ '':'' @ go_path ops]
                      [docker, ''images'', ''--format'', ''{{.Repository}}:{{.Tag}}''])) (\<lambda>out.
                 case filter (local_image base) (map trim_space (split_char newline out)) of
                   ln # _ \<Rightarrow> act_return ln
                 | [] \<Rightarrow> act_fail (''no local image for '' @ base)) w))"

definition recover_flag :: string where "recover_flag = ''-fsanitize-recover=address''"

definition resolve_target :: "'w gate_ops \<Rightarrow> case_file \<Rightarrow> string \<Rightarrow> string \<Rightarrow> ('w, string, challenge) action" where
  "resolve_target ops c root shim = (\<lambda>w.
     let pin = src_commit (case_source c)
     in if pin = [] then
          (Inl (''target-shape-unrecognised: case '' @ case_id c @ '' records no src_commit, so there is no tree to reset to''), w)
        else
          (case classify ops root c w of
             (ShapeUnknown, _) \<Rightarrow>
               (Inl (''target-shape-unrecognised: '' @ root @ '' has no cp_sources in project.yaml and case '' @ case_id c @
                  '' names no fuzz_tooling_project, so neither the source directory nor the '' @
                  ''image can be determined''), w)
           | (_, dir, base) \<Rightarrow>
               act_bind (local_tag ops base shim) (\<lambda>image.
                 act_return \<lparr>ch_root = root, ch_shim = shim, ch_src = dir, ch_pin = pin, ch_image = image,
                   ch_cflags = recover_flag\<rparr>) w))"

definition repo_dir :: "string \<Rightarrow> string \<Rightarrow> string \<Rightarrow> string" where
  "repo_dir corpus_root tgt url = path_join [corpus_root, tgt, trim_suffix (base_name url) ''.git'']"

definition observer_path :: "string \<Rightarrow> string \<Rightarrow> string" where
  "observer_path repo_root obs = (if obs \<noteq> [] \<and> \<not> is_abs obs then path_join [repo_root, obs] else obs)"

text \<open>
  The target of M2.  The observer is read from the case's class without asking whether it
  has one: without one the code dereferences a nil pointer and panics, here \<open>NilClass\<close>.
\<close>

datatype target_problem = Unresolved string | NilClass

definition resolve_class_target :: "'w gate_ops \<Rightarrow> case_file \<Rightarrow> string \<Rightarrow> string \<Rightarrow> string \<Rightarrow> string \<Rightarrow> int \<Rightarrow> 'w \<Rightarrow>
    (target_problem, oss_fuzz) result" where
  "resolve_class_target ops c corpus_root repo_root shim work_dir members w =
     (if fuzz_tooling_project (case_source c) = [] then
        Inl (Unresolved (''target-shape-unrecognised: case '' @ case_id c @ '' names no fuzz_tooling_project, so there is '' @
          ''no tooling checkout to replay the class in''))
      else if pov_sanitizer (case_pov c) = [] then
        Inl (Unresolved (''case '' @ case_id c @ '' records no pov.sanitizer, and a class replay under a different sanitizer '' @
          ''compares outputs the case never described''))
      else
        (let src = repo_dir corpus_root (case_target c) (src_repo (case_source c));
             tooling = repo_dir corpus_root (case_target c) (fuzz_tooling_repo (case_source c))
         in case filter (\<lambda>d. \<not> go_is_dir ops d w) [src, tooling] of
              d # _ \<Rightarrow> Inl (Unresolved (d @ '' is not a checkout; run scripts/stage-corpus.sh to place it''))
            | [] \<Rightarrow>
                (case case_class c of
                   None \<Rightarrow> Inl NilClass
                 | Some fc \<Rightarrow>
                     (let obs = observer_path repo_root (fc_observer fc)
                      in if obs \<noteq> [] \<and> \<not> go_runnable ops obs w then
                           Inl (Unresolved (''observer '' @ obs @ '' is missing or not executable; the stage cannot produce the '' @
                             ''observation the case'' @ [CHR 0x27] @ ''s discriminator names''))
                         else
                           Inr \<lparr>of_repo_root = repo_root, of_source = src, of_ref = src_ref (case_source c),
                             of_tooling = tooling, of_project = fuzz_tooling_project (case_source c),
                             of_sanitizer = pov_sanitizer (case_pov c), of_shim = shim, of_work_dir = work_dir,
                             of_observer = obs, of_members = members\<rparr>))))"

section \<open>Persisting a verdict\<close>

record gate_outputs =
  gx_bundle :: string
  gx_log :: string
  gx_sources :: "(string \<times> string) list"

record 'w gate_state =
  gs_world :: 'w
  gs_tree :: "node option"
  gs_file :: open_read

definition tree_is_dir :: "node option \<Rightarrow> bool" where
  "tree_is_dir t = (case t of Some (Dir es) \<Rightarrow> True | Some ShutDir \<Rightarrow> True | _ \<Rightarrow> False)"

datatype persist_error = NoBundleDir string | EmitFailed emit_error | NotLogged log_error

text \<open>\<open>writeDecision\<close>: the decision as recorded, and the path of its file when there is one.\<close>

definition write_decision :: "'w gate_ops \<Rightarrow> gate_outputs \<Rightarrow> decision \<Rightarrow> 'w gate_state \<Rightarrow>
    (persist_error, decision \<times> string) result \<times> 'w gate_state" where
  "write_decision ops outs d s =
     (if gx_bundle outs = [] then (Inr (d, []), s)
      else if \<not> tree_is_dir (gs_tree s) then (Inl (NoBundleDir (gx_bundle outs)), s)
      else
        (case dossier_emit (go_sha ops) (\<lambda>p. go_read ops p (gs_world s)) (go_emit_io ops (gs_world s)) True d
                (map_of (gx_sources outs)) (map fst (gx_sources outs)) (the (gs_tree s)) of
           (Inl e, t) \<Rightarrow> (Inl (EmitFailed e), s\<lparr>gs_tree := Some t\<rparr>)
         | (Inr d', t) \<Rightarrow> (Inr (d', path_join [gx_bundle outs, decision_file]), s\<lparr>gs_tree := Some t\<rparr>)))"

definition ev_gate_accept :: string where "ev_gate_accept = ''GATE_ACCEPT''"
definition ev_gate_reject :: string where "ev_gate_reject = ''GATE_REJECT''"
definition ev_gate_error :: string where "ev_gate_error = ''GATE_ERROR''"

definition gate_event :: "string \<Rightarrow> string" where
  "gate_event v = (if v = verdict_reject then ev_gate_reject else if v = verdict_error then ev_gate_error else ev_gate_accept)"

definition gate_detail :: "decision \<Rightarrow> string" where
  "gate_detail d = d_case d @ ''/'' @ d_candidate d @ (if d_reason d \<noteq> [] then '': '' @ d_reason d else [])"

definition log_decision :: "'w gate_ops \<Rightarrow> gate_outputs \<Rightarrow> decision \<Rightarrow> 'w gate_state \<Rightarrow>
    (persist_error, unit) result \<times> 'w gate_state" where
  "log_decision ops outs d s =
     (if gx_log outs = [] then (Inr (), s)
      else
        (case log_open (go_sha ops) (gs_file s) (go_open_log ops (gs_world s)) of
           Inl e \<Rightarrow> (Inl (NotLogged e), s)
         | Inr l \<Rightarrow>
             (let (ts, w1) = go_now ops (gs_world s); (wr, w2) = go_write_log ops w1
              in case log_append (go_sha ops) wr ts (gate_event (d_verdict d)) (gate_detail d)
                     (l, case gs_file s of Readable f \<Rightarrow> f | _ \<Rightarrow> []) of
                   (r, (l', f)) \<Rightarrow>
                     (case r of Inl e \<Rightarrow> Inl (NotLogged e) | Inr _ \<Rightarrow> Inr (), s\<lparr>gs_world := w2, gs_file := Readable f\<rparr>))))"

definition verdict_code :: "string \<Rightarrow> int" where
  "verdict_code v = (if v = verdict_reject then 1 else if v = verdict_error then 2 else 0)"

section \<open>The command\<close>

text \<open>The values of \<open>-stage\<close>.\<close>

definition arg_m0 :: string where "arg_m0 = ''m0''"
definition arg_m1 :: string where "arg_m1 = ''m1''"
definition arg_m2 :: string where "arg_m2 = ''m2''"
definition arg_m3 :: string where "arg_m3 = ''m3''"

lemma args_distinct [simp]:
  "arg_m0 \<noteq> arg_m1" "arg_m0 \<noteq> arg_m2" "arg_m0 \<noteq> arg_m3" "arg_m1 \<noteq> arg_m0" "arg_m1 \<noteq> arg_m2" "arg_m1 \<noteq> arg_m3"
  "arg_m2 \<noteq> arg_m0" "arg_m2 \<noteq> arg_m1" "arg_m2 \<noteq> arg_m3" "arg_m3 \<noteq> arg_m0" "arg_m3 \<noteq> arg_m1" "arg_m3 \<noteq> arg_m2"
  by (simp_all add: arg_m0_def arg_m1_def arg_m2_def arg_m3_def)

datatype undecided_reason =
    CaseUnloaded load_error
  | NoCandidate string string
  | TargetUnresolved string
  | NoReference string
  | NoTempDir string
  | NoAbsPath string
  | EffectUndecided "effect_error gate_error"
  | TargetUndecided "stage_error gate_error"
  | ClassUndecided "class_error gate_error"

text \<open>What a run prints last.\<close>

datatype gate_print =
    Usage
  | UnknownStage string
  | Undecided undecided_reason
  | Panicked
  | Printed decision

type_synonym 'w gate_exit = "(gate_print \<times> int) \<times> 'w gate_state"

definition undecided :: "undecided_reason \<Rightarrow> 'w gate_state \<Rightarrow> 'w gate_exit" where
  "undecided e s = ((Undecided e, 2), s)"

text \<open>\<open>emitDecision\<close>: the dossier first, then the print, then the log, then the verdict's code.\<close>

definition emit_decision :: "'w gate_ops \<Rightarrow> gate_outputs \<Rightarrow> decision \<Rightarrow> 'w gate_state \<Rightarrow> 'w gate_exit" where
  "emit_decision ops outs d s =
     (case write_decision ops outs d s of
        (Inl e, s1) \<Rightarrow> ((Printed d, 2), s1)
      | (Inr (d', p), s1) \<Rightarrow>
          (case log_decision ops outs d' s1 of
             (Inl e, s2) \<Rightarrow> ((Printed d', 2), s2)
           | (Inr u, s2) \<Rightarrow> ((Printed d', verdict_code (d_verdict d')), s2)))"

text \<open>Grade with one stage: the verdict is emitted, an error is \<open>UNDECIDED\<close>.\<close>

definition gate_with :: "'w gate_ops \<Rightarrow> gate_outputs \<Rightarrow> ('e gate_error \<Rightarrow> undecided_reason) \<Rightarrow> gate_input \<Rightarrow>
    ('w, 'e) stage \<Rightarrow> string list \<Rightarrow> 'w gate_state \<Rightarrow> 'w gate_exit" where
  "gate_with ops outs why inp st not_proven s =
     (case gate_verify inp [st] not_proven (gs_world s) of
        (Inl e, w) \<Rightarrow> undecided (why e) (s\<lparr>gs_world := w\<rparr>)
      | (Inr d, w) \<Rightarrow> emit_decision ops outs d (s\<lparr>gs_world := w\<rparr>))"

text \<open>Go on with the value of an operation, or end undecided.\<close>

definition or_undecided :: "('e \<Rightarrow> undecided_reason) \<Rightarrow> ('w, 'e, 'a) action \<Rightarrow> ('a \<Rightarrow> 'w gate_state \<Rightarrow> 'w gate_exit) \<Rightarrow>
    'w gate_state \<Rightarrow> 'w gate_exit" where
  "or_undecided why m k s =
     (case m (gs_world s) of
        (Inl e, w) \<Rightarrow> undecided (why e) (s\<lparr>gs_world := w\<rparr>)
      | (Inr x, w) \<Rightarrow> k x (s\<lparr>gs_world := w\<rparr>))"

definition m0_not_proven :: "string list" where
  "m0_not_proven =
     [''only the patch-effect stage has run; revert-attribution, falsifying-class replay, '' @
        ''sanitizer-gated reachability, isolated red-team and the non-determinism control are not implemented yet'',
      ''a passing patch-effect stage means the patch changes lines, not that the change is correct'']"

definition m1_not_proven :: "string list" where
  "m1_not_proven =
     [''only revert-to-attribute has run; falsifying-class replay, sanitizer-gated '' @
        ''reachability and the non-determinism control have not'',
      ''a credited patch has been shown to stop this PoV, not to be correct'']"

definition m2_not_proven :: "string list" where
  "m2_not_proven =
     [''only falsifying-class replay has run; revert-attribution, sanitizer-gated '' @
        ''reachability and the non-determinism control have not'',
      ''agreement with the reference across this class is not correctness in general: '' @
        ''the class is the one the case describes, not every input the target accepts'']"

definition m3_not_proven :: "string list" where
  "m3_not_proven =
     [''only sanitizer-gated reachability has run; revert-attribution, falsifying-class '' @
        ''replay and the non-determinism control have not'',
      ''no NEW sanitizer finding is not a proof of unreachability, which is undecidable in '' @
        ''general; the bar met here is that no input in the falsifying class reached the '' @
        ''vulnerable sink under sanitizer'']"

record gate_flags =
  gf_case :: string
  gf_repo :: string
  gf_candidate :: string
  gf_root :: string
  gf_stage :: string
  gf_shim :: string
  gf_corpus :: string
  gf_work :: string
  gf_members :: int
  gf_bundle :: string
  gf_log :: string

definition find_candidate :: "case_file \<Rightarrow> string \<Rightarrow> candidate option" where
  "find_candidate c i = List.find (\<lambda>x. cand_id x = i) (case_candidates c)"

text \<open>The case and the candidate, or the reason there is none.\<close>

definition load_candidate :: "'w gate_ops \<Rightarrow> gate_flags \<Rightarrow> 'w \<Rightarrow> (undecided_reason, case_file \<times> candidate) result" where
  "load_candidate ops fl w =
     (case load (\<lambda>p. go_read ops p w) (go_yaml ops) (gf_case fl) of
        Inl e \<Rightarrow> Inl (CaseUnloaded e)
      | Inr c \<Rightarrow>
          (case find_candidate c (gf_candidate fl) of
             None \<Rightarrow> Inl (NoCandidate (case_id c) (gf_candidate fl))
           | Some cand \<Rightarrow> Inr (c, cand)))"

definition gate_case_input :: "gate_flags \<Rightarrow> case_file \<Rightarrow> candidate \<Rightarrow> gate_input" where
  "gate_case_input fl c cand = \<lparr>gi_case = c, gi_candidate = cand, gi_root = gf_root fl, gi_repo_root = gf_repo fl\<rparr>"

definition m0_sources :: "gate_flags \<Rightarrow> case_file \<Rightarrow> candidate \<Rightarrow> (string \<times> string) list" where
  "m0_sources fl c cand =
     [(''case'', gf_case fl), (''candidate-patch'', candidate_patch_path c cand (gf_root fl) (gf_repo fl)),
      (''pov'', input_path c (gf_root fl) (gf_repo fl))]"

definition sweep_target :: "'w gate_ops \<Rightarrow> challenge \<Rightarrow> 'w target" where
  "sweep_target ops ch = challenge_target (go_quoted ops) (go_fold ops) (go_newest ops) (go_os ops) ch (go_path ops)"

text \<open>The sweeps over a challenge checkout: M1 and M3.\<close>

definition sweep_checkout :: "'w gate_ops \<Rightarrow> gate_flags \<Rightarrow> gate_outputs \<Rightarrow> case_file \<Rightarrow> candidate \<Rightarrow>
    'w gate_state \<Rightarrow> 'w gate_exit" where
  "sweep_checkout ops fl outs c cand =
     (let patch = candidate_patch_path c cand (gf_root fl) (gf_repo fl);
          blob = input_path c (gf_root fl) (gf_repo fl);
          inp = gate_case_input fl c cand
      in or_undecided TargetUnresolved (resolve_target ops c (gf_root fl) (gf_shim fl)) (\<lambda>ch.
           if gf_stage fl = arg_m1 then
             gate_with ops outs TargetUndecided inp (revert_stage (sweep_target ops ch) blob patch) m1_not_proven
           else
             gate_with ops outs TargetUndecided inp (sanitizer_stage (sweep_target ops ch) blob patch True) m3_not_proven))"

text \<open>The sweep of M2, which needs a reference and its own target.\<close>

definition class_work_dir :: "'w gate_ops \<Rightarrow> gate_flags \<Rightarrow> ('w, string, string) action" where
  "class_work_dir ops fl = (if gf_work fl = [] then go_temp_dir ops else act_return (gf_work fl))"

definition sweep_class :: "'w gate_ops \<Rightarrow> gate_flags \<Rightarrow> gate_outputs \<Rightarrow> case_file \<Rightarrow> candidate \<Rightarrow>
    'w gate_state \<Rightarrow> 'w gate_exit" where
  "sweep_class ops fl outs c cand s =
     (if case_reference_patch c = [] then undecided (NoReference (case_id c)) s
      else
        or_undecided NoTempDir (class_work_dir ops fl) (\<lambda>dir s1.
          case resolve_class_target ops c (gf_corpus fl) (gf_repo fl) (gf_shim fl) dir (gf_members fl) (gs_world s1) of
            Inl (Unresolved e) \<Rightarrow> undecided (TargetUnresolved e) s1
          | Inl NilClass \<Rightarrow> ((Panicked, 2), s1)
          | Inr t \<Rightarrow>
              or_undecided NoAbsPath (os_abs (go_os ops) (candidate_patch_path c cand (gf_root fl) (gf_repo fl))) (\<lambda>patch.
              or_undecided NoAbsPath (os_abs (go_os ops) (reference_patch_path c (gf_root fl) (gf_repo fl))) (\<lambda>ref.
                gate_with ops outs ClassUndecided (gate_case_input fl c cand)
                  (class_stage (go_quoted ops) (oss_fuzz_target (go_quoted ops) (go_os ops) t (go_path ops)) patch ref)
                  m2_not_proven)) s1) s)"

definition run_sweep :: "'w gate_ops \<Rightarrow> gate_flags \<Rightarrow> gate_outputs \<Rightarrow> 'w gate_state \<Rightarrow> 'w gate_exit" where
  "run_sweep ops fl outs s =
     (case load_candidate ops fl (gs_world s) of
        Inl e \<Rightarrow> undecided e s
      | Inr (c, cand) \<Rightarrow>
          if gf_stage fl = arg_m2 then sweep_class ops fl outs c cand s else sweep_checkout ops fl outs c cand s)"

definition gate_main :: "'w gate_ops \<Rightarrow> gate_flags \<Rightarrow> 'w gate_state \<Rightarrow> 'w gate_exit" where
  "gate_main ops fl s =
     (let outs = \<lparr>gx_bundle = gf_bundle fl, gx_log = gf_log fl, gx_sources = []\<rparr>
      in if gf_case fl = [] \<or> gf_candidate fl = [] then ((Usage, 2), s)
         else if gf_stage fl \<in> {arg_m1, arg_m2, arg_m3} then run_sweep ops fl outs s
         else if gf_stage fl \<noteq> arg_m0 then ((UnknownStage (gf_stage fl), 2), s)
         else
           (case load_candidate ops fl (gs_world s) of
              Inl e \<Rightarrow> undecided e s
            | Inr (c, cand) \<Rightarrow>
                gate_with ops (outs\<lparr>gx_sources := m0_sources fl c cand\<rparr>) EffectUndecided (gate_case_input fl c cand)
                  (effect_stage (go_open ops)) m0_not_proven s))"

section \<open>What an exit code says\<close>

text \<open>The stage that answers to each value of \<open>-stage\<close>.\<close>

definition stage_asked :: "string \<Rightarrow> string" where
  "stage_asked m =
     (if m = arg_m0 then effect_name else if m = arg_m1 then revert_name
      else if m = arg_m2 then class_name else sanitizer_name)"

text \<open>A valid decision of one stage on the input.\<close>

definition single_decision :: "gate_input \<Rightarrow> string \<Rightarrow> decision \<Rightarrow> bool" where
  "single_decision inp name d =
     (decision_wf d \<and> d_case d = case_id (gi_case inp) \<and> d_candidate d = cand_id (gi_candidate inp) \<and>
      map sr_stage (d_stages d) = [name])"

lemma gate_verify_single:
  assumes "gate_stage st" "gate_verify inp [st] np w = (Inr d, w')"
  shows "single_decision inp (st_name st) d"
proof -
  note run = gate_verify_run [OF assms(2)]
  have wf: "decision_wf d" using run(2) decision_validate_wf [of d] by (simp add: decision_validate_def)
  obtain n where n: "n \<le> 1" "map sr_stage (d_stages d) = map st_name (take n [st])"
    using run_stages_names [OF _ run(1)] assms(1) by (auto simp: initial_decision_def)
  have "d_stages d \<noteq> []" using wf by (simp add: decision_wf_def)
  then have "n = 1" using n by (cases n) auto
  with n(2) wf run_stages_frame [OF run(1)] show ?thesis by (simp add: single_decision_def initial_decision_def)
qed

text \<open>A run got so far as to emit a decision of the stage asked for.\<close>

definition reaches :: "'w gate_ops \<Rightarrow> gate_outputs \<Rightarrow> gate_input \<Rightarrow> string \<Rightarrow> 'w gate_state \<Rightarrow> decision \<Rightarrow> 'w gate_exit \<Rightarrow> bool" where
  "reaches ops outs inp name s d x =
     (\<exists>w. single_decision inp name d \<and> x = emit_decision ops outs d (s\<lparr>gs_world := w\<rparr>))"

lemma reaches_world [simp]: "reaches ops outs inp name (s\<lparr>gs_world := w\<rparr>) d x = reaches ops outs inp name s d x"
  by (simp add: reaches_def)

text \<open>A run that ended with code 2 and no decision to print.\<close>

definition no_decision :: "'w gate_exit \<Rightarrow> bool" where
  "no_decision x = (snd (fst x) = 2 \<and> fst (fst x) \<notin> range Printed)"

lemma no_decision_simps [simp]: "no_decision (undecided e s)" "no_decision ((Panicked, 2), s)"
    "no_decision ((Usage, 2), s)" "no_decision ((UnknownStage n, 2), s)"
  by (auto simp: no_decision_def undecided_def)

lemma gate_with_reaches:
  assumes "gate_stage st"
  shows "no_decision (gate_with ops outs why inp st np s) \<or>
    (\<exists>d. reaches ops outs inp (st_name st) s d (gate_with ops outs why inp st np s))"
proof (cases "gate_verify inp [st] np (gs_world s)")
  case (Pair r w)
  show ?thesis
  proof (cases r)
    case (Inl e)
    with Pair show ?thesis by (simp add: gate_with_def)
  next
    case (Inr d)
    with Pair gate_verify_single [OF assms, of inp np "gs_world s" d w]
    show ?thesis by (auto simp: gate_with_def reaches_def)
  qed
qed

lemma or_undecided_cases:
  assumes "\<And>x w. P (k x (s\<lparr>gs_world := w\<rparr>))" "\<And>e w. P (undecided (why e) (s\<lparr>gs_world := w\<rparr>))"
  shows "P (or_undecided why m k s)"
  using assms by (auto simp: or_undecided_def split: prod.splits sum.splits)

definition decides :: "'w gate_ops \<Rightarrow> gate_outputs \<Rightarrow> gate_input \<Rightarrow> string \<Rightarrow> 'w gate_state \<Rightarrow> 'w gate_exit \<Rightarrow> bool" where
  "decides ops outs inp name s x = (no_decision x \<or> (\<exists>d. reaches ops outs inp name s d x))"

lemma decides_undecided [simp]: "decides ops outs inp name s (undecided e s')"
  by (simp add: decides_def)

lemma gate_with_decides:
  "gate_stage st \<Longrightarrow> st_name st = name \<Longrightarrow> decides ops outs inp name s (gate_with ops outs why inp st np (s\<lparr>gs_world := w\<rparr>))"
  using gate_with_reaches [of st ops outs why inp np "s\<lparr>gs_world := w\<rparr>"] by (simp add: decides_def)

lemma stage_names:
  "st_name (effect_stage f) = stage_asked arg_m0" "st_name (revert_stage tg b p) = stage_asked arg_m1"
  "st_name (class_stage q ct p r) = stage_asked arg_m2" "st_name (sanitizer_stage tg b p rr) = stage_asked arg_m3"
  by (simp_all add: stage_asked_def effect_stage_def revert_stage_def class_stage_def sanitizer_stage_def)

lemmas stage_contracts = effect.gate_stage_axioms m1.gate_stage_axioms m2.gate_stage_axioms m3.gate_stage_axioms

lemma sweep_checkout_decides:
  assumes "gf_stage fl = arg_m1 \<or> gf_stage fl = arg_m3"
  shows "decides ops outs (gate_case_input fl c cand) (stage_asked (gf_stage fl)) s (sweep_checkout ops fl outs c cand s)"
  unfolding sweep_checkout_def Let_def
proof (rule or_undecided_cases)
  fix ch w
  let ?tg = "sweep_target ops ch"
  show "decides ops outs (gate_case_input fl c cand) (stage_asked (gf_stage fl)) s
     ((if gf_stage fl = arg_m1
       then gate_with ops outs TargetUndecided (gate_case_input fl c cand)
             (revert_stage ?tg (input_path c (gf_root fl) (gf_repo fl)) (candidate_patch_path c cand (gf_root fl) (gf_repo fl))) m1_not_proven
       else gate_with ops outs TargetUndecided (gate_case_input fl c cand)
             (sanitizer_stage ?tg (input_path c (gf_root fl) (gf_repo fl)) (candidate_patch_path c cand (gf_root fl) (gf_repo fl)) True) m3_not_proven)
       (s\<lparr>gs_world := w\<rparr>))"
    using assms gate_with_decides [OF stage_contracts(2) stage_names(2)] gate_with_decides [OF stage_contracts(4) stage_names(4)]
    by (cases "gf_stage fl = arg_m1") simp_all
qed simp

lemma sweep_class_decides:
  "decides ops outs (gate_case_input fl c cand) (stage_asked arg_m2) s (sweep_class ops fl outs c cand s)"
proof (cases "case_reference_patch c = []")
  case True
  then show ?thesis by (simp add: sweep_class_def)
next
  case False
  show ?thesis
    unfolding sweep_class_def if_not_P [OF False]
  proof (rule or_undecided_cases)
    fix dir w
    let ?s = "s\<lparr>gs_world := w\<rparr>"
    let ?k = "\<lambda>t. or_undecided NoAbsPath (os_abs (go_os ops) (candidate_patch_path c cand (gf_root fl) (gf_repo fl))) (\<lambda>patch.
              or_undecided NoAbsPath (os_abs (go_os ops) (reference_patch_path c (gf_root fl) (gf_repo fl))) (\<lambda>ref.
                gate_with ops outs ClassUndecided (gate_case_input fl c cand)
                  (class_stage (go_quoted ops) (oss_fuzz_target (go_quoted ops) (go_os ops) t (go_path ops)) patch ref)
                  m2_not_proven)) ?s"
    have k: "decides ops outs (gate_case_input fl c cand) (stage_asked arg_m2) s (?k t)" for t
      by (rule or_undecided_cases, rule or_undecided_cases)
        (simp_all add: gate_with_decides [OF stage_contracts(3) stage_names(3)])
    let ?r = "resolve_class_target ops c (gf_corpus fl) (gf_repo fl) (gf_shim fl) dir (gf_members fl) (gs_world ?s)"
    show "decides ops outs (gate_case_input fl c cand) (stage_asked arg_m2) s
        (case ?r of Inl (Unresolved e) \<Rightarrow> undecided (TargetUnresolved e) ?s | Inl NilClass \<Rightarrow> ((Panicked, 2), ?s) | Inr t \<Rightarrow> ?k t)"
    proof (cases ?r)
      case (Inl e)
      then show ?thesis by (cases e) (simp_all add: decides_def)
    next
      case (Inr t)
      with k [of t] show ?thesis by (simp only: sum.case)
    qed
  qed simp
qed

lemma gate_main_decides:
  fixes ops fl s
  defines "outs \<equiv> \<lparr>gx_bundle = gf_bundle fl, gx_log = gf_log fl, gx_sources = []\<rparr>"
  shows "no_decision (gate_main ops fl s) \<or>
    (\<exists>c cand. load_candidate ops fl (gs_world s) = Inr (c, cand) \<and> gf_stage fl \<in> {arg_m0, arg_m1, arg_m2, arg_m3} \<and>
       decides ops (if gf_stage fl = arg_m0 then outs\<lparr>gx_sources := m0_sources fl c cand\<rparr> else outs)
         (gate_case_input fl c cand) (stage_asked (gf_stage fl)) s (gate_main ops fl s))"
proof (cases "load_candidate ops fl (gs_world s)")
  case (Inl e)
  then show ?thesis by (simp add: gate_main_def run_sweep_def Let_def)
next
  case (Inr x)
  then obtain c cand where l: "load_candidate ops fl (gs_world s) = Inr (c, cand)" by (cases x) auto
  have m0: "decides ops (outs\<lparr>gx_sources := m0_sources fl c cand\<rparr>) (gate_case_input fl c cand) (stage_asked arg_m0) s
      (gate_with ops (outs\<lparr>gx_sources := m0_sources fl c cand\<rparr>) EffectUndecided (gate_case_input fl c cand) (effect_stage (go_open ops)) m0_not_proven s)"
    using gate_with_decides [OF stage_contracts(1) stage_names(1), where s = s and w = "gs_world s"] by simp
  show ?thesis
    using l m0 sweep_class_decides [of ops outs fl c cand s] sweep_checkout_decides [of fl ops outs c cand s]
    by (auto simp: gate_main_def run_sweep_def Let_def outs_def)
qed

text \<open>
  Where a verdict was recorded: the dossier's \<open>decision.json\<close>, when a bundle was named, and
  one entry more in the log, when one was named.
\<close>

definition file_text :: "open_read \<Rightarrow> string" where
  "file_text f = (case f of Readable t \<Rightarrow> t | _ \<Rightarrow> [])"

definition verdict_recorded :: "'w gate_ops \<Rightarrow> string \<Rightarrow> string \<Rightarrow> decision \<Rightarrow> 'w gate_state \<Rightarrow> 'w gate_state \<Rightarrow> bool" where
  "verdict_recorded ops bundle log d s s' =
     ((bundle \<noteq> [] \<longrightarrow> (\<exists>es. gs_tree s' = Some (Dir es) \<and> map_of es decision_file = Some (Reg (decision_text d)))) \<and>
      (log \<noteq> [] \<longrightarrow> (\<exists>l ts. log_open (go_sha ops) (gs_file s) None = Inr l \<and>
         gs_file s' = Readable (file_text (gs_file s) @
           entry_json (log_entry (go_sha ops) l ts (gate_event (d_verdict d)) (gate_detail d)) @ [newline]))))"

lemma verdict_recorded_world [simp]:
  "verdict_recorded ops bundle log d (s\<lparr>gs_world := w\<rparr>) s' = verdict_recorded ops bundle log d s s'"
  by (simp add: verdict_recorded_def)

lemma write_decision_Inr:
  assumes "write_decision ops outs d s = (Inr (d', p), s1)"
  shows "d' = d\<lparr>d_artifacts := d_artifacts d'\<rparr> \<and> gs_file s1 = gs_file s \<and> gs_world s1 = gs_world s \<and>
    (gx_bundle outs \<noteq> [] \<longrightarrow> (\<exists>es. gs_tree s1 = Some (Dir es) \<and> map_of es decision_file = Some (Reg (decision_text d'))) \<and>
       (gx_sources outs = [] \<longrightarrow> d_artifacts d' = []))"
proof (cases "gx_bundle outs = []")
  case True
  then show ?thesis using assms by (simp add: write_decision_def)
next
  case False
  then obtain t where e: "dossier_emit (go_sha ops) (\<lambda>p. go_read ops p (gs_world s)) (go_emit_io ops (gs_world s)) True d
      (map_of (gx_sources outs)) (map fst (gx_sources outs)) (the (gs_tree s)) = (Inr d', t)" "s1 = s\<lparr>gs_tree := Some t\<rparr>"
    using assms by (auto simp: write_decision_def split: if_splits prod.splits sum.splits)
  obtain ds arts where p: "emit_stage (go_sha ops) (\<lambda>p. go_read ops p (gs_world s)) (go_emit_io ops (gs_world s)) d
      (map_of (gx_sources outs)) (map fst (gx_sources outs)) = Inr (d', arts)"
      "t = Dir (AList.update decision_file (Reg (decision_text d')) (AList.update artifacts_dir arts ds))"
    by (rule emit_parts [OF e(1)])
  have "d' = d\<lparr>d_artifacts := d_artifacts d'\<rparr>" "gx_sources outs = [] \<longrightarrow> d_artifacts d' = []"
    using p(1) by (auto simp: emit_stage_def result_simps)
  with e(2) p(2) show ?thesis by (auto simp: update_conv')
qed

lemma log_decision_Inr:
  assumes "log_decision ops outs d s = (Inr u, s1)"
  shows "gs_tree s1 = gs_tree s \<and>
    (gx_log outs \<noteq> [] \<longrightarrow> (\<exists>l ts. log_open (go_sha ops) (gs_file s) None = Inr l \<and>
       gs_file s1 = Readable (file_text (gs_file s) @
         entry_json (log_entry (go_sha ops) l ts (gate_event (d_verdict d)) (gate_detail d)) @ [newline])))"
proof (cases "gx_log outs = []")
  case True
  then show ?thesis using assms by (simp add: log_decision_def)
next
  case False
  then obtain l where l: "log_open (go_sha ops) (gs_file s) (go_open_log ops (gs_world s)) = Inr l"
    using assms by (auto simp: log_decision_def split: sum.splits)
  obtain ts w1 where ts: "go_now ops (gs_world s) = (ts, w1)" by (cases "go_now ops (gs_world s)")
  obtain wr w2 where wr: "go_write_log ops w1 = (wr, w2)" by (cases "go_write_log ops w1")
  have written: "wr = Written" and s1: "s1 = s\<lparr>gs_world := w2, gs_file := Readable (file_text (gs_file s) @
      entry_json (log_entry (go_sha ops) l ts (gate_event (d_verdict d)) (gate_detail d)) @ [newline])\<rparr>"
    using assms False by (auto simp: log_decision_def l ts wr log_append_def Let_def file_text_def split: write_outcome.splits)
  have "log_open (go_sha ops) (gs_file s) None = Inr l"
    using l by (auto simp: log_open_def result_simps split: option.splits open_read.splits sum.splits)
  with s1 show ?thesis by auto
qed

lemma emit_decision_recorded:
  assumes "emit_decision ops outs d s = ((pr, k), s')" "k \<noteq> 2"
  shows "\<exists>d'. pr = Printed d' \<and> d' = d\<lparr>d_artifacts := d_artifacts d'\<rparr> \<and> k = verdict_code (d_verdict d') \<and>
    verdict_recorded ops (gx_bundle outs) (gx_log outs) d' s s' \<and>
    (gx_bundle outs \<noteq> [] \<longrightarrow> gx_sources outs = [] \<longrightarrow> d_artifacts d' = [])"
proof -
  obtain d' p s1 where w: "write_decision ops outs d s = (Inr (d', p), s1)"
    using assms by (auto simp: emit_decision_def split: prod.splits sum.splits)
  obtain u where l: "log_decision ops outs d' s1 = (Inr u, s')" and k: "pr = Printed d'" "k = verdict_code (d_verdict d')"
    using assms by (auto simp: emit_decision_def w split: prod.splits sum.splits)
  from write_decision_Inr [OF w] log_decision_Inr [OF l] k show ?thesis
    unfolding verdict_recorded_def by metis
qed

lemma decided_code:
  assumes "single_decision inp name d" "verdict_code (d_verdict d) \<noteq> 2"
  shows "(verdict_code (d_verdict d), d_verdict d) \<in> {(0, verdict_accept), (1, verdict_reject)}"
  using assms by (auto simp: single_decision_def decision_wf_def verdict_code_def split: if_splits)

lemma single_artifacts: "single_decision inp name (d\<lparr>d_artifacts := as\<rparr>) = single_decision inp name d"
  by (simp add: single_decision_def decision_wf_def)

lemma find_candidate_Some:
  "find_candidate c i = Some cand \<Longrightarrow> cand \<in> set (case_candidates c) \<and> cand_id cand = i"
  by (auto simp: find_candidate_def find_Some_iff)

lemma load_candidate_Inr:
  assumes "load_candidate ops fl w = Inr (c, cand)"
  shows "cand \<in> set (case_candidates c) \<and> cand_id cand = gf_candidate fl \<and>
    load (\<lambda>p. go_read ops p w) (go_yaml ops) (gf_case fl) = Inr c"
  using assms find_candidate_Some by (auto simp: load_candidate_def split: sum.splits option.splits)

lemma gate_main_exit:
  assumes "gate_main ops fl s = ((pr, k), s')" "k \<noteq> 2"
  shows "\<exists>c cand d. load_candidate ops fl (gs_world s) = Inr (c, cand) \<and> pr = Printed d \<and>
    single_decision (gate_case_input fl c cand) (stage_asked (gf_stage fl)) d \<and> k = verdict_code (d_verdict d) \<and>
    verdict_recorded ops (gf_bundle fl) (gf_log fl) d s s' \<and>
    (gf_bundle fl \<noteq> [] \<longrightarrow> gf_stage fl \<noteq> arg_m0 \<longrightarrow> d_artifacts d = [])"
proof -
  let ?outs = "\<lparr>gx_bundle = gf_bundle fl, gx_log = gf_log fl, gx_sources = []\<rparr>"
  obtain c cand where l: "load_candidate ops fl (gs_world s) = Inr (c, cand)"
      and d: "decides ops (if gf_stage fl = arg_m0 then ?outs\<lparr>gx_sources := m0_sources fl c cand\<rparr> else ?outs)
         (gate_case_input fl c cand) (stage_asked (gf_stage fl)) s ((pr, k), s')"
    using gate_main_decides [of ops fl s] assms by (auto simp: no_decision_def)
  let ?o = "if gf_stage fl = arg_m0 then ?outs\<lparr>gx_sources := m0_sources fl c cand\<rparr> else ?outs"
  obtain d w where r: "single_decision (gate_case_input fl c cand) (stage_asked (gf_stage fl)) d"
      "emit_decision ops ?o d (s\<lparr>gs_world := w\<rparr>) = ((pr, k), s')"
    using d assms(2) by (auto simp: decides_def reaches_def no_decision_def)
  obtain d' where d': "pr = Printed d'" "d' = d\<lparr>d_artifacts := d_artifacts d'\<rparr>" "k = verdict_code (d_verdict d')"
      "verdict_recorded ops (gx_bundle ?o) (gx_log ?o) d' (s\<lparr>gs_world := w\<rparr>) s'"
      "gx_bundle ?o \<noteq> [] \<longrightarrow> gx_sources ?o = [] \<longrightarrow> d_artifacts d' = []"
    using emit_decision_recorded [OF r(2) assms(2)] by blast
  have o: "gx_bundle ?o = gf_bundle fl" "gx_log ?o = gf_log fl" "gf_stage fl \<noteq> arg_m0 \<longrightarrow> gx_sources ?o = []" by simp_all
  have "single_decision (gate_case_input fl c cand) (stage_asked (gf_stage fl)) d'"
    using r(1) single_artifacts d'(2) by metis
  moreover have "verdict_recorded ops (gf_bundle fl) (gf_log fl) d' s s'" using d'(4) by (simp only: o verdict_recorded_world)
  ultimately show ?thesis using l d'(1,3,5) o by metis
qed

text \<open>
  Into a dossier that has its artifacts no verdict goes: a decision that is printed is not
  written, nothing is logged, and the exit code is 2.
\<close>

lemma gate_into_taken_dossier:
  assumes "gate_main ops fl s = ((Printed d, k), s')" "gf_bundle fl \<noteq> []"
    and "gs_tree s = Some (Dir es)" "map_of es artifacts_dir = Some arts"
  shows "k = 2 \<and> gs_tree s' = gs_tree s \<and> gs_file s' = gs_file s"
proof -
  let ?outs = "\<lparr>gx_bundle = gf_bundle fl, gx_log = gf_log fl, gx_sources = []\<rparr>"
  obtain c cand where c: "decides ops (if gf_stage fl = arg_m0 then ?outs\<lparr>gx_sources := m0_sources fl c cand\<rparr> else ?outs)
      (gate_case_input fl c cand) (stage_asked (gf_stage fl)) s ((Printed d, k), s')"
    using gate_main_decides [of ops fl s] assms(1) by (auto simp: no_decision_def)
  let ?o = "if gf_stage fl = arg_m0 then ?outs\<lparr>gx_sources := m0_sources fl c cand\<rparr> else ?outs"
  have b: "gx_bundle ?o \<noteq> []" using assms(2) by simp
  obtain d0 w where e: "emit_decision ops ?o d0 (s\<lparr>gs_world := w\<rparr>) = ((Printed d, k), s')"
    using c by (auto simp: decides_def reaches_def no_decision_def)
  have "\<exists>e. dossier_emit sha read io named d1 sources roles (Dir es) = (Inl e, Dir es)" for sha read io named d1 sources roles
    using emit_reached [of sha read io named d1 sources roles es] assms(4) by (metis option.distinct(1) prod.collapse)
  then obtain x where "dossier_emit (go_sha ops) (\<lambda>p. go_read ops p w) (go_emit_io ops w) True d0
      (map_of (gx_sources ?o)) (map fst (gx_sources ?o)) (Dir es) = (Inl x, Dir es)" by blast
  then have "\<exists>e s1. write_decision ops ?o d0 (s\<lparr>gs_world := w\<rparr>) = (Inl e, s1) \<and> gs_tree s1 = gs_tree s \<and> gs_file s1 = gs_file s"
    using b assms(3) by (simp add: write_decision_def tree_is_dir_def)
  with e show ?thesis by (auto simp: emit_decision_def)
qed

text \<open>
  C1. A decided exit of the gate is a recorded verdict: exit code 0 or 1 means that the case
  was loaded and holds the candidate, that the decision printed is well formed, is about
  that case and candidate and has exactly the result of the stage that was asked for, that
  the code is 0 for ACCEPT and 1 for REJECT, and that this very decision is what stands at
  \<open>decision.json\<close> in the dossier and was appended to the log, when one was named.
\<close>

theorem gate_exit_is_a_recorded_verdict:
  assumes "gate_main ops fl s = ((pr, k), s')" "k \<noteq> 2"
  shows "\<exists>c cand d. load (\<lambda>p. go_read ops p (gs_world s)) (go_yaml ops) (gf_case fl) = Inr c \<and>
    cand \<in> set (case_candidates c) \<and> cand_id cand = gf_candidate fl \<and> pr = Printed d \<and> decision_wf d \<and>
    d_case d = case_id c \<and> d_candidate d = gf_candidate fl \<and> map sr_stage (d_stages d) = [stage_asked (gf_stage fl)] \<and>
    (k, d_verdict d) \<in> {(0, verdict_accept), (1, verdict_reject)} \<and>
    verdict_recorded ops (gf_bundle fl) (gf_log fl) d s s'"
proof -
  obtain c cand d where g: "load_candidate ops fl (gs_world s) = Inr (c, cand)" "pr = Printed d"
      "single_decision (gate_case_input fl c cand) (stage_asked (gf_stage fl)) d" "k = verdict_code (d_verdict d)"
      "verdict_recorded ops (gf_bundle fl) (gf_log fl) d s s'"
    using gate_main_exit [OF assms] by blast
  note c = load_candidate_Inr [OF g(1)]
  have "(k, d_verdict d) \<in> {(0, verdict_accept), (1, verdict_reject)}"
    using decided_code [OF g(3)] g(4) assms(2) by simp
  with g c show ?thesis
    by (intro exI [of _ c] exI [of _ cand] exI [of _ d]) (simp add: single_decision_def gate_case_input_def)
qed

text \<open>
  The dossier of a sweep carries nothing it speaks of: M1, M2 and M3 hand no sources to
  the dossier, so that one they decided and recorded lists no artifacts, and the check of a
  dossier calls it not self-contained, exit code 3, whatever root is expected.
\<close>

theorem sweep_dossier_is_not_self_contained:
  assumes "gate_main ops fl s = ((Printed d, k), s')" "k \<noteq> 2" "gf_bundle fl \<noteq> []" "gf_stage fl \<noteq> arg_m0"
    and "decision_writable d"
  shows "dr_outcome (dossier_verify srt sha fo tx dir (gs_tree s') expect) = dossier_not_self_contained \<and>
    dossier_code dossier_not_self_contained = 3"
proof -
  have a: "d_artifacts d = []" "verdict_recorded ops (gf_bundle fl) (gf_log fl) d s s'"
    using gate_main_exit [OF assms(1,2)] assms(3,4) by auto
  then obtain es where t: "gs_tree s' = Some (Dir es)" "map_of es decision_file = Some (Reg (decision_text d))"
    using assms(3) by (auto simp: verdict_recorded_def)
  have o: "open_at fo (Dir es) [decision_file] = Some (decision_text d)" using t(2) by (simp add: open_at_def)
  have r: "decode_decision (decision_text d) = Inr d" using decode_decision_text [OF assms(5), of "[]"] by simp
  from dossier_verify_result(1) [OF o r, of srt sha tx dir expect] a(1) t(1) show ?thesis
    using outcomes_distinct by (simp add: dossier_code_def)
qed

section \<open>The whole chain of M1\<close>

lemma run_single_accept:
  assumes "gate_verify inp [st] np w = (Inr d, w')" "single_decision inp name d" "d_verdict d = verdict_accept"
  shows "\<exists>r. st_run st inp w = (Inr r, w') \<and> sr_outcome r = outcome_passed"
proof -
  have run: "run_stages inp [st] (initial_decision inp np) w = (Inr d, w')" by (rule gate_verify_run(1) [OF assms(1)])
  then obtain r where r: "st_run st inp w = (Inr r, w')"
    by (auto simp: Let_def split: prod.splits sum.splits if_splits)
  have "sr_outcome (last (d_stages d)) = outcome_passed"
    using assms(2,3) by (auto simp: single_decision_def decision_wf_def)
  moreover have "d_stages d = [name_result (st_name st) r]"
    using run r by (auto simp: Let_def initial_decision_def split: if_splits)
  ultimately show ?thesis using r by (auto simp: name_result_def split: if_splits)
qed

lemma m1_zero_exit:
  assumes "gate_main ops fl s = ((pr, 0), s')" "gf_stage fl = arg_m1"
  shows "\<exists>c cand ch w1 w2 r. load_candidate ops fl (gs_world s) = Inr (c, cand) \<and>
    resolve_target ops c (gf_root fl) (gf_shim fl) (gs_world s) = (Inr ch, w1) \<and>
    revert_run (sweep_target ops ch) (input_path c (gf_root fl) (gf_repo fl))
      (candidate_patch_path c cand (gf_root fl) (gf_repo fl)) (gate_case_input fl c cand) w1 = (Inr r, w2) \<and>
    sr_outcome r = outcome_passed"
proof -
  let ?outs = "\<lparr>gx_bundle = gf_bundle fl, gx_log = gf_log fl, gx_sources = []\<rparr>"
  obtain c cand d where l: "load_candidate ops fl (gs_world s) = Inr (c, cand)"
    using gate_main_exit [OF assms(1)] by auto
  have m: "sweep_checkout ops fl ?outs c cand s = ((pr, 0), s')"
    using assms l by (auto simp: gate_main_def run_sweep_def Let_def undecided_def split: if_splits)
  let ?inp = "gate_case_input fl c cand"
  obtain ch w1 where t: "resolve_target ops c (gf_root fl) (gf_shim fl) (gs_world s) = (Inr ch, w1)"
    using m assms(2) by (auto simp: sweep_checkout_def or_undecided_def undecided_def Let_def split: prod.splits sum.splits)
  let ?st = "revert_stage (sweep_target ops ch) (input_path c (gf_root fl) (gf_repo fl)) (candidate_patch_path c cand (gf_root fl) (gf_repo fl))"
  have g: "gate_with ops ?outs TargetUndecided ?inp ?st m1_not_proven (s\<lparr>gs_world := w1\<rparr>) = ((pr, 0), s')"
    using m assms(2) by (simp add: sweep_checkout_def or_undecided_def Let_def t)
  then obtain d w2 where v: "gate_verify ?inp [?st] m1_not_proven w1 = (Inr d, w2)"
      and e: "emit_decision ops ?outs d (s\<lparr>gs_world := w2\<rparr>) = ((pr, 0), s')"
    by (auto simp: gate_with_def undecided_def split: prod.splits sum.splits)
  have sd: "single_decision ?inp (st_name ?st) d" by (rule gate_verify_single [OF stage_contracts(2) v])
  obtain d' where d': "d' = d\<lparr>d_artifacts := d_artifacts d'\<rparr>" "0 = verdict_code (d_verdict d')"
    using emit_decision_recorded [OF e] by auto
  have "d_verdict d' = d_verdict d" using arg_cong [OF d'(1), of d_verdict] by simp
  then have "verdict_code (d_verdict d) = 0" using d'(2) by simp
  then have "d_verdict d = verdict_accept" using decided_code [OF sd] by auto
  from run_single_accept [OF v sd this] l t show ?thesis by (auto simp: revert_stage_def)
qed

text \<open>
  C5. What exit code 0 of \<open>gate -stage m1\<close> stands on, down to the commands and files, as one
  chain of worlds from the one the target was resolved in: \<open>git reset --hard\<close> to the pin of
  the case, \<open>git clean -fdx\<close> and a \<open>git status\<close> that reported nothing ran one after the
  other on the sources; the tree was built; a new report of the unpatched run shows the
  harness started and has the sanitizer text the case expects; \<open>git apply\<close> took the
  candidate's own patch and the tree was built again; and the new report of the patched run
  shows the harness started and does not have the text.  The target is the one resolved from
  the case, and its build flags ask for recovery after a finding.
\<close>

theorem m1_accept_is_observed:
  assumes "gate_main ops fl s = ((pr, 0), s')" "gf_stage fl = arg_m1"
  shows "\<exists>c cand ch w0 w1 w2 w3 w4 w5 w6 dir rep dir' rep'.
    load_candidate ops fl (gs_world s) = Inr (c, cand) \<and>
    resolve_target ops c (gf_root fl) (gf_shim fl) (gs_world s) = (Inr ch, w0) \<and> ch_cflags ch = recover_flag \<and>
    ch_pin ch = src_commit (case_source c) \<and> ch_pin ch \<noteq> [] \<and>
    (let os = go_os ops; path = go_path ops; v = case_pov c; h = case_harness c; blob = input_path c (gf_root fl) (gf_repo fl)
     in checkout_reset os ch path w0 w1 \<and> challenge_built (go_newest ops) os ch path w1 w2 \<and>
        challenge_report (go_newest ops) os ch path blob h v w2 dir rep w3 \<and>
        contains_sub rep ''Running: '' \<and> contains_sub rep (pov_expected v) \<and>
        checkout_patched os ch path (candidate_patch_path c cand (gf_root fl) (gf_repo fl)) w3 w4 \<and>
        challenge_built (go_newest ops) os ch path w4 w5 \<and>
        challenge_report (go_newest ops) os ch path blob h v w5 dir' rep' w6 \<and>
        contains_sub rep' ''Running: '' \<and> \<not> contains_sub rep' (pov_expected v))"
proof -
  obtain c cand ch w0 w6 r where l: "load_candidate ops fl (gs_world s) = Inr (c, cand)"
      and t: "resolve_target ops c (gf_root fl) (gf_shim fl) (gs_world s) = (Inr ch, w0)"
      and r: "revert_run (sweep_target ops ch) (input_path c (gf_root fl) (gf_repo fl))
        (candidate_patch_path c cand (gf_root fl) (gf_repo fl)) (gate_case_input fl c cand) w0 = (Inr r, w6)"
        "sr_outcome r = outcome_passed"
    using m1_zero_exit [OF assms] by blast
  have ch: "ch_cflags ch = recover_flag" "ch_pin ch = src_commit (case_source c)" "ch_pin ch \<noteq> []"
    using t by (auto simp: resolve_target_def Let_def result_simps split: if_splits prod.splits shape.splits)
  have i: "gi_case (gate_case_input fl c cand) = c" by (simp add: gate_case_input_def)
  from challenge.m1_pass [OF r [unfolded sweep_target_def]] obtain w1 w2 w3 w4 w5 dir rep dir' rep' where
    "checkout_reset (go_os ops) ch (go_path ops) w0 w1" "challenge_built (go_newest ops) (go_os ops) ch (go_path ops) w1 w2"
    "challenge_report (go_newest ops) (go_os ops) ch (go_path ops) (input_path c (gf_root fl) (gf_repo fl)) (case_harness c) (case_pov c) w2 dir rep w3"
    "contains_sub rep ''Running: ''" "contains_sub rep (pov_expected (case_pov c))"
    "checkout_patched (go_os ops) ch (go_path ops) (candidate_patch_path c cand (gf_root fl) (gf_repo fl)) w3 w4"
    "challenge_built (go_newest ops) (go_os ops) ch (go_path ops) w4 w5"
    "challenge_report (go_newest ops) (go_os ops) ch (go_path ops) (input_path c (gf_root fl) (gf_repo fl)) (case_harness c) (case_pov c) w5 dir' rep' w6"
    "contains_sub rep' ''Running: ''" "\<not> contains_sub rep' (pov_expected (case_pov c))"
    unfolding i by auto
  with l t ch show ?thesis unfolding Let_def by blast
qed

text \<open>
  M2 on a case without a falsifying class: the stage has an answer for it, undecided as
  \<open>class-not-defined\<close>, but through the command it is never asked: the driver reads the
  observer of the missing class first and panics, exit code 2, with nothing printed as a
  decision, written or logged.
\<close>

theorem m2_without_class_panics:
  assumes "load_candidate ops fl (gs_world s) = Inr (c, cand)" "case_class c = None"
    and "gf_stage fl = arg_m2" "gf_case fl \<noteq> []" "gf_candidate fl \<noteq> []" "gf_work fl \<noteq> []"
    and "case_reference_patch c \<noteq> []" "fuzz_tooling_project (case_source c) \<noteq> []" "pov_sanitizer (case_pov c) \<noteq> []"
    and "go_is_dir ops (repo_dir (gf_corpus fl) (case_target c) (src_repo (case_source c))) (gs_world s)"
    and "go_is_dir ops (repo_dir (gf_corpus fl) (case_target c) (fuzz_tooling_repo (case_source c))) (gs_world s)"
  shows "gate_main ops fl s = ((Panicked, 2), s) \<and>
    (\<exists>r. class_replay_run q tg patch ref (gate_case_input fl c cand) w = (Inr r, w) \<and>
       sr_outcome r = outcome_undecided \<and> sr_reason r = reason_class_not_defined)"
proof -
  have "resolve_class_target ops c (gf_corpus fl) (gf_repo fl) (gf_shim fl) (gf_work fl) (gf_members fl) (gs_world s) = Inl NilClass"
    using assms by (simp add: resolve_class_target_def Let_def)
  then have "gate_main ops fl s = ((Panicked, 2), s)"
    using assms by (simp add: gate_main_def run_sweep_def sweep_class_def or_undecided_def class_work_dir_def act_return_def Let_def)
  moreover have "\<exists>r. class_replay_run q tg patch ref (gate_case_input fl c cand) w = (Inr r, w) \<and>
      sr_outcome r = outcome_undecided \<and> sr_reason r = reason_class_not_defined"
    using assms(2) by (simp add: class_replay_run_def gate_case_input_def act_return_def class_result_def)
  ultimately show ?thesis ..
qed

section \<open>Example\<close>

text \<open>
  The toy checkout, a case file with the sample case whose candidate is called \<open>i\<close>, and a
  run of M1 over it with any dossier and log.
\<close>

definition toy_case :: "string \<Rightarrow> case_file" where
  "toy_case i = sample_case\<lparr>case_candidates := [sample_candidate\<lparr>cand_id := i\<rparr>]\<rparr>"

definition toy_gate :: "case_file \<Rightarrow> (nat \<times> bool) gate_ops" where
  "toy_gate c = \<lparr>go_os = toy_ops, go_read = (\<lambda>p w. if p = ''case.yaml'' then Inr [] else Inl ''absent''),
     go_open = (\<lambda>p w. Contents ''+x'' None), go_is_dir = (\<lambda>p w. True), go_stat = (\<lambda>p w. None),
     go_runnable = (\<lambda>p w. True), go_output = (\<lambda>env argv w. (Inr ''gcr.io/oss-fuzz/libpng:1'', w)),
     go_temp_dir = (\<lambda>w. (Inr ''/tmp'', w)), go_path = ''/bin'', go_yaml = (\<lambda>b. Inr c), go_quoted = (\<lambda>s. s),
     go_fold = (=), go_newest = by_time, go_sha = plain_hash, go_emit_io = (\<lambda>w. toy_emit_io),
     go_open_log = (\<lambda>w. None), go_now = (\<lambda>w. (''t'', w)), go_write_log = (\<lambda>w. (Written, w))\<rparr>"

definition toy_flags :: "string \<Rightarrow> gate_flags" where
  "toy_flags m = \<lparr>gf_case = ''case.yaml'', gf_repo = [], gf_candidate = ''fix'', gf_root = [], gf_stage = m,
     gf_shim = ''/shim'', gf_corpus = ''/corpus'', gf_work = ''/work'', gf_members = 0, gf_bundle = ''d'', gf_log = ''l''\<rparr>"

definition toy_like :: "gate_flags \<Rightarrow> string \<Rightarrow> bool" where
  "toy_like fl i = (gf_case fl = ''case.yaml'' \<and> gf_candidate fl = i \<and> i \<noteq> [] \<and> gf_root fl = [] \<and> gf_stage fl = arg_m1 \<and>
     gf_bundle fl = ''d'' \<and> gf_log fl = ''l'')"

definition toy_state :: "nat \<times> bool \<Rightarrow> node \<Rightarrow> (nat \<times> bool) gate_state" where
  "toy_state w t = \<lparr>gs_world = w, gs_tree = Some t, gs_file = Missing\<rparr>"

definition loaded_sample :: "case_file \<Rightarrow> case_file" where
  "loaded_sample c = c\<lparr>case_path := ''case.yaml''\<rparr>"

definition toy_checkout :: "string \<Rightarrow> challenge" where
  "toy_checkout shim = \<lparr>ch_root = [], ch_shim = shim, ch_src = ''.'', ch_pin = ''c1'',
     ch_image = ''gcr.io/oss-fuzz/libpng:1'', ch_cflags = recover_flag\<rparr>"

lemma toy_validates:
  "case_validate (loaded_sample (toy_case ''fix'')) = Inr ()"
  "case_validate (loaded_sample (sample_case\<lparr>case_class := None\<rparr>)) = Inr ()"
  by code_simp+

lemma toy_gate_ops:
  "go_os (toy_gate c) = toy_ops" "go_path (toy_gate c) = ''/bin''" "go_quoted (toy_gate c) = (\<lambda>s. s)"
  "go_fold (toy_gate c) = (=)" "go_newest (toy_gate c) = by_time" "go_sha (toy_gate c) = plain_hash"
  "go_emit_io (toy_gate c) w = toy_emit_io" "go_open_log (toy_gate c) w = None" "go_now (toy_gate c) w = (''t'', w)"
  "go_write_log (toy_gate c) w = (Written, w)" "go_read (toy_gate c) ''case.yaml'' w = Inr []"
  "go_yaml (toy_gate c) b = Inr c" "go_is_dir (toy_gate c) p w" "go_stat (toy_gate c) p w = None"
  "go_output (toy_gate c) env argv w = (Inr ''gcr.io/oss-fuzz/libpng:1'', w)"
  by (simp_all add: toy_gate_def)

lemma toy_loads:
  assumes "case_validate (loaded_sample c) = Inr ()" "case_candidates c = [cand]" "cand_id cand = gf_candidate fl" "gf_case fl = ''case.yaml''"
  shows "load_candidate (toy_gate c) fl w = Inr (loaded_sample c, cand)"
proof -
  have "find_candidate (loaded_sample c) (gf_candidate fl) = Some cand"
    using assms(2,3) by (simp add: find_candidate_def loaded_sample_def)
  then show ?thesis
    using assms(1) by (simp add: load_candidate_def load_def toy_gate_ops assms(4) loaded_sample_def [symmetric] Let_def)
qed

lemma toy_case_fields:
  "src_commit (case_source (loaded_sample (toy_case i))) = ''c1''" "fuzz_tooling_project (case_source (loaded_sample (toy_case i))) = ''libpng''"
  "case_pov (loaded_sample (toy_case i)) = sample_pov" "case_harness (loaded_sample (toy_case i)) = case_harness sample_case"
  "case_id (loaded_sample (toy_case i)) = ''libpng-1''"
  "input_path (loaded_sample (toy_case i)) [] repo = ''pov.png''"
  "candidate_patch_path (loaded_sample (toy_case i)) (sample_candidate\<lparr>cand_id := i\<rparr>) [] repo = ''fix.diff''"
  by (simp_all add: loaded_sample_def toy_case_def sample_case_def sample_source_def sample_candidate_def
      input_path_def sample_pov_def join_root_def resolve_root_def candidate_patch_path_def)

lemma toy_image: "filter (local_image ''gcr.io/oss-fuzz/libpng'') (map trim_space (split_char newline ''gcr.io/oss-fuzz/libpng:1'')) = [''gcr.io/oss-fuzz/libpng:1'']"
  by code_simp

lemma toy_resolves:
  "resolve_target (toy_gate (toy_case i)) (loaded_sample (toy_case i)) [] shim w = (Inr (toy_checkout shim), w)"
proof -
  have "path_join [[], ''project.yaml''] \<noteq> ''case.yaml''" by code_simp
  then have "go_read (toy_gate (toy_case i)) (path_join [[], ''project.yaml'']) w = Inl ''absent''" by (simp add: toy_gate_def)
  then have "classify (toy_gate (toy_case i)) [] (loaded_sample (toy_case i)) w = (ShapeOSSFuzz, ''.'', ''gcr.io/oss-fuzz/libpng'')"
    by (simp add: classify_def classify_fuzz_def toy_case_fields del: path_join.simps)
  moreover have "local_tag (toy_gate (toy_case i)) ''gcr.io/oss-fuzz/libpng'' shim w = (Inr ''gcr.io/oss-fuzz/libpng:1'', w)"
    by (simp add: local_tag_def toy_image [unfolded newline_def] act_bind_def act_wrap_def act_return_def toy_gate_ops Let_def
        del: path_join.simps split_char.simps)
  ultimately show ?thesis
    by (simp add: resolve_target_def toy_case_fields act_bind_def act_return_def toy_checkout_def)
qed

lemma toy_checkout_plain: "plain_challenge (toy_checkout shim)"
proof -
  have "path_join [[], ''.''] \<noteq> ''apply''" by code_simp
  then show ?thesis by (simp add: plain_challenge_def toy_checkout_def challenge_src_def del: path_join.simps)
qed

lemma toy_evidence: "list_all utf8_valid (sr_evidence toy_outcome)" "list_all utf8_valid m1_not_proven"
  by code_simp+

lemma toy_outcome_fields: "sr_stage toy_outcome = revert_name" "sr_outcome toy_outcome = outcome_passed" "sr_reason toy_outcome = []"
  by (simp_all add: toy_outcome_def)

definition toy_verdict :: "string \<Rightarrow> decision" where
  "toy_verdict i = \<lparr>d_case = ''libpng-1'', d_candidate = i, d_verdict = verdict_accept, d_reason = [], d_stages = [toy_outcome],
     d_not_proven = m1_not_proven, d_artifacts = [], d_usage = []\<rparr>"

lemma toy_verdict_wf:
  assumes "i \<noteq> []"
  shows "decision_wf (toy_verdict i)"
proof -
  have "revert_run (toy_target (toy_checkout []) ''/bin'') ''pov.png'' ''fix.diff'' sample_input (0, False) = (Inr toy_outcome, (8, True))"
    by (rule plain_challenge_passes [OF toy_checkout_plain toy_input])
  then have "result_sound toy_outcome"
    using m1.stage_result_sound by (fastforce simp: revert_stage_def)
  then have "stage_entry_wf toy_outcome"
    by (simp add: stage_entry_wf_def toy_outcome_fields revert_name_def)
  moreover have "\<exists>x\<in>set m1_not_proven. \<not> blank x" by (simp add: m1_not_proven_def solid_byte_nat)
  ultimately show ?thesis
    using assms by (simp add: decision_wf_def toy_verdict_def toy_outcome_fields)
qed

lemma toy_verdict_writable:
  assumes "utf8_valid i"
  shows "decision_writable (toy_verdict i)"
proof -
  have "utf8_valid revert_name" "utf8_valid outcome_passed" "utf8_valid verdict_accept" "utf8_valid ''libpng-1''"
    by code_simp+
  with toy_evidence assms show ?thesis
    by (simp add: decision_writable_def stage_writable_def toy_verdict_def toy_outcome_fields list_all_iff)
qed

definition toy_outs :: gate_outputs where
  "toy_outs = \<lparr>gx_bundle = ''d'', gx_log = ''l'', gx_sources = []\<rparr>"

text \<open>A run of M1 comes to emit the verdict.\<close>

lemma toy_gate_emits:
  assumes "toy_like fl i" "case_validate (loaded_sample (toy_case i)) = Inr ()"
  shows "gate_main (toy_gate (toy_case i)) fl (toy_state (0, False) t) =
    emit_decision (toy_gate (toy_case i)) toy_outs (toy_verdict i) (toy_state (8, True) t)"
proof -
  let ?c = "loaded_sample (toy_case i)" and ?cand = "sample_candidate\<lparr>cand_id := i\<rparr>" and ?ch = "toy_checkout (gf_shim fl)"
  let ?inp = "gate_case_input fl ?c ?cand" and ?st = "revert_stage (toy_target (toy_checkout (gf_shim fl)) ''/bin'') ''pov.png'' ''fix.diff''"
  note fl = assms(1) [unfolded toy_like_def]
  have l: "load_candidate (toy_gate (toy_case i)) fl w = Inr (?c, ?cand)" for w
    by (rule toy_loads [OF assms(2)]) (simp_all add: toy_case_def fl)
  have tg: "sweep_target (toy_gate (toy_case i)) ?ch = toy_target ?ch ''/bin''"
    by (simp add: sweep_target_def toy_target_def toy_gate_ops)
  have inp: "case_pov (gi_case ?inp) = sample_pov" "case_harness (gi_case ?inp) = case_harness sample_case"
    by (simp_all add: gate_case_input_def toy_case_fields)
  have run: "st_run ?st ?inp (0, False) = (Inr toy_outcome, (8, True))"
    using plain_challenge_passes [OF toy_checkout_plain inp] by (simp add: revert_stage_def)
  have n: "name_result (st_name ?st) toy_outcome = toy_outcome" by (simp add: name_result_def toy_outcome_fields revert_name_def)
  have "run_stages ?inp [?st] (initial_decision ?inp m1_not_proven) (0, False) = (Inr (toy_verdict i), (8, True))"
    unfolding run_stages.simps run prod.case sum.case n Let_def
    by (simp add: toy_outcome_fields toy_verdict_def initial_decision_def gate_case_input_def toy_case_fields)
  moreover have "decision_validate (toy_verdict i) = Inr ()"
    using toy_verdict_wf decision_validate_wf fl by blast
  ultimately have v: "gate_verify ?inp [?st] m1_not_proven (0, False) = (Inr (toy_verdict i), (8, True))"
    by (simp add: gate_verify_def)
  have w: "gs_world (toy_state (0, False) t) = (0, False)" "(toy_state (0, False) t)\<lparr>gs_world := w\<rparr> = toy_state w t" for w
    by (simp_all add: toy_state_def)
  have g: "gate_with (toy_gate (toy_case i)) toy_outs TargetUndecided ?inp ?st m1_not_proven (toy_state (0, False) t) =
      emit_decision (toy_gate (toy_case i)) toy_outs (toy_verdict i) (toy_state (8, True) t)"
    by (simp add: gate_with_def w v)
  have "sweep_checkout (toy_gate (toy_case i)) fl toy_outs ?c ?cand (toy_state (0, False) t) =
      gate_with (toy_gate (toy_case i)) toy_outs TargetUndecided ?inp ?st m1_not_proven (toy_state (0, False) t)"
    using fl by (simp add: sweep_checkout_def or_undecided_def w toy_resolves tg toy_case_fields Let_def)
  then show ?thesis
    using fl g by (simp add: gate_main_def run_sweep_def l Let_def toy_outs_def)
qed

lemma toy_emit_stage:
  "emit_stage plain_hash rd toy_emit_io (toy_verdict i) Map.empty [] = Inr (toy_verdict i, Dir [])"
  by (simp add: emit_stage_def toy_emit_io_def try_io_def try_bind_def in_stage_def toy_verdict_def)

text \<open>Into an empty dossier the verdict is written and logged.\<close>

definition toy_written :: "string \<Rightarrow> node" where
  "toy_written i = Dir [(artifacts_dir, Dir []), (decision_file, Reg (decision_text (toy_verdict i)))]"

lemma toy_emits_verdict:
  "\<exists>s'. emit_decision (toy_gate c) toy_outs (toy_verdict i) (toy_state w (Dir [])) = ((Printed (toy_verdict i), 0), s') \<and>
     gs_tree s' = Some (toy_written i)"
proof -
  let ?s = "toy_state w (Dir [])" and ?t = "toy_written i"
  have t: "dossier_emit plain_hash (\<lambda>p. go_read (toy_gate c) p w) toy_emit_io True (toy_verdict i) Map.empty [] (Dir []) = (Inr (toy_verdict i), ?t)"
    using toy_emit_stage
    by (simp add: dossier_emit_def toy_emit_io_def try_io_def try_bind_def rename_dir_def rename_file_def artifacts_dir_def decision_file_def toy_written_def)
  have wr: "write_decision (toy_gate c) toy_outs (toy_verdict i) ?s = (Inr (toy_verdict i, path_join [''d'', decision_file]), toy_state w ?t)"
    by (simp add: write_decision_def toy_outs_def toy_state_def tree_is_dir_def toy_gate_ops t del: path_join.simps)
  obtain s' where l: "log_decision (toy_gate c) toy_outs (toy_verdict i) (toy_state w ?t) = (Inr (), s')"
    by (simp add: log_decision_def toy_outs_def toy_state_def toy_gate_ops log_open_def try_bind_def log_append_def Let_def)
  have "verdict_code (d_verdict (toy_verdict i)) = 0" by (simp add: verdict_code_def toy_verdict_def)
  then have "emit_decision (toy_gate c) toy_outs (toy_verdict i) ?s = ((Printed (toy_verdict i), 0), s')"
    by (simp add: emit_decision_def wr l)
  moreover have "gs_tree s' = Some ?t" using log_decision_Inr [OF l] by (simp add: toy_state_def)
  ultimately show ?thesis by blast
qed

text \<open>Into a dossier that has its artifacts it is not, and the dossier stays as it was.\<close>

lemma toy_refused:
  assumes "map_of ds artifacts_dir = Some arts"
  shows "emit_decision (toy_gate c) toy_outs (toy_verdict i) (toy_state w (Dir ds)) = ((Printed (toy_verdict i), 2), toy_state w (Dir ds))"
proof -
  have "dossier_emit plain_hash (\<lambda>p. go_read (toy_gate c) p w) toy_emit_io True (toy_verdict i) Map.empty [] (Dir ds) = (Inl (EmFailed ''rename''), Dir ds)"
    using assms toy_emit_stage by (simp add: dossier_emit_def toy_emit_io_def try_io_def try_bind_def rename_dir_def)
  then show ?thesis
    by (simp add: emit_decision_def write_decision_def toy_outs_def toy_state_def tree_is_dir_def toy_gate_ops)
qed

lemma toy_gate_runs:
  obtains s' where "gate_main (toy_gate (toy_case ''fix'')) (toy_flags arg_m1) (toy_state (0, False) (Dir [])) = ((Printed (toy_verdict ''fix''), 0), s')"
proof -
  have "toy_like (toy_flags arg_m1) ''fix''" by (simp add: toy_like_def toy_flags_def)
  from toy_gate_emits [OF this toy_validates(1)] toy_emits_verdict that show thesis by metis
qed

theorem gate_exit_is_a_recorded_verdict_witness:
  "\<exists>d s'. gate_main (toy_gate (toy_case ''fix'')) (toy_flags arg_m1) (toy_state (0, False) (Dir [])) = ((Printed d, 0), s') \<and> decision_wf d \<and>
     d_candidate d = ''fix'' \<and> map sr_stage (d_stages d) = [revert_name] \<and>
     verdict_recorded (toy_gate (toy_case ''fix'')) ''d'' ''l'' d (toy_state (0, False) (Dir [])) s'"
proof -
  obtain s' where g: "gate_main (toy_gate (toy_case ''fix'')) (toy_flags arg_m1) (toy_state (0, False) (Dir [])) = ((Printed (toy_verdict ''fix''), 0), s')"
    by (rule toy_gate_runs)
  have "verdict_recorded (toy_gate (toy_case ''fix'')) ''d'' ''l'' (toy_verdict ''fix'') (toy_state (0, False) (Dir [])) s'"
    using gate_exit_is_a_recorded_verdict [OF g] by (auto simp: toy_flags_def)
  with g toy_verdict_wf [of "''fix''"] show ?thesis
    by (intro exI [of _ "toy_verdict ''fix''"] exI [of _ s']) (simp add: toy_verdict_def toy_outcome_fields)
qed

theorem sweep_dossier_is_not_self_contained_witness:
  "\<exists>d s'. gate_main (toy_gate (toy_case ''fix'')) (toy_flags arg_m1) (toy_state (0, False) (Dir [])) = ((Printed d, 0), s') \<and>
     dr_outcome (dossier_verify (sort_key mf_path) plain_hash (\<lambda>_ _. None) toy_texts ''d'' (gs_tree s') []) = dossier_not_self_contained"
proof -
  obtain s' where g: "gate_main (toy_gate (toy_case ''fix'')) (toy_flags arg_m1) (toy_state (0, False) (Dir [])) = ((Printed (toy_verdict ''fix''), 0), s')"
    by (rule toy_gate_runs)
  have "utf8_valid ''fix''" by code_simp
  from sweep_dossier_is_not_self_contained [OF g _ _ _ toy_verdict_writable [OF this]] g show ?thesis
    by (intro exI [of _ "toy_verdict ''fix''"] exI [of _ s']) (simp add: toy_flags_def)
qed

theorem m1_accept_is_observed_witness:
  "\<exists>s'. gate_main (toy_gate (toy_case ''fix'')) (toy_flags arg_m1) (toy_state (0, False) (Dir [])) = ((Printed (toy_verdict ''fix''), 0), s') \<and>
   (\<exists>w1 w2 w3 w4 w5 w6 dir rep dir' rep'. let ch = toy_checkout ''/shim''; h = case_harness sample_case in
     checkout_reset toy_ops ch ''/bin'' (0, False) w1 \<and> challenge_built by_time toy_ops ch ''/bin'' w1 w2 \<and>
     challenge_report by_time toy_ops ch ''/bin'' ''pov.png'' h sample_pov w2 dir rep w3 \<and>
     contains_sub rep (pov_expected sample_pov) \<and>
     checkout_patched toy_ops ch ''/bin'' ''fix.diff'' w3 w4 \<and> challenge_built by_time toy_ops ch ''/bin'' w4 w5 \<and>
     challenge_report by_time toy_ops ch ''/bin'' ''pov.png'' h sample_pov w5 dir' rep' w6 \<and>
     \<not> contains_sub rep' (pov_expected sample_pov))"
proof -
  obtain s' where g: "gate_main (toy_gate (toy_case ''fix'')) (toy_flags arg_m1) (toy_state (0, False) (Dir [])) = ((Printed (toy_verdict ''fix''), 0), s')"
    by (rule toy_gate_runs)
  have fl: "gf_stage (toy_flags m) = m" "gf_root (toy_flags m) = []" "gf_repo (toy_flags m) = []" "gf_shim (toy_flags m) = ''/shim''" for m
    by (simp_all add: toy_flags_def)
  have l: "load_candidate (toy_gate (toy_case ''fix'')) (toy_flags arg_m1) w = Inr (loaded_sample (toy_case ''fix''), sample_candidate\<lparr>cand_id := ''fix''\<rparr>)" for w
    by (rule toy_loads [OF toy_validates(1)]) (simp_all add: toy_case_def toy_flags_def)
  have w: "gs_world (toy_state w t) = w" for w t by (simp add: toy_state_def)
  from m1_accept_is_observed [OF g, unfolded fl l w toy_gate_ops Let_def sum.inject prod.inject, OF refl]
  obtain c' cand ch w0 w1 w2 w3 w4 w5 w6 dir rep dir' rep' where x: "loaded_sample (toy_case ''fix'') = c'"
    "sample_candidate\<lparr>cand_id := ''fix''\<rparr> = cand"
    "resolve_target (toy_gate (toy_case ''fix'')) c' [] ''/shim'' (0, False) = (Inr ch, w0)"
    "checkout_reset toy_ops ch ''/bin'' w0 w1" "challenge_built by_time toy_ops ch ''/bin'' w1 w2"
    "challenge_report by_time toy_ops ch ''/bin'' (input_path c' [] []) (case_harness c') (case_pov c') w2 dir rep w3"
    "contains_sub rep (pov_expected (case_pov c'))"
    "checkout_patched toy_ops ch ''/bin'' (candidate_patch_path c' cand [] []) w3 w4" "challenge_built by_time toy_ops ch ''/bin'' w4 w5"
    "challenge_report by_time toy_ops ch ''/bin'' (input_path c' [] []) (case_harness c') (case_pov c') w5 dir' rep' w6"
    "\<not> contains_sub rep' (pov_expected (case_pov c'))"
    by (elim exE conjE) (assumption | rule that)+
  have "ch = toy_checkout ''/shim''" "w0 = (0, False)" using x(3) unfolding x(1) [symmetric] toy_resolves by simp_all
  with x(4-11) g show ?thesis unfolding x(1,2) [symmetric] toy_case_fields Let_def by blast
qed

theorem m2_without_class_panics_witness:
  "gate_main (toy_gate (sample_case\<lparr>case_class := None\<rparr>)) (toy_flags arg_m2) (toy_state (0, False) (Dir [])) =
     ((Panicked, 2), toy_state (0, False) (Dir []))"
proof -
  let ?c = "sample_case\<lparr>case_class := None\<rparr>"
  have "load_candidate (toy_gate ?c) (toy_flags arg_m2) w = Inr (loaded_sample ?c, sample_candidate)" for w
    by (rule toy_loads [OF toy_validates(2)]) (simp_all add: sample_case_def sample_candidate_def toy_flags_def)
  from m2_without_class_panics [OF this, THEN conjunct1] show ?thesis
    by (simp add: toy_flags_def toy_gate_ops loaded_sample_def sample_case_def sample_source_def sample_pov_def)
qed

end
