(* ===== verification/Drive.thy ===== *)
theory Drive
  imports Gate_Cmd Crs_Output
begin

text \<open>
  The command \<open>cmd/drive\<close>: a run of the CRS is captured as a case, the built \<open>gate\<close> decides
  on it, the dossier is measured and, with a seal, signed by the built \<open>seal-tool\<close>.

  The tools are programs the driver starts, \<open>dv_tool\<close>: a command line gives what it printed
  and its exit code, and changes the state.  The state is the one of the gate, with the
  dossier as its tree and the audit log as its file.  \<open>runs_gate\<close> says that the program
  called \<open>gate\<close> is the one modelled here.
\<close>

section \<open>The steps of the driver\<close>

record drive_decision =
  dd_decision :: string
  dd_reason :: string
  dd_task :: string
  dd_stage :: string
  dd_case :: string
  dd_root :: string
  dd_evidence :: "string list"

record 'w drive_ops =
  dv_read :: "string \<Rightarrow> 'w \<Rightarrow> (string, string) result"
  dv_yaml :: "string \<Rightarrow> string + case_file"
  dv_load_text :: "load_error \<Rightarrow> string"
  dv_abs :: "string \<Rightarrow> ('w, string, string) action"
  dv_crs :: "'w crs_ops"
  dv_mkdir :: "'w \<Rightarrow> string option"
  dv_tool :: "string list \<Rightarrow> 'w gate_state \<Rightarrow> (string \<times> int) \<times> 'w gate_state"
  dv_sort :: "mfile list \<Rightarrow> mfile list"
  dv_sha :: "string \<Rightarrow> string"
  dv_measure_text :: "content_error \<Rightarrow> string"
  dv_open_log :: "'w \<Rightarrow> string option"
  dv_now :: "'w \<Rightarrow> string \<times> 'w"
  dv_write_log :: "'w \<Rightarrow> write_outcome \<times> 'w"

record drive_flags =
  df_run :: string
  df_task :: string
  df_case :: string
  df_out :: string
  df_stage :: string
  df_dossier :: string
  df_seal :: string
  df_log :: string
  df_bin :: string

text \<open>\<open>json.Unmarshal\<close> into a \<open>map[string]any\<close>: anything but an object leaves it empty, the last of two equal keys counts.\<close>

definition tool_map :: "string \<Rightarrow> string \<Rightarrow> json option" where
  "tool_map text =
     (case parse_json text of
        Inr (JObj ms) \<Rightarrow> map_of (rev ms)
      | _ \<Rightarrow> Map.empty)"

definition str_of :: "(string \<Rightarrow> json option) \<Rightarrow> string \<Rightarrow> string" where
  "str_of m k = (case m k of Some (JStr v) \<Rightarrow> v | _ \<Rightarrow> [])"

definition run_tool :: "'w drive_ops \<Rightarrow> drive_flags \<Rightarrow> string \<Rightarrow> string list \<Rightarrow> 'w gate_state \<Rightarrow>
    ((string \<Rightarrow> json option) \<times> int) \<times> 'w gate_state" where
  "run_tool ops fl name args s =
     (case dv_tool ops (path_join [df_bin fl, name] # args) s of
        ((text, k), s') \<Rightarrow> ((tool_map text, k), s'))"

definition source_of :: "case_file \<Rightarrow> crs_source" where
  "source_of c =
     \<lparr>cs_repo = src_repo (case_source c), cs_base_commit = base_commit (case_source c),
      cs_head_commit = src_commit (case_source c), cs_project = fuzz_tooling_project (case_source c),
      cs_harness = case_harness c, cs_sanitizer = pov_sanitizer (case_pov c),
      cs_expected = pov_expected (case_pov c), cs_crash_location = pov_crash_location (case_pov c)\<rparr>"

definition drive_exit_for :: "string \<Rightarrow> int" where
  "drive_exit_for v = (if v = ''ACCEPT'' then 0 else if v = ''REJECT'' then 1 else 2)"

definition ev_drive_decline :: string where "ev_drive_decline = ''DRIVE_DECLINE''"

text \<open>\<open>logDecline\<close>: failures are warnings.\<close>

definition log_decline :: "'w drive_ops \<Rightarrow> string \<Rightarrow> 'w gate_state \<Rightarrow> 'w gate_state" where
  "log_decline ops msg s =
     (case log_open (dv_sha ops) (gs_file s) (dv_open_log ops (gs_world s)) of
        Inl e \<Rightarrow> s
      | Inr l \<Rightarrow>
          (let (ts, w1) = dv_now ops (gs_world s); (wr, w2) = dv_write_log ops w1
           in case log_append (dv_sha ops) wr ts ev_drive_decline msg (l, file_text (gs_file s)) of
                (r, (l', f)) \<Rightarrow> s\<lparr>gs_world := w2, gs_file := Readable f\<rparr>))"

type_synonym 'w drive_exit = "(drive_decision option \<times> int) \<times> 'w gate_state"

definition drive_error :: "drive_flags \<Rightarrow> string \<Rightarrow> string list \<Rightarrow> 'w gate_state \<Rightarrow> 'w drive_exit" where
  "drive_error fl reason evidence s =
     ((Some \<lparr>dd_decision = ''ERROR'', dd_reason = reason, dd_task = df_task fl, dd_stage = [], dd_case = [],
        dd_root = [], dd_evidence = evidence\<rparr>, 2), s)"

definition decision_path :: "drive_flags \<Rightarrow> string" where
  "decision_path fl = path_join [df_dossier fl, decision_file]"

definition sign_argv :: "drive_flags \<Rightarrow> string \<Rightarrow> string list" where
  "sign_argv fl root =
     [''sign'', ''-dir'', df_seal fl, ''-content-root'', root, ''-artifact'', decision_path fl,
      ''-sig'', path_join [df_dossier fl, ''decision.sig''], ''-log'', df_log fl]"

definition provision_argv :: "drive_flags \<Rightarrow> string \<Rightarrow> string list" where
  "provision_argv fl root = [''provision'', ''-dir'', df_seal fl, ''-content-root'', root, ''-log'', df_log fl]"

definition signed_note :: string where "signed_note = ''verdict signed against the measured root''"
definition covered_note :: string where "covered_note = ''decision.json is under the measured root''"

text \<open>Sealing and signing, when there is a seal, and the exit by the decision.\<close>

definition drive_seal :: "'w drive_ops \<Rightarrow> drive_flags \<Rightarrow> drive_decision \<Rightarrow> string \<Rightarrow> 'w gate_state \<Rightarrow> 'w drive_exit" where
  "drive_seal ops fl d root s =
     (if df_seal fl = [] then ((Some d, drive_exit_for (dd_decision d)), s)
      else
        (case run_tool ops fl ''seal-tool'' (provision_argv fl root) s of
           ((m, k), s1) \<Rightarrow>
             if k \<noteq> 0 then drive_error fl ''seal-provision-failed'' (dd_evidence d) s1
             else
               (case run_tool ops fl ''seal-tool'' (sign_argv fl root) s1 of
                  ((sd, k'), s2) \<Rightarrow>
                    if str_of sd ''decision'' \<noteq> ''SIGNED'' \<or> k' \<noteq> 0 then
                      drive_error fl ''signing-failed'' (dd_evidence d @ [str_of sd ''reason'']) s2
                    else
                      ((Some (d\<lparr>dd_evidence := dd_evidence d @ [signed_note]\<rparr>), drive_exit_for (dd_decision d)), s2))))"

definition covers_decision :: "mfile list \<Rightarrow> bool" where
  "covers_decision files = list_ex (\<lambda>f. base_name (mf_path f) = decision_file) files"

text \<open>What follows the measurement of the dossier.\<close>

definition drive_measured :: "'w drive_ops \<Rightarrow> drive_flags \<Rightarrow> drive_decision \<Rightarrow> 'w gate_state \<Rightarrow> 'w drive_exit" where
  "drive_measured ops fl d s =
     (case measure_bundle (dv_sort ops) (dv_sha ops) (gs_tree s) of
        Inl e \<Rightarrow> drive_error fl ''dossier-unmeasurable'' [dv_measure_text ops e] s
      | Inr (files, root) \<Rightarrow>
          if \<not> covers_decision files then
            drive_error fl ''verdict-not-under-the-root'' (dd_evidence d @ [''measured root does not cover decision.json'']) s
          else
            drive_seal ops fl (d\<lparr>dd_root := root, dd_evidence := dd_evidence d @ [covered_note]\<rparr>) root s)"

text \<open>What follows the gate, from what it printed and its exit code.\<close>

definition drive_after_gate :: "'w drive_ops \<Rightarrow> drive_flags \<Rightarrow> drive_decision \<Rightarrow> (string \<Rightarrow> json option) \<Rightarrow> int \<Rightarrow>
    'w gate_state \<Rightarrow> 'w drive_exit" where
  "drive_after_gate ops fl d gd k s =
     (let v = (if str_of gd ''verdict'' = [] then str_of gd ''decision'' else str_of gd ''verdict'')
      in if v = [] then drive_error fl ''gate-said-nothing'' (dd_evidence d @ [''exit '' @ int_dec k]) s
         else drive_measured ops fl (d\<lparr>dd_decision := v, dd_reason := str_of gd ''reason''\<rparr>) s)"

definition gate_argv :: "drive_flags \<Rightarrow> string \<Rightarrow> string list" where
  "gate_argv fl cp =
     [''-case'', cp, ''-candidate'', ''crs-'' @ df_task fl @ ''-candidate'', ''-stage'', df_stage fl,
      ''-root'', [], ''-repo'', ''.'', ''-bundle'', df_dossier fl, ''-log'', df_log fl]"

text \<open>\<open>MkdirAll\<close> at the path of the dossier.\<close>

definition make_dossier :: "'w drive_ops \<Rightarrow> 'w gate_state \<Rightarrow> (string, unit) result \<times> 'w gate_state" where
  "make_dossier ops s =
     (case dv_mkdir ops (gs_world s) of
        Some e \<Rightarrow> (Inl e, s)
      | None \<Rightarrow>
          if tree_is_dir (gs_tree s) then (Inr (), s)
          else if gs_tree s = None then (Inr (), s\<lparr>gs_tree := Some (Dir [])\<rparr>)
          else (Inl ''not a directory'', s))"

definition drive_captured :: "'w drive_ops \<Rightarrow> drive_flags \<Rightarrow> crs_result \<Rightarrow> drive_decision \<Rightarrow> 'w gate_state \<Rightarrow> 'w drive_exit" where
  "drive_captured ops fl res d s =
     (case make_dossier ops s of
        (Inl e, s1) \<Rightarrow> drive_error fl ''dossier-unwritable'' [e] s1
      | (Inr u, s1) \<Rightarrow>
          (case run_tool ops fl ''gate'' (gate_argv fl (cr_case_path res)) s1 of
             ((gd, k), s2) \<Rightarrow> drive_after_gate ops fl d gd k s2))"

definition drive_declined :: "'w drive_ops \<Rightarrow> drive_flags \<Rightarrow> crs_result \<Rightarrow> drive_decision \<Rightarrow> 'w gate_state \<Rightarrow> 'w drive_exit" where
  "drive_declined ops fl res d s =
     ((Some (d\<lparr>dd_decision := ''DECLINE'', dd_reason := cr_outcome res,
         dd_evidence := dd_evidence d @ (if cr_detail res \<noteq> [] then [cr_detail res] else [])\<rparr>), 3),
      log_decline ops (''DECLINE '' @ cr_outcome res @ '' task='' @ df_task fl) s)"

definition drive_main :: "'w drive_ops \<Rightarrow> drive_flags \<Rightarrow> 'w gate_state \<Rightarrow> 'w drive_exit" where
  "drive_main ops fl s =
     (if [] \<in> set [df_run fl, df_task fl, df_case fl, df_out fl, df_dossier fl, df_log fl] then ((None, 2), s)
      else
        (case load (\<lambda>p. dv_read ops p (gs_world s)) (dv_yaml ops) (df_case fl) of
           Inl e \<Rightarrow> drive_error fl ''case-unreadable'' [dv_load_text ops e] s
         | Inr c \<Rightarrow>
             (case dv_abs ops (df_out fl) (gs_world s) of
                (Inl e, w1) \<Rightarrow> drive_error fl ''out-unresolvable'' [e] (s\<lparr>gs_world := w1\<rparr>)
              | (Inr out, w1) \<Rightarrow>
                  (case capture_run (dv_crs ops) (df_run fl) (df_task fl) (source_of c) out w1 of
                     (Inl e, w2) \<Rightarrow> drive_error fl ''capture-failed'' [e] (s\<lparr>gs_world := w2\<rparr>)
                   | (Inr res, w2) \<Rightarrow>
                       (let d = \<lparr>dd_decision = [], dd_reason = [], dd_task = df_task fl, dd_stage = df_stage fl, dd_case = [],
                                  dd_root = [], dd_evidence = cr_evidence res\<rparr>;
                            s2 = s\<lparr>gs_world := w2\<rparr>
                        in if cr_outcome res \<noteq> crs_captured then drive_declined ops fl res d s2
                           else
                             drive_captured ops fl res
                               (d\<lparr>dd_case := cr_case_path res, dd_evidence := dd_evidence d @
                                  [''captured '' @ cr_patch res @ '' against pov '' @ cr_pov res]\<rparr>) s2)))))"

section \<open>What the tools print\<close>

text \<open>The gate's decision, as the driver reads it.\<close>

lemma parse_decision_text:
  assumes "decision_writable d"
  shows "parse_json (decision_text d) = Inr (decision_value d)"
proof -
  let ?w = "json_indent 0 (decision_value d)"
  have r: "reads_value 4 ?w (decision_value d)"
    by (rule reads_value_mono [OF reads_indent [OF decision_plain [OF assms]] decision_depth])
  have "parse_value (2 * length (decision_text d) + 1) max_nesting (?w @ [newline]) = Inr (decision_value d, [newline])"
    by (rule reads_valueD [OF r]) (simp_all add: decision_text_def max_nesting_def stops_def)
  moreover have "skip_ws (decision_text d) = ?w @ [newline]"
    using skip_value [OF r] by (simp add: decision_text_def)
  moreover have "skip_ws [newline] = []" by (simp add: skip_ws_def json_ws_def)
  ultimately show ?thesis by (simp add: parse_json_def)
qed

lemma printed_decision:
  assumes "decision_writable d"
  shows "str_of (tool_map (decision_text d)) ''verdict'' = d_verdict d"
    and "str_of (tool_map (decision_text d)) ''reason'' = d_reason d"
  by (simp_all add: tool_map_def parse_decision_text [OF assms] str_of_def decision_value_def omit_empty_def)

section \<open>What an exit code of the driver stands on\<close>

definition sealed_by_tool :: "'w drive_ops \<Rightarrow> drive_flags \<Rightarrow> string \<Rightarrow> 'w gate_state \<Rightarrow> 'w gate_state \<Rightarrow> bool" where
  "sealed_by_tool ops fl root s s' =
     (\<exists>m s1 sd. run_tool ops fl ''seal-tool'' (provision_argv fl root) s = ((m, 0), s1) \<and>
        run_tool ops fl ''seal-tool'' (sign_argv fl root) s1 = ((sd, 0), s') \<and> str_of sd ''decision'' = ''SIGNED'')"

lemma drive_exit_for_codes: "drive_exit_for v \<in> {0, 1, 2}" "drive_exit_for v = 0 \<longleftrightarrow> v = ''ACCEPT''"
  by (auto simp: drive_exit_for_def)

lemma drive_seal_decided:
  assumes "drive_seal ops fl d root s = ((d', k), s')" "k \<noteq> 2"
  shows "\<exists>ev. d' = Some (d\<lparr>dd_evidence := ev\<rparr>) \<and> k = drive_exit_for (dd_decision d) \<and>
    (if df_seal fl = [] then s' = s else sealed_by_tool ops fl root s s')"
proof (cases "df_seal fl = []")
  case True
  with assms show ?thesis by (intro exI [of _ "dd_evidence d"]) (auto simp: drive_seal_def)
next
  case False
  obtain m k1 s1 where p: "run_tool ops fl ''seal-tool'' (provision_argv fl root) s = ((m, k1), s1)"
    by (metis prod.collapse)
  have k1: "k1 = 0" using assms False p by (auto simp: drive_seal_def drive_error_def split: if_splits)
  obtain sd k2 s2 where g: "run_tool ops fl ''seal-tool'' (sign_argv fl root) s1 = ((sd, k2), s2)"
    by (metis prod.collapse)
  have "k2 = 0 \<and> str_of sd ''decision'' = ''SIGNED''"
    using assms False p g k1 by (auto simp: drive_seal_def drive_error_def split: if_splits)
  moreover have "d' = Some (d\<lparr>dd_evidence := dd_evidence d @ [signed_note]\<rparr>) \<and> k = drive_exit_for (dd_decision d) \<and> s' = s2"
    using assms False p g k1 calculation by (simp add: drive_seal_def)
  ultimately show ?thesis using False p g k1 unfolding sealed_by_tool_def by auto
qed

lemma drive_measured_decided:
  assumes "drive_measured ops fl d s = ((d', k), s')" "k \<noteq> 2"
  shows "\<exists>files root ev. measure_bundle (dv_sort ops) (dv_sha ops) (gs_tree s) = Inr (files, root) \<and>
    covers_decision files \<and> d' = Some (d\<lparr>dd_root := root, dd_evidence := ev\<rparr>) \<and> k = drive_exit_for (dd_decision d) \<and>
    (if df_seal fl = [] then s' = s else sealed_by_tool ops fl root s s')"
proof -
  obtain files root where m: "measure_bundle (dv_sort ops) (dv_sha ops) (gs_tree s) = Inr (files, root)" "covers_decision files"
    using assms by (auto simp: drive_measured_def drive_error_def split: sum.splits prod.splits if_splits)
  let ?d = "d\<lparr>dd_root := root, dd_evidence := dd_evidence d @ [covered_note]\<rparr>"
  have sl: "drive_seal ops fl ?d root s = ((d', k), s')"
    using assms m by (simp add: drive_measured_def)
  obtain ev where "d' = Some (?d\<lparr>dd_evidence := ev\<rparr>)" "k = drive_exit_for (dd_decision ?d)"
      "if df_seal fl = [] then s' = s else sealed_by_tool ops fl root s s'"
    using drive_seal_decided [OF sl assms(2)] by blast
  then show ?thesis using m by auto
qed

text \<open>
  C2. What a decision of the driver stands on: exit code 0 or 1 means that the CRS run was
  captured as a case, that the gate printed the verdict reported here for that case, that the
  dossier measured afterwards to the root reported here and has a file called
  \<open>decision.json\<close>, and, when a seal was named, that the seal tool provisioned that root and
  signed against it.
\<close>

theorem driven_verdict_is_grounded:
  assumes "drive_main ops fl s = ((Some d, k), s')" "k \<noteq> 2" "k \<noteq> 3"
  shows "\<exists>c out res w1 w2 s1 gd gk s2 files. load (\<lambda>p. dv_read ops p (gs_world s)) (dv_yaml ops) (df_case fl) = Inr c \<and>
    capture_run (dv_crs ops) (df_run fl) (df_task fl) (source_of c) out w1 = (Inr res, w2) \<and> cr_outcome res = crs_captured \<and>
    run_tool ops fl ''gate'' (gate_argv fl (cr_case_path res)) s1 = ((gd, gk), s2) \<and>
    dd_decision d \<in> {str_of gd ''verdict'', str_of gd ''decision''} \<and> (k, dd_decision d) \<in> {(0, ''ACCEPT''), (1, ''REJECT'')} \<and>
    measure_bundle (dv_sort ops) (dv_sha ops) (gs_tree s2) = Inr (files, dd_root d) \<and> covers_decision files \<and>
    (df_seal fl \<noteq> [] \<longrightarrow> sealed_by_tool ops fl (dd_root d) s2 s')"
proof -
  obtain c out w1 where c: "load (\<lambda>p. dv_read ops p (gs_world s)) (dv_yaml ops) (df_case fl) = Inr c"
      and o: "dv_abs ops (df_out fl) (gs_world s) = (Inr out, w1)"
    using assms by (auto simp: drive_main_def drive_error_def split: if_splits sum.splits prod.splits)
  obtain res w2 where r: "capture_run (dv_crs ops) (df_run fl) (df_task fl) (source_of c) out w1 = (Inr res, w2)"
    using assms by (auto simp: drive_main_def drive_error_def c o split: if_splits sum.splits prod.splits)
  have cap: "cr_outcome res = crs_captured"
    using assms by (auto simp: drive_main_def c o r drive_declined_def Let_def split: if_splits)
  obtain d0 where dc: "drive_captured ops fl res d0 (s\<lparr>gs_world := w2\<rparr>) = ((Some d, k), s')"
    using assms by (auto simp: drive_main_def c o r cap Let_def split: if_splits)
  obtain u s1 where mk: "make_dossier ops (s\<lparr>gs_world := w2\<rparr>) = (Inr u, s1)"
    using dc assms(2) by (auto simp: drive_captured_def drive_error_def split: sum.splits prod.splits)
  obtain gd gk s2 where g: "run_tool ops fl ''gate'' (gate_argv fl (cr_case_path res)) s1 = ((gd, gk), s2)"
    by (metis prod.collapse)
  let ?v = "if str_of gd ''verdict'' = [] then str_of gd ''decision'' else str_of gd ''verdict''"
  have m: "drive_measured ops fl (d0\<lparr>dd_decision := ?v, dd_reason := str_of gd ''reason''\<rparr>) s2 = ((Some d, k), s')"
    using dc assms(2) by (auto simp: drive_captured_def mk g drive_after_gate_def drive_error_def Let_def split: if_splits)
  from drive_measured_decided [OF m assms(2)] obtain files root ev where
    f: "measure_bundle (dv_sort ops) (dv_sha ops) (gs_tree s2) = Inr (files, root)" "covers_decision files"
      "d = d0\<lparr>dd_decision := ?v, dd_reason := str_of gd ''reason'', dd_root := root, dd_evidence := ev\<rparr>"
      "k = drive_exit_for ?v" "if df_seal fl = [] then s' = s2 else sealed_by_tool ops fl root s2 s'"
    by auto
  have d: "dd_root d = root" "dd_decision d = ?v" using f(3) by simp_all
  have "(k, dd_decision d) \<in> {(0, ''ACCEPT''), (1, ''REJECT'')}"
    using f(4) assms(2) unfolding d by (auto simp: drive_exit_for_def split: if_splits)
  moreover have "dd_decision d \<in> {str_of gd ''verdict'', str_of gd ''decision''}" unfolding d by simp
  moreover have "df_seal fl \<noteq> [] \<longrightarrow> sealed_by_tool ops fl (dd_root d) s2 s'" using f(5) d(1) by simp
  ultimately show ?thesis using c r cap g f(1,2) d(1) by blast
qed

section \<open>Where the driver and the gate part\<close>

text \<open>The flags of the gate that \<open>gate_argv\<close> gives, the others at their defaults.\<close>

definition drive_gate_flags :: "drive_flags \<Rightarrow> string \<Rightarrow> gate_flags" where
  "drive_gate_flags fl cp =
     \<lparr>gf_case = cp, gf_repo = ''.'', gf_candidate = ''crs-'' @ df_task fl @ ''-candidate'', gf_root = [],
      gf_stage = df_stage fl, gf_shim = ''/var/lib/arazu-corpus/shim'', gf_corpus = ''/var/lib/arazu-corpus'',
      gf_work = [], gf_members = 0, gf_bundle = df_dossier fl, gf_log = df_log fl\<rparr>"

text \<open>The program the driver starts as \<open>gate\<close> is \<open>gate_main\<close>, where that prints a decision.\<close>

definition runs_gate :: "'w drive_ops \<Rightarrow> 'w gate_ops \<Rightarrow> drive_flags \<Rightarrow> bool" where
  "runs_gate dops gops fl =
     (\<forall>cp s d k s'. gate_main gops (drive_gate_flags fl cp) s = ((Printed d, k), s') \<longrightarrow>
        dv_tool dops (path_join [df_bin fl, ''gate''] # gate_argv fl cp) s = ((decision_text d, k), s'))"

text \<open>
  The driver does not look at the gate's exit code: a verdict that is printed is driven, over
  the root of whatever the dossier holds.
\<close>

lemma printed_verdict_is_driven:
  assumes "runs_gate dops gops fl" "make_dossier dops s = (Inr u, s1)"
    and "gate_main gops (drive_gate_flags fl (cr_case_path res)) s1 = ((Printed d, k), s2)"
    and "d_verdict d = verdict_accept" "decision_writable d"
    and "measure_bundle (dv_sort dops) (dv_sha dops) (gs_tree s2) = Inr (files, root)" "covers_decision files"
    and "df_seal fl = []"
  shows "\<exists>d'. drive_captured dops fl res d0 s = ((Some d', 0), s2) \<and> dd_decision d' = ''ACCEPT'' \<and> dd_root d' = root"
proof -
  have t: "run_tool dops fl ''gate'' (gate_argv fl (cr_case_path res)) s1 = ((tool_map (decision_text d), k), s2)"
    using assms(1,3) unfolding runs_gate_def run_tool_def by simp
  have v: "str_of (tool_map (decision_text d)) ''verdict'' = ''ACCEPT''"
    using printed_decision(1) [OF assms(5)] assms(4) by simp
  then show ?thesis
    using assms(6-8) by (simp add: drive_captured_def assms(2) t drive_after_gate_def drive_measured_def drive_seal_def drive_exit_for_def)
qed

text \<open>
  C39. A verdict that was recorded nowhere is driven: where the dossier already has its
  artifacts, as after any earlier run over it, and the gate prints ACCEPT, the gate has
  written neither the dossier nor the log and says so with exit code 2; the driver, which
  does not look at that code, reports ACCEPT with exit code 0 and gives as the root of the
  verdict the one of the dossier as it stood before the gate ran, provided that has a file
  called \<open>decision.json\<close>, such as the decision of the earlier run.  This is a run without
  sealing.
\<close>

theorem unrecorded_verdict_is_driven:
  assumes "runs_gate dops gops fl" "make_dossier dops s = (Inr u, s1)" "df_dossier fl \<noteq> []" "df_seal fl = []"
    and "gs_tree s1 = Some (Dir es)" "map_of es artifacts_dir = Some arts"
    and "measure_bundle (dv_sort dops) (dv_sha dops) (Some (Dir es)) = Inr (files, root)" "covers_decision files"
    and "gate_main gops (drive_gate_flags fl (cr_case_path res)) s1 = ((Printed d, k), s2)"
    and "d_verdict d = verdict_accept" "decision_writable d"
  shows "k = 2 \<and> gs_tree s2 = Some (Dir es) \<and> gs_file s2 = gs_file s1 \<and>
    (\<exists>d'. drive_captured dops fl res d0 s = ((Some d', 0), s2) \<and> dd_decision d' = ''ACCEPT'' \<and> dd_root d' = root)"
proof -
  have "gf_bundle (drive_gate_flags fl (cr_case_path res)) \<noteq> []" using assms(3) by (simp add: drive_gate_flags_def)
  from gate_into_taken_dossier [OF assms(9) this assms(5,6)]
  have g: "k = 2" "gs_tree s2 = Some (Dir es)" "gs_file s2 = gs_file s1" using assms(5) by simp_all
  then show ?thesis
    using printed_verdict_is_driven [OF assms(1,2,9,10,11) _ assms(8,4)] assms(7) by simp
qed

definition driven_record :: "drive_flags \<Rightarrow> drive_decision \<Rightarrow> 'w gate_state \<Rightarrow> bool" where
  "driven_record fl d s =
     (\<exists>gd es. gs_tree s = Some (Dir es) \<and> map_of es decision_file = Some (Reg (decision_text gd)) \<and> decision_wf gd \<and>
        d_verdict gd = dd_decision d \<and> d_candidate gd = ''crs-'' @ df_task fl @ ''-candidate'' \<and>
        map sr_stage (d_stages gd) = [stage_asked (df_stage fl)])"

text \<open>
  Read together with the gate: when the gate the driver starts is \<open>gate_main\<close>, did not
  end with 2 and had UTF-8 texts, the driver's ACCEPT or REJECT is the recorded one: the
  dossier it measured holds a well-formed decision with that verdict, by the stage asked
  for, on the captured candidate.
\<close>

theorem driven_verdict_is_recorded:
  assumes "runs_gate dops gops fl" "make_dossier dops s = (Inr u, s1)"
    and "gate_main gops (drive_gate_flags fl (cr_case_path res)) s1 = ((Printed gd, gk), s2)" "gk \<noteq> 2" "decision_writable gd"
    and "drive_captured dops fl res d0 s = ((Some d, k), s')" "k \<noteq> 2" "df_dossier fl \<noteq> []"
  shows "driven_record fl d s2 \<and> (\<exists>files. measure_bundle (dv_sort dops) (dv_sha dops) (gs_tree s2) = Inr (files, dd_root d))"
proof -
  have t: "run_tool dops fl ''gate'' (gate_argv fl (cr_case_path res)) s1 = ((tool_map (decision_text gd), gk), s2)"
    using assms(1,3) unfolding runs_gate_def run_tool_def by simp
  obtain c cand where g: "single_decision (gate_case_input (drive_gate_flags fl (cr_case_path res)) c cand)
        (stage_asked (df_stage fl)) gd" "load_candidate gops (drive_gate_flags fl (cr_case_path res)) (gs_world s1) = Inr (c, cand)"
      "verdict_recorded gops (df_dossier fl) (df_log fl) gd s1 s2"
    using gate_main_exit [OF assms(3,4)] by (auto simp: drive_gate_flags_def)
  have v: "str_of (tool_map (decision_text gd)) ''verdict'' = d_verdict gd" "d_verdict gd \<noteq> []"
    using printed_decision(1) [OF assms(5)] g(1) by (auto simp: single_decision_def decision_wf_def)
  let ?d = "d0\<lparr>dd_decision := d_verdict gd, dd_reason := str_of (tool_map (decision_text gd)) ''reason''\<rparr>"
  have m: "drive_measured dops fl ?d s2 = ((Some d, k), s')"
    using assms(6) v by (simp add: drive_captured_def assms(2) t drive_after_gate_def)
  from drive_measured_decided [OF m assms(7)] obtain files root ev where
    f: "measure_bundle (dv_sort dops) (dv_sha dops) (gs_tree s2) = Inr (files, root)" "d = ?d\<lparr>dd_root := root, dd_evidence := ev\<rparr>"
    by auto
  have d: "dd_root d = root" "dd_decision d = d_verdict gd" using f(2) by simp_all
  have "cand_id cand = ''crs-'' @ df_task fl @ ''-candidate''"
    using load_candidate_Inr [OF g(2)] by (simp add: drive_gate_flags_def)
  moreover obtain es where es: "gs_tree s2 = Some (Dir es)" "map_of es decision_file = Some (Reg (decision_text gd))"
    using g(3) assms(8) by (auto simp: verdict_recorded_def)
  ultimately have "driven_record fl d s2"
    unfolding driven_record_def using g(1) d
    by (intro exI [of _ gd] exI [of _ es]) (simp add: single_decision_def gate_case_input_def)
  then show ?thesis using f(1) d(1) by simp
qed

definition decision_sig_file :: string where "decision_sig_file = ''decision.sig''"

text \<open>
  What the seal tool does to the dossier: provisioning leaves it alone, and signing puts the
  signature where \<open>-sig\<close> says, into the dossier.
\<close>

definition signs_in_dossier :: "'w drive_ops \<Rightarrow> drive_flags \<Rightarrow> bool" where
  "signs_in_dossier ops fl =
     ((\<forall>root s m s'. run_tool ops fl ''seal-tool'' (provision_argv fl root) s = ((m, 0), s') \<longrightarrow> gs_tree s' = gs_tree s) \<and>
      (\<forall>root s m s'. run_tool ops fl ''seal-tool'' (sign_argv fl root) s = ((m, 0), s') \<and> str_of m ''decision'' = ''SIGNED'' \<longrightarrow>
         (\<exists>sig t. put_file [decision_sig_file] sig (the (gs_tree s)) = Some t \<and> gs_tree s' = Some t)))"

lemma wf_entries_update:
  "wf_entries es \<Longrightarrow> entry_name n \<Longrightarrow> wf_node x \<Longrightarrow> wf_entries (AList.update n x es)"
  using update_entries [of es n x] by (auto simp: wf_entries_iff)

lemma signature_payload:
  "payload_at (Dir es) decision_sig_file = (case map_of es decision_sig_file of Some (Reg c) \<Rightarrow> Some c | _ \<Rightarrow> None)"
proof -
  have p: "path_elems decision_sig_file = [decision_sig_file]" "rel_path [decision_sig_file] = decision_sig_file" "\<not> is_bundle_metadata decision_sig_file"
    by (simp_all add: path_elems_def decision_sig_file_def rel_path_def is_bundle_metadata_def)
  have f: "payload_at (Dir es) decision_sig_file = Some c \<longleftrightarrow> map_of es decision_sig_file = Some (Reg c)" for c
    unfolding payload_at_iff p using p(3) by (cases "map_of es decision_sig_file") (simp_all split: node.splits)
  show ?thesis
  proof (cases "payload_at (Dir es) decision_sig_file")
    case None
    then have "map_of es decision_sig_file \<noteq> Some (Reg c)" for c using f by simp
    with None show ?thesis by (auto split: option.splits node.splits)
  next
    case (Some c)
    with f have "map_of es decision_sig_file = Some (Reg c)" by blast
    with Some show ?thesis by simp
  qed
qed

text \<open>
  C38. A dossier the driver signed no longer measures to the root it signed: the signature is
  written beside the decision, it is no bundle metadata, so it is payload, and the root is
  over the payload.  Unless the hash collides, the dossier handed on measures to another root
  than the one reported and sealed, and the check of the dossier against that root fails.
\<close>

theorem signed_dossier_fails_its_root:
  assumes "drive_measured ops fl d s = ((Some d', k), s')" "k \<noteq> 2" "df_seal fl \<noteq> []" "signs_in_dossier ops fl"
    and "gs_tree s = Some (Dir ds)" "wf_entries ds" "map_of ds decision_sig_file = None" "sorts_files (dv_sort ops)"
    and "inj_on (dv_sha ops) (hashed_texts (dv_sort ops) (dv_sha ops) (Dir ds) \<union>
           hashed_texts (dv_sort ops) (dv_sha ops) (the (gs_tree s')))"
  shows "measure_bundle (dv_sort ops) (dv_sha ops) (gs_tree s') \<noteq> Inr (files, dd_root d') \<and>
    (dd_root d' \<noteq> [] \<longrightarrow>
       dr_outcome (dossier_verify (dv_sort ops) (dv_sha ops) fo tx dir (gs_tree s') (dd_root d')) \<noteq> dossier_verified)"
proof -
  obtain fs root where m: "measure_bundle (dv_sort ops) (dv_sha ops) (Some (Dir ds)) = Inr (fs, root)" "dd_root d' = root"
      and sl: "sealed_by_tool ops fl root s s'"
    using drive_measured_decided [OF assms(1,2)] assms(3,5) by auto
  from sl obtain m1 s1 sd where t: "run_tool ops fl ''seal-tool'' (provision_argv fl root) s = ((m1, 0), s1)"
      "run_tool ops fl ''seal-tool'' (sign_argv fl root) s1 = ((sd, 0), s')" "str_of sd ''decision'' = ''SIGNED''"
    unfolding sealed_by_tool_def by blast
  have "gs_tree s1 = Some (Dir ds)" using assms(4,5) t(1) unfolding signs_in_dossier_def by metis
  then obtain sig y where y: "put_file [decision_sig_file] sig (Dir ds) = Some y" "gs_tree s' = Some y"
    using assms(4) t(2,3) unfolding signs_in_dossier_def by (metis option.sel)
  let ?ds = "AList.update decision_sig_file (Reg sig) ds"
  have yd: "y = Dir ?ds" using y(1) assms(7) by simp
  have n: "entry_name decision_sig_file" by (simp add: decision_sig_file_def entry_name_def plain_elem_def nul_def)
  have wf: "wf_node (Dir ds)" "wf_node (Dir ?ds)" using assms(6) wf_entries_update [OF assms(6) n] by simp_all
  have ne: "measure_bundle (dv_sort ops) (dv_sha ops) (Some (Dir ?ds)) \<noteq> Inr (gs, root)" for gs
  proof
    assume "measure_bundle (dv_sort ops) (dv_sha ops) (Some (Dir ?ds)) = Inr (gs, root)"
    from same_root_payload [OF assms(8) wf m(1) this] assms(9) y(2) yd
    have "payload_at (Dir ds) decision_sig_file = payload_at (Dir ?ds) decision_sig_file" by simp
    then show False using assms(7) by (simp add: signature_payload update_conv')
  qed
  then show ?thesis
    unfolding y(2) yd m(2) verified_holds by (auto simp: dossier_holds_def)
qed

section \<open>Examples\<close>

text \<open>
  A driver whose tools always agree: the gate prints ACCEPT and leaves a \<open>decision.json\<close>, the
  seal tool signs into the dossier.
\<close>

definition tool_text :: "string \<Rightarrow> string \<Rightarrow> string" where
  "tool_text k v = json_indent 0 (JObj [(k, JStr v)]) @ [newline]"

definition agreeing_tool :: "string list \<Rightarrow> 'w gate_state \<Rightarrow> (string \<times> int) \<times> 'w gate_state" where
  "agreeing_tool argv s =
     (if argv ! 1 = ''sign'' then
        (case put_file [decision_sig_file] ''sig'' (the (gs_tree s)) of
           None \<Rightarrow> (([], 1), s)
         | Some t \<Rightarrow> ((tool_text ''decision'' ''SIGNED'', 0), s\<lparr>gs_tree := Some t\<rparr>))
      else if argv ! 1 = ''provision'' then ((tool_text ''decision'' ''SEALED'', 0), s)
      else ((tool_text ''verdict'' ''ACCEPT'', 0), s\<lparr>gs_tree := Some (Dir [(decision_file, Reg [])])\<rparr>))"

definition agreeing_drive :: "string list drive_ops" where
  "agreeing_drive = \<lparr>dv_read = (\<lambda>p w. Inr []), dv_yaml = (\<lambda>b. Inr (toy_case ''fix'')), dv_load_text = (\<lambda>e. []),
     dv_abs = (\<lambda>p w. (Inr ''out'', w)), dv_crs = sample_crs, dv_mkdir = (\<lambda>w. None), dv_tool = agreeing_tool,
     dv_sort = sort_key mf_path, dv_sha = (\<lambda>s. s), dv_measure_text = (\<lambda>e. []), dv_open_log = (\<lambda>w. None),
     dv_now = (\<lambda>w. (''t'', w)), dv_write_log = (\<lambda>w. (Written, w))\<rparr>"

definition agreeing_flags :: drive_flags where
  "agreeing_flags = \<lparr>df_run = ''run'', df_task = ''t'', df_case = ''case.yaml'', df_out = ''out'', df_stage = ''m1'', df_dossier = ''d'',
     df_seal = ''seal'', df_log = ''l'', df_bin = ''bin''\<rparr>"

lemma tool_texts:
  "str_of (tool_map (tool_text ''verdict'' ''ACCEPT'')) ''verdict'' = ''ACCEPT''"
  "str_of (tool_map (tool_text ''decision'' ''SIGNED'')) ''decision'' = ''SIGNED''"
  by code_simp+

text \<open>Trees with a \<open>decision.json\<close> at the top measure and cover it.\<close>

lemma decision_measures:
  "measure_bundle (sort_key mf_path) sha (Some (Dir [(decision_file, Reg c)])) =
     Inr ([file_at sha [decision_file] c], content_root (sort_key mf_path) sha [file_at sha [decision_file] c])"
  "measure_bundle (sort_key mf_path) sha (Some (Dir [(artifacts_dir, Dir []), (decision_file, Reg c)])) =
     Inr ([file_at sha [decision_file] c], content_root (sort_key mf_path) sha [file_at sha [decision_file] c])"
  "covers_decision [file_at sha [decision_file] c]"
proof -
  have f: "mf_path (file_at sha [decision_file] c) = decision_file" by (simp add: file_at_def rel_path_def)
  have "\<not> is_bundle_metadata decision_file" by (simp add: is_bundle_metadata_def decision_file_def)
  with f show "measure_bundle (sort_key mf_path) sha (Some (Dir [(decision_file, Reg c)])) =
     Inr ([file_at sha [decision_file] c], content_root (sort_key mf_path) sha [file_at sha [decision_file] c])"
    "measure_bundle (sort_key mf_path) sha (Some (Dir [(artifacts_dir, Dir []), (decision_file, Reg c)])) =
     Inr ([file_at sha [decision_file] c], content_root (sort_key mf_path) sha [file_at sha [decision_file] c])"
    by (simp_all add: measure_bundle_def scan_dir_def try_bind_def Let_def)
  have "base_name decision_file = decision_file" by code_simp
  with f show "covers_decision [file_at sha [decision_file] c]" by (simp add: covers_decision_def)
qed

lemma agreeing_ops:
  "dv_tool agreeing_drive = agreeing_tool" "dv_sort agreeing_drive = sort_key mf_path" "dv_sha agreeing_drive = (\<lambda>s. s)"
  "df_seal agreeing_flags \<noteq> []"
  by (simp_all add: agreeing_drive_def agreeing_flags_def)

lemma agreeing_runs:
  "run_tool agreeing_drive fl ''gate'' (gate_argv fl cp) s =
     ((tool_map (tool_text ''verdict'' ''ACCEPT''), 0), s\<lparr>gs_tree := Some (Dir [(decision_file, Reg [])])\<rparr>)"
  "run_tool agreeing_drive fl ''seal-tool'' (provision_argv fl root) s = ((tool_map (tool_text ''decision'' ''SEALED''), 0), s)"
  "run_tool agreeing_drive fl ''seal-tool'' (sign_argv fl root) s =
     (case put_file [decision_sig_file] ''sig'' (the (gs_tree s)) of
        None \<Rightarrow> ((tool_map [], 1), s)
      | Some t \<Rightarrow> ((tool_map (tool_text ''decision'' ''SIGNED''), 0), s\<lparr>gs_tree := Some t\<rparr>))"
  by (simp_all add: run_tool_def agreeing_ops agreeing_tool_def gate_argv_def provision_argv_def sign_argv_def del: path_join.simps put_file.simps
      split: option.splits)

definition agreeing_start :: "string list gate_state" where
  "agreeing_start = \<lparr>gs_world = [], gs_tree = Some (Dir [(decision_file, Reg [])]), gs_file = Missing\<rparr>"

definition agreeing_decision :: drive_decision where
  "agreeing_decision = \<lparr>dd_decision = ''ACCEPT'', dd_reason = [], dd_task = ''t'', dd_stage = ''m1'', dd_case = [], dd_root = [], dd_evidence = []\<rparr>"

lemma signature_file_new: "decision_sig_file \<noteq> decision_file" "entry_name decision_file" "entry_name decision_sig_file"
  by (simp_all add: decision_sig_file_def decision_file_def entry_name_def plain_elem_def nul_def)

lemma agreeing_signs_in_dossier: "signs_in_dossier agreeing_drive agreeing_flags"
  unfolding signs_in_dossier_def agreeing_runs by (auto simp del: put_file.simps split: option.splits)

theorem signed_dossier_fails_its_root_witness:
  "\<exists>d' s'. drive_measured agreeing_drive agreeing_flags agreeing_decision agreeing_start = ((Some d', 0), s') \<and>
     (\<forall>files. measure_bundle (sort_key mf_path) (\<lambda>s. s) (gs_tree s') \<noteq> Inr (files, dd_root d'))"
proof -
  have t: "gs_tree agreeing_start = Some (Dir [(decision_file, Reg [])])" by (simp add: agreeing_start_def)
  have "\<exists>d' s'. drive_measured agreeing_drive agreeing_flags agreeing_decision agreeing_start = ((Some d', 0), s')"
    using signature_file_new(1)
    by (simp add: drive_measured_def agreeing_ops t decision_measures drive_seal_def agreeing_runs tool_texts
        agreeing_decision_def drive_exit_for_def)
  then obtain d' s' where m: "drive_measured agreeing_drive agreeing_flags agreeing_decision agreeing_start = ((Some d', 0), s')"
    by blast
  have wf: "wf_entries [(decision_file, Reg [])]" using signature_file_new(2) by simp
  have "measure_bundle (sort_key mf_path) (\<lambda>s. s) (gs_tree s') \<noteq> Inr (files, dd_root d')" for files
    using signed_dossier_fails_its_root [OF m _ agreeing_ops(4) agreeing_signs_in_dossier t wf] signature_file_new(1) sort_key_sorts
    by (simp add: agreeing_ops inj_on_def)
  with m show ?thesis by blast
qed

lemma agreeing_loads: "load (\<lambda>p. dv_read agreeing_drive p w) (dv_yaml agreeing_drive) ''case.yaml'' = Inr (loaded_sample (toy_case ''fix''))"
  using toy_validates(1) by (simp add: load_def agreeing_drive_def loaded_sample_def Let_def)

lemma agreeing_captures:
  "\<exists>r w. capture_run sample_crs ''run'' ''t'' (source_of (loaded_sample (toy_case ''fix''))) ''out'' [] = (Inr r, w) \<and> cr_outcome r = crs_captured"
proof -
  have "trim_space (pov_expected sample_pov) \<noteq> []" by code_simp
  then have "trim_space (cs_expected (source_of (loaded_sample (toy_case ''fix'')))) \<noteq> []"
    by (simp add: source_of_def toy_case_fields)
  from sample_captures [OF this] show ?thesis by blast
qed

theorem driven_verdict_is_grounded_witness:
  "\<exists>d s' s2. drive_main agreeing_drive agreeing_flags (agreeing_start\<lparr>gs_tree := None\<rparr>) = ((Some d, 0), s') \<and>
     dd_decision d = ''ACCEPT'' \<and> sealed_by_tool agreeing_drive agreeing_flags (dd_root d) s2 s'"
proof -
  obtain r w where c: "capture_run sample_crs ''run'' ''t'' (source_of (loaded_sample (toy_case ''fix''))) ''out'' [] = (Inr r, w)"
      "cr_outcome r = crs_captured"
    using agreeing_captures by blast
  have fl: "df_run agreeing_flags = ''run''" "df_task agreeing_flags = ''t''" "df_case agreeing_flags = ''case.yaml''"
      "df_out agreeing_flags = ''out''" "df_dossier agreeing_flags = ''d''" "df_log agreeing_flags = ''l''"
    by (simp_all add: agreeing_flags_def)
  have dv: "dv_abs agreeing_drive p w = (Inr ''out'', w)" "dv_crs agreeing_drive = sample_crs" "dv_mkdir agreeing_drive w = None" for p w
    by (simp_all add: agreeing_drive_def)
  have mk: "make_dossier agreeing_drive s = (Inr (), s\<lparr>gs_tree := Some (Dir [])\<rparr>)" if "gs_tree s = None" for s
    using that by (simp add: make_dossier_def dv tree_is_dir_def)
  have "\<exists>d s'. drive_captured agreeing_drive agreeing_flags r d0 s = ((Some d, 0), s')" if "gs_tree s = None" for d0 s
    using signature_file_new(1)
    by (simp add: drive_captured_def mk [OF that] agreeing_runs drive_after_gate_def tool_texts drive_measured_def agreeing_ops
        decision_measures drive_seal_def drive_exit_for_def Let_def)
  then have "\<exists>d s'. drive_main agreeing_drive agreeing_flags (agreeing_start\<lparr>gs_tree := None\<rparr>) = ((Some d, 0), s')"
    using c by (simp add: drive_main_def fl agreeing_loads dv agreeing_start_def Let_def)
  then obtain d s' where m: "drive_main agreeing_drive agreeing_flags (agreeing_start\<lparr>gs_tree := None\<rparr>) = ((Some d, 0), s')" by blast
  from driven_verdict_is_grounded [OF m] agreeing_ops(4) m show ?thesis by auto
qed

text \<open>The gate itself as the program of the driver.\<close>

definition gate_program :: "'w gate_ops \<Rightarrow> drive_flags \<Rightarrow> string list \<Rightarrow> 'w gate_state \<Rightarrow> (string \<times> int) \<times> 'w gate_state" where
  "gate_program gops fl argv s =
     (case gate_main gops (drive_gate_flags fl (argv ! 2)) s of
        ((Printed d, k), s') \<Rightarrow> ((decision_text d, k), s')
      | ((x, k), s') \<Rightarrow> (([], k), s'))"

definition toy_drive_flags :: drive_flags where
  "toy_drive_flags = agreeing_flags\<lparr>df_stage := arg_m1, df_seal := []\<rparr>"

definition toy_driven_gate :: "(nat \<times> bool) gate_ops" where
  "toy_driven_gate = toy_gate (toy_case ''crs-t-candidate'')"

definition toy_drive :: "(nat \<times> bool) drive_ops" where
  "toy_drive = \<lparr>dv_read = (\<lambda>p w. Inr []), dv_yaml = (\<lambda>b. Inr (toy_case ''fix'')), dv_load_text = (\<lambda>e. []),
     dv_abs = (\<lambda>p w. (Inr ''out'', w)),
     dv_crs = \<lparr>cf_is_dir = (\<lambda>p w. False), cf_read_dir = (\<lambda>p w. Inl NotExist), cf_read_file = (\<lambda>p w. Inl ''absent''),
       cf_mkdir_all = (\<lambda>p w. (Inr (), w)), cf_write_file = (\<lambda>p c w. (Inr (), w)), cf_printable = (\<lambda>n. True)\<rparr>,
     dv_mkdir = (\<lambda>w. None), dv_tool = gate_program toy_driven_gate toy_drive_flags,
     dv_sort = sort_key mf_path, dv_sha = (\<lambda>s. s), dv_measure_text = (\<lambda>e. []), dv_open_log = (\<lambda>w. None),
     dv_now = (\<lambda>w. (''t'', w)), dv_write_log = (\<lambda>w. (Written, w))\<rparr>"

definition toy_capture :: crs_result where
  "toy_capture = (new_capture ''t'')\<lparr>cr_case_path := ''case.yaml''\<rparr>"

lemma toy_runs_gate: "runs_gate toy_drive toy_driven_gate toy_drive_flags"
  by (simp add: runs_gate_def toy_drive_def gate_program_def gate_argv_def del: path_join.simps)

lemma toy_drive_gate:
  "gate_main toy_driven_gate (drive_gate_flags toy_drive_flags (cr_case_path toy_capture)) (toy_state (0, False) t) =
     emit_decision toy_driven_gate toy_outs (toy_verdict ''crs-t-candidate'') (toy_state (8, True) t)"
proof -
  have "toy_like (drive_gate_flags toy_drive_flags (cr_case_path toy_capture)) ''crs-t-candidate''"
    by (simp add: toy_like_def drive_gate_flags_def toy_drive_flags_def agreeing_flags_def toy_capture_def)
  moreover have "case_validate (loaded_sample (toy_case ''crs-t-candidate'')) = Inr ()"
    by code_simp
  ultimately show ?thesis unfolding toy_driven_gate_def by (rule toy_gate_emits)
qed

lemma toy_makes: "make_dossier toy_drive (toy_state w (Dir es)) = (Inr (), toy_state w (Dir es))"
  by (simp add: make_dossier_def toy_drive_def toy_state_def tree_is_dir_def)

lemma toy_drive_fields: "dv_sort toy_drive = sort_key mf_path" "dv_sha toy_drive = (\<lambda>s. s)" "df_seal toy_drive_flags = []" "df_dossier toy_drive_flags \<noteq> []"
  by (simp_all add: toy_drive_def toy_drive_flags_def agreeing_flags_def)

lemma toy_writable: "decision_writable (toy_verdict ''crs-t-candidate'')"
proof (rule toy_verdict_writable)
  show "utf8_valid ''crs-t-candidate''" by code_simp
qed

lemma toy_tool:
  assumes "gate_main toy_driven_gate (drive_gate_flags toy_drive_flags (cr_case_path toy_capture)) s = ((Printed d, k), s')"
  shows "run_tool toy_drive toy_drive_flags ''gate'' (gate_argv toy_drive_flags (cr_case_path toy_capture)) s = ((tool_map (decision_text d), k), s')"
  using toy_runs_gate assms unfolding runs_gate_def run_tool_def by simp

text \<open>A dossier that holds an earlier decision with an artifact.\<close>

definition old_dossier :: "(string \<times> node) list" where
  "old_dossier = [(artifacts_dir, Dir [(''x'', Reg [])]), (decision_file, Reg ''old'')]"

lemma old_measures:
  "\<exists>files root. measure_bundle (sort_key mf_path) (\<lambda>s. s) (Some (Dir old_dossier)) = Inr (files, root) \<and> covers_decision files"
proof -
  let ?a = "file_at (\<lambda>s. s) [artifacts_dir, ''x''] []" and ?d = "file_at (\<lambda>s. s) [decision_file] ''old''"
  have p: "mf_path ?a = ''artifacts/x''" "mf_path ?d = decision_file"
    by (simp_all add: file_at_def rel_path_def artifacts_dir_def)
  have "\<not> is_bundle_metadata ''artifacts/x''" "\<not> is_bundle_metadata decision_file"
    by (simp_all add: is_bundle_metadata_def decision_file_def)
  moreover have "base_name decision_file = decision_file" by code_simp
  ultimately show ?thesis
    by (simp add: measure_bundle_def scan_dir_def try_bind_def Let_def old_dossier_def p covers_decision_def list_ex_iff)
qed

theorem unrecorded_verdict_is_driven_witness:
  "\<exists>d' files root s2. drive_captured toy_drive toy_drive_flags toy_capture agreeing_decision (toy_state (0, False) (Dir old_dossier)) =
     ((Some d', 0), s2) \<and> dd_decision d' = ''ACCEPT'' \<and> dd_root d' = root \<and>
     measure_bundle (sort_key mf_path) (\<lambda>s. s) (Some (Dir old_dossier)) = Inr (files, root) \<and>
     gs_tree s2 = Some (Dir old_dossier) \<and> map_of old_dossier decision_file = Some (Reg ''old'')"
proof -
  have d: "d_verdict (toy_verdict ''crs-t-candidate'') = verdict_accept" by (simp add: toy_verdict_def)
  have t: "gs_tree (toy_state w x) = Some x" for w x by (simp add: toy_state_def)
  have o: "map_of old_dossier artifacts_dir = Some (Dir [(''x'', Reg [])])" "map_of old_dossier decision_file = Some (Reg ''old'')"
    by (simp_all add: old_dossier_def artifacts_dir_def decision_file_def)
  have g: "gate_main toy_driven_gate (drive_gate_flags toy_drive_flags (cr_case_path toy_capture)) (toy_state (0, False) (Dir old_dossier)) =
      ((Printed (toy_verdict ''crs-t-candidate''), 2), toy_state (8, True) (Dir old_dossier))"
    unfolding toy_drive_gate unfolding toy_driven_gate_def by (rule toy_refused [OF o(1)])
  obtain files root where m: "measure_bundle (sort_key mf_path) (\<lambda>s. s) (Some (Dir old_dossier)) = Inr (files, root)" "covers_decision files"
    using old_measures by blast
  from unrecorded_verdict_is_driven [OF toy_runs_gate toy_makes toy_drive_fields(4,3) t o(1) _ m(2) g d toy_writable] m(1) o(2)
  show ?thesis unfolding toy_drive_fields by blast
qed

theorem driven_verdict_is_recorded_witness:
  "\<exists>d s2. drive_captured toy_drive toy_drive_flags toy_capture agreeing_decision (toy_state (0, False) (Dir [])) = ((Some d, 0), s2) \<and>
     driven_record toy_drive_flags d s2"
proof -
  obtain s2 where g: "gate_main toy_driven_gate (drive_gate_flags toy_drive_flags (cr_case_path toy_capture)) (toy_state (0, False) (Dir [])) =
      ((Printed (toy_verdict ''crs-t-candidate''), 0), s2)" "gs_tree s2 = Some (toy_written ''crs-t-candidate'')"
    unfolding toy_drive_gate unfolding toy_driven_gate_def using toy_emits_verdict by metis
  have "str_of (tool_map (decision_text (toy_verdict ''crs-t-candidate''))) ''verdict'' = ''ACCEPT''"
    using printed_decision(1) [OF toy_writable] by (simp add: toy_verdict_def)
  then have "\<exists>d. drive_captured toy_drive toy_drive_flags toy_capture agreeing_decision (toy_state (0, False) (Dir [])) = ((Some d, 0), s2)"
    by (simp add: drive_captured_def toy_makes toy_tool [OF g(1)] drive_after_gate_def drive_measured_def toy_drive_fields g(2) toy_written_def
        decision_measures drive_seal_def drive_exit_for_def Let_def)
  then obtain d where d: "drive_captured toy_drive toy_drive_flags toy_capture agreeing_decision (toy_state (0, False) (Dir [])) = ((Some d, 0), s2)" by blast
  from driven_verdict_is_recorded [OF toy_runs_gate toy_makes g(1) _ toy_writable d _ toy_drive_fields(4)] d show ?thesis by auto
qed

end
