(* ===== verification/Mutation_Test.thy ===== *)
theory Mutation_Test
  imports Dossier Os_Exec
begin

text \<open>
  The harness of \<open>cmd/mutation-test/main.go\<close>: it breaks one check at a time in a copy of the
  tree, runs the tests the catalogue names for it, and reports which test noticed.  The
  operating system is the record of \<open>Os_Exec\<close> with two more operations (writing a file,
  making a temporary directory); the world is a parameter, so the results below hold for any
  \<open>cp\<close>, \<open>make\<close> and \<open>go\<close>.
\<close>

section \<open>The catalogue and the results\<close>

record mutation =
  mu_id :: string
  mu_check :: string
  mu_file :: string
  mu_before :: string
  mu_after :: string
  mu_packages :: "string list"
  mu_expect :: string
  mu_subsumed_by :: string
  mu_untestable :: string

record mutation_result =
  mr_id :: string
  mr_check :: string
  mr_file :: string
  mr_verdict :: string
  mr_expect :: string
  mr_catchers :: "string list"
  mr_note :: string

definition mv_caught :: string where "mv_caught = ''caught''"
definition mv_caught_other :: string where "mv_caught_other = ''caught-by-another-test''"
definition mv_escaped :: string where "mv_escaped = ''escaped''"
definition mv_subsumed :: string where "mv_subsumed = ''subsumed''"
definition mv_untestable :: string where "mv_untestable = ''untestable-on-this-host''"
definition mv_build_fail :: string where "mv_build_fail = ''build-fail''"
definition mv_stale :: string where "mv_stale = ''stale-catalogue''"

lemmas mv_defs = mv_caught_def mv_caught_other_def mv_escaped_def mv_subsumed_def mv_untestable_def
  mv_build_fail_def mv_stale_def

lemma mv_distinct:
  "distinct [mv_caught, mv_caught_other, mv_escaped, mv_subsumed, mv_untestable, mv_build_fail, mv_stale]"
  by (simp add: mv_defs)

lemma mv_distinct_rev:
  "distinct [mv_stale, mv_build_fail, mv_untestable, mv_subsumed, mv_escaped, mv_caught_other, mv_caught]"
  by (simp add: mv_defs)

lemmas mv_neq [simp] =
  mv_distinct [simplified distinct.simps list.set insert_iff empty_iff de_Morgan_disj simp_thms]
  mv_distinct_rev [simplified distinct.simps list.set insert_iff empty_iff de_Morgan_disj simp_thms]

definition mv_noticed :: "string \<Rightarrow> bool" where
  "mv_noticed v = (v = mv_caught \<or> v = mv_caught_other)"

definition tree_entries :: "string list" where
  "tree_entries = [''go.mod'', ''go.sum'', ''vendor'', ''pkg'', ''cmd'', ''scripts'', ''testdata'', ''bpf'', ''corpus'', ''Makefile'']"

record mutation_flags =
  mf_repo :: string
  mf_catalogue :: string
  mf_work :: string
  mf_only :: string

record 'w mutation_ops =
  mo_os :: "'w os_ops"
  mo_write_file :: "string \<Rightarrow> string \<Rightarrow> ('w, string, unit) action"
  mo_mkdir_temp :: "string \<Rightarrow> ('w, string, string) action"
  mo_show_json :: "json_error \<Rightarrow> string"

subsection \<open>Reading the catalogue\<close>

definition mutation_setters :: "mutation Go_Json.fields" where
  "mutation_setters =
     [(''id'', set_string (\<lambda>s m. m\<lparr>mu_id := s\<rparr>)), (''check'', set_string (\<lambda>s m. m\<lparr>mu_check := s\<rparr>)),
      (''file'', set_string (\<lambda>s m. m\<lparr>mu_file := s\<rparr>)), (''before'', set_string (\<lambda>s m. m\<lparr>mu_before := s\<rparr>)),
      (''after'', set_string (\<lambda>s m. m\<lparr>mu_after := s\<rparr>)),
      (''packages'', set_strings mu_packages (\<lambda>ss m. m\<lparr>mu_packages := ss\<rparr>)),
      (''expect'', set_string (\<lambda>s m. m\<lparr>mu_expect := s\<rparr>)), (''subsumedBy'', set_string (\<lambda>s m. m\<lparr>mu_subsumed_by := s\<rparr>)),
      (''untestableReason'', set_string (\<lambda>s m. m\<lparr>mu_untestable := s\<rparr>))]"

definition zero_mutation :: mutation where
  "zero_mutation = \<lparr>mu_id = [], mu_check = [], mu_file = [], mu_before = [], mu_after = [], mu_packages = [],
     mu_expect = [], mu_subsumed_by = [], mu_untestable = []\<rparr>"

definition set_mutation :: "json \<Rightarrow> mutation \<Rightarrow> mutation option" where
  "set_mutation v m = ok_value (store_value False mutation_setters m v)"

definition decode_catalogue :: "string \<Rightarrow> (json_error, mutation list) result" where
  "decode_catalogue b =
     try_bind (parse_json b) (\<lambda>v.
       case set_list set_mutation zero_mutation (\<lambda>x. x) (\<lambda>ms _. ms) v [] of
         None \<Rightarrow> Inl JBadType
       | Some ms \<Rightarrow> Inr ms)"

section \<open>Texts\<close>

definition first_lines :: "string \<Rightarrow> nat \<Rightarrow> string" where
  "first_lines s n = join_with ''; '' (take n (split_char newline (trim_space s)))"

text \<open>
  The expression \<open>(?m)^\s*--- FAIL: (\S+)\<close>: white space may run over several lines before the
  dashes, so the names it captures are those of the lines that start, after white space, with
  the marker and go on with a byte that is not white space.
\<close>

definition fail_marker :: string where "fail_marker = ''--- FAIL: ''"

definition failed_name :: "string \<Rightarrow> string option" where
  "failed_name line =
     (let t = dropWhile re_space line
      in if \<not> has_prefix t fail_marker then None
         else (case takeWhile (\<lambda>c. \<not> re_space c) (drop (length fail_marker) t) of [] \<Rightarrow> None | n \<Rightarrow> Some n))"

definition failed_names :: "string \<Rightarrow> string list" where
  "failed_names out = List.map_filter failed_name (split_char newline out)"

text \<open>A subtest is reported as \<open>Parent/Child\<close>; the parent is kept.\<close>

definition parent_test :: "string \<Rightarrow> string" where
  "parent_test name = (case takeWhile (\<lambda>c. c \<noteq> slash) name of [] \<Rightarrow> name | p \<Rightarrow> p)"

definition uniq :: "string list \<Rightarrow> string list" where
  "uniq names = sort (remdups (map parent_test names))"

text \<open>\<open>strings.Count\<close>: occurrences that do not overlap; an empty text occurs around every rune.\<close>

fun rune_count :: "string \<Rightarrow> nat" where
  "rune_count [] = 0"
| "rune_count (a # s) = Suc (rune_count (drop (rune_width (a # s) - 1) s))"

function count_from :: "string \<Rightarrow> string \<Rightarrow> nat" where
  "count_from s p =
     (if s = [] \<or> p = [] then 0
      else if has_prefix s p then Suc (count_from (drop (length p) s) p)
      else count_from (tl s) p)"
  by pat_completeness auto
termination
  by (relation "measure (length \<circ> fst)") auto

declare count_from.simps [simp del]

definition count_sub :: "string \<Rightarrow> string \<Rightarrow> nat" where
  "count_sub s p = (if p = [] then Suc (rune_count s) else count_from s p)"

text \<open>\<open>strings.Replace\<close> with a limit of one.\<close>

fun replace_first :: "string \<Rightarrow> string \<Rightarrow> string \<Rightarrow> string" where
  "replace_first [] p q = (if p = [] then q else [])"
| "replace_first (c # s) p q =
     (if has_prefix (c # s) p then q @ drop (length p) (c # s) else c # replace_first s p q)"

section \<open>One mutation\<close>

fun copy_entries :: "'w os_ops \<Rightarrow> string \<Rightarrow> string \<Rightarrow> string list \<Rightarrow> ('w, string, unit) action" where
  "copy_entries ops src dst [] = act_return ()"
| "copy_entries ops src dst (e # es) =
     act_try (os_stat_size ops (path_join [src, e])) (\<lambda>r.
       case r of
         Inl _ \<Rightarrow> copy_entries ops src dst es
       | Inr _ \<Rightarrow>
           act_bind (exec_ok ops [] [] [''cp'', ''-a'', path_join [src, e], dst @ [slash]]
               (\<lambda>err out. ''copy '' @ e @ '': '' @ err @ '': '' @ out))
             (\<lambda>_. copy_entries ops src dst es))"

definition copy_tree :: "'w os_ops \<Rightarrow> string \<Rightarrow> string \<Rightarrow> ('w, string, unit) action" where
  "copy_tree ops src dst = act_bind (os_mkdir_all ops dst) (\<lambda>_. copy_entries ops src dst tree_entries)"

text \<open>\<open>prepare\<close>: the error is the note its callers print.\<close>

definition prepare_tree :: "'w os_ops \<Rightarrow> string \<Rightarrow> ('w, string, unit) action" where
  "prepare_tree ops dir =
     act_bind (exec_ok ops dir [] [''make'', ''-C'', ''bpf'', ''egress_deny.bpf.o'']
         (\<lambda>_ out. ''bpf object: '' @ first_lines out 3)) (\<lambda>_.
     act_bind (exec_ok ops dir [] [''go'', ''build'', ''-o'', ''bin/'', ''./cmd/...''] (\<lambda>_ out. first_lines out 3)) (\<lambda>_.
     act_return ()))"

definition test_argv :: "string list \<Rightarrow> string list" where
  "test_argv pkgs = [''go'', ''test'', ''-count=1''] @ pkgs"

definition escaped_note :: string where "escaped_note = ''no test failed with this check broken''"

definition unnamed_note :: "string \<Rightarrow> string" where
  "unnamed_note out = ''the suite failed but named no test: '' @ first_lines out 3"

text \<open>The verdict on a mutation whose tests ran, from what they printed and whether they passed.\<close>

definition judge_mutation :: "mutation \<Rightarrow> mutation_result \<Rightarrow> string \<Rightarrow> bool \<Rightarrow> mutation_result" where
  "judge_mutation m r out passed =
     (let r1 = r\<lparr>mr_catchers := uniq (failed_names out)\<rparr>
      in if passed then r1\<lparr>mr_verdict := mv_escaped, mr_note := escaped_note\<rparr>
         else if mr_catchers r1 = [] then
           r1\<lparr>mr_verdict := mv_escaped, mr_note := unnamed_note out\<rparr>
         else if mu_expect m \<noteq> [] \<and> mu_expect m \<notin> set (mr_catchers r1) then r1\<lparr>mr_verdict := mv_caught_other\<rparr>
         else r1\<lparr>mr_verdict := mv_caught\<rparr>)"

definition started_mutation :: "mutation \<Rightarrow> mutation_result" where
  "started_mutation m =
     \<lparr>mr_id = mu_id m, mr_check = mu_check m, mr_file = mu_file m, mr_verdict = [], mr_expect = mu_expect m,
      mr_catchers = [], mr_note = []\<rparr>"

definition test_mutation :: "'w os_ops \<Rightarrow> string \<Rightarrow> mutation \<Rightarrow> 'w \<Rightarrow> mutation_result \<times> 'w" where
  "test_mutation ops dir m w =
     (case prepare_tree ops dir w of
        (Inl note, w1) \<Rightarrow> ((started_mutation m)\<lparr>mr_verdict := mv_build_fail, mr_note := note\<rparr>, w1)
      | (Inr _, w1) \<Rightarrow>
          (case os_exec ops dir [] (test_argv (mu_packages m)) w1 of
             ((out, err), w2) \<Rightarrow> (judge_mutation m (started_mutation m) out (err = None), w2)))"

definition stale_mutation :: "mutation \<Rightarrow> string \<Rightarrow> mutation_result" where
  "stale_mutation m note = (started_mutation m)\<lparr>mr_verdict := mv_stale, mr_note := note\<rparr>"

definition mutated_text :: "mutation \<Rightarrow> string \<Rightarrow> string" where
  "mutated_text m src = replace_first src (mu_before m) (mu_after m)"

definition stale_note :: "mutation \<Rightarrow> string \<Rightarrow> string" where
  "stale_note m src =
     ''the text to mutate occurs '' @ nat_dec (count_sub src (mu_before m)) @ '' times in '' @ mu_file m @ '', want exactly 1''"

definition run_mutation :: "'w mutation_ops \<Rightarrow> string \<Rightarrow> string \<Rightarrow> mutation \<Rightarrow> 'w \<Rightarrow> mutation_result \<times> 'w" where
  "run_mutation ops root dir m w =
     (case copy_tree (mo_os ops) root dir w of
        (Inl e, w1) \<Rightarrow> ((started_mutation m)\<lparr>mr_verdict := mv_build_fail, mr_note := e\<rparr>, w1)
      | (Inr _, w1) \<Rightarrow>
     (case os_read_file (mo_os ops) (path_join [dir, mu_file m]) w1 of
        (Inl e, w2) \<Rightarrow> (stale_mutation m e, w2)
      | (Inr src, w2) \<Rightarrow>
     (if count_sub src (mu_before m) \<noteq> 1 then (stale_mutation m (stale_note m src), w2)
      else
     (case mo_write_file ops (path_join [dir, mu_file m]) (mutated_text m src) w2 of
        (Inl e, w3) \<Rightarrow> (stale_mutation m e, w3)
      | (Inr _, w3) \<Rightarrow> test_mutation (mo_os ops) dir m w3))))"

section \<open>The run\<close>

definition selected :: "string \<Rightarrow> mutation list \<Rightarrow> mutation list" where
  "selected only muts = filter (\<lambda>m. only = [] \<or> mu_id m = only) muts"

definition packages_to_run :: "mutation list \<Rightarrow> string \<Rightarrow> string list" where
  "packages_to_run muts only = sort (remdups (concat (map mu_packages (selected only muts))))"

definition baseline :: "'w os_ops \<Rightarrow> string \<Rightarrow> string \<Rightarrow> string list \<Rightarrow> ('w, string, unit) action" where
  "baseline ops root dir pkgs =
     act_bind (copy_tree ops root dir) (\<lambda>_.
     act_bind (act_wrap (\<lambda>note. ''the unmutated tree does not build: '' @ note) (prepare_tree ops dir)) (\<lambda>_.
     act_bind (exec_ok ops dir [] (test_argv pkgs) (\<lambda>_ out.
         if uniq (failed_names out) \<noteq> [] then
           ''the unmutated tree already fails '' @ join_with '' '' (uniq (failed_names out)) @
           '', so every mutant would credit them as catchers''
         else ''the unmutated tree does not pass: '' @ first_lines out 5)) (\<lambda>_.
     act_return ())))"

fun run_mutations :: "'w mutation_ops \<Rightarrow> string \<Rightarrow> string \<Rightarrow> mutation list \<Rightarrow> 'w \<Rightarrow> mutation_result list \<times> 'w" where
  "run_mutations ops root base [] w = ([], w)"
| "run_mutations ops root base (m # ms) w =
     (case run_mutation ops root (path_join [base, mu_id m]) m w of
        (r, w1) \<Rightarrow> (case run_mutations ops root base ms w1 of (rs, w2) \<Rightarrow> (r # rs, w2)))"

text \<open>
  The two maps of \<open>resolveSubsumption\<close> keep the last entry of an identity; a missing one reads
  as the zero value.
\<close>

definition verdict_by_id :: "mutation_result list \<Rightarrow> string \<Rightarrow> string" where
  "verdict_by_id rs i = (case map_of (rev (map (\<lambda>r. (mr_id r, mr_verdict r)) rs)) i of None \<Rightarrow> [] | Some v \<Rightarrow> v)"

definition mutation_by_id :: "mutation list \<Rightarrow> string \<Rightarrow> mutation" where
  "mutation_by_id ms i = (case map_of (rev (map (\<lambda>m. (mu_id m, m)) ms)) i of None \<Rightarrow> zero_mutation | Some m \<Rightarrow> m)"

definition subsumed_note :: "string \<Rightarrow> string" where
  "subsumed_note i = ''no input reaches this check that '' @ i @ '' does not refuse first, and '' @ i @ '' is caught''"

definition resolve_one :: "mutation list \<Rightarrow> mutation_result list \<Rightarrow> mutation_result \<Rightarrow> mutation_result" where
  "resolve_one muts rs r =
     (let m = mutation_by_id muts (mr_id r); s = mu_subsumed_by m; v = verdict_by_id rs s
      in if mr_verdict r \<noteq> mv_escaped then r
         else if mu_untestable m \<noteq> [] then r\<lparr>mr_verdict := mv_untestable, mr_note := mu_untestable m\<rparr>
         else if s = [] then r
         else if mv_noticed v then r\<lparr>mr_verdict := mv_subsumed, mr_note := subsumed_note s\<rparr>
         else if v = [] then r\<lparr>mr_note := ''declares subsumedBy '' @ s @ '', which is not in the catalogue''\<rparr>
         else r\<lparr>mr_note := ''declares subsumedBy '' @ s @
                  '', but that mutation also escaped, so neither check is evidenced''\<rparr>)"

definition resolve_subsumption :: "mutation list \<Rightarrow> mutation_result list \<Rightarrow> mutation_result list" where
  "resolve_subsumption muts rs = map (resolve_one muts rs) rs"

definition mutation_code :: "mutation_result list \<Rightarrow> int" where
  "mutation_code rs =
     (if list_ex (\<lambda>r. mr_verdict r = mv_escaped \<or> mr_verdict r = mv_stale \<or> mr_verdict r = mv_build_fail) rs then 1 else 0)"

text \<open>Everything up to the first mutation; an error ends the program with exit code 2.\<close>

definition mutation_setup :: "'w mutation_ops \<Rightarrow> mutation_flags \<Rightarrow> ('w, string, string \<times> string \<times> mutation list) action" where
  "mutation_setup ops fl =
     act_bind (os_abs (mo_os ops) (mf_repo fl)) (\<lambda>root.
     act_bind (os_read_file (mo_os ops) (path_join [root, mf_catalogue fl])) (\<lambda>b.
     (case decode_catalogue b of
        Inl e \<Rightarrow> act_fail (mf_catalogue fl @ '': '' @ mo_show_json ops e)
      | Inr muts \<Rightarrow>
          act_bind (if mf_work fl = [] then mo_mkdir_temp ops ''arazu-mutants-'' else act_return (mf_work fl)) (\<lambda>base.
          act_bind (os_mkdir_all (mo_os ops) base) (\<lambda>_.
          act_bind (if packages_to_run muts (mf_only fl) = [] then act_return ()
                    else baseline (mo_os ops) root (path_join [base, ''_baseline'']) (packages_to_run muts (mf_only fl))) (\<lambda>_.
          act_return (root, base, muts)))))))"

type_synonym mutation_exit = "(string, mutation_result list) result \<times> int"

definition mutation_main :: "'w mutation_ops \<Rightarrow> mutation_flags \<Rightarrow> 'w \<Rightarrow> mutation_exit \<times> 'w" where
  "mutation_main ops fl w =
     (case mutation_setup ops fl w of
        (Inl e, w1) \<Rightarrow> ((Inl e, 2), w1)
      | (Inr (root, base, muts), w1) \<Rightarrow>
          (case run_mutations ops root base (selected (mf_only fl) muts) w1 of
             (raw, w2) \<Rightarrow>
               (let rs = resolve_subsumption muts raw in ((Inr rs, mutation_code rs), w2))))"

subsection \<open>The report\<close>

definition mutation_result_value :: "mutation_result \<Rightarrow> json" where
  "mutation_result_value r =
     JObj ([(''id'', JStr (mr_id r)), (''check'', JStr (mr_check r)), (''file'', JStr (mr_file r)),
        (''verdict'', JStr (mr_verdict r)), (''expect'', JStr (mr_expect r)),
        (''catchers'', strings_value (mr_catchers r))] @ omit_empty ''note'' (JStr (mr_note r)) (mr_note r = []))"

definition mutation_results_text :: "mutation_result list \<Rightarrow> string" where
  "mutation_results_text rs = json_indent 0 (list_value mutation_result_value rs) @ [newline]"

record mutation_summary =
  ms_total :: nat
  ms_holes :: "string list"
  ms_subsumed :: nat
  ms_untested :: "string list"
  ms_broken :: "string list"

definition summarise :: "mutation_result list \<Rightarrow> mutation_summary" where
  "summarise rs =
     \<lparr>ms_total = length rs,
      ms_holes = map (\<lambda>r. mr_id r @ '' ('' @ mr_check r @ '')'')
        (filter (\<lambda>r. mr_verdict r = mv_escaped \<or> mr_verdict r = mv_stale) rs),
      ms_subsumed = length (filter (\<lambda>r. mr_verdict r = mv_subsumed) rs),
      ms_untested = map (\<lambda>r. mr_id r @ '': '' @ mr_note r) (filter (\<lambda>r. mr_verdict r = mv_untestable) rs),
      ms_broken = map (\<lambda>r. mr_id r @ '': '' @ mr_note r) (filter (\<lambda>r. mr_verdict r = mv_build_fail) rs)\<rparr>"

section \<open>What a verdict and a passing run mean\<close>

text \<open>The tests of a mutant ran, failed, and named these tests.\<close>

definition noticed_by :: "'w mutation_ops \<Rightarrow> string \<Rightarrow> mutation \<Rightarrow> string list \<Rightarrow> bool" where
  "noticed_by ops dir m names =
     (\<exists>w0 src w1 w2 w3 out e w4.
        os_read_file (mo_os ops) (path_join [dir, mu_file m]) w0 = (Inr src, w1) \<and>
        count_sub src (mu_before m) = 1 \<and>
        mo_write_file ops (path_join [dir, mu_file m]) (mutated_text m src) w1 = (Inr (), w2) \<and>
        prepare_tree (mo_os ops) dir w2 = (Inr (), w3) \<and>
        os_exec (mo_os ops) dir [] (test_argv (mu_packages m)) w3 = ((out, Some e), w4) \<and>
        names = uniq (failed_names out) \<and> names \<noteq> [])"

lemma started_fields [simp]:
  "mr_id (started_mutation m) = mu_id m" "mr_verdict (started_mutation m) = []"
  "mr_catchers (started_mutation m) = []" "mr_expect (started_mutation m) = mu_expect m"
  by (simp_all add: started_mutation_def)

lemma judge_noticed:
  "mv_noticed (mr_verdict (judge_mutation m r out passed)) \<longleftrightarrow> \<not> passed \<and> uniq (failed_names out) \<noteq> []"
  by (simp add: judge_mutation_def mv_noticed_def Let_def)

lemma judge_fields [simp]:
  "mr_id (judge_mutation m r out passed) = mr_id r"
  "mr_catchers (judge_mutation m r out passed) = uniq (failed_names out)"
  by (simp_all add: judge_mutation_def Let_def)

lemma judge_verdicts:
  "mr_verdict (judge_mutation m r out passed) \<in> {mv_caught, mv_caught_other, mv_escaped}"
  by (simp add: judge_mutation_def Let_def)

lemma run_mutation_id: "run_mutation ops root dir m w = (r, w') \<Longrightarrow> mr_id r = mu_id m"
  by (auto simp: run_mutation_def test_mutation_def stale_mutation_def split: prod.splits sum.splits if_splits)

lemma run_mutation_verdict:
  "run_mutation ops root dir m w = (r, w') \<Longrightarrow>
     mr_verdict r \<in> {mv_caught, mv_caught_other, mv_escaped, mv_stale, mv_build_fail}"
  using judge_verdicts
  by (fastforce simp: run_mutation_def test_mutation_def stale_mutation_def split: prod.splits sum.splits if_splits)

lemma run_mutation_noticed:
  assumes "run_mutation ops root dir m w = (r, w')" "mv_noticed (mr_verdict r)"
  shows "noticed_by ops dir m (mr_catchers r)"
proof -
  have stale: "\<not> mv_noticed mv_stale" "\<not> mv_noticed mv_build_fail" by (simp_all add: mv_noticed_def)
  from assms obtain w1 src w2 w3 where
      "os_read_file (mo_os ops) (path_join [dir, mu_file m]) w1 = (Inr src, w2)" "count_sub src (mu_before m) = 1"
      "mo_write_file ops (path_join [dir, mu_file m]) (mutated_text m src) w2 = (Inr (), w3)"
    and t: "test_mutation (mo_os ops) dir m w3 = (r, w')"
    using stale by (auto simp: run_mutation_def stale_mutation_def simp del: path_join.simps split: prod.splits sum.splits if_splits)
  moreover from t assms(2) obtain w4 out e where "prepare_tree (mo_os ops) dir w3 = (Inr (), w4)"
      "os_exec (mo_os ops) dir [] (test_argv (mu_packages m)) w4 = ((out, Some e), w')"
      "mr_catchers r = uniq (failed_names out)" "mr_catchers r \<noteq> []"
    using stale by (auto simp: test_mutation_def judge_noticed split: prod.splits sum.splits)
  ultimately show ?thesis unfolding noticed_by_def by blast
qed

lemma run_mutations_length: "run_mutations ops root base ms w = (rs, w') \<Longrightarrow> length rs = length ms"
  by (induction ms arbitrary: w rs) (auto split: prod.splits)

lemma run_mutations_each:
  assumes "run_mutations ops root base ms w = (rs, w')" "(m, r) \<in> set (zip ms rs)"
  shows "\<exists>w0 w1. run_mutation ops root (path_join [base, mu_id m]) m w0 = (r, w1)"
  using assms
proof (induction ms arbitrary: w rs)
  case (Cons a ms)
  obtain q w1 qs where q: "run_mutation ops root (path_join [base, mu_id a]) a w = (q, w1)"
    and qs: "run_mutations ops root base ms w1 = (qs, w')" and rs: "rs = q # qs"
    using Cons.prems(1) by (auto simp del: path_join.simps split: prod.splits)
  show ?case
  proof (cases "(m, r) = (a, q)")
    case True
    then show ?thesis using q by blast
  next
    case False
    then have "(m, r) \<in> set (zip ms qs)" using Cons.prems(2) by (auto simp: rs)
    from Cons.IH [OF qs this] show ?thesis .
  qed
qed simp

lemma verdict_by_id_SomeD:
  assumes "verdict_by_id rs i \<noteq> []"
  shows "\<exists>r\<in>set rs. mr_id r = i \<and> mr_verdict r = verdict_by_id rs i"
  using assms by (auto simp: verdict_by_id_def dest!: map_of_SomeD split: option.splits)

lemma mutation_by_id_in:
  assumes "mutation_by_id ms i \<noteq> zero_mutation"
  shows "mutation_by_id ms i \<in> set ms \<and> mu_id (mutation_by_id ms i) = i"
  using assms by (auto simp: mutation_by_id_def dest!: map_of_SomeD split: option.splits)

text \<open>What a mutation whose check broke without a test failing may still rely on.\<close>

definition excused :: "mutation list \<Rightarrow> mutation_result list \<Rightarrow> mutation_result \<Rightarrow> bool" where
  "excused muts raw r =
     (mr_verdict r = mv_escaped \<and>
      (\<exists>d\<in>set muts. mu_id d = mr_id r \<and>
         (mu_untestable d \<noteq> [] \<or>
          mu_subsumed_by d \<noteq> [] \<and> (\<exists>s\<in>set raw. mr_id s = mu_subsumed_by d \<and> mv_noticed (mr_verdict s)))))"

lemma mv_noticed_Nil [simp]: "\<not> mv_noticed []"
  by (simp add: mv_noticed_def mv_defs)

lemma resolved_passes:
  assumes "mr_verdict (resolve_one muts raw r) \<notin> {mv_escaped, mv_stale, mv_build_fail}"
    and "mr_verdict r \<in> {mv_caught, mv_caught_other, mv_escaped, mv_stale, mv_build_fail}"
  shows "mv_noticed (mr_verdict r) \<or> excused muts raw r"
proof (cases "mr_verdict r = mv_escaped")
  case False
  then show ?thesis using assms by (auto simp: resolve_one_def Let_def mv_noticed_def)
next
  case True
  let ?m = "mutation_by_id muts (mr_id r)"
  have "mu_untestable ?m \<noteq> [] \<or> mu_subsumed_by ?m \<noteq> [] \<and> mv_noticed (verdict_by_id raw (mu_subsumed_by ?m))"
    using assms(1) True by (auto simp: resolve_one_def Let_def split: if_splits)
  moreover from this have "?m \<noteq> zero_mutation" by (auto simp: zero_mutation_def)
  ultimately show ?thesis
    using True mutation_by_id_in verdict_by_id_SomeD [of raw "mu_subsumed_by ?m"] mv_noticed_Nil
    unfolding excused_def by metis
qed

text \<open>
  C32. When the mutation run ends with exit code 0, every mutation it selected is accounted
  for: its text occurred exactly once in the file, the edit was written, the mutant built, its
  tests failed and named the tests that failed; or its tests passed (or failed naming none) and
  the catalogue either gives a reason why no test can notice it, or names another mutation
  of the same run that was noticed in that sense.  A stale entry or a mutant that does not
  build never passes.
\<close>

theorem passing_run_evidences_every_check:
  assumes "mutation_main ops fl w = ((Inr rs, 0), w')"
  shows "\<exists>root base muts raw w1.
    mutation_setup ops fl w = (Inr (root, base, muts), w1) \<and>
    run_mutations ops root base (selected (mf_only fl) muts) w1 = (raw, w') \<and>
    length raw = length (selected (mf_only fl) muts) \<and>
    (\<forall>(m, r) \<in> set (zip (selected (mf_only fl) muts) raw). mr_id r = mu_id m \<and>
       (mv_noticed (mr_verdict r) \<and> noticed_by ops (path_join [base, mu_id m]) m (mr_catchers r) \<or> excused muts raw r))"
proof -
  obtain root base muts w1 raw where st: "mutation_setup ops fl w = (Inr (root, base, muts), w1)"
    and raw: "run_mutations ops root base (selected (mf_only fl) muts) w1 = (raw, w')"
    and rs: "rs = resolve_subsumption muts raw" and code: "mutation_code rs = 0"
    using assms by (auto simp: mutation_main_def Let_def split: prod.splits sum.splits)
  have "mr_id r = mu_id m \<and>
       (mv_noticed (mr_verdict r) \<and> noticed_by ops (path_join [base, mu_id m]) m (mr_catchers r) \<or> excused muts raw r)"
    if z: "(m, r) \<in> set (zip (selected (mf_only fl) muts) raw)" for m r
  proof -
    obtain wa wb where run: "run_mutation ops root (path_join [base, mu_id m]) m wa = (r, wb)"
      using run_mutations_each [OF raw z] by blast
    have "resolve_one muts raw r \<in> set rs" using z by (auto simp: rs resolve_subsumption_def dest: set_zip_rightD)
    then have "mr_verdict (resolve_one muts raw r) \<notin> {mv_escaped, mv_stale, mv_build_fail}"
      using code by (auto simp: mutation_code_def list_ex_iff split: if_splits)
    from resolved_passes [OF this run_mutation_verdict [OF run]] show ?thesis
      using run_mutation_noticed [OF run] run_mutation_id [OF run] by blast
  qed
  then show ?thesis using st raw run_mutations_length [OF raw] by auto
qed

text \<open>
  An identity given with \<open>-only\<close> that the catalogue does not have selects nothing: once
  the catalogue reads and the work directory is there, no tree is copied, no test runs, and the
  program ends with exit code 0 and an empty report.
\<close>

theorem unknown_mutation_passes:
  assumes "os_abs (mo_os ops) (mf_repo fl) w = (Inr root, w1)"
    and "os_read_file (mo_os ops) (path_join [root, mf_catalogue fl]) w1 = (Inr b, w2)"
    and "decode_catalogue b = Inr muts"
    and "mf_only fl \<noteq> []" "mf_only fl \<notin> set (map mu_id muts)"
    and "mf_work fl \<noteq> []" "os_mkdir_all (mo_os ops) (mf_work fl) w2 = (Inr (), w3)"
  shows "mutation_main ops fl w = ((Inr [], 0), w3)"
proof -
  have "selected (mf_only fl) muts = []" using assms(4,5) by (auto simp: selected_def filter_empty_conv image_iff)
  then show ?thesis using assms
    by (simp add: mutation_main_def mutation_setup_def packages_to_run_def act_bind_def act_return_def
          resolve_subsumption_def mutation_code_def)
qed

section \<open>Examples\<close>

text \<open>One mutation of one file; the tests of the mutant fail in \<open>TestOrder\<close>.\<close>

definition toy_catalogue_fields :: "(string \<times> string) list" where
  "toy_catalogue_fields = [(''id'', ''m''), (''file'', ''f''), (''before'', ''<''), (''after'', ''>'')]"

definition toy_catalogue :: string where
  "toy_catalogue = json_array [json_object True (map (\<lambda>(k, v). (k, json_string True v)) toy_catalogue_fields)]"

definition toy_mutation :: mutation where
  "toy_mutation = zero_mutation\<lparr>mu_id := ''m'', mu_file := ''f'', mu_before := ''<'', mu_after := ''>''\<rparr>"

definition toy_failure :: string where "toy_failure = ''--- FAIL: TestOrder/less (0.00s)'' @ [newline] @ ''FAIL''"

definition toy_tests :: "bool os_ops" where
  "toy_tests = \<lparr>os_stat_size = (\<lambda>p w. (Inl ''missing'', w)), os_mkdir_all = (\<lambda>p w. (Inr (), w)),
     os_read_file = (\<lambda>p w. (Inr (if p = ''r/c'' then toy_catalogue else ''a<b''), w)), os_glob = (\<lambda>p w. (Inr [], w)),
     os_mod_time = (\<lambda>p w. (Inr 0, w)), os_abs = (\<lambda>p w. (Inr p, w)),
     os_exec = (\<lambda>dir env argv w. if w \<and> argv = test_argv [] then ((toy_failure, Some ''exit status 1''), w) else (([], None), w))\<rparr>"

definition toy_harness :: "bool mutation_ops" where
  "toy_harness = \<lparr>mo_os = toy_tests, mo_write_file = (\<lambda>p t w. (Inr (), t = ''a>b'')), mo_mkdir_temp = (\<lambda>p w. (Inr ''tmp'', w)),
     mo_show_json = (\<lambda>e. ''bad json'')\<rparr>"

definition toy_mutation_flags :: "string \<Rightarrow> mutation_flags" where
  "toy_mutation_flags only = \<lparr>mf_repo = ''r'', mf_catalogue = ''c'', mf_work = ''w'', mf_only = only\<rparr>"

lemma toy_catalogue_reads: "parse_json toy_catalogue = Inr (JArr [JObj (map (\<lambda>(k, v). (k, JStr v)) toy_catalogue_fields)])"
proof (rule parse_json_reads)
  have ascii: "\<forall>(k, v) \<in> set toy_catalogue_fields. utf8_repair k = k \<and> utf8_repair v = v"
    by code_simp
  have "reads_fields 0 (map (\<lambda>(k, v). (k, json_string True v)) toy_catalogue_fields)
      (map (\<lambda>(k, v). (k, JStr v)) toy_catalogue_fields)"
    unfolding reads_fields_def list_all2_map1 list_all2_map2
  proof (rule list.rel_refl_strong, clarify)
    fix k v assume "(k, v) \<in> set toy_catalogue_fields"
    then have "utf8_repair k = k" "utf8_repair v = v" using ascii by auto
    then show "k = utf8_repair k \<and> reads_value 0 (json_string True v) (JStr v)"
      using reads_string [of True v] by simp
  qed
  then show "reads_value (Suc (Suc 0)) toy_catalogue (JArr [JObj (map (\<lambda>(k, v). (k, JStr v)) toy_catalogue_fields)])"
    unfolding toy_catalogue_def by (intro reads_array) (auto intro!: reads_object simp: toy_catalogue_fields_def)
qed (simp add: max_nesting_def)

lemma toy_catalogue_decodes: "decode_catalogue toy_catalogue = Inr [toy_mutation]"
  unfolding decode_catalogue_def toy_catalogue_reads by code_simp

definition toy_noticed :: mutation_result where
  "toy_noticed = \<lparr>mr_id = ''m'', mr_check = [], mr_file = ''f'', mr_verdict = mv_caught, mr_expect = [],
     mr_catchers = [''TestOrder''], mr_note = []\<rparr>"

lemma toy_clean: "clean ''r/c'' = ''r/c''"
  by code_simp

lemma toy_mutation_run: "mutation_main toy_harness (toy_mutation_flags []) False = ((Inr [toy_noticed], 0), True)"
proof -
  have st: "mutation_setup toy_harness (toy_mutation_flags []) False = (Inr (''r'', ''w'', [toy_mutation]), False)"
    by (simp add: mutation_setup_def toy_mutation_flags_def toy_harness_def toy_tests_def toy_clean toy_catalogue_decodes act_bind_def
        act_return_def) code_simp
  show ?thesis unfolding mutation_main_def st by code_simp
qed

theorem passing_run_evidences_every_check_witness:
  "\<exists>root base muts raw w1.
    mutation_setup toy_harness (toy_mutation_flags []) False = (Inr (root, base, muts), w1) \<and>
    run_mutations toy_harness root base (selected [] muts) w1 = (raw, True) \<and>
    length raw = length (selected [] muts) \<and>
    (\<forall>(m, r) \<in> set (zip (selected [] muts) raw). mr_id r = mu_id m \<and>
       (mv_noticed (mr_verdict r) \<and> noticed_by toy_harness (path_join [base, mu_id m]) m (mr_catchers r) \<or> excused muts raw r))"
  using passing_run_evidences_every_check [OF toy_mutation_run] by (simp add: toy_mutation_flags_def del: path_join.simps)

theorem unknown_mutation_passes_witness:
  "mutation_main toy_harness (toy_mutation_flags ''typo'') False = ((Inr [], 0), False)"
  by (rule unknown_mutation_passes [of _ _ _ "''r''" False toy_catalogue False "[toy_mutation]"])
    (simp_all add: toy_harness_def toy_tests_def toy_mutation_flags_def toy_catalogue_decodes toy_mutation_def toy_clean)

end
