(* ===== verification/Demo.thy ===== *)
theory Demo
  imports Drive Mutation_Test Contained_Run Ingress Seal_Tool Complex_Main
begin

text \<open>
  The demonstration \<open>cmd/demo\<close>: six branches, each a sequence of runs of the other commands and
  of edits of their files, which say what they observed; the run compares that with a
  prediction written in advance.  The programs under \<open>bin/\<close> are a parameter (a function of the
  arguments and the world, giving what they print and their exit code), so are the file
  system and the environment; the audit log the last branch writes is the one of \<open>Audit_Log\<close>,
  the measurement of a dossier the one of \<open>Content_Store\<close>.  The printed header, table and footer
  are left out.
\<close>

section \<open>The harness\<close>

record demo_harness =
  dh_repo :: string
  dh_workdir :: string
  dh_broken :: string

record 'w demo_ops =
  dm_abs :: "string \<Rightarrow> ('w, string, string) action"
  dm_remove_all :: "string \<Rightarrow> ('w, string, unit) action"
  dm_mkdir :: "string \<Rightarrow> ('w, string, unit) action"
  dm_remove :: "string \<Rightarrow> ('w, string, unit) action"
  dm_read :: "string \<Rightarrow> ('w, string, string) action"
  dm_write :: "string \<Rightarrow> string \<Rightarrow> ('w, string, unit) action"
  dm_copy :: "string \<Rightarrow> string \<Rightarrow> ('w, string, unit) action"
  dm_tool :: "string \<Rightarrow> string list \<Rightarrow> 'w \<Rightarrow> (string \<times> int) \<times> 'w"
  dm_exists :: "string \<Rightarrow> 'w \<Rightarrow> bool"
  dm_is_dir :: "string \<Rightarrow> 'w \<Rightarrow> bool"
  dm_is_exec :: "string \<Rightarrow> 'w \<Rightarrow> bool"
  dm_getenv :: "string \<Rightarrow> 'w \<Rightarrow> string"
  dm_tree :: "string \<Rightarrow> 'w \<Rightarrow> node option"
  dm_file :: "string \<Rightarrow> 'w \<Rightarrow> open_read"
  dm_open_log :: "string \<Rightarrow> 'w \<Rightarrow> string option"
  dm_put :: "string \<Rightarrow> string \<Rightarrow> 'w \<Rightarrow> 'w"
  dm_now :: "'w \<Rightarrow> string \<times> 'w"
  dm_write_log :: "'w \<Rightarrow> write_outcome \<times> 'w"
  dm_sort :: "mfile list \<Rightarrow> mfile list"
  dm_sha :: "string \<Rightarrow> string"
  dm_log_text :: "log_error \<Rightarrow> string"
  dm_measure_text :: "content_error \<Rightarrow> string"
  dm_float :: "string \<Rightarrow> rat"
  dm_print :: "nat \<Rightarrow> bool"

type_synonym ('w, 'a) demo = "('w, string, 'a) action"
type_synonym printed = "string \<Rightarrow> json option"

definition demo_path :: "demo_harness \<Rightarrow> string list \<Rightarrow> string" where
  "demo_path h parts = path_join (dh_workdir h # parts)"

definition demo_bundle :: "demo_harness \<Rightarrow> string \<Rightarrow> string" where
  "demo_bundle h name = path_join [dh_repo h, ''testdata'', ''bundles'', name]"

text \<open>\<open>runTool\<close>: what a program prints must be one JSON object (or \<open>null\<close>).\<close>

definition demo_tool :: "'w demo_ops \<Rightarrow> demo_harness \<Rightarrow> string \<Rightarrow> string list \<Rightarrow> ('w, printed \<times> int) demo" where
  "demo_tool ops h name args = (\<lambda>w.
     case dm_tool ops (dh_repo h) (path_join [dh_repo h, ''bin'', name] # args) w of
       ((out, k), w') \<Rightarrow>
         (case parse_json out of
            Inr (JObj ms) \<Rightarrow> (Inr (map_of (rev ms), k), w')
          | Inr JNull \<Rightarrow> (Inr (Map.empty, k), w')
          | _ \<Rightarrow> (Inl (name @ '' produced no JSON decision (exit '' @ int_dec k @ ''): '' @ out), w')))"

text \<open>The keys and words the branches look for.\<close>

definition key_decision :: string where "key_decision = ''decision''"
definition key_reason :: string where "key_reason = ''reason''"
definition key_verdict :: string where "key_verdict = ''verdict''"
definition key_content_root :: string where "key_content_root = ''content_root''"
definition word_accept :: string where "word_accept = ''ACCEPT''"
definition word_reject :: string where "word_reject = ''REJECT''"
definition word_signed :: string where "word_signed = ''SIGNED''"
definition word_refused :: string where "word_refused = ''REFUSED''"
definition word_clean :: string where "word_clean = ''CLEAN''"
definition word_broken :: string where "word_broken = ''BROKEN''"

definition demo_ingress :: "'w demo_ops \<Rightarrow> demo_harness \<Rightarrow> string \<Rightarrow> string \<Rightarrow> string \<Rightarrow> ('w, printed \<times> int) demo" where
  "demo_ingress ops h bundle state lg =
     demo_tool ops h ''ingress-verify''
       [''-bundle'', bundle, ''-trusted'', path_join [dh_repo h, ''testdata/keys/trusted.pub''], ''-state'', state,
        ''-log'', lg, ''-allow'', ''content/'']"

definition demo_provision :: "'w demo_ops \<Rightarrow> demo_harness \<Rightarrow> string \<Rightarrow> string \<Rightarrow> string \<Rightarrow> ('w, printed \<times> int) demo" where
  "demo_provision ops h seal rt lg =
     demo_tool ops h ''seal-tool'' [''provision'', ''-dir'', seal, ''-content-root'', rt, ''-log'', lg]"

definition demo_sign :: "'w demo_ops \<Rightarrow> demo_harness \<Rightarrow> string \<Rightarrow> string \<Rightarrow> string \<Rightarrow> string \<Rightarrow> string \<Rightarrow> ('w, printed \<times> int) demo" where
  "demo_sign ops h seal rt artifact sig lg =
     demo_tool ops h ''seal-tool''
       [''sign'', ''-dir'', seal, ''-content-root'', rt, ''-artifact'', artifact, ''-sig'', sig, ''-log'', lg]"

definition demo_verify_log :: "'w demo_ops \<Rightarrow> demo_harness \<Rightarrow> string \<Rightarrow> ('w, printed \<times> int) demo" where
  "demo_verify_log ops h lg = demo_tool ops h ''log-verify'' [''-log'', lg]"

definition decided :: "string \<Rightarrow> printed \<times> int \<Rightarrow> bool" where
  "decided word = (\<lambda>(d, k). str_of d key_decision = word \<and> k = 0)"

text \<open>What a branch says when a step fails.\<close>

definition said :: "string \<Rightarrow> printed \<Rightarrow> string" where
  "said who d = who @ '' said '' @ str_of d key_decision @ '':'' @ str_of d key_reason"

definition provisioning_failed :: string where "provisioning_failed = ''seal provisioning failed''"

definition log_said :: "printed \<Rightarrow> string" where "log_said v = ''log '' @ str_of v key_decision"

section \<open>The accepted flow\<close>

definition happy_prediction :: string where
  "happy_prediction = ''ACCEPT, contained, no egress, unseal, SIGNED, log CLEAN''"

text \<open>\<open>bpfEnforced\<close>: the sum of the kernel's denial counters is positive.\<close>

definition denied_count :: "(string \<Rightarrow> rat) \<Rightarrow> printed \<Rightarrow> string \<Rightarrow> rat" where
  "denied_count fl d k = (case d k of Some (JNum n) \<Rightarrow> fl n | _ \<Rightarrow> 0)"

definition bpf_enforced :: "(string \<Rightarrow> rat) \<Rightarrow> printed \<Rightarrow> bool" where
  "bpf_enforced fl run =
     (case run ''bpf_denials'' of
        Some (JObj ms) \<Rightarrow>
          denied_count fl (map_of (rev ms)) ''connect_denied'' + denied_count fl (map_of (rev ms)) ''sendmsg_denied'' > 0
      | _ \<Rightarrow> False)"

definition reached_probe :: "json \<Rightarrow> string option" where
  "reached_probe p =
     (case p of
        JObj ms \<Rightarrow>
          (if str_of (map_of (rev ms)) ''class'' = ''REACH'' \<and> map_of (rev ms) ''reached'' = Some (JBool True)
           then Some (str_of (map_of (rev ms)) ''name'') else None)
      | _ \<Rightarrow> None)"

definition reached_probes :: "printed \<Rightarrow> string list" where
  "reached_probes run = (case run ''probes'' of Some (JArr ps) \<Rightarrow> List.map_filter reached_probe ps | _ \<Rightarrow> [])"

definition happy_mode :: "demo_harness \<Rightarrow> string" where
  "happy_mode h = (if dh_broken h = ''happy-path'' then ''netns-only'' else ''contained'')"

definition demo_contained :: "'w demo_ops \<Rightarrow> demo_harness \<Rightarrow> string \<Rightarrow> string \<Rightarrow> string \<Rightarrow> ('w, printed \<times> int) demo" where
  "demo_contained ops h mode artifact lg =
     demo_tool ops h ''contained-run''
       [''-mode'', mode, ''-bundle'', demo_bundle h ''good'', ''-out'', artifact, ''-log'', lg,
        ''-obj'', path_join [dh_repo h, ''bpf/egress_deny.bpf.o''],
        ''-probe'', path_join [dh_repo h, ''scripts/egress-probe.sh''], ''-ns'', ''arazu-demo'']"

definition run_failed :: "printed \<Rightarrow> string" where
  "run_failed run = ''contained run failed: '' @ str_of run key_reason"

definition egress_leaked :: "string list \<Rightarrow> string" where
  "egress_leaked names = ''egress leaked: '' @ join_with '','' names"

definition no_denials :: string where "no_denials = ''contained run produced no kernel-side denials''"

definition no_signature :: string where "no_signature = ''no signature written''"

text \<open>From signing to the check of the log.\<close>

definition happy_signed :: "'w demo_ops \<Rightarrow> demo_harness \<Rightarrow> string \<Rightarrow> string \<Rightarrow> ('w, string) demo" where
  "happy_signed ops h rt lg =
     (let sig = demo_path h [''happy'', ''artifact.sig'']
      in act_bind (demo_sign ops h (demo_path h [''happy'', ''seal'']) rt (demo_path h [''happy'', ''artifact.txt'']) sig lg) (\<lambda>d.
           if \<not> decided word_signed d then act_return (said ''signing'' (fst d))
           else (\<lambda>w. if \<not> dm_exists ops sig w then (Inr no_signature, w)
                else act_bind (demo_verify_log ops h lg) (\<lambda>v.
                       act_return (if decided word_clean v then happy_prediction else log_said (fst v))) w)))"

definition happy_contained :: "'w demo_ops \<Rightarrow> demo_harness \<Rightarrow> string \<Rightarrow> string \<Rightarrow> ('w, string) demo" where
  "happy_contained ops h rt lg =
     act_bind (demo_contained ops h (happy_mode h) (demo_path h [''happy'', ''artifact.txt'']) lg) (\<lambda>(run, k).
       if k \<noteq> 0 then act_return (run_failed run)
       else if reached_probes run \<noteq> [] then act_return (egress_leaked (reached_probes run))
       else if \<not> bpf_enforced (dm_float ops) run then act_return no_denials
       else happy_signed ops h rt lg)"

definition happy_path :: "'w demo_ops \<Rightarrow> demo_harness \<Rightarrow> ('w, string) demo" where
  "happy_path ops h =
     (let lg = demo_path h [''happy'', ''audit.jsonl'']; seal = demo_path h [''happy'', ''seal'']
      in act_bind (act_ignore (dm_mkdir ops (path_dir lg))) (\<lambda>_.
         act_bind (demo_ingress ops h (demo_bundle h ''good'') (demo_path h [''happy'', ''state'']) lg) (\<lambda>d.
           if \<not> decided word_accept d then act_return (said ''gate'' (fst d))
           else act_bind (demo_provision ops h seal (str_of (fst d) key_content_root) lg) (\<lambda>(_, k).
                  if k \<noteq> 0 then act_return provisioning_failed
                  else happy_contained ops h (str_of (fst d) key_content_root) lg))))"

section \<open>The poisoned bundle and the tampered content\<close>

definition poisoned_prediction :: string where
  "poisoned_prediction = ''REJECT:hash-mismatch, nothing downstream ran''"

definition said_exit :: "string \<Rightarrow> printed \<times> int \<Rightarrow> string" where
  "said_exit who = (\<lambda>(d, k). who @ '' said '' @ str_of d key_decision @ '' (exit '' @ int_dec k @ '')'')"

definition poisoned_bundle :: "'w demo_ops \<Rightarrow> demo_harness \<Rightarrow> ('w, string) demo" where
  "poisoned_bundle ops h =
     (let lg = demo_path h [''poisoned'', ''audit.jsonl''];
          bundle = demo_bundle h (if dh_broken h = ''poisoned-bundle'' then ''good'' else ''flipped-byte'')
      in act_bind (act_ignore (dm_mkdir ops (path_dir lg))) (\<lambda>_.
         act_bind (demo_ingress ops h bundle (demo_path h [''poisoned'', ''state'']) lg) (\<lambda>(d, k).
           if str_of d key_decision \<noteq> word_reject \<or> k = 0 then act_return (said_exit ''gate'' (d, k))
           else if str_of d key_reason \<noteq> ''hash-mismatch'' then act_return (''REJECT:'' @ str_of d key_reason)
           else if str_of d key_content_root \<noteq> [] then act_return ''REJECT but a content root was published''
           else (\<lambda>w. (Inr (if dm_exists ops (demo_path h [''poisoned'', ''artifact.txt'']) w then ''REJECT but an artifact exists''
                           else poisoned_prediction), w)))))"

definition tampered_prediction :: string where
  "tampered_prediction = ''REFUSED:measured-state-mismatch, unsigned, exit non-zero''"

text \<open>Measure the store again and try to sign what ran over it.\<close>

definition tampered_run :: "'w demo_ops \<Rightarrow> demo_harness \<Rightarrow> string \<Rightarrow> ('w, string) demo" where
  "tampered_run ops h lg =
     (let artifact = demo_path h [''tampered'', ''artifact.txt'']; sig = demo_path h [''tampered'', ''artifact.sig'']
      in act_bind (demo_tool ops h ''contained-run''
             [''-mode'', ''control'', ''-bundle'', demo_path h [''tampered'', ''store''], ''-out'', artifact, ''-log'', lg,
              ''-probe'', path_join [dh_repo h, ''scripts/egress-probe.sh'']]) (\<lambda>(run, _).
         act_bind (demo_sign ops h (demo_path h [''tampered'', ''seal'']) (str_of run key_content_root) artifact sig lg) (\<lambda>(d, k).
           if str_of d key_decision \<noteq> word_refused \<or> k = 0 then act_return (said_exit ''signing'' (d, k))
           else if str_of d key_reason \<noteq> ''measured-state-mismatch'' then act_return (''REFUSED:'' @ str_of d key_reason)
           else (\<lambda>w. (Inr (if dm_exists ops sig w then ''REFUSED but a signature exists'' else tampered_prediction), w)))))"

definition tampered_body :: string where
  "tampered_body = ''TAMPERED after the gate accepted this bundle'' @ [newline]"

definition tampered_content :: "'w demo_ops \<Rightarrow> demo_harness \<Rightarrow> ('w, string) demo" where
  "tampered_content ops h =
     (let lg = demo_path h [''tampered'', ''audit.jsonl'']; store = demo_path h [''tampered'', ''store'']
      in act_bind (act_ignore (dm_mkdir ops (path_dir lg))) (\<lambda>_.
         act_bind (act_wrap (\<lambda>e. ''cp: '' @ e) (dm_copy ops (demo_bundle h ''good'') store)) (\<lambda>_.
         act_bind (demo_ingress ops h store (demo_path h [''tampered'', ''state'']) lg) (\<lambda>d.
           if \<not> decided word_accept d then act_return (''gate refused the good bundle: '' @ str_of (fst d) key_reason)
           else
         act_bind (demo_provision ops h (demo_path h [''tampered'', ''seal'']) (str_of (fst d) key_content_root) lg) (\<lambda>(_, k).
           if k \<noteq> 0 then act_return provisioning_failed
           else
         act_bind (if dh_broken h \<noteq> ''tampered-content''
                   then dm_write ops (path_join [store, ''content'', ''a.txt'']) tampered_body else act_return ()) (\<lambda>_.
         tampered_run ops h lg))))))"

section \<open>The gate inside the chain\<close>

definition chain_prediction :: string where
  "chain_prediction = ''ACCEPT recorded, decision under the sealed root, SIGNED, log CLEAN''"

text \<open>\<open>measureDossier\<close>: the root, and whether \<open>decision.json\<close> was among the files measured.\<close>

definition measure_dossier :: "'w demo_ops \<Rightarrow> string \<Rightarrow> ('w, string \<times> bool) demo" where
  "measure_dossier ops dir = (\<lambda>w.
     case measure_bundle (dm_sort ops) (dm_sha ops) (dm_tree ops dir w) of
       Inl e \<Rightarrow> (Inl (dm_measure_text ops e), w)
     | Inr (files, rt) \<Rightarrow> (Inr (rt, covers_decision files), w))"

definition uncovered :: string where "uncovered = ''the measured root does not cover decision.json''"
definition no_gate_entry :: string where "no_gate_entry = ''log verifies but contains no GATE_ entry''"

definition chain_observed :: "string \<Rightarrow> string" where
  "chain_observed verdict = verdict @ '' recorded, decision under the sealed root, SIGNED, log CLEAN''"

text \<open>From the measured dossier to the check of the log.\<close>

definition chain_logged :: "'w demo_ops \<Rightarrow> demo_harness \<Rightarrow> string \<Rightarrow> string \<Rightarrow> ('w, string) demo" where
  "chain_logged ops h verdict lg =
     act_bind (dm_read ops lg) (\<lambda>b.
       if \<not> contains_sub b ''GATE_'' then act_return no_gate_entry
       else act_bind (demo_verify_log ops h lg) (\<lambda>v.
              act_return (if decided word_clean v then chain_observed verdict else log_said (fst v))))"

definition chain_sealed :: "'w demo_ops \<Rightarrow> demo_harness \<Rightarrow> string \<Rightarrow> string \<Rightarrow> string \<Rightarrow> ('w, string) demo" where
  "chain_sealed ops h verdict dossier lg =
     (let seal = demo_path h [''gatechain'', ''seal''] in
      act_bind (measure_dossier ops dossier) (\<lambda>(rt, covered).
        if \<not> covered then act_return uncovered
        else
      act_bind (demo_provision ops h seal rt lg) (\<lambda>(_, k).
        if k \<noteq> 0 then act_return provisioning_failed
        else
      act_bind (demo_sign ops h seal rt (path_join [dossier, decision_file]) (demo_path h [''gatechain'', ''decision.sig'']) lg) (\<lambda>d.
        if \<not> decided word_signed d then act_return (said ''signing'' (fst d))
        else chain_logged ops h verdict lg))))"

definition demo_case :: "demo_harness \<Rightarrow> string" where
  "demo_case h = path_join [dh_repo h, ''corpus/cases/libpng/iccp-keyword.yaml'']"

text \<open>What follows the gate: the decision is a file, unless the branch is sabotaged it stays one.\<close>

definition chain_gated :: "'w demo_ops \<Rightarrow> demo_harness \<Rightarrow> printed \<Rightarrow> string \<Rightarrow> string \<Rightarrow> ('w, string) demo" where
  "chain_gated ops h gd dossier lg =
     (let verdict = str_of gd key_verdict; dec = path_join [dossier, decision_file]
      in if verdict = [] then act_return ''the gate produced no verdict''
         else (\<lambda>w.
           if \<not> dm_exists ops dec w then (Inr (''the gate reached '' @ verdict @ '' and wrote no decision.json''), w)
           else act_bind (if dh_broken h = ''gate-in-chain'' then dm_remove ops dec else act_return ()) (\<lambda>_.
                  chain_sealed ops h verdict dossier lg) w))"

definition gate_in_chain :: "'w demo_ops \<Rightarrow> demo_harness \<Rightarrow> ('w, string) demo" where
  "gate_in_chain ops h =
     (let lg = demo_path h [''gatechain'', ''audit.jsonl'']; dossier = demo_path h [''gatechain'', ''dossier''] in
      act_bind (dm_mkdir ops dossier) (\<lambda>_.
      act_bind (demo_ingress ops h (demo_bundle h ''good'') (demo_path h [''gatechain'', ''state'']) lg) (\<lambda>d.
        if \<not> decided word_accept d then act_return (said ''ingress'' (fst d))
        else
      act_bind (demo_tool ops h ''gate''
          [''-case'', demo_case h, ''-candidate'', ''libpng-iccp-buttercup-run1'', ''-repo'', dh_repo h, ''-root'', dh_repo h,
           ''-bundle'', dossier, ''-log'', lg]) (\<lambda>(gd, _).
        chain_gated ops h gd dossier lg))))"

section \<open>The wrong patch, refused\<close>

definition wrong_prediction :: string where
  "wrong_prediction = ''REJECT:class-replay-fail, refusal under the sealed root, logged, chain CLEAN''"

definition corpus_root :: "'w demo_ops \<Rightarrow> 'w \<Rightarrow> string" where
  "corpus_root ops w =
     (if dm_getenv ops ''ARAZU_CORPUS'' w \<noteq> [] then dm_getenv ops ''ARAZU_CORPUS'' w else ''/var/lib/arazu-corpus'')"

definition corpus_observer :: string where
  "corpus_observer = ''corpus/falsifying-class/libpng-iccp/observe.sh''"

definition corpus_missing :: "'w demo_ops \<Rightarrow> 'w \<Rightarrow> string" where
  "corpus_missing ops w =
     (case filter (\<lambda>p. \<not> dm_is_dir ops p w)
         [path_join [corpus_root ops w, ''libpng'', ''example-libpng''], path_join [corpus_root ops w, ''libpng'', ''oss-fuzz'']] of
        p # _ \<Rightarrow> p @ '' is not a checkout; run scripts/stage-corpus.sh''
      | [] \<Rightarrow> if \<not> dm_is_exec ops corpus_observer w then corpus_observer @ '' is missing or not executable'' else [])"

definition wrong_logged :: "'w demo_ops \<Rightarrow> demo_harness \<Rightarrow> string \<Rightarrow> ('w, string) demo" where
  "wrong_logged ops h lg =
     act_bind (dm_read ops lg) (\<lambda>b.
       if \<not> contains_sub b ev_gate_reject then act_return ''log carries no GATE_REJECT, so the refusal left no record''
       else act_bind (demo_verify_log ops h lg) (\<lambda>v.
              act_return (if decided word_clean v then wrong_prediction else log_said (fst v))))"

definition wrong_sealed :: "'w demo_ops \<Rightarrow> demo_harness \<Rightarrow> string \<Rightarrow> string \<Rightarrow> ('w, string) demo" where
  "wrong_sealed ops h dossier lg =
     (let seal = demo_path h [''wrongpatch'', ''seal''] in
      act_bind (measure_dossier ops dossier) (\<lambda>(rt, covered).
        if \<not> covered then act_return uncovered
        else
      act_bind (demo_provision ops h seal rt lg) (\<lambda>(_, k).
        if k \<noteq> 0 then act_return provisioning_failed
        else
      act_bind (demo_sign ops h seal rt (path_join [dossier, decision_file]) (path_join [dossier, ''decision.sig'']) lg) (\<lambda>d.
        if \<not> decided word_signed d then act_return (''signing the refusal said '' @ str_of (fst d) key_decision)
        else wrong_logged ops h lg))))"

definition wrong_gated :: "'w demo_ops \<Rightarrow> demo_harness \<Rightarrow> printed \<Rightarrow> string \<Rightarrow> string \<Rightarrow> ('w, string) demo" where
  "wrong_gated ops h gd dossier lg =
     (let verdict = str_of gd key_verdict; reason = str_of gd key_reason; dec = path_join [dossier, decision_file]
      in if verdict \<noteq> word_reject then
           act_return (''the gate said '' @ verdict @ '':'' @ reason @ '' on the known-incomplete fix'')
         else if reason \<noteq> reason_class_replay_fail then
           act_return (''refused, but as '' @ reason @ '' rather than class-replay-fail'')
         else (\<lambda>w.
           if \<not> dm_exists ops dec w then (Inr ''refused with no decision.json, so the verdict is not an artifact'', w)
           else act_bind (if dh_broken h = ''wrong-patch-refused'' then dm_remove ops dec else act_return ()) (\<lambda>_.
                  wrong_sealed ops h dossier lg) w))"

definition wrong_patch_refused :: "'w demo_ops \<Rightarrow> demo_harness \<Rightarrow> ('w, string) demo" where
  "wrong_patch_refused ops h = (\<lambda>w.
     if corpus_missing ops w \<noteq> [] then (Inr (''precondition not met: '' @ corpus_missing ops w), w)
     else
       (let lg = demo_path h [''wrongpatch'', ''audit.jsonl'']; dossier = demo_path h [''wrongpatch'', ''dossier''];
            work = demo_path h [''wrongpatch'', ''class''] in
        act_bind (dm_mkdir ops dossier) (\<lambda>_.
        act_bind (dm_mkdir ops work) (\<lambda>_. (\<lambda>w'.
        act_bind (demo_tool ops h ''gate''
            [''-case'', demo_case h, ''-candidate'', ''libpng-iccp-buttercup-run2'', ''-stage'', ''m2'',
             ''-corpus'', corpus_root ops w', ''-work'', work, ''-repo'', dh_repo h, ''-root'', dh_repo h,
             ''-bundle'', dossier, ''-log'', lg]) (\<lambda>(gd, _).
          wrong_gated ops h gd dossier lg) w'))) w))"

section \<open>The edited log\<close>

definition tamper_prediction :: string where
  "tamper_prediction = ''BROKEN, chain break reported at the edited entry''"

definition tamper_events :: "(string \<times> string) list" where
  "tamper_events = [(ev_ingress_accept, ''bundle=arazu-spike version=2''), (ev_run_start, ''mode=contained''),
     (ev_egress_deny, ''probe=tcp-connect errno=EPERM''), (ev_sign, ''artifact=artifact.txt'')]"

fun append_events :: "'w demo_ops \<Rightarrow> string \<Rightarrow> audit_log \<Rightarrow> string \<Rightarrow> (string \<times> string) list \<Rightarrow> ('w, unit) demo" where
  "append_events ops path l f [] w = (Inr (), w)"
| "append_events ops path l f ((ev, detail) # es) w =
     (let (ts, w1) = dm_now ops w; (wr, w2) = dm_write_log ops w1
      in case log_append (dm_sha ops) wr ts ev detail (l, f) of
           (Inl e, (l', f')) \<Rightarrow> (Inl (dm_log_text ops e), dm_put ops path f' w2)
         | (Inr _, (l', f')) \<Rightarrow> append_events ops path l' f' es (dm_put ops path f' w2))"

definition write_events :: "'w demo_ops \<Rightarrow> string \<Rightarrow> (string \<times> string) list \<Rightarrow> ('w, unit) demo" where
  "write_events ops path es = (\<lambda>w.
     case log_open (dm_sha ops) (dm_file ops path w) (dm_open_log ops path w) of
       Inl e \<Rightarrow> (Inl (dm_log_text ops e), w)
     | Inr l \<Rightarrow> append_events ops path l (file_text (dm_file ops path w)) es w)"

definition edited_log :: "demo_harness \<Rightarrow> string \<Rightarrow> string" where
  "edited_log h b = (if dh_broken h = ''log-tamper'' then b else replace_first b ''errno=EPERM'' ''errno=NONE!'')"

definition log_tamper :: "'w demo_ops \<Rightarrow> demo_harness \<Rightarrow> ('w, string) demo" where
  "log_tamper ops h =
     (let lg = demo_path h [''logtamper'', ''audit.jsonl''] in
      act_bind (act_ignore (dm_mkdir ops (path_dir lg))) (\<lambda>_.
      act_bind (write_events ops lg tamper_events) (\<lambda>_.
      act_bind (demo_verify_log ops h lg) (\<lambda>v.
        if \<not> decided word_clean v then act_return (''the untouched log did not verify: '' @ str_of (fst v) key_reason)
        else
      act_bind (dm_read ops lg) (\<lambda>b.
      act_bind (dm_write ops lg (edited_log h b)) (\<lambda>_.
      act_bind (demo_verify_log ops h lg) (\<lambda>(d, k).
        if str_of d key_decision \<noteq> word_broken \<or> k = 0 then act_return (said_exit ''verifier'' (d, k))
        else if \<not> contains_sub (str_of d key_reason) ''seq 3'' then
          act_return (''BROKEN but the reported entry was: '' @ str_of d key_reason)
        else act_return tamper_prediction)))))))"

section \<open>The whole demonstration\<close>

record 'w branch =
  br_name :: string
  br_predicted :: string
  br_observe :: "'w demo_ops \<Rightarrow> demo_harness \<Rightarrow> ('w, string) demo"

definition branches :: "'w branch list" where
  "branches =
     [\<lparr>br_name = ''happy-path'', br_predicted = happy_prediction, br_observe = happy_path\<rparr>,
      \<lparr>br_name = ''poisoned-bundle'', br_predicted = poisoned_prediction, br_observe = poisoned_bundle\<rparr>,
      \<lparr>br_name = ''tampered-content'', br_predicted = tampered_prediction, br_observe = tampered_content\<rparr>,
      \<lparr>br_name = ''gate-in-chain'', br_predicted = chain_prediction, br_observe = gate_in_chain\<rparr>,
      \<lparr>br_name = ''wrong-patch-refused'', br_predicted = wrong_prediction, br_observe = wrong_patch_refused\<rparr>,
      \<lparr>br_name = ''log-tamper'', br_predicted = tamper_prediction, br_observe = log_tamper\<rparr>]"

definition observe :: "'w demo_ops \<Rightarrow> demo_harness \<Rightarrow> 'w branch \<Rightarrow> 'w \<Rightarrow> string \<times> 'w" where
  "observe ops h b w =
     (case br_observe b ops h w of
        (Inl e, w') \<Rightarrow> (''error: '' @ e, w')
      | (Inr t, w') \<Rightarrow> (t, w'))"

text \<open>The rows of the table: the name, the prediction, what was observed and whether they match.\<close>

fun run_branches :: "'w demo_ops \<Rightarrow> demo_harness \<Rightarrow> 'w branch list \<Rightarrow> 'w \<Rightarrow> (string \<times> string \<times> string \<times> bool) list \<times> 'w" where
  "run_branches ops h [] w = ([], w)"
| "run_branches ops h (b # bs) w =
     (let (t, w1) = observe ops h b w; (rows, w2) = run_branches ops h bs w1
      in ((br_name b, br_predicted b, t, t = br_predicted b) # rows, w2))"

definition demo_setup :: "'w demo_ops \<Rightarrow> string \<Rightarrow> string \<Rightarrow> string \<Rightarrow> ('w, demo_harness) demo" where
  "demo_setup ops repo workdir broken =
     act_bind (dm_abs ops repo) (\<lambda>r.
     act_bind (dm_abs ops workdir) (\<lambda>wd.
     act_bind (dm_remove_all ops wd) (\<lambda>_.
     act_bind (dm_mkdir ops wd) (\<lambda>_.
       if broken \<noteq> [] \<and> broken \<notin> set (map br_name (branches :: 'w branch list)) then
         act_fail (''-break-branch '' @ go_quote (dm_print ops) broken @ '' is not a branch; choose one of '' @
           join_with '', '' (map br_name (branches :: 'w branch list)))
       else act_return \<lparr>dh_repo = r, dh_workdir = wd, dh_broken = broken\<rparr>))))"

type_synonym demo_exit = "(string, (string \<times> string \<times> string \<times> bool) list) result \<times> int"

definition demo_main :: "'w demo_ops \<Rightarrow> string \<Rightarrow> string \<Rightarrow> string \<Rightarrow> 'w \<Rightarrow> demo_exit \<times> 'w" where
  "demo_main ops repo workdir broken w =
     (case demo_setup ops repo workdir broken w of
        (Inl e, w') \<Rightarrow> ((Inl e, 2), w')
      | (Inr h, w') \<Rightarrow>
          (case run_branches ops h branches w' of
             (rows, w'') \<Rightarrow> ((Inr rows, if list_all (\<lambda>r. snd (snd (snd r))) rows then 0 else 1), w'')))"

section \<open>What a match stands on\<close>

lemma happy_words:
  "said ''gate'' d \<noteq> happy_prediction" "said ''signing'' d \<noteq> happy_prediction" "provisioning_failed \<noteq> happy_prediction"
  "run_failed d \<noteq> happy_prediction" "egress_leaked ns \<noteq> happy_prediction" "no_denials \<noteq> happy_prediction"
  "no_signature \<noteq> happy_prediction" "log_said d \<noteq> happy_prediction"
  by (simp_all add: said_def happy_prediction_def provisioning_failed_def run_failed_def egress_leaked_def no_denials_def
      no_signature_def log_said_def)

text \<open>
  The happy path as it should go: the ingress gate accepted, the seal was provisioned for the
  root it published, the contained run ended with 0, let no off-box probe through and
  was denied by the kernel at least once, the artifact was signed for the same root, its
  signature is there, and the log is clean at the end.
\<close>

definition happy_evidence :: "'w demo_ops \<Rightarrow> demo_harness \<Rightarrow> 'w \<Rightarrow> 'w \<Rightarrow> bool" where
  "happy_evidence ops h w w' =
     (\<exists>w1 d w2 p w3 run w4 sd w5 v.
        w1 = snd (dm_mkdir ops (path_dir (demo_path h [''happy'', ''audit.jsonl''])) w) \<and>
        demo_ingress ops h (demo_bundle h ''good'') (demo_path h [''happy'', ''state'']) (demo_path h [''happy'', ''audit.jsonl'']) w1 =
          (Inr d, w2) \<and> decided word_accept d \<and>
        demo_provision ops h (demo_path h [''happy'', ''seal'']) (str_of (fst d) key_content_root)
          (demo_path h [''happy'', ''audit.jsonl'']) w2 = (Inr (p, 0), w3) \<and>
        demo_contained ops h (happy_mode h) (demo_path h [''happy'', ''artifact.txt'']) (demo_path h [''happy'', ''audit.jsonl'']) w3 =
          (Inr (run, 0), w4) \<and> reached_probes run = [] \<and> bpf_enforced (dm_float ops) run \<and>
        demo_sign ops h (demo_path h [''happy'', ''seal'']) (str_of (fst d) key_content_root) (demo_path h [''happy'', ''artifact.txt''])
          (demo_path h [''happy'', ''artifact.sig'']) (demo_path h [''happy'', ''audit.jsonl'']) w4 = (Inr sd, w5) \<and>
        decided word_signed sd \<and> dm_exists ops (demo_path h [''happy'', ''artifact.sig'']) w5 \<and>
        demo_verify_log ops h (demo_path h [''happy'', ''audit.jsonl'']) w5 = (Inr v, w') \<and> decided word_clean v)"

lemma happy_signed_match:
  "happy_signed ops h rt lg w = (Inr happy_prediction, w') \<longleftrightarrow>
     (\<exists>sd w5 v. demo_sign ops h (demo_path h [''happy'', ''seal'']) rt (demo_path h [''happy'', ''artifact.txt''])
          (demo_path h [''happy'', ''artifact.sig'']) lg w = (Inr sd, w5) \<and> decided word_signed sd \<and>
        dm_exists ops (demo_path h [''happy'', ''artifact.sig'']) w5 \<and>
        demo_verify_log ops h lg w5 = (Inr v, w') \<and> decided word_clean v)"
proof
  show "\<exists>sd w5 v. demo_sign ops h (demo_path h [''happy'', ''seal'']) rt (demo_path h [''happy'', ''artifact.txt''])
          (demo_path h [''happy'', ''artifact.sig'']) lg w = (Inr sd, w5) \<and> decided word_signed sd \<and>
        dm_exists ops (demo_path h [''happy'', ''artifact.sig'']) w5 \<and>
        demo_verify_log ops h lg w5 = (Inr v, w') \<and> decided word_clean v"
    if "happy_signed ops h rt lg w = (Inr happy_prediction, w')"
    using that
    by (auto simp: happy_signed_def Let_def act_bind_Inr act_return_Inr happy_words happy_words [symmetric] split: if_splits)
qed (auto simp: happy_signed_def Let_def act_bind_def act_return_def)

lemma happy_contained_match:
  "happy_contained ops h rt lg w = (Inr happy_prediction, w') \<longleftrightarrow>
     (\<exists>run w4. demo_contained ops h (happy_mode h) (demo_path h [''happy'', ''artifact.txt'']) lg w = (Inr (run, 0), w4) \<and>
        reached_probes run = [] \<and> bpf_enforced (dm_float ops) run \<and>
        happy_signed ops h rt lg w4 = (Inr happy_prediction, w'))"
  by (auto simp: happy_contained_def act_bind_Inr act_return_Inr happy_words happy_words [symmetric] split: if_splits)

lemma ignored_step: "act_bind (act_ignore m) f w = f () (snd (m w))"
  by (simp add: act_bind_def act_ignore_def act_try_def act_return_def split: prod.split)

lemma happy_path_match:
  "happy_path ops h w = (Inr happy_prediction, w') \<longleftrightarrow>
     (\<exists>d w2 p w3. demo_ingress ops h (demo_bundle h ''good'') (demo_path h [''happy'', ''state'']) (demo_path h [''happy'', ''audit.jsonl''])
          (snd (dm_mkdir ops (path_dir (demo_path h [''happy'', ''audit.jsonl''])) w)) = (Inr d, w2) \<and> decided word_accept d \<and>
        demo_provision ops h (demo_path h [''happy'', ''seal'']) (str_of (fst d) key_content_root)
          (demo_path h [''happy'', ''audit.jsonl'']) w2 = (Inr (p, 0), w3) \<and>
        happy_contained ops h (str_of (fst d) key_content_root) (demo_path h [''happy'', ''audit.jsonl'']) w3 = (Inr happy_prediction, w'))"
  (is "_ \<longleftrightarrow> ?evidence")
proof
  show ?evidence if "happy_path ops h w = (Inr happy_prediction, w')"
    using that
    by (simp only: happy_path_def Let_def ignored_step act_bind_Inr)
      (auto simp: act_bind_Inr act_return_Inr happy_words happy_words [symmetric] split: if_splits)
  show "happy_path ops h w = (Inr happy_prediction, w')" if ?evidence
    using that unfolding happy_path_def Let_def ignored_step by (auto simp: act_bind_def act_return_def)
qed

theorem happy_branch_matches_iff:
  "happy_path ops h w = (Inr happy_prediction, w') \<longleftrightarrow> happy_evidence ops h w w'"
  unfolding happy_path_match happy_contained_match happy_signed_match happy_evidence_def by blast

lemma run_branches_match:
  "run_branches ops h bs w = (rows, w') \<Longrightarrow> list_all (\<lambda>r. snd (snd (snd r))) rows \<longleftrightarrow> map (\<lambda>r. fst (snd (snd r))) rows = map br_predicted bs"
proof (induction bs arbitrary: w rows)
  case (Cons b bs)
  then show ?case by (auto simp: Let_def split: prod.splits)
qed simp

lemma branch_predictions:
  "map br_predicted branches =
     [happy_prediction, poisoned_prediction, tampered_prediction, chain_prediction, wrong_prediction, tamper_prediction]"
  by (simp add: branches_def)

text \<open>
  The program ends with exit code 0 exactly when it was set up and every branch, run on the
  world the ones before it left, observed what was predicted.
\<close>

theorem demo_passes_iff:
  "snd (fst (demo_main ops repo workdir broken w)) = 0 \<longleftrightarrow>
     (\<exists>h w1 rows w2. demo_setup ops repo workdir broken w = (Inr h, w1) \<and> run_branches ops h branches w1 = (rows, w2) \<and>
        map (\<lambda>r. fst (snd (snd r))) rows =
          [happy_prediction, poisoned_prediction, tampered_prediction, chain_prediction, wrong_prediction, tamper_prediction])"
proof (cases "demo_setup ops repo workdir broken w")
  case (Pair r w1)
  show ?thesis
  proof (cases r)
    case (Inl e)
    then show ?thesis by (simp add: demo_main_def Pair)
  next
    case (Inr h)
    obtain rows w2 where r: "run_branches ops h branches w1 = (rows, w2)" by fastforce
    show ?thesis
      using run_branches_match [OF r] by (simp add: demo_main_def Pair Inr r branch_predictions)
  qed
qed

end
