(* ===== verification/Log_Verify.thy ===== *)
theory Log_Verify
  imports Audit_Log
begin

text \<open>
  The command \<open>cmd/log-verify/main.go\<close>: the hash chain of one log, as a decision and an exit
  code.  The text of an error is a parameter.
\<close>

record log_report =
  ld_decision :: string
  ld_entries :: nat
  ld_reason :: string

definition log_clean :: "nat \<Rightarrow> log_report" where
  "log_clean n = \<lparr>ld_decision = ''CLEAN'', ld_entries = n, ld_reason = []\<rparr>"

definition log_broken :: "nat \<Rightarrow> string \<Rightarrow> log_report" where
  "log_broken n why = \<lparr>ld_decision = ''BROKEN'', ld_entries = n, ld_reason = why\<rparr>"

definition log_unnamed :: log_report where
  "log_unnamed = \<lparr>ld_decision = ''ERROR'', ld_entries = 0, ld_reason = ''no -log given''\<rparr>"

definition log_verify_main :: "(string \<Rightarrow> string) \<Rightarrow> (log_error \<Rightarrow> string) \<Rightarrow> string \<Rightarrow> open_read \<Rightarrow> log_report \<times> int" where
  "log_verify_main H sh path file =
     (if path = [] then (log_unnamed, 2)
      else
        (case log_verify H file of
           (n, Some e) \<Rightarrow> (log_broken n (sh e), 1)
         | (n, None) \<Rightarrow> (log_clean n, 0)))"

definition log_report_text :: "log_report \<Rightarrow> string" where
  "log_report_text d =
     json_object True ([(''decision'', json_string True (ld_decision d)), (''entries'', nat_dec (ld_entries d))] @
       (if ld_reason d = [] then [] else [(''reason'', json_string True (ld_reason d))]))"

text \<open>
  The command and the writers of the log agree: it ends with exit code 0 exactly on the
  logs that exist and that \<open>Open\<close> takes up for appending, so a log it passes can be extended
  and a log it refuses is never extended; and it then counts every entry of the file, each
  of which names the hash of the one before it.
\<close>

theorem log_verify_passes_what_open_extends:
  assumes "path \<noteq> []"
  shows "(snd (log_verify_main H sh path file) = 0 \<longleftrightarrow> (\<exists>f l. file = Readable f \<and> log_open H file None = Inr l)) \<and>
    (\<forall>f es. file = Readable f \<longrightarrow> audit_entries f = Some es \<longrightarrow> chain H genesis_prev 1 es \<longrightarrow>
       log_verify_main H sh path file = (log_clean (length es), 0))"
proof -
  have "log_verify_main H sh path (Readable f) = (log_clean (length es), 0)"
    if "audit_entries f = Some es" "chain H genesis_prev 1 es" for f es
  proof -
    have "audit_scan H f = (length es, (if es = [] then zero_entry else last es), None)"
      using that by (simp add: audit_scan_ok)
    then show ?thesis using assms by (simp add: log_verify_main_def log_verify_def)
  qed
  then show ?thesis using assms
    by (cases "file")
      (auto simp: log_verify_main_def log_verify_def log_open_def try_bind_def
        split: prod.splits option.splits sum.splits)
qed

theorem log_verify_passes_what_open_extends_witness:
  "log_verify_main plain_hash (\<lambda>e. ''broken'') ''l'' (Readable sample_log_file) =
     (log_clean 1, 0)"
proof -
  obtain l where l: "log_matches plain_hash l sample_log_file [sample_log_entry]"
    using sample_log_life log_life_matches by blast
  have "''l'' \<noteq> []" by simp
  from log_verify_passes_what_open_extends [OF this] l show ?thesis
    unfolding log_matches_def by (metis One_nat_def length_Cons list.size(3))
qed

end
