(* ===== verification/Corpus_Cmd.thy ===== *)
theory Corpus_Cmd
  imports Corpus
begin

text \<open>
  The command \<open>cmd/corpus/main.go\<close>: every case of a directory parses and validates, and, when
  a checkout is given, the files it points at are there.  The two paths of a case are kept in
  a Go map, whose iteration order is not fixed: \<open>pov_first\<close> gives, for each case by its
  position, whether the input comes before the reference patch.
\<close>

record corpus_report =
  cr_dir :: string
  cr_cases :: nat
  cr_candidates :: nat
  cr_unclassified :: "string list"
  cr_problems :: "string list"
  cr_decision :: string

definition fresh_report :: "string \<Rightarrow> corpus_report" where
  "fresh_report dir = \<lparr>cr_dir = dir, cr_cases = 0, cr_candidates = 0, cr_unclassified = [], cr_problems = [], cr_decision = []\<rparr>"

definition input_label :: string where "input_label = ''pov input''"
definition reference_label :: string where "reference_label = ''reference patch''"
definition corpus_accept :: string where "corpus_accept = ''ACCEPT''"
definition corpus_reject :: string where "corpus_reject = ''REJECT''"

lemma corpus_words [simp]: "corpus_accept \<noteq> []" "corpus_reject \<noteq> []" "corpus_accept \<noteq> corpus_reject"
  by (simp_all add: corpus_accept_def corpus_reject_def)

text \<open>The labelled paths of a case, in the order the map gives them.\<close>

definition case_paths :: "bool \<Rightarrow> string \<Rightarrow> string \<Rightarrow> case_file \<Rightarrow> (string \<times> string) list" where
  "case_paths pov_first root repo c =
     (let p = (input_label, input_path c root repo); r = (reference_label, reference_patch_path c root repo)
      in if pov_first then [p, r] else [r, p])"

definition missing_path :: "case_file \<Rightarrow> string \<times> string \<Rightarrow> string" where
  "missing_path c = (\<lambda>(label, p). case_id c @ '': '' @ label @ '' '' @ p @ '' is missing'')"

definition missing_candidate :: "case_file \<Rightarrow> candidate \<Rightarrow> string" where
  "missing_candidate c cand = case_id c @ '': candidate '' @ cand_id cand @ '' patch '' @ cand_patch cand @ '' is missing''"

definition case_path_problems :: "(string \<Rightarrow> bool) \<Rightarrow> bool \<Rightarrow> string \<Rightarrow> string \<Rightarrow> case_file \<Rightarrow> string list" where
  "case_path_problems exists_file pov_first root repo c =
     map (missing_path c) (filter (\<lambda>(_, p). \<not> exists_file p) (case_paths pov_first root repo c)) @
     map (missing_candidate c)
       (filter (\<lambda>cand. \<not> exists_file (candidate_patch_path c cand root repo)) (case_candidates c))"

definition check_corpus_case :: "(string \<Rightarrow> bool) \<Rightarrow> (nat \<Rightarrow> bool) \<Rightarrow> string \<Rightarrow> string \<Rightarrow> nat \<times> case_file \<Rightarrow> corpus_report \<Rightarrow> corpus_report" where
  "check_corpus_case exists_file pov_first root repo = (\<lambda>(i, c) r.
     (let r1 = r\<lparr>cr_candidates := cr_candidates r + length (case_candidates c),
          cr_unclassified := cr_unclassified r @
            map cand_id (filter (\<lambda>x. cand_label x = label_unclassified) (case_candidates c))\<rparr>
      in if root = [] then r1
         else r1\<lparr>cr_problems := cr_problems r1 @ case_path_problems exists_file (pov_first i) root repo c\<rparr>))"

definition emit_corpus :: "corpus_report \<Rightarrow> int \<Rightarrow> corpus_report \<times> int" where
  "emit_corpus r code =
     (if cr_decision r = [] then r\<lparr>cr_decision := if code = 0 then corpus_accept else corpus_reject\<rparr> else r, code)"

definition corpus_main :: "(load_dir_error \<Rightarrow> string) \<Rightarrow> (string \<Rightarrow> string + string list) \<Rightarrow> (string \<Rightarrow> string + string) \<Rightarrow>
    (string \<Rightarrow> string + case_file) \<Rightarrow> (string \<Rightarrow> bool) \<Rightarrow> (nat \<Rightarrow> bool) \<Rightarrow> string \<Rightarrow> string \<Rightarrow> string \<Rightarrow> corpus_report \<times> int" where
  "corpus_main sh glob rd dec exists_file pov_first dir root repo =
     (case load_dir glob rd dec dir of
        Inl e \<Rightarrow> emit_corpus ((fresh_report dir)\<lparr>cr_decision := corpus_reject, cr_problems := [sh e]\<rparr>) 1
      | Inr cs \<Rightarrow>
          (let r = fold (check_corpus_case exists_file pov_first root repo) (List.enumerate 0 cs)
                 ((fresh_report dir)\<lparr>cr_cases := length cs\<rparr>)
           in if cr_problems r \<noteq> [] then emit_corpus r 1 else emit_corpus r 0))"

text \<open>The files of a case are in the trees it names.\<close>

definition case_present :: "(string \<Rightarrow> bool) \<Rightarrow> string \<Rightarrow> string \<Rightarrow> case_file \<Rightarrow> bool" where
  "case_present exists_file root repo c =
     (exists_file (input_path c root repo) \<and> exists_file (reference_patch_path c root repo) \<and>
      (\<forall>cand\<in>set (case_candidates c). exists_file (candidate_patch_path c cand root repo)))"

lemma no_path_problems: "case_path_problems ex pf root repo c = [] \<longleftrightarrow> case_present ex root repo c"
proof -
  have "(\<forall>lp\<in>set (case_paths pf root repo c). ex (snd lp)) \<longleftrightarrow>
      ex (input_path c root repo) \<and> ex (reference_patch_path c root repo)"
    by (cases pf) (auto simp only: case_paths_def Let_def if_True if_False list.set snd_conv ball_simps)
  then show ?thesis
    unfolding case_path_problems_def case_present_def append_is_Nil_conv map_is_Nil_conv filter_empty_conv
    by (auto split: prod.splits)
qed

lemma check_corpus_fields:
  "cr_decision (check_corpus_case ex pf root repo ic r) = cr_decision r"
  "cr_candidates (check_corpus_case ex pf root repo ic r) = cr_candidates r + length (case_candidates (snd ic))"
  "cr_problems (check_corpus_case ex pf root repo ic r) =
     cr_problems r @ (if root = [] then [] else case_path_problems ex (pf (fst ic)) root repo (snd ic))"
  by (simp_all add: check_corpus_case_def Let_def split: prod.split)

lemma fold_corpus_problems:
  "cr_problems (fold (check_corpus_case ex pf root repo) ics r) = [] \<longleftrightarrow>
     cr_problems r = [] \<and> (root \<noteq> [] \<longrightarrow> (\<forall>ic\<in>set ics. case_present ex root repo (snd ic)))"
  by (induction ics arbitrary: r) (simp_all add: check_corpus_fields no_path_problems conj_ac)

lemma fold_corpus_counts:
  "cr_decision (fold (check_corpus_case ex pf root repo) ics r) = cr_decision r"
  "cr_candidates (fold (check_corpus_case ex pf root repo) ics r) =
     cr_candidates r + (\<Sum>ic\<leftarrow>ics. length (case_candidates (snd ic)))"
  by (induction ics arbitrary: r) (simp_all add: check_corpus_fields)

text \<open>
  The corpus is accepted (exit code 0) exactly when every case file of the
  directory loads and validates and, if a checkout was given, the input, the reference patch
  and every candidate patch of every case exist in the tree the case resolves them to,
  whatever order the map of paths is visited in; and the report then counts every candidate.
\<close>

theorem corpus_accepted_iff:
  "snd (corpus_main sh glob rd dec ex pf dir root repo) = 0 \<longleftrightarrow>
     (\<exists>cs. load_dir glob rd dec dir = Inr cs \<and> (root \<noteq> [] \<longrightarrow> (\<forall>c\<in>set cs. case_present ex root repo c)) \<and>
        cr_decision (fst (corpus_main sh glob rd dec ex pf dir root repo)) = corpus_accept \<and>
        cr_candidates (fst (corpus_main sh glob rd dec ex pf dir root repo)) = (\<Sum>c\<leftarrow>cs. length (case_candidates c)))"
proof (cases "load_dir glob rd dec dir")
  case (Inl e)
  then show ?thesis by (simp add: corpus_main_def emit_corpus_def)
next
  case (Inr cs)
  have "(\<Sum>ic\<leftarrow>List.enumerate n cs. length (case_candidates (snd ic))) = (\<Sum>c\<leftarrow>cs. length (case_candidates c))" for n
    by (induction cs arbitrary: n) auto
  moreover have "(\<forall>ic\<in>set (List.enumerate n cs). P (snd ic)) = (\<forall>c\<in>set cs. P c)" for n P
    by (induction cs arbitrary: n) auto
  ultimately show ?thesis using Inr
    by (simp add: corpus_main_def emit_corpus_def Let_def fold_corpus_problems fold_corpus_counts fresh_report_def)
qed

end
