(* ===== verification/Dossier_Cmd.thy ===== *)
theory Dossier_Cmd
  imports Dossier
begin

text \<open>
  The command \<open>cmd/dossier/main.go\<close>: its arguments, with the reading of the one flag by
  package \<open>flag\<close>, the verification, and the exit code.  An error of \<open>Verify\<close> is a report of
  the outcome \<open>dossier-unreadable\<close> in \<open>Dossier\<close>, so the two ways to print it are one here.
\<close>

definition root_flag :: string where "root_flag = ''content-root''"

text \<open>
  \<open>flag.Parse\<close> with one string flag: the flags end at the first argument that is none, or after
  \<open>--\<close>; an error exits with 2, a request for help with 0.
\<close>

fun parse_root_flag :: "string \<Rightarrow> string list \<Rightarrow> (int, string) result" where
  "parse_root_flag rt [] = Inr rt"
| "parse_root_flag rt (a # as) =
     (if length a < 2 \<or> hd a \<noteq> CHR ''-'' \<or> a = ''--'' then Inr rt
      else
        (let body = drop (if a ! 1 = CHR ''-'' then 2 else 1) a;
             name = takeWhile (\<lambda>c. c \<noteq> CHR ''='') body
         in if hd body = CHR ''-'' \<or> hd body = CHR ''='' then Inl 2
            else if name = ''help'' \<or> name = ''h'' then Inl 0
            else if name \<noteq> root_flag then Inl 2
            else if name \<noteq> body then parse_root_flag (drop (Suc (length name)) body) as
            else (case as of [] \<Rightarrow> Inl 2 | v # bs \<Rightarrow> parse_root_flag v bs)))"

definition word_verify :: string where "word_verify = ''verify''"

definition dossier_main :: "(mfile list \<Rightarrow> mfile list) \<Rightarrow> (string \<Rightarrow> string) \<Rightarrow> follow \<Rightarrow> dossier_texts \<Rightarrow>
    (string \<Rightarrow> node option) \<Rightarrow> string list \<Rightarrow> dossier_report option \<times> int" where
  "dossier_main srt sha fo tx tree args =
     (case args of
        cmd # dir # flags \<Rightarrow>
          (if cmd \<noteq> word_verify then (None, 2)
           else
             (case parse_root_flag [] flags of
                Inl k \<Rightarrow> (None, k)
              | Inr rt \<Rightarrow>
                  (let r = dossier_verify srt sha fo tx dir (tree dir) rt in (Some r, dossier_code (dr_outcome r)))))
      | _ \<Rightarrow> (None, 2))"

lemma dossier_code_zero: "dossier_code oc = 0 \<longleftrightarrow> oc = dossier_verified"
  by (simp add: dossier_code_def dossier_verified_def)

lemma parse_stops: "hd a \<noteq> CHR ''-'' \<Longrightarrow> parse_root_flag rt (a # as) = Inr rt"
  by simp

text \<open>
  Exit code 0 with a report means that the dossier holds against the root the
  flags gave: the code shares nothing with the verdict inside it.
\<close>

theorem dossier_command_passes_iff:
  "(\<exists>r. dossier_main srt sha fo tx tree [word_verify, dir, ''-content-root'', rt] = (Some r, 0)) \<longleftrightarrow>
     (\<exists>x d. tree dir = Some x \<and> dossier_holds srt sha fo x rt d)"
proof -
  have "parse_root_flag [] [''-content-root'', rt] = Inr rt"
    by (simp add: root_flag_def)
  then show ?thesis
    by (simp add: dossier_main_def Let_def dossier_code_zero verified_holds)
qed

text \<open>
  The flags end at the first argument that is not one: with a stray argument
  after the directory, a root given behind it is not read and the dossier is verified against
  no root at all.
\<close>

theorem stray_argument_drops_the_root:
  assumes "hd stray \<noteq> CHR ''-''"
  shows "dossier_main srt sha fo tx tree (word_verify # dir # stray # flags) = dossier_main srt sha fo tx tree [word_verify, dir]"
  using assms by (simp add: dossier_main_def)

end
