(* ===== verification/Model_Stub.thy ===== *)
theory Model_Stub
  imports Dossier
begin

text \<open>
  Package \<open>pkg/model\<close>: the request, its validation, and the deterministic backend every test of
  the gate runs against (\<open>stub.go\<close>), with its transcript.  A temperature is the bit pattern of
  its \<open>float64\<close>; the text \<open>%v\<close> prints for it and SHA-256 (as hexadecimal digits) are
  parameters.  The mutex of the stub makes each operation one step, so a run is a list of
  operations.
\<close>

record request =
  rq_purpose :: string
  rq_system :: string
  rq_prompt :: string
  rq_max_tokens :: int
  rq_seed :: int
  rq_temperature :: "64 word"

record response =
  rp_text :: string
  rp_usage :: usage

datatype model_error =
    NoPurpose
  | NoPrompt string
  | NoBudget string
  | NegativeTemperature string "64 word"
  | ContextDone string
  | Refused string

text \<open>\<open>t < 0\<close> on a \<open>float64\<close>: the sign bit is set and the rest is neither zero nor past infinity.\<close>

definition float_negative :: "64 word \<Rightarrow> bool" where
  "float_negative t = (bit t 63 \<and> take_bit 63 t \<noteq> 0 \<and> take_bit 63 t \<le> 0x7FF0000000000000)"

definition model_validate :: "request \<Rightarrow> (model_error, unit) result" where
  "model_validate r =
     (if rq_purpose r = [] then Inl NoPurpose
      else if rq_prompt r = [] then Inl (NoPrompt (rq_purpose r))
      else if rq_max_tokens r \<le> 0 then Inl (NoBudget (rq_purpose r))
      else if float_negative (rq_temperature r) then Inl (NegativeTemperature (rq_purpose r) (rq_temperature r))
      else Inr ())"

section \<open>The stub\<close>

record stub =
  st_scripted :: "string \<Rightarrow> string option"
  st_refuse :: "string \<Rightarrow> bool"
  st_calls :: "request list"

definition new_stub :: stub where
  "new_stub = \<lparr>st_scripted = Map.empty, st_refuse = (\<lambda>_. False), st_calls = []\<rparr>"

definition stub_name :: string where "stub_name = ''stub''"

definition digest_text :: "(64 word \<Rightarrow> string) \<Rightarrow> request \<Rightarrow> string" where
  "digest_text sh r =
     rq_purpose r @ CHR 0x00 # rq_system r @ CHR 0x00 # rq_prompt r @ CHR 0x00 # int_dec (rq_max_tokens r) @
     CHR 0x00 # int_dec (rq_seed r) @ CHR 0x00 # sh (rq_temperature r)"

definition digest :: "(string \<Rightarrow> string) \<Rightarrow> (64 word \<Rightarrow> string) \<Rightarrow> request \<Rightarrow> string" where
  "digest H sh r = take 16 (H (digest_text sh r))"

definition stub_script :: "(request \<Rightarrow> string) \<Rightarrow> request \<Rightarrow> string \<Rightarrow> stub \<Rightarrow> stub" where
  "stub_script dg r answer s = s\<lparr>st_scripted := (st_scripted s)(dg r \<mapsto> answer)\<rparr>"

definition stub_refuse :: "(request \<Rightarrow> string) \<Rightarrow> request \<Rightarrow> stub \<Rightarrow> stub" where
  "stub_refuse dg r s = s\<lparr>st_refuse := (st_refuse s)(dg r := True)\<rparr>"

definition derived_answer :: "string \<Rightarrow> string" where "derived_answer d = ''stub:'' @ d"

definition stub_response :: "request \<Rightarrow> string \<Rightarrow> response" where
  "stub_response r txt =
     \<lparr>rp_text = txt,
      rp_usage = \<lparr>us_purpose = rq_purpose r, us_backend = stub_name,
        us_input_tokens = int (length (rq_system r) + length (rq_prompt r)), us_output_tokens = int (length txt)\<rparr>\<rparr>"

definition stub_complete :: "(request \<Rightarrow> string) \<Rightarrow> string option \<Rightarrow> request \<Rightarrow> (stub, model_error, response) action" where
  "stub_complete dg ctx r = (\<lambda>s.
     case model_validate r of
       Inl e \<Rightarrow> (Inl e, s)
     | Inr _ \<Rightarrow>
         (case ctx of
            Some e \<Rightarrow> (Inl (ContextDone e), s)
          | None \<Rightarrow>
              (let s1 = s\<lparr>st_calls := st_calls s @ [r]\<rparr>; d = dg r
               in if st_refuse s d then (Inl (Refused (rq_purpose r)), s1)
                  else (Inr (stub_response r (case st_scripted s d of None \<Rightarrow> derived_answer d | Some t \<Rightarrow> t)), s1))))"

definition stub_calls :: "stub \<Rightarrow> request list" where
  "stub_calls s = st_calls s"

definition stub_calls_for :: "string \<Rightarrow> stub \<Rightarrow> request list" where
  "stub_calls_for purpose s = filter (\<lambda>c. rq_purpose c = purpose) (st_calls s)"

definition stub_reset :: "stub \<Rightarrow> stub" where
  "stub_reset s = s\<lparr>st_calls := []\<rparr>"

section \<open>The transcript and the script\<close>

datatype stub_op =
    DoScript request string
  | DoRefuse request
  | DoComplete "string option" request
  | DoReset

definition stub_step :: "(request \<Rightarrow> string) \<Rightarrow> stub_op \<Rightarrow> stub \<Rightarrow> stub" where
  "stub_step dg op s =
     (case op of
        DoScript r a \<Rightarrow> stub_script dg r a s
      | DoRefuse r \<Rightarrow> stub_refuse dg r s
      | DoComplete ctx r \<Rightarrow> snd (stub_complete dg ctx r s)
      | DoReset \<Rightarrow> stub_reset s)"

text \<open>What an operation sends: a valid request under a live context.\<close>

definition sent_request :: "stub_op \<Rightarrow> request option" where
  "sent_request op =
     (case op of DoComplete None r \<Rightarrow> if model_validate r = Inr () then Some r else None | _ \<Rightarrow> None)"

lemma stub_step_calls:
  "op \<noteq> DoReset \<Longrightarrow> st_calls (stub_step dg op s) = st_calls s @ (case sent_request op of None \<Rightarrow> [] | Some r \<Rightarrow> [r])"
  by (cases op) (auto simp: stub_step_def stub_script_def stub_refuse_def stub_complete_def sent_request_def Let_def
      split: option.splits sum.splits)

lemma map_filter_snoc: "List.map_filter f (xs @ [x]) = List.map_filter f xs @ (case f x of None \<Rightarrow> [] | Some y \<Rightarrow> [y])"
  by (induction xs) (auto simp: List.map_filter_def split: option.splits)

text \<open>
  Since the last reset, the transcript is the list of the requests that were
  valid and sent under a live context, in order and with nothing else: refused calls are in it,
  invalid ones are not, and pinning answers leaves it alone.
\<close>

theorem transcript_is_what_was_sent:
  assumes "DoReset \<notin> set ops"
  shows "stub_calls (fold (stub_step dg) ops (stub_reset s)) = List.map_filter sent_request ops"
  using assms
proof (induction ops rule: rev_induct)
  case Nil
  then show ?case by (simp add: stub_calls_def stub_reset_def List.map_filter_def)
next
  case (snoc op ops)
  then have "op \<noteq> DoReset" by auto
  with snoc show ?case by (simp add: stub_calls_def stub_step_calls map_filter_snoc)
qed

text \<open>
  The digest joins the fields of a request with zero bytes and does not escape
  those inside a field, so an answer pinned to one request is given to another whose system
  text and prompt differ, whatever the hash.
\<close>

theorem pinned_answer_reaches_another_request:
  assumes "q = r\<lparr>rq_system := a @ CHR 0x00 # b, rq_prompt := c\<rparr>" "q' = r\<lparr>rq_system := a, rq_prompt := b @ CHR 0x00 # c\<rparr>"
    and "rq_purpose r \<noteq> []" "0 < rq_max_tokens r" "\<not> float_negative (rq_temperature r)"
  shows "q \<noteq> q' \<and> fst (stub_complete (digest H sh) None q' (stub_script (digest H sh) q answer new_stub)) =
    Inr (stub_response q' answer)"
proof -
  have "rq_system q \<noteq> rq_system q'" using assms(1,2) by simp
  moreover have "digest H sh q = digest H sh q'" using assms(1,2) by (simp add: digest_def digest_text_def)
  ultimately show ?thesis using assms(3-5)
    by (auto simp: assms(2) stub_complete_def model_validate_def stub_script_def new_stub_def Let_def)
qed

end
