(* ===== verification/Decoders.thy ===== *)
theory Decoders
  imports Contained_Run Crs_Output Mutation_Test
begin

text \<open>
  The decoders of the development read JSON with a parser that is given fuel (twice the length
  of the text and one more).  Here: the fuel is never what stops any of them, so each is a
  total function whose errors are those of the text.
\<close>

lemma parse_value_fuel: "parse_value (2 * length b + 1) max_nesting (skip_ws b) \<noteq> Inl JNoFuel"
proof -
  have "consumes (length (skip_ws b)) (parse_value (2 * length b + 1) max_nesting (skip_ws b))"
    using skip_ws_le [of b] by (intro parse_consumes) simp
  then show ?thesis by (auto simp: consumes_def)
qed

lemma store_members_fuel: "store_members strict fs ms x ok \<noteq> Inl JNoFuel"
  by (induction ms arbitrary: x ok) (auto split: option.splits)

lemma store_value_fuel: "store_value strict fs zero v \<noteq> Inl JNoFuel"
  by (simp add: store_value_def store_members_fuel split: json.split)

lemma try_bind_fuel: "m \<noteq> Inl JNoFuel \<Longrightarrow> (\<And>x. f x \<noteq> Inl JNoFuel) \<Longrightarrow> try_bind m f \<noteq> Inl JNoFuel"
  by (cases m) (auto simp: try_bind_def)

lemma unmarshal_fuel: "unmarshal_struct fs zero s \<noteq> Inl JNoFuel"
  unfolding unmarshal_struct_def by (rule try_bind_fuel [OF parse_json_enough_fuel store_value_fuel])

text \<open>
  The fuel is enough on every text: a bundle manifest, a decision, an entry of the audit log, a
  line of the probe, a bundle of the CRS and a catalogue of mutations are decoded, or refused
  for their syntax, their nesting or a type, and never because the recursion was cut off.
\<close>

lemma decoders_terminate:
  "decode_manifest b \<noteq> Inl JNoFuel \<and> decode_decision b \<noteq> Inl JNoFuel \<and> parse_entry b \<noteq> Inl JNoFuel \<and>
   parse_probe b \<noteq> Inl JNoFuel \<and> parse_bundle b \<noteq> Inl JNoFuel \<and> decode_catalogue b \<noteq> Inl JNoFuel"
proof (intro conjI)
  show "decode_manifest b \<noteq> Inl JNoFuel"
    unfolding decode_manifest_def
    by (rule try_bind_fuel [OF parse_value_fuel], unfold split_beta, rule try_bind_fuel [OF store_value_fuel]) simp
  show "decode_decision b \<noteq> Inl JNoFuel"
    unfolding decode_decision_def
    by (rule try_bind_fuel [OF parse_value_fuel]) (auto simp: store_value_fuel split: prod.splits)
  show "decode_catalogue b \<noteq> Inl JNoFuel"
    unfolding decode_catalogue_def
    by (rule try_bind_fuel [OF parse_json_enough_fuel]) (auto split: option.splits)
qed (simp_all add: parse_entry_def parse_probe_def parse_bundle_def unmarshal_fuel)

end
