(* ===== verification/Spec2Isabelle.thy ===== *)
theory Spec2Isabelle
  imports Revert_Stage Class_Replay Oss_Fuzz Eval_Score Audit_Log Signer Fido Bundle_Sign Dossier
    Challenge Contained_Run Host_Capabilities Seal_Tool Crs_Output Gate_Cmd Drive
    Mutation_Test Demo Log_Verify Corpus_Cmd Dossier_Cmd Model_Stub Decoders
begin

text \<open>
  Arazu decides whether a candidate patch may be accepted, and leaves a record of the decision
  that can be checked without trusting the program that made it.  This development models its
  Go packages (\<open>pkg/\<close>), its commands (\<open>cmd/\<close>) and the kernel program \<open>bpf/egress_deny.bpf.c\<close>,
  and proves what makes each of them correct.

  \<^bold>\<open>The program.\<close>  A signed bundle enters through the ingress gate (\<open>cmd/ingress-verify\<close>), which
  checks the manifest, the content, two approvals and the version, and logs.  A workload over it
  runs in a network namespace with denial in the kernel (\<open>cmd/contained-run\<close>).  What an
  external system produced is captured as a case (\<open>pkg/crsout\<close>) and \<open>cmd/drive\<close> hands it to
  \<open>cmd/gate\<close>, which loads the case, resolves the target and runs one stage: M0 the patch
  changes lines, M1 the crash is gone with the patch and back without it, M2 the patched program
  agrees with the reference over a class of inputs, M3 the patched program reports no finding
  at a site other than the declared one.  The decision
  goes into a dossier and into a hash-chained log; \<open>cmd/seal-tool\<close> signs it with a seed that a
  TPM releases only for the measured content.  \<open>cmd/dossier\<close> and \<open>cmd/log-verify\<close> check the
  record afterwards, \<open>pkg/eval\<close> scores a set of decisions.

  \<^bold>\<open>The shared library.\<close>
  \<^item> \<open>Arazu_Base\<close>: results (a sum of error and value), actions (functions of a world that
    return a result and the next world; \<open>act_bind\<close> is Go's early return), byte strings, the
    collections \<open>result_simps\<close> and \<open>go_eval\<close>.
  \<^item> \<open>Go_Text\<close>, \<open>Go_Path\<close>, \<open>Go_Regex\<close>, \<open>Go_Encoding\<close>, \<open>Go_Base64\<close>, \<open>Go_Json\<close>,
    \<open>Go_Json_Indent\<close>, \<open>Os_Exec\<close>: the parts of the Go standard library the source uses: UTF-8 and
    quoting, \<open>path/filepath\<close>, \<open>regexp\<close>, hexadecimal and Base64, \<open>encoding/json\<close> with its repair
    of invalid UTF-8, its case folding of names and its nesting bound, and commands.
  \<^item> \<open>Samples\<close>: values the examples share.

  \<^bold>\<open>The stages.\<close>
  \<^item> \<open>Corpus\<close>, \<open>Corpus_Site\<close> (\<open>pkg/corpus\<close>): cases, \<open>Validate\<close>, \<open>Load\<close>, crash sites, the stage
    responsible for a label.  \<open>Corpus_Cmd\<close> is \<open>cmd/corpus\<close>.
  \<^item> \<open>Gate\<close>, \<open>Gate_Stages\<close> (\<open>pkg/gate\<close>, \<open>pkg/sanitizer\<close>): decisions, \<open>Validate\<close>, \<open>Verify\<close>
    over a list of stages, M0 and M3.  \<open>decision_wf\<close> is the specification \<open>Validate\<close> is proved
    equivalent to.
  \<^item> \<open>Revert_Stage\<close>, \<open>Challenge\<close> (\<open>pkg/revert\<close>): M1 over a record of operations, and the
    operations of a real checkout; \<open>challenge_pass_is_observed\<close> joins them.
  \<^item> \<open>Class_Replay\<close>, \<open>Oss_Fuzz\<close> (\<open>pkg/classreplay\<close>): M2 and its target.
  \<^item> \<open>Eval_Score\<close> (\<open>pkg/eval\<close>): the matrix of each stage as counts over all results.
  \<^item> \<open>Gate_Cmd\<close> (\<open>cmd/gate\<close>): the command, from flags to exit code; its theorems say that a
    decided exit is a recorded decision and what an M1 ACCEPT stands on, down to the files.
  \<^item> \<open>Crs_Output\<close> (\<open>pkg/crsout\<close>) and \<open>Drive\<close> (\<open>cmd/drive\<close>): capture, and the chain from a run
    of the external system to a signed decision; the gate it starts can be \<open>gate_main\<close>.
  \<^item> \<open>Model_Stub\<close> (\<open>pkg/model\<close>): requests, the scripted backend, its transcript.
  \<^item> \<open>Mutation_Test\<close> (\<open>cmd/mutation-test\<close>): the harness that breaks each check in turn.
  \<^item> \<open>Demo\<close> (\<open>cmd/demo\<close>): the branches of the demonstration and their predictions.

  \<^bold>\<open>The record and the envelope.\<close>
  \<^item> \<open>Audit_Log\<close>, \<open>Log_Verify\<close> (\<open>pkg/auditlog\<close>, \<open>cmd/log-verify\<close>): entries, the chain of
    hashes, \<open>Open\<close>, \<open>Append\<close> with partial writes.  \<open>log_life\<close> is the reachable states of a log
    by rule induction.
  \<^item> \<open>Manifest\<close>, \<open>Manifest_Sign\<close> (\<open>pkg/manifest\<close>): the canonical form and its strict parser,
    signatures.
  \<^item> \<open>Signer\<close> with \<open>Two_Person\<close> (\<open>pkg/signer\<close>) and \<open>Fido\<close> (\<open>pkg/fido\<close>): approvals.  \<open>Two_Person\<close>
    states the rule of distinct persons as a locale that both interpret.
  \<^item> \<open>Content_Store\<close> (\<open>pkg/contentstore\<close>): the walk over a file tree, measurement, the check
    against a manifest.
  \<^item> \<open>Ingress\<close>, \<open>Bundle_Sign\<close> (\<open>cmd/ingress-verify\<close>, \<open>cmd/bundle-sign\<close>, \<open>cmd/keygen\<close>): the gate
    at the door with its version files; a freshly signed bundle is accepted.
  \<^item> \<open>Dossier\<close>, \<open>Dossier_Cmd\<close> (\<open>pkg/dossier\<close>, \<open>cmd/dossier\<close>): \<open>Emit\<close> with the outcome of each system call a
    parameter, \<open>Verify\<close>; what was emitted verifies.
  \<^item> \<open>Egress_Hooks\<close> (\<open>bpf/\<close>), \<open>Egress\<close> (\<open>pkg/egress\<close>), \<open>Contained_Run\<close>
    (\<open>cmd/contained-run\<close>): the two kernel hooks on 64-bit counters, what they decide and where
    that differs from the policy of their comments, their attachment, the namespaces, the run
    with its probes; a successful contained run implies that the hooks it attached refused a
    call of its own namespace while it ran.
  \<^item> \<open>Host_Capabilities\<close> (\<open>pkg/hostcap\<close>, \<open>cmd/arazu-env\<close>): the matrix of host checks.
  \<^item> \<open>Tpm_Seal\<close>, \<open>Seal_Tool\<close> (\<open>pkg/tpmseal\<close>, \<open>cmd/seal-tool\<close>): the sequences of TPM commands
    under the lock, and the signing tool over them.
  \<^item> \<open>Decoders\<close>: the fuel of the JSON parser is enough for every decoder of the development.

  \<^bold>\<open>How state and operations correspond to the code.\<close>  A struct is a record with one field per
  field (a prefix tells the record), a Go string is a list of bytes, \<open>nil\<close> and the empty slice are
  one value except where JSON shows the difference.  Unsigned and signed machine integers are words or
  integers with the range written out where a value can leave it (sequence numbers, counters,
  manifest versions and sizes).  A function that fails returns a sum, with a constructor per
  error that the code distinguishes; a function with effects is an action on a world, or a state
  record where two components share it (\<open>gate_state\<close>, \<open>run_state\<close>).  \<open>os.Exit\<close> is the returned
  exit code.

  \<^bold>\<open>Parameters.\<close>  SHA-256, Ed25519 and the other signature schemes, the order of \<open>sort.Slice\<close> on
  equal elements, the YAML decoder, the clock, the file system, the programs that are started
  (\<open>git\<close>, \<open>docker\<close>, \<open>ssh-keygen\<close>, \<open>tpm2\<close>, \<open>ip\<close>, \<open>go\<close>, \<open>make\<close>, \<open>cp\<close>), the eBPF library, the map
  iteration order and the texts of system errors are arguments of the definitions.  Theorems that
  rely on them name the documented behaviour as a hypothesis (a signature that verifies was made
  with the key, a released object needs the register value of its policy) and have a witness
  where it holds; theorems about equal hashes end in a collision instead of assuming there is
  none.

  \<^bold>\<open>Bounds and fuel.\<close>  The JSON parser takes fuel, twice the length of its text and one more;
  \<open>decoders_terminate\<close> shows that it is always enough.  Nesting is bounded by 10000 and a
  line of the log by 4 MiB, as in the code.  All other recursion is structural or has a measure.

  \<^bold>\<open>Not modelled.\<close>  Header, table and footer of \<open>cmd/demo\<close>; what the commands print to standard
  error and their usage texts,
  \<open>flag\<close> parsing but for \<open>cmd/dossier\<close>, \<open>context\<close> cancellation, file locks other than the TPM lock, and the timeouts
  of commands (a command that is killed ends with an error of the operation).  The vendored
  packages and the shell and Python scripts are outside the development.
\<close>

end
